(* ===== verification/Prelude.thy ===== *)
theory Prelude
  imports Main "HOL-Library.AList"
begin

text \<open>
  What every theory of the development shares: the result type of code that may raise,
  the Python \<^verbatim>\<open>dict\<close> as an insertion-ordered association list, and the operations of
  \<^verbatim>\<open>str\<close> the node agent uses. A \<^verbatim>\<open>str\<close> is a list of code points below 256 (what an HTTP
  header decoded as Latin-1 can carry), one \<open>char\<close> each; larger code points are outside
  the model. The limit of 4300 digits that the interpreter puts on conversions
  between \<open>int\<close> and \<open>str\<close> is not modelled.
\<close>

named_theorems py_simps \<open>unfolding rules of the small Python operations\<close>

section \<open>Results of code that may raise\<close>

abbreviation Raise :: "'e \<Rightarrow> 'e + 'a" where
  "Raise \<equiv> Inl"

abbreviation Return :: "'a \<Rightarrow> 'e + 'a" where
  "Return \<equiv> Inr"

definition bindR :: "'e + 'a \<Rightarrow> ('a \<Rightarrow> 'e + 'b) \<Rightarrow> 'e + 'b" where
  "bindR m f = (case m of Inl e \<Rightarrow> Inl e | Inr a \<Rightarrow> f a)"

lemma bindR_simps [simp]:
  "bindR (Inl e) f = Inl e"
  "bindR (Inr a) f = f a"
  by (simp_all add: bindR_def)

lemma bindR_Inr_conv: "bindR m f = Inr b \<longleftrightarrow> (\<exists>a. m = Inr a \<and> f a = Inr b)"
  by (cases m) simp_all

lemma bindR_Inl_conv:
  "bindR m f = Inl e \<longleftrightarrow> m = Inl e \<or> (\<exists>a. m = Inr a \<and> f a = Inl e)"
  by (cases m) simp_all

lemma bindR_assoc: "bindR (bindR m f) g = bindR m (\<lambda>x. bindR (f x) g)"
  by (cases m) simp_all

fun is_ok :: "'e + 'a \<Rightarrow> bool" where
  "is_ok (Inr _) = True"
| "is_ok (Inl _) = False"

section \<open>Dictionaries\<close>

type_synonym ('k, 'v) dict = "('k \<times> 'v) list"

abbreviation dget :: "('k, 'v) dict \<Rightarrow> 'k \<Rightarrow> 'v option" where
  "dget \<equiv> map_of"

abbreviation dput :: "'k \<Rightarrow> 'v \<Rightarrow> ('k, 'v) dict \<Rightarrow> ('k, 'v) dict" where
  "dput \<equiv> AList.update"

abbreviation dpop :: "'k \<Rightarrow> ('k, 'v) dict \<Rightarrow> ('k, 'v) dict" where
  "dpop \<equiv> AList.delete"

abbreviation dkeys :: "('k, 'v) dict \<Rightarrow> 'k list" where
  "dkeys d \<equiv> map fst d"

definition dict_ok :: "('k, 'v) dict \<Rightarrow> bool" where
  "dict_ok d \<longleftrightarrow> distinct (dkeys d)"

text \<open>\<^verbatim>\<open>{**d, **e}\<close> and \<^verbatim>\<open>d.update(e)\<close>.\<close>

fun dmerge :: "('k, 'v) dict \<Rightarrow> ('k, 'v) dict \<Rightarrow> ('k, 'v) dict" where
  "dmerge d [] = d"
| "dmerge d ((k, v) # e) = dmerge (dput k v d) e"

lemma dget_dput [simp]: "dget (dput k v d) = (dget d)(k \<mapsto> v)"
  by (rule update_conv')

lemma dget_dpop [simp]: "dget (dpop k d) = (dget d)(k := None)"
  by (rule delete_conv')

lemma dput_fresh: "k \<notin> fst ` set d \<Longrightarrow> dput k v d = d @ [(k, v)]"
  by (induction d) auto

lemma dict_ok_Nil [simp]: "dict_ok []"
  by (simp add: dict_ok_def)

lemma dict_ok_dput [simp]: "dict_ok d \<Longrightarrow> dict_ok (dput k v d)"
  by (simp add: dict_ok_def distinct_update)

lemma dict_ok_dpop [simp]: "dict_ok d \<Longrightarrow> dict_ok (dpop k d)"
  by (simp add: dict_ok_def distinct_delete)

lemma dict_ok_filter [simp]: "dict_ok d \<Longrightarrow> dict_ok (filter P d)"
  by (simp add: dict_ok_def distinct_map_filter)

lemma dict_ok_map_snd [simp]:
  "dict_ok (map (\<lambda>(k, v). (k, f k v)) d) \<longleftrightarrow> dict_ok d"
  by (simp add: dict_ok_def comp_def case_prod_beta)

lemma dget_map_snd:
  "dget (map (\<lambda>(k, v). (k, f k v)) d) k = map_option (f k) (dget d k)"
  by (induction d) auto

lemma dget_filter:
  "dict_ok d \<Longrightarrow>
   dget (filter P d) k = (case dget d k of None \<Rightarrow> None | Some v \<Rightarrow> if P (k, v) then Some v else None)"
proof (induction d)
  case Nil
  then show ?case by simp
next
  case (Cons x d)
  obtain a b where x: "x = (a, b)" by (cases x)
  from Cons.prems x have "dict_ok d" and a: "a \<notin> fst ` set d"
    by (auto simp: dict_ok_def)
  with Cons.IH have IH:
    "dget (filter P d) k = (case dget d k of None \<Rightarrow> None | Some v \<Rightarrow> if P (k, v) then Some v else None)"
    by simp
  from a have "dget d a = None" by (simp add: map_of_eq_None_iff)
  then show ?case using IH x by auto
qed

lemma dget_dmerge:
  "dget (dmerge d e) k = (case dget (rev e) k of None \<Rightarrow> dget d k | Some v \<Rightarrow> Some v)"
proof (induction d e rule: dmerge.induct)
  case (1 d)
  then show ?case by simp
next
  case (2 d a v e)
  then show ?case by (auto simp: map_add_def split: option.splits)
qed

lemma dict_ok_dmerge: "dict_ok d \<Longrightarrow> dict_ok (dmerge d e)"
  by (induction d e rule: dmerge.induct) auto

lemma dget_in_set: "dget d k = Some v \<Longrightarrow> (k, v) \<in> set d"
  by (rule map_of_SomeD)

lemma dget_iff_in_set: "dict_ok d \<Longrightarrow> dget d k = Some v \<longleftrightarrow> (k, v) \<in> set d"
  by (simp add: dict_ok_def)

lemma dget_None_iff: "dget d k = None \<longleftrightarrow> k \<notin> set (dkeys d)"
  by (simp add: map_of_eq_None_iff)

lemma set_dkeys: "set (dkeys d) = dom (dget d)"
  by (simp add: dom_map_of_conv_image_fst)

lemma set_dkeys_dput: "set (dkeys (dput k v d)) = insert k (set (dkeys d))"
  by (simp only: set_dkeys dget_dput dom_fun_upd) simp

lemma set_dkeys_dpop: "set (dkeys (dpop k d)) = set (dkeys d) - {k}"
  by (simp only: set_dkeys dget_dpop dom_fun_upd) simp

section \<open>Characters and strings\<close>

abbreviation code :: "char \<Rightarrow> nat" where
  "code c \<equiv> of_char c"

abbreviation chr :: "nat \<Rightarrow> char" where
  "chr n \<equiv> char_of n"

lemma code_less [simp]: "code c < 256"
  by (metis char_of_char nat_of_char_less_256)

lemma code_chr: "n < 256 \<Longrightarrow> code (chr n) = n"
  by simp

definition is_upper_ascii :: "char \<Rightarrow> bool" where
  "is_upper_ascii c \<longleftrightarrow> 65 \<le> code c \<and> code c \<le> 90"

definition is_lower_ascii :: "char \<Rightarrow> bool" where
  "is_lower_ascii c \<longleftrightarrow> 97 \<le> code c \<and> code c \<le> 122"

definition is_digit :: "char \<Rightarrow> bool" where
  "is_digit c \<longleftrightarrow> 48 \<le> code c \<and> code c \<le> 57"

definition is_ascii :: "char \<Rightarrow> bool" where
  "is_ascii c \<longleftrightarrow> code c < 128"

text \<open>
  \<^verbatim>\<open>str.lower\<close> on Latin-1: the letters A-Z and the block from U+00C0 to U+00DE but the
  multiplication sign.
\<close>

definition lower_char :: "char \<Rightarrow> char" where
  "lower_char c =
     (if is_upper_ascii c \<or> (192 \<le> code c \<and> code c \<le> 222 \<and> code c \<noteq> 215)
      then chr (code c + 32) else c)"

definition py_lower :: "string \<Rightarrow> string" where
  "py_lower s = map lower_char s"

text \<open>\<^verbatim>\<open>str.upper\<close>, on the ASCII letters only (HTTP methods).\<close>

definition upper_char :: "char \<Rightarrow> char" where
  "upper_char c = (if is_lower_ascii c then chr (code c - 32) else c)"

definition py_upper :: "string \<Rightarrow> string" where
  "py_upper s = map upper_char s"

text \<open>\<^verbatim>\<open>str.isalnum\<close> on Latin-1: the superscripts, fractions and accented letters count.\<close>

definition alnum_char :: "char \<Rightarrow> bool" where
  "alnum_char c \<longleftrightarrow>
     is_upper_ascii c \<or> is_lower_ascii c \<or> is_digit c \<or>
     code c \<in> {170, 178, 179, 181, 185, 186, 188, 189, 190} \<or>
     (192 \<le> code c \<and> code c \<noteq> 215 \<and> code c \<noteq> 247)"

definition py_isalnum :: "string \<Rightarrow> bool" where
  "py_isalnum s \<longleftrightarrow> s \<noteq> [] \<and> list_all alnum_char s"

text \<open>White space as \<^verbatim>\<open>str.strip\<close> and \<^verbatim>\<open>int\<close> see it.\<close>

definition space_char :: "char \<Rightarrow> bool" where
  "space_char c \<longleftrightarrow> code c \<in> {9, 10, 11, 12, 13, 28, 29, 30, 31, 32, 133, 160}"

definition py_strip :: "string \<Rightarrow> string" where
  "py_strip s = rev (dropWhile space_char (rev (dropWhile space_char s)))"

fun starts_with :: "string \<Rightarrow> string \<Rightarrow> bool" where
  "starts_with s [] = True"
| "starts_with [] (p # ps) = False"
| "starts_with (c # cs) (p # ps) = (c = p \<and> starts_with cs ps)"

definition ends_with :: "string \<Rightarrow> string \<Rightarrow> bool" where
  "ends_with s p = starts_with (rev s) (rev p)"

text \<open>\<^verbatim>\<open>p in s\<close> for strings.\<close>

fun contains :: "string \<Rightarrow> string \<Rightarrow> bool" where
  "contains [] p = (p = [])"
| "contains (c # cs) p = (starts_with (c # cs) p \<or> contains cs p)"

fun py_join :: "string \<Rightarrow> string list \<Rightarrow> string" where
  "py_join sep [] = []"
| "py_join sep [x] = x"
| "py_join sep (x # y # xs) = x @ sep @ py_join sep (y # xs)"

text \<open>\<^verbatim>\<open>s.split(c)\<close> for a one-character separator.\<close>

fun py_split :: "char \<Rightarrow> string \<Rightarrow> string list" where
  "py_split c [] = [[]]"
| "py_split c (x # xs) =
     (if x = c then [] # py_split c xs
      else (case py_split c xs of [] \<Rightarrow> [[x]] | w # ws \<Rightarrow> (x # w) # ws))"

lemma starts_with_iff: "starts_with s p \<longleftrightarrow> (\<exists>t. s = p @ t)"
  by (induction s p rule: starts_with.induct) auto

lemma starts_with_append [simp]: "starts_with (p @ s) p"
  by (auto simp: starts_with_iff)

lemma ends_with_iff: "ends_with s p \<longleftrightarrow> (\<exists>t. s = t @ p)"
  unfolding ends_with_def starts_with_iff
  by (metis rev_append rev_rev_ident)

lemma py_split_no_sep: "c \<notin> set x \<Longrightarrow> py_split c x = [x]"
  by (induction x) auto

lemma py_split_append_sep: "c \<notin> set x \<Longrightarrow> py_split c (x @ c # xs) = x # py_split c xs"
  by (induction x) auto

lemma py_split_not_Nil [simp]: "py_split c s \<noteq> []"
  by (cases s) (auto split: list.splits)

text \<open>Joining words that do not hold the separator can be undone.\<close>

lemma py_split_join:
  "xs \<noteq> [] \<Longrightarrow> \<forall>x \<in> set xs. c \<notin> set x \<Longrightarrow> py_split c (py_join [c] xs) = xs"
  by (induction "[c]" xs rule: py_join.induct) (auto simp: py_split_no_sep py_split_append_sep)

lemma py_join_inject:
  assumes "py_join [c] xs = py_join [c] ys" "length xs = length ys"
    and "\<forall>x \<in> set xs. c \<notin> set x" "\<forall>y \<in> set ys. c \<notin> set y"
  shows "xs = ys"
proof (cases "xs = []")
  case True
  with assms(2) show ?thesis by simp
next
  case False
  with assms(2) have "ys \<noteq> []" by auto
  with False assms show ?thesis by (metis py_split_join)
qed

section \<open>Decimal numbers\<close>

definition digit_char :: "nat \<Rightarrow> char" where
  "digit_char d = chr (48 + d)"

definition digit_val :: "char \<Rightarrow> nat" where
  "digit_val c = code c - 48"

fun str_of_nat :: "nat \<Rightarrow> string" where
  "str_of_nat n = (if n < 10 then [digit_char n] else str_of_nat (n div 10) @ [digit_char (n mod 10)])"

declare str_of_nat.simps [simp del]

definition str_of_int :: "int \<Rightarrow> string" where
  "str_of_int i = (if i < 0 then CHR ''-'' # str_of_nat (nat (- i)) else str_of_nat (nat i))"

definition nat_of_digits :: "string \<Rightarrow> nat" where
  "nat_of_digits ds = foldl (\<lambda>a c. 10 * a + digit_val c) 0 ds"

lemma is_digit_digit_char: "d < 10 \<Longrightarrow> is_digit (digit_char d)"
  by (simp add: is_digit_def digit_char_def)

lemma digit_val_digit_char: "d < 10 \<Longrightarrow> digit_val (digit_char d) = d"
  by (simp add: digit_val_def digit_char_def)

lemma str_of_nat_digits: "list_all is_digit (str_of_nat n)"
  by (induction n rule: str_of_nat.induct)
    (subst str_of_nat.simps, simp add: is_digit_digit_char)

lemma str_of_nat_not_Nil [simp]: "str_of_nat n \<noteq> []"
  by (subst str_of_nat.simps) simp

lemma nat_of_digits_snoc: "nat_of_digits (ds @ [c]) = 10 * nat_of_digits ds + digit_val c"
  by (simp add: nat_of_digits_def)

lemma nat_of_digits_str: "nat_of_digits (str_of_nat n) = n"
proof (induction n rule: str_of_nat.induct)
  case (1 n)
  show ?case
  proof (cases "n < 10")
    case True
    then show ?thesis
      by (subst str_of_nat.simps) (simp add: nat_of_digits_def digit_val_digit_char)
  next
    case False
    with 1 show ?thesis
      by (subst str_of_nat.simps) (simp add: nat_of_digits_snoc digit_val_digit_char)
  qed
qed

lemma str_of_nat_inject: "str_of_nat m = str_of_nat n \<longleftrightarrow> m = n"
  by (metis nat_of_digits_str)

lemma str_of_nat_leading_zero: "str_of_nat n = CHR ''0'' # ds \<Longrightarrow> ds = []"
proof (induction n arbitrary: ds rule: str_of_nat.induct)
  case (1 n)
  show ?case
  proof (cases "n < 10")
    case True
    with "1.prems" show ?thesis by (simp add: str_of_nat.simps [of n])
  next
    case False
    with "1.prems" obtain es where es: "str_of_nat (n div 10) = CHR ''0'' # es"
      by (cases "str_of_nat (n div 10)") (auto simp: str_of_nat.simps [of n])
    with "1.IH" False have "es = []" by simp
    with es have "nat_of_digits (str_of_nat (n div 10)) = 0"
      by (simp add: nat_of_digits_def digit_val_def)
    then have "n div 10 = 0" by (simp add: nat_of_digits_str)
    with False show ?thesis by simp
  qed
qed

text \<open>
  \<^verbatim>\<open>int(s)\<close> for a string: surrounding white space, a sign, digits with single
  underscores between them; anything else raises \<^verbatim>\<open>ValueError\<close> (here \<open>None\<close>).
\<close>

fun int_digits :: "string \<Rightarrow> string option" where
  "int_digits [] = None"
| "int_digits [c] = (if is_digit c then Some [c] else None)"
| "int_digits (c # d # cs) =
     (if is_digit c
      then (if d = CHR ''_'' then map_option ((#) c) (int_digits cs)
            else map_option ((#) c) (int_digits (d # cs)))
      else None)"

definition py_int_of_str :: "string \<Rightarrow> int option" where
  "py_int_of_str s =
     (case py_strip s of
        [] \<Rightarrow> None
      | c # cs \<Rightarrow>
          (if c = CHR ''-'' then map_option (\<lambda>ds. - int (nat_of_digits ds)) (int_digits cs)
           else if c = CHR ''+'' then map_option (\<lambda>ds. int (nat_of_digits ds)) (int_digits cs)
           else map_option (\<lambda>ds. int (nat_of_digits ds)) (int_digits (c # cs))))"

lemma int_digits_all: "ds \<noteq> [] \<Longrightarrow> list_all is_digit ds \<Longrightarrow> int_digits ds = Some ds"
proof (induction ds rule: int_digits.induct)
  case (3 c d cs)
  have "\<not> is_digit CHR ''_''" by (simp add: is_digit_def)
  with 3 show ?case by auto
qed auto

lemma digit_not_space: "is_digit c \<Longrightarrow> \<not> space_char c"
  by (auto simp: is_digit_def space_char_def)

lemma dropWhile_hd_False: "xs = [] \<or> \<not> P (hd xs) \<Longrightarrow> dropWhile P xs = xs"
  by (cases xs) auto

lemma py_strip_no_space: "list_all (\<lambda>c. \<not> space_char c) s \<Longrightarrow> py_strip s = s"
proof -
  assume a: "list_all (\<lambda>c. \<not> space_char c) s"
  then have "dropWhile space_char s = s"
    by (cases s) auto
  moreover from a have "dropWhile space_char (rev s) = rev s"
    by (intro dropWhile_hd_False) (cases s rule: rev_cases, auto)
  ultimately show ?thesis by (simp add: py_strip_def)
qed

lemma py_int_str_of_nat: "py_int_of_str (str_of_nat n) = Some (int n)"
proof -
  have dig: "list_all is_digit (str_of_nat n)" by (rule str_of_nat_digits)
  then have strip: "py_strip (str_of_nat n) = str_of_nat n"
    by (intro py_strip_no_space) (auto simp: list_all_iff digit_not_space)
  obtain c cs where s: "str_of_nat n = c # cs"
    by (cases "str_of_nat n") auto
  with dig have "is_digit c" by simp
  then have "c \<noteq> CHR ''-''" "c \<noteq> CHR ''+''"
    by (auto simp: is_digit_def)
  moreover have "int_digits (c # cs) = Some (c # cs)"
    using dig s by (intro int_digits_all) auto
  ultimately show ?thesis
    using strip s nat_of_digits_str [of n] by (simp add: py_int_of_str_def)
qed

text \<open>\<^verbatim>\<open>int(str(i)) == i\<close>.\<close>

lemma py_int_str_of_int: "py_int_of_str (str_of_int i) = Some i"
proof (cases "i < 0")
  case False
  then show ?thesis by (simp add: str_of_int_def py_int_str_of_nat)
next
  case True
  let ?s = "str_of_nat (nat (- i))"
  have dig: "list_all is_digit ?s" by (rule str_of_nat_digits)
  have "\<not> space_char CHR ''-''" by (simp add: space_char_def)
  with dig have "py_strip (CHR ''-'' # ?s) = CHR ''-'' # ?s"
    by (intro py_strip_no_space) (auto simp: list_all_iff digit_not_space)
  moreover have "int_digits ?s = Some ?s"
    using dig by (intro int_digits_all) auto
  ultimately show ?thesis
    using True by (simp add: str_of_int_def py_int_of_str_def nat_of_digits_str)
qed

end
