(* ===== verification/Json.thy ===== *)
theory Json
  imports Prelude "HOL-Library.Char_ord" "HOL-Library.List_Lexorder"
begin

text \<open>
  JSON values as Python sees them after \<^verbatim>\<open>json.loads\<close>, and the two renderings the agent
  relies on: \<^verbatim>\<open>json.dumps\<close>/\<^verbatim>\<open>json.loads\<close> (every state file and every sealed blob goes through
  them) and \<^verbatim>\<open>str(value)\<close>. Floating-point numbers are outside the model: a text that
  holds a fraction or an exponent does not parse. The round trip \<open>json_loads_dumps\<close> is the law the
  stores rest on.
\<close>

datatype json =
    JNull
  | JBool bool
  | JInt int
  | JStr string
  | JList "json list"
  | JObj "(string \<times> json) list"

type_synonym jobj = "(string, json) dict"

fun truthy :: "json \<Rightarrow> bool" where
  "truthy JNull = False"
| "truthy (JBool b) = b"
| "truthy (JInt i) = (i \<noteq> 0)"
| "truthy (JStr s) = (s \<noteq> [])"
| "truthy (JList xs) = (xs \<noteq> [])"
| "truthy (JObj d) = (d \<noteq> [])"

text \<open>\<^verbatim>\<open>d.get(k)\<close> and \<^verbatim>\<open>d.get(k, default)\<close>.\<close>

definition jget :: "jobj \<Rightarrow> string \<Rightarrow> json" where
  "jget d k = (case dget d k of None \<Rightarrow> JNull | Some v \<Rightarrow> v)"

definition jget_default :: "jobj \<Rightarrow> string \<Rightarrow> json \<Rightarrow> json" where
  "jget_default d k v0 = (case dget d k of None \<Rightarrow> v0 | Some v \<Rightarrow> v)"

text \<open>\<^verbatim>\<open>a or b\<close>.\<close>

definition jor :: "json \<Rightarrow> json \<Rightarrow> json" where
  "jor a b = (if truthy a then a else b)"

text \<open>Objects have distinct keys, at every depth: what \<^verbatim>\<open>json.loads\<close> returns.\<close>

fun json_ok :: "json \<Rightarrow> bool" where
  "json_ok (JList xs) = (\<forall>x \<in> set xs. json_ok x)"
| "json_ok (JObj d) = (distinct (map fst d) \<and> (\<forall>kv \<in> set d. json_ok (snd kv)))"
| "json_ok _ = True"

section \<open>Text of a value\<close>

definition hex_digit :: "nat \<Rightarrow> char" where
  "hex_digit n = (if n < 10 then chr (48 + n) else chr (87 + n))"

definition hex_val :: "char \<Rightarrow> nat option" where
  "hex_val c =
     (let n = code c in
      if 48 \<le> n \<and> n \<le> 57 then Some (n - 48)
      else if 97 \<le> n \<and> n \<le> 102 then Some (n - 87)
      else if 65 \<le> n \<and> n \<le> 70 then Some (n - 55)
      else None)"

lemma hex_val_digit: "n < 16 \<Longrightarrow> hex_val (hex_digit n) = Some n"
  by (auto simp: hex_val_def hex_digit_def Let_def)

text \<open>
  The escapes of \<^verbatim>\<open>json.encoder\<close>; with \<open>ascii\<close> (\<^verbatim>\<open>ensure_ascii=True\<close>, the default) every
  character outside the printable ASCII range is escaped too.
\<close>

definition jesc :: "bool \<Rightarrow> char \<Rightarrow> string" where
  "jesc ascii c =
     (if c = CHR 0x22 then [CHR 0x5C, CHR 0x22]
      else if c = CHR 0x5C then [CHR 0x5C, CHR 0x5C]
      else if code c = 10 then [CHR 0x5C, CHR ''n'']
      else if code c = 13 then [CHR 0x5C, CHR ''r'']
      else if code c = 9 then [CHR 0x5C, CHR ''t'']
      else if code c = 12 then [CHR 0x5C, CHR ''f'']
      else if code c = 8 then [CHR 0x5C, CHR ''b'']
      else if code c < 32 \<or> (ascii \<and> 126 < code c)
        then [CHR 0x5C, CHR ''u'', CHR ''0'', CHR ''0'',
              hex_digit (code c div 16), hex_digit (code c mod 16)]
      else [c])"

definition jquote :: "bool \<Rightarrow> string \<Rightarrow> string" where
  "jquote ascii s = CHR 0x22 # concat (map (jesc ascii) s) @ [CHR 0x22]"

record json_style =
  ensure_ascii :: bool
  item_sep :: string
  key_sep :: string

text \<open>\<^verbatim>\<open>json.dumps(v)\<close>, and \<^verbatim>\<open>json.dumps(v, ensure_ascii=False, separators=(",", ":"))\<close>.\<close>

definition default_style :: json_style where
  "default_style = \<lparr>ensure_ascii = True, item_sep = '', '', key_sep = '': ''\<rparr>"

definition compact_style :: json_style where
  "compact_style = \<lparr>ensure_ascii = False, item_sep = '','', key_sep = '':''\<rparr>"

fun json_print :: "json_style \<Rightarrow> json \<Rightarrow> string" where
  "json_print S JNull = ''null''"
| "json_print S (JBool b) = (if b then ''true'' else ''false'')"
| "json_print S (JInt i) = str_of_int i"
| "json_print S (JStr s) = jquote (ensure_ascii S) s"
| "json_print S (JList xs) = ''['' @ py_join (item_sep S) (map (json_print S) xs) @ '']''"
| "json_print S (JObj d) =
     ''{'' @ py_join (item_sep S)
        (map (\<lambda>kv. jquote (ensure_ascii S) (fst kv) @ key_sep S @ json_print S (snd kv)) d) @ ''}''"

section \<open>Parsing\<close>

definition jws :: "char \<Rightarrow> bool" where
  "jws c \<longleftrightarrow> code c \<in> {32, 9, 10, 13}"

abbreviation skip_ws :: "string \<Rightarrow> string" where
  "skip_ws \<equiv> dropWhile jws"

definition jhex4 :: "char \<Rightarrow> char \<Rightarrow> char \<Rightarrow> char \<Rightarrow> char option" where
  "jhex4 a b c d =
     (case (hex_val a, hex_val b, hex_val c, hex_val d) of
        (Some 0, Some 0, Some x, Some y) \<Rightarrow> Some (chr (16 * x + y))
      | _ \<Rightarrow> None)"

definition jsimple :: "char \<Rightarrow> char option" where
  "jsimple c =
     (if c = CHR 0x22 \<or> c = CHR 0x5C \<or> c = CHR ''/'' then Some c
      else if c = CHR ''n'' then Some (chr 10)
      else if c = CHR ''r'' then Some (chr 13)
      else if c = CHR ''t'' then Some (chr 9)
      else if c = CHR ''f'' then Some (chr 12)
      else if c = CHR ''b'' then Some (chr 8)
      else None)"

text \<open>The body of a string after its opening quote (\<^verbatim>\<open>json.decoder.scanstring\<close>, strict).\<close>

fun jstring :: "string \<Rightarrow> (string \<times> string) option" where
  "jstring [] = None"
| "jstring (x # xs) =
     (if x = CHR 0x22 then Some ([], xs)
      else if x = CHR 0x5C then
        (case xs of
           [] \<Rightarrow> None
         | e # ys \<Rightarrow>
             (if e = CHR ''u'' then
                (case ys of
                   a # b # c # d # zs \<Rightarrow>
                     (case jhex4 a b c d of
                        None \<Rightarrow> None
                      | Some ch \<Rightarrow> map_option (\<lambda>(s, r). (ch # s, r)) (jstring zs))
                 | _ \<Rightarrow> None)
              else
                (case jsimple e of
                   None \<Rightarrow> None
                 | Some ch \<Rightarrow> map_option (\<lambda>(s, r). (ch # s, r)) (jstring ys))))
      else if code x < 32 then None
      else map_option (\<lambda>(s, r). (x # s, r)) (jstring xs))"

text \<open>The integer part of \<^verbatim>\<open>NUMBER_RE\<close>; a fraction or an exponent after it is refused.\<close>

definition jnumber_end :: "string \<Rightarrow> bool" where
  "jnumber_end r \<longleftrightarrow> (case r of [] \<Rightarrow> True | c # _ \<Rightarrow> c \<notin> {CHR ''.'', CHR ''e'', CHR ''E''})"

definition jnat :: "string \<Rightarrow> (nat \<times> string) option" where
  "jnat s =
     (case s of
        [] \<Rightarrow> None
      | c # cs \<Rightarrow>
          (if c = CHR ''0'' then (if jnumber_end cs then Some (0, cs) else None)
           else if is_digit c then
             (let ds = takeWhile is_digit s; r = dropWhile is_digit s
              in if jnumber_end r then Some (nat_of_digits ds, r) else None)
           else None))"

definition jint :: "string \<Rightarrow> (int \<times> string) option" where
  "jint s =
     (case s of
        [] \<Rightarrow> None
      | c # cs \<Rightarrow>
          (if c = CHR ''-'' then map_option (\<lambda>(n, r). (- int n, r)) (jnat cs)
           else map_option (\<lambda>(n, r). (int n, r)) (jnat s)))"

definition expect :: "char \<Rightarrow> string \<Rightarrow> string option" where
  "expect c s = (case s of [] \<Rightarrow> None | x # xs \<Rightarrow> if x = c then Some xs else None)"

definition jkeyword :: "string \<Rightarrow> json \<Rightarrow> string \<Rightarrow> (json \<times> string) option" where
  "jkeyword w v s = (if starts_with s w then Some (v, drop (length w) s) else None)"

text \<open>
  The scanner. The first argument is fuel, one unit per call; the length of the text is
  enough (\<open>json_value_print\<close>).
\<close>

fun jvalue :: "nat \<Rightarrow> string \<Rightarrow> (json \<times> string) option"
  and jitems :: "nat \<Rightarrow> string \<Rightarrow> (json list \<times> string) option"
  and jmembers :: "nat \<Rightarrow> string \<Rightarrow> (jobj \<times> string) option" where
  "jvalue 0 s = None"
| "jvalue (Suc n) s =
     (case s of
        [] \<Rightarrow> None
      | c # cs \<Rightarrow>
          (if c = CHR 0x22 then map_option (\<lambda>(t, r). (JStr t, r)) (jstring cs)
           else if c = CHR ''['' then
             (case expect (CHR '']'') (skip_ws cs) of
                Some r \<Rightarrow> Some (JList [], r)
              | None \<Rightarrow> map_option (\<lambda>(xs, r). (JList xs, r)) (jitems n (skip_ws cs)))
           else if c = CHR ''{'' then
             (case expect (CHR ''}'') (skip_ws cs) of
                Some r \<Rightarrow> Some (JObj [], r)
              | None \<Rightarrow> map_option (\<lambda>(d, r). (JObj (dmerge [] d), r)) (jmembers n (skip_ws cs)))
           else if c = CHR ''n'' then jkeyword ''null'' JNull s
           else if c = CHR ''t'' then jkeyword ''true'' (JBool True) s
           else if c = CHR ''f'' then jkeyword ''false'' (JBool False) s
           else map_option (\<lambda>(i, r). (JInt i, r)) (jint s)))"
| "jitems 0 s = None"
| "jitems (Suc n) s =
     (case jvalue n s of
        None \<Rightarrow> None
      | Some (v, r) \<Rightarrow>
          (case expect (CHR '']'') (skip_ws r) of
             Some r' \<Rightarrow> Some ([v], r')
           | None \<Rightarrow>
               (case expect (CHR '','') (skip_ws r) of
                  None \<Rightarrow> None
                | Some r' \<Rightarrow> map_option (\<lambda>(vs, q). (v # vs, q)) (jitems n (skip_ws r')))))"
| "jmembers 0 s = None"
| "jmembers (Suc n) s =
     (case expect (CHR 0x22) s of
        None \<Rightarrow> None
      | Some s' \<Rightarrow>
          (case jstring s' of
             None \<Rightarrow> None
           | Some (k, r) \<Rightarrow>
               (case expect (CHR '':'') (skip_ws r) of
                  None \<Rightarrow> None
                | Some r1 \<Rightarrow>
                    (case jvalue n (skip_ws r1) of
                       None \<Rightarrow> None
                     | Some (v, r2) \<Rightarrow>
                         (case expect (CHR ''}'') (skip_ws r2) of
                            Some r3 \<Rightarrow> Some ([(k, v)], r3)
                          | None \<Rightarrow>
                              (case expect (CHR '','') (skip_ws r2) of
                                 None \<Rightarrow> None
                               | Some r3 \<Rightarrow>
                                   map_option (\<lambda>(d, q). ((k, v) # d, q)) (jmembers n (skip_ws r3))))))))"

definition json_loads :: "string \<Rightarrow> json option" where
  "json_loads s =
     (case jvalue (Suc (length s)) (skip_ws s) of
        None \<Rightarrow> None
      | Some (v, r) \<Rightarrow> (if skip_ws r = [] then Some v else None))"

definition json_dumps :: "json_style \<Rightarrow> json \<Rightarrow> string" where
  "json_dumps S v = json_print S v"

section \<open>The round trip\<close>

definition style_ok :: "json_style \<Rightarrow> bool" where
  "style_ok S \<longleftrightarrow>
     (\<exists>w. item_sep S = CHR '','' # w \<and> list_all jws w) \<and>
     (\<exists>w. key_sep S = CHR '':'' # w \<and> list_all jws w)"

lemma style_ok_default: "style_ok default_style"
  by (simp add: style_ok_def default_style_def jws_def)

lemma style_ok_compact: "style_ok compact_style"
  by (simp add: style_ok_def compact_style_def)

text \<open>What follows a printed value: nothing, or a character that cannot extend a number.\<close>

definition stops :: "string \<Rightarrow> bool" where
  "stops r \<longleftrightarrow> (case r of [] \<Rightarrow> True | c # _ \<Rightarrow> \<not> is_digit c \<and> jnumber_end r)"

lemma stops_simps [simp]:
  "stops []"
  "stops (CHR '','' # r)" "stops (CHR '']'' # r)" "stops (CHR ''}'' # r)"
  by (simp_all add: stops_def jnumber_end_def is_digit_def)

lemma hex_pair: "n < 256 \<Longrightarrow>
    jhex4 CHR ''0'' CHR ''0'' (hex_digit (n div 16)) (hex_digit (n mod 16)) = Some (chr n)"
proof -
  assume "n < 256"
  then have "n div 16 < 16" by simp
  moreover have "hex_val CHR ''0'' = Some 0" by (simp add: hex_val_def)
  ultimately show ?thesis by (simp add: jhex4_def hex_val_digit)
qed

lemma code_eq_iff: "code c = n \<longleftrightarrow> n < 256 \<and> c = chr n"
  by (metis char_of_char code_chr code_less)

lemma jstring_jesc:
  "jstring (jesc a c @ t) = map_option (\<lambda>(s, r). (c # s, r)) (jstring t)"
proof (cases "code c < 32 \<or> (a \<and> 126 < code c)")
  case True
  have "jhex4 CHR ''0'' CHR ''0'' (hex_digit (code c div 16)) (hex_digit (code c mod 16)) = Some c"
    by (simp add: hex_pair)
  with True show ?thesis
    by (auto simp: jesc_def jsimple_def code_eq_iff)
next
  case False
  then show ?thesis
    by (auto simp: jesc_def jsimple_def)
qed

lemma jstring_quoted: "jstring (concat (map (jesc a) s) @ CHR 0x22 # r) = Some (s, r)"
  by (induction s) (simp_all add: jstring_jesc del: jstring.simps(2) add: jstring.simps(2) [of "CHR 0x22"])

lemma takeWhile_digits:
  "list_all is_digit ds \<Longrightarrow> stops r \<Longrightarrow> takeWhile is_digit (ds @ r) = ds \<and> dropWhile is_digit (ds @ r) = r"
  by (induction ds) (auto simp: stops_def split: list.splits)

lemma stops_number_end: "stops r \<Longrightarrow> jnumber_end r"
  by (cases r) (auto simp: stops_def jnumber_end_def)

lemma jnat_print: "stops r \<Longrightarrow> jnat (str_of_nat n @ r) = Some (n, r)"
proof -
  assume r: "stops r"
  have dig: "list_all is_digit (str_of_nat n)" by (rule str_of_nat_digits)
  obtain c cs where s: "str_of_nat n = c # cs" by (cases "str_of_nat n") auto
  show ?thesis
  proof (cases "c = CHR ''0''")
    case True
    with s have cs: "cs = []" by (intro str_of_nat_leading_zero [of n]) simp
    with True s have "n = 0"
      using nat_of_digits_str [of n] by (simp add: nat_of_digits_def digit_val_def)
    with s True cs r show ?thesis by (simp add: jnat_def stops_number_end)
  next
    case False
    from dig s have c: "is_digit c" by simp
    from takeWhile_digits [OF dig r] s c
    have tw: "takeWhile is_digit (c # cs @ r) = c # cs" "dropWhile is_digit (c # cs @ r) = r"
      by simp_all
    have "nat_of_digits (c # cs) = n" using nat_of_digits_str [of n] s by simp
    with False c tw r show ?thesis
      unfolding s append_Cons jnat_def by (simp add: Let_def stops_number_end)
  qed
qed

lemma str_of_nat_hd: "str_of_nat n = c # cs \<Longrightarrow> is_digit c"
  using str_of_nat_digits [of n] by simp

lemma str_of_int_hd: "\<exists>c cs. str_of_int i = c # cs \<and> (c = CHR ''-'' \<or> is_digit c)"
proof (cases "i < 0")
  case True
  then show ?thesis by (simp add: str_of_int_def)
next
  case False
  obtain c cs where "str_of_nat (nat i) = c # cs" by (cases "str_of_nat (nat i)") auto
  with False str_of_nat_hd show ?thesis by (auto simp: str_of_int_def)
qed

lemma jint_print: "stops r \<Longrightarrow> jint (str_of_int i @ r) = Some (i, r)"
proof (cases "i < 0")
  case True
  assume "stops r"
  with True show ?thesis by (simp add: jint_def str_of_int_def jnat_print)
next
  case False
  assume r: "stops r"
  obtain c cs where s: "str_of_nat (nat i) = c # cs" by (cases "str_of_nat (nat i)") auto
  from str_of_nat_hd [OF s] have "c \<noteq> CHR ''-''" by (auto simp: is_digit_def)
  moreover from jnat_print [OF r, of "nat i"] s have "jnat (c # cs @ r) = Some (nat i, r)" by simp
  ultimately show ?thesis using False s by (simp add: jint_def str_of_int_def)
qed

text \<open>The first character of a printed value: not white space, not a closing bracket.\<close>

definition value_start :: "char \<Rightarrow> bool" where
  "value_start c \<longleftrightarrow> \<not> jws c \<and> c \<noteq> CHR '']'' \<and> c \<noteq> CHR ''}''"

lemma digit_value_start: "is_digit c \<Longrightarrow> value_start c"
  by (auto simp: is_digit_def value_start_def jws_def)

lemma json_print_start: "\<exists>c cs. json_print S v = c # cs \<and> value_start c"
proof (cases v)
  case (JInt i)
  obtain c cs where s: "str_of_nat (nat \<bar>i\<bar>) = c # cs" by (cases "str_of_nat (nat \<bar>i\<bar>)") auto
  then have "value_start c" by (intro digit_value_start str_of_nat_hd)
  with JInt s show ?thesis by (auto simp: str_of_int_def value_start_def jws_def)
qed (auto simp: value_start_def jws_def jquote_def)

lemma expect_simps [simp]:
  "expect c (c # r) = Some r"
  "x \<noteq> c \<Longrightarrow> expect c (x # r) = None"
  by (simp_all add: expect_def)

lemma skip_ws_value: "\<not> jws c \<Longrightarrow> skip_ws (c # r) = c # r"
  by simp

lemma skip_ws_append: "list_all jws w \<Longrightarrow> \<not> jws c \<Longrightarrow> skip_ws (w @ c # r) = c # r"
  by (induction w) auto

lemma print_not_ws [simp]: "skip_ws (json_print S v @ r) = json_print S v @ r"
  using json_print_start [of S v] by (auto simp: value_start_def)

lemma print_skip_sep: "list_all jws w \<Longrightarrow> skip_ws (w @ json_print S v @ r) = json_print S v @ r"
  using json_print_start [of S v] by (auto simp: value_start_def skip_ws_append)

lemma print_not_close [simp]:
  "expect (CHR '']'') (json_print S v @ r) = None"
  "expect (CHR ''}'') (json_print S v @ r) = None"
  using json_print_start [of S v] by (auto simp: value_start_def)

lemma punctuation_not_ws [simp]:
  "\<not> jws CHR '',''" "\<not> jws CHR '']''" "\<not> jws CHR ''}''" "\<not> jws CHR '':''" "\<not> jws CHR 0x22"
  by (simp_all add: jws_def)

text \<open>A value, a list of items, a list of members: what their printed forms scan to.\<close>

definition scans :: "json_style \<Rightarrow> json \<Rightarrow> bool" where
  "scans S v \<longleftrightarrow>
     (\<forall>n r. stops r \<longrightarrow> length (json_print S v) \<le> n \<longrightarrow> jvalue n (json_print S v @ r) = Some (v, r))"

lemma jitems_print:
  assumes S: "style_ok S"
  shows "xs \<noteq> [] \<Longrightarrow> (\<And>x. x \<in> set xs \<Longrightarrow> scans S x) \<Longrightarrow>
    length (py_join (item_sep S) (map (json_print S) xs)) < n \<Longrightarrow>
    jitems n (py_join (item_sep S) (map (json_print S) xs) @ CHR '']'' # r) = Some (xs, r)"
proof (induction xs arbitrary: n)
  case Nil
  then show ?case by simp
next
  case (Cons x xs)
  from Cons.prems(3) obtain m where n: "n = Suc m" by (cases n) auto
  from Cons.prems(2) have x: "scans S x" by simp
  obtain w where w: "item_sep S = CHR '','' # w" "list_all jws w"
    using S by (auto simp: style_ok_def)
  show ?case
  proof (cases xs)
    case Nil
    with x n Cons.prems(3) show ?thesis by (simp add: scans_def)
  next
    case (Cons y ys)
    let ?rest = "py_join (item_sep S) (map (json_print S) xs)"
    have split: "py_join (item_sep S) (map (json_print S) (x # xs)) =
        json_print S x @ CHR '','' # w @ ?rest"
      using Cons w by simp
    have v: "jvalue m (json_print S x @ CHR '','' # w @ ?rest @ CHR '']'' # r) =
        Some (x, CHR '','' # w @ ?rest @ CHR '']'' # r)"
      using x n Cons.prems(3) unfolding split scans_def by simp
    have "\<exists>z. ?rest = json_print S y @ z" using Cons by (cases ys) auto
    then have ws: "skip_ws (w @ ?rest @ CHR '']'' # r) = ?rest @ CHR '']'' # r"
      using w print_skip_sep by fastforce
    have "jitems m (?rest @ CHR '']'' # r) = Some (xs, r)"
      using Cons Cons.prems n split by (intro Cons.IH) auto
    with v ws show ?thesis unfolding split n by simp
  qed
qed

abbreviation print_member :: "json_style \<Rightarrow> string \<times> json \<Rightarrow> string" where
  "print_member S kv \<equiv> jquote (ensure_ascii S) (fst kv) @ key_sep S @ json_print S (snd kv)"

lemma jmembers_print:
  assumes S: "style_ok S"
  shows "d \<noteq> [] \<Longrightarrow> (\<And>kv. kv \<in> set d \<Longrightarrow> scans S (snd kv)) \<Longrightarrow>
    length (py_join (item_sep S) (map (print_member S) d)) < n \<Longrightarrow>
    jmembers n (py_join (item_sep S) (map (print_member S) d) @ CHR ''}'' # r) = Some (d, r)"
proof (induction d arbitrary: n)
  case Nil
  then show ?case by simp
next
  case (Cons kv d)
  obtain k v where kv: "kv = (k, v)" by (cases kv)
  from Cons.prems(3) obtain m where n: "n = Suc m" by (cases n) auto
  from Cons.prems(2) [of kv] kv have v: "scans S v" by simp
  obtain w where w: "item_sep S = CHR '','' # w" "list_all jws w"
    using S by (auto simp: style_ok_def)
  obtain u where u: "key_sep S = CHR '':'' # u" "list_all jws u"
    using S by (auto simp: style_ok_def)
  define tail where "tail = (if d = [] then CHR ''}'' # r
     else CHR '','' # w @ py_join (item_sep S) (map (print_member S) d) @ CHR ''}'' # r)"
  have split: "py_join (item_sep S) (map (print_member S) (kv # d)) =
      print_member S kv @ (if d = [] then [] else CHR '','' # w @ py_join (item_sep S) (map (print_member S) d))"
    using w by (cases d) auto
  have full: "py_join (item_sep S) (map (print_member S) (kv # d)) @ CHR ''}'' # r =
      CHR 0x22 # concat (map (jesc (ensure_ascii S)) k) @ CHR 0x22 # CHR '':'' # u @ json_print S v @ tail"
    using u kv split by (auto simp: tail_def jquote_def)
  have len: "length (json_print S v) \<le> m"
    using Cons.prems(3) kv n unfolding split by simp
  have "stops tail" by (simp add: tail_def)
  with v len have val: "jvalue m (json_print S v @ tail) = Some (v, tail)"
    unfolding scans_def by blast
  show ?case
  proof (cases "d = []")
    case True
    then have "tail = CHR ''}'' # r" by (simp add: tail_def)
    with val u show ?thesis
      unfolding full n by (simp add: jstring_quoted print_skip_sep True kv)
  next
    case False
    let ?rest = "py_join (item_sep S) (map (print_member S) d)"
    have tail: "tail = CHR '','' # w @ ?rest @ CHR ''}'' # r" using False by (simp add: tail_def)
    obtain e es where d: "d = e # es" using False by (cases d) auto
    then have "\<exists>z. ?rest = CHR 0x22 # z" by (cases es) (auto simp: jquote_def)
    then have ws: "skip_ws (w @ ?rest @ CHR ''}'' # r) = ?rest @ CHR ''}'' # r"
      using w(2) skip_ws_append by fastforce
    have "jmembers m (?rest @ CHR ''}'' # r) = Some (d, r)"
    proof (rule Cons.IH [OF False])
      show "scans S (snd x)" if "x \<in> set d" for x using Cons.prems(2) that by simp
      show "length ?rest < m" using Cons.prems(3) n False unfolding split by (simp add: jquote_def)
    qed
    with val u ws show ?thesis
      unfolding full n tail by (simp add: jstring_quoted print_skip_sep kv)
  qed
qed

lemma dmerge_fresh: "distinct (map fst (d @ e)) \<Longrightarrow> dmerge d e = d @ e"
proof (induction d e rule: dmerge.induct)
  case (1 d)
  then show ?case by simp
next
  case (2 d k v e)
  then have "k \<notin> fst ` set d" by auto
  then have "dput k v d = d @ [(k, v)]" by (rule dput_fresh)
  with 2 show ?case by simp
qed

theorem json_value_print:
  assumes S: "style_ok S"
  shows "json_ok v \<Longrightarrow> scans S v"
proof (induction v)
  case JNull
  then show ?case
    by (auto simp: scans_def jkeyword_def starts_with_iff dest!: Suc_le_D)
next
  case (JBool b)
  then show ?case
    by (auto simp: scans_def jkeyword_def starts_with_iff dest!: Suc_le_D)
next
  case (JInt i)
  show ?case
    unfolding scans_def
  proof (intro allI impI)
    fix n r assume r: "stops r" and n: "length (json_print S (JInt i)) \<le> n"
    obtain c cs where c: "str_of_int i = c # cs" "c = CHR ''-'' \<or> is_digit c"
      using str_of_int_hd by blast
    with n obtain m where m: "n = Suc m" by (cases n) auto
    from c(2) have "c \<noteq> CHR 0x22" "c \<noteq> CHR ''[''" "c \<noteq> CHR ''{''" "c \<noteq> CHR ''n''"
      "c \<noteq> CHR ''t''" "c \<noteq> CHR ''f''"
      by (auto simp: is_digit_def)
    with c(1) jint_print [OF r, of i] m show "jvalue n (json_print S (JInt i) @ r) = Some (JInt i, r)"
      by simp
  qed
next
  case (JStr s)
  then show ?case
    by (auto simp: scans_def jquote_def jstring_quoted dest!: Suc_le_D)
next
  case (JList xs)
  then have sc: "\<And>x. x \<in> set xs \<Longrightarrow> scans S x" by simp
  show ?case
    unfolding scans_def
  proof (intro allI impI)
    fix n r assume n: "length (json_print S (JList xs)) \<le> n"
    then obtain m where m: "n = Suc m" by (cases n) auto
    show "jvalue n (json_print S (JList xs) @ r) = Some (JList xs, r)"
    proof (cases "xs = []")
      case True
      then show ?thesis by (simp add: m)
    next
      case False
      let ?body = "py_join (item_sep S) (map (json_print S) xs)"
      obtain x ys where xs: "xs = x # ys" using False by (cases xs) auto
      then obtain z where z: "?body = json_print S x @ z" by (cases ys) auto
      have "jitems m (?body @ CHR '']'' # r) = Some (xs, r)"
        using S False sc n m by (intro jitems_print) auto
      with z show ?thesis by (simp add: m)
    qed
  qed
next
  case (JObj d)
  then have dist: "distinct (map fst d)" by simp
  from JObj have sc: "\<And>kv. kv \<in> set d \<Longrightarrow> scans S (snd kv)"
    by (metis json_ok.simps(2) prod.collapse snds.intros)
  show ?case
    unfolding scans_def
  proof (intro allI impI)
    fix n r assume n: "length (json_print S (JObj d)) \<le> n"
    then obtain m where m: "n = Suc m" by (cases n) auto
    show "jvalue n (json_print S (JObj d) @ r) = Some (JObj d, r)"
    proof (cases "d = []")
      case True
      then show ?thesis by (simp add: m)
    next
      case False
      let ?body = "py_join (item_sep S) (map (print_member S) d)"
      obtain kv ys where d: "d = kv # ys" using False by (cases d) auto
      then obtain z where z: "?body = CHR 0x22 # z" by (cases ys) (auto simp: jquote_def)
      have "jmembers m (?body @ CHR ''}'' # r) = Some (d, r)"
        using S False sc n m by (intro jmembers_print) auto
      with z dist show ?thesis by (simp add: m dmerge_fresh)
    qed
  qed
qed

lemma stops_ws: "list_all jws w \<Longrightarrow> stops w"
  by (cases w) (auto simp: stops_def jws_def is_digit_def jnumber_end_def)

text \<open>The files end in a line break, so the law allows white space after the value.\<close>

theorem json_loads_dumps_ws:
  assumes S: "style_ok S" and v: "json_ok v" and w: "list_all jws w"
  shows "json_loads (json_dumps S v @ w) = Some v"
proof -
  have "scans S v" using S v by (rule json_value_print)
  then have "jvalue (Suc (length (json_print S v @ w))) (json_print S v @ w) = Some (v, w)"
    using stops_ws [OF w] unfolding scans_def by (simp del: jvalue.simps)
  moreover have "skip_ws w = []" using w by (simp add: list_all_iff)
  ultimately show ?thesis
    by (simp add: json_loads_def json_dumps_def del: jvalue.simps)
qed

theorem json_loads_dumps: "style_ok S \<Longrightarrow> json_ok v \<Longrightarrow> json_loads (json_dumps S v) = Some v"
  using json_loads_dumps_ws [of S v "[]"] by simp

section \<open>Sorted keys\<close>

text \<open>\<^verbatim>\<open>json.dumps(v, sort_keys=True)\<close> prints \<open>jsort v\<close>.\<close>

fun jsort :: "json \<Rightarrow> json" where
  "jsort (JList xs) = JList (map jsort xs)"
| "jsort (JObj d) = JObj (sort_key fst (map (\<lambda>kv. (fst kv, jsort (snd kv))) d))"
| "jsort v = v"

lemma distinct_sort_key: "distinct (map fst d) \<Longrightarrow> distinct (map fst (sort_key fst d))"
  by (simp add: distinct_map)

lemma json_ok_jsort: "json_ok v \<Longrightarrow> json_ok (jsort v)"
proof (induction v rule: jsort.induct)
  case (2 d)
  let ?d = "map (\<lambda>kv. (fst kv, jsort (snd kv))) d"
  have "map fst ?d = map fst d" by (simp add: comp_def)
  with 2 have "distinct (map fst ?d)" by (simp del: map_map)
  then have "distinct (map fst (sort_key fst ?d))"
    by (rule distinct_sort_key)
  with 2 show ?case by auto
qed auto

lemma dget_sort_key: "distinct (map fst d) \<Longrightarrow> dget (sort_key fst d) = dget d"
proof -
  assume d: "distinct (map fst d)"
  then have "distinct (map fst (sort_key fst d))"
    by (rule distinct_sort_key)
  with d show ?thesis by (intro map_of_inject_set [THEN iffD2]) auto
qed

section \<open>Python conversions of a value\<close>

text \<open>\<^verbatim>\<open>repr\<close> of a Latin-1 string: the quote, the escapes and the non-printable code points.\<close>

definition repr_char :: "char \<Rightarrow> char \<Rightarrow> string" where
  "repr_char q c =
     (if c = q \<or> c = CHR 0x5C then [CHR 0x5C, c]
      else if code c = 10 then [CHR 0x5C, CHR ''n'']
      else if code c = 13 then [CHR 0x5C, CHR ''r'']
      else if code c = 9 then [CHR 0x5C, CHR ''t'']
      else if code c < 32 \<or> (127 \<le> code c \<and> code c \<le> 160) \<or> code c = 173
        then [CHR 0x5C, CHR ''x'', hex_digit (code c div 16), hex_digit (code c mod 16)]
      else [c])"

definition py_repr_str :: "string \<Rightarrow> string" where
  "py_repr_str s =
     (let q = (if CHR 0x27 \<in> set s \<and> CHR 0x22 \<notin> set s then CHR 0x22 else CHR 0x27)
      in q # concat (map (repr_char q) s) @ [q])"

fun py_repr :: "json \<Rightarrow> string" where
  "py_repr JNull = ''None''"
| "py_repr (JBool b) = (if b then ''True'' else ''False'')"
| "py_repr (JInt i) = str_of_int i"
| "py_repr (JStr s) = py_repr_str s"
| "py_repr (JList xs) = ''['' @ py_join '', '' (map py_repr xs) @ '']''"
| "py_repr (JObj d) =
     ''{'' @ py_join '', '' (map (\<lambda>kv. py_repr_str (fst kv) @ '': '' @ py_repr (snd kv)) d) @ ''}''"

text \<open>\<^verbatim>\<open>str(v)\<close>.\<close>

fun py_str :: "json \<Rightarrow> string" where
  "py_str (JStr s) = s"
| "py_str v = py_repr v"

text \<open>\<^verbatim>\<open>int(v)\<close>: a \<^verbatim>\<open>TypeError\<close> and a \<^verbatim>\<open>ValueError\<close> are told apart, callers differ in which they catch.\<close>

datatype conv_error = ConvType | ConvValue

fun py_int :: "json \<Rightarrow> conv_error + int" where
  "py_int (JInt i) = Inr i"
| "py_int (JBool b) = Inr (if b then 1 else 0)"
| "py_int (JStr s) = (case py_int_of_str s of None \<Rightarrow> Inl ConvValue | Some i \<Rightarrow> Inr i)"
| "py_int _ = Inl ConvType"

end
