(* ===== verification/Bytes.thy ===== *)
theory Bytes
  imports Json "HOL-Library.Word"
begin

unbundle bit_operations_syntax

text \<open>
  Byte strings, the text encodings the agent uses (UTF-8, hexadecimal, base64 in its two
  alphabets), the integer conversions of \<^verbatim>\<open>int.to_bytes\<close>/\<^verbatim>\<open>int.from_bytes\<close>, and the standard
  library's SHA-256 and HMAC, written out so that every definition computes.
\<close>

type_synonym byte = "8 word"
type_synonym bytes = "byte list"

section \<open>UTF-8\<close>

definition utf8_char :: "char \<Rightarrow> bytes" where
  "utf8_char c =
     (if code c < 128 then [word_of_nat (code c)]
      else [word_of_nat (192 + code c div 64), word_of_nat (128 + code c mod 64)])"

definition utf8_encode :: "string \<Rightarrow> bytes" where
  "utf8_encode s = concat (map utf8_char s)"

text \<open>Decoding; a sequence for a code point of 256 or more is outside the model.\<close>

fun utf8_decode :: "bytes \<Rightarrow> string option" where
  "utf8_decode [] = Some []"
| "utf8_decode (b # bs) =
     (if unat b < 128 then map_option ((#) (chr (unat b))) (utf8_decode bs)
      else if unat b = 194 \<or> unat b = 195 then
        (case bs of
           [] \<Rightarrow> None
         | c # cs \<Rightarrow>
             (if 128 \<le> unat c \<and> unat c < 192
              then map_option ((#) (chr (64 * (unat b - 192) + (unat c - 128)))) (utf8_decode cs)
              else None))
      else None)"

lemma unat_byte: "n < 256 \<Longrightarrow> unat (word_of_nat n :: byte) = n"
  by (simp add: unat_of_nat)

lemma utf8_decode_char: "utf8_decode (utf8_char c @ bs) = map_option ((#) c) (utf8_decode bs)"
proof (cases "code c < 128")
  case True
  then show ?thesis by (simp add: utf8_char_def unat_byte)
next
  case False
  define h l :: byte
    where "h = word_of_nat (192 + code c div 64)" and "l = word_of_nat (128 + code c mod 64)"
  have "code c < 256" by simp
  then have "code c div 64 < 4" by (simp add: less_mult_imp_div_less)
  moreover from False have "2 \<le> code c div 64" by simp
  ultimately have hi: "code c div 64 = 2 \<or> code c div 64 = 3" by linarith
  have b: "192 + code c div 64 < 256" "128 + code c mod 64 < 256" using hi by auto
  have "unat h = 192 + code c div 64" "unat l = 128 + code c mod 64"
    unfolding h_def l_def by (rule unat_byte [OF b(1)], rule unat_byte [OF b(2)])
  moreover have "code c mod 64 < 64" "64 * (code c div 64) + code c mod 64 = code c"
    by simp_all
  moreover from False have "utf8_char c = [h, l]" by (simp add: utf8_char_def h_def l_def)
  ultimately show ?thesis using hi by auto
qed

theorem utf8_round_trip: "utf8_decode (utf8_encode s) = Some s"
  by (induction s) (simp_all add: utf8_encode_def utf8_decode_char)

lemma utf8_encode_inject: "utf8_encode s = utf8_encode t \<longleftrightarrow> s = t"
  by (metis option.inject utf8_round_trip)

section \<open>Hexadecimal\<close>

definition hex_of_byte :: "byte \<Rightarrow> string" where
  "hex_of_byte b = [hex_digit (unat b div 16), hex_digit (unat b mod 16)]"

definition to_hex :: "bytes \<Rightarrow> string" where
  "to_hex bs = concat (map hex_of_byte bs)"

lemma length_to_hex [simp]: "length (to_hex bs) = 2 * length bs"
  by (induction bs) (simp_all add: to_hex_def hex_of_byte_def)

lemma hex_digit_inject: "m < 16 \<Longrightarrow> n < 16 \<Longrightarrow> hex_digit m = hex_digit n \<longleftrightarrow> m = n"
  by (metis hex_val_digit option.inject)

lemma unat_byte_less [simp]: "unat (b :: byte) < 256"
  using unsigned_less [of b] by simp

lemma hex_of_byte_inject: "hex_of_byte a = hex_of_byte b \<longleftrightarrow> a = b"
proof
  assume eq: "hex_of_byte a = hex_of_byte b"
  have "unat a div 16 < 16" "unat b div 16 < 16"
    using unat_byte_less [of a] unat_byte_less [of b] by (simp_all add: less_mult_imp_div_less)
  with eq have "unat a div 16 = unat b div 16" "unat a mod 16 = unat b mod 16"
    by (simp_all add: hex_of_byte_def hex_digit_inject)
  then have "unat a = unat b" by (metis div_mult_mod_eq)
  then show "a = b" by (rule unsigned_word_eqI)
qed simp

lemma to_hex_inject: "to_hex xs = to_hex ys \<longleftrightarrow> xs = ys"
proof (induction xs arbitrary: ys)
  case Nil
  then show ?case by (cases ys) (simp_all add: to_hex_def hex_of_byte_def)
next
  case (Cons x xs)
  show ?case
  proof (cases ys)
    case Nil
    then show ?thesis by (simp add: to_hex_def hex_of_byte_def)
  next
    case (Cons y zs)
    have "to_hex (x # xs) = to_hex (y # zs) \<longleftrightarrow> hex_of_byte x = hex_of_byte y \<and> to_hex xs = to_hex zs"
      by (simp add: to_hex_def hex_of_byte_def conj_assoc)
    with Cons.IH Cons show ?thesis by (simp add: hex_of_byte_inject)
  qed
qed

section \<open>Integers as bytes\<close>

fun from_be :: "bytes \<Rightarrow> nat" where
  "from_be [] = 0"
| "from_be (b # bs) = unat b * 256 ^ length bs + from_be bs"

fun to_be :: "nat \<Rightarrow> nat \<Rightarrow> bytes" where
  "to_be 0 n = []"
| "to_be (Suc k) n = word_of_nat (n div 256 ^ k) # to_be k n"

lemma length_to_be [simp]: "length (to_be k n) = k"
  by (induction k) simp_all

lemma from_be_less: "from_be bs < 256 ^ length bs"
proof (induction bs)
  case Nil
  then show ?case by simp
next
  case (Cons b bs)
  have "unat b + 1 \<le> 256" using unat_byte_less [of b] by linarith
  then have "(unat b + 1) * 256 ^ length bs \<le> 256 * 256 ^ length bs" by (rule mult_le_mono1)
  then have "unat b * 256 ^ length bs + 256 ^ length bs \<le> 256 * 256 ^ length bs"
    by (simp only: add_mult_distrib mult_1)
  moreover have "256 ^ length (b # bs) = (256 :: nat) * 256 ^ length bs" by simp
  ultimately show ?case using Cons.IH by (simp only: from_be.simps)
qed

definition from_le :: "bytes \<Rightarrow> nat" where
  "from_le bs = from_be (rev bs)"

definition to_le :: "nat \<Rightarrow> nat \<Rightarrow> bytes" where
  "to_le k n = rev (to_be k n)"

lemma word_of_nat_mod256: "(word_of_nat n :: byte) = word_of_nat (n mod 256)"
  by (rule unsigned_word_eqI [where ?'a = nat]) (simp add: unsigned_of_nat take_bit_eq_mod)

lemma div_mult_plus: "r < m \<Longrightarrow> (m * q + r) div m = (q :: nat)"
  by simp

lemma to_be_mod: "k \<le> m \<Longrightarrow> to_be k (n mod 256 ^ m) = to_be k n"
proof (induction k)
  case 0
  then show ?case by simp
next
  case (Suc k)
  from Suc.prems obtain d where "m = Suc k + d" by (rule le_Suc_ex [THEN exE])
  then have m: "m = k + Suc d" by simp
  have "n mod 256 ^ m = 256 ^ k * (n div 256 ^ k mod 256 ^ Suc d) + n mod 256 ^ k"
    unfolding m by (subst power_add) (rule mod_mult2_eq)
  then have "n mod 256 ^ m div 256 ^ k =
      (256 ^ k * (n div 256 ^ k mod 256 ^ Suc d) + n mod 256 ^ k) div 256 ^ k"
    by (rule arg_cong [where f = "\<lambda>x. x div 256 ^ k"])
  also have "\<dots> = n div 256 ^ k mod 256 ^ Suc d"
    by (rule div_mult_plus) simp
  finally have "n mod 256 ^ m div 256 ^ k = n div 256 ^ k mod 256 ^ Suc d" .
  moreover have "n div 256 ^ k mod 256 ^ Suc d mod 256 = n div 256 ^ k mod 256"
    by (rule mod_mod_cancel) simp
  ultimately have "n mod 256 ^ m div 256 ^ k mod 256 = n div 256 ^ k mod 256"
    by simp
  then have "(word_of_nat (n mod 256 ^ m div 256 ^ k) :: byte) = word_of_nat (n div 256 ^ k)"
    by (metis word_of_nat_mod256)
  with Suc show ?case by simp
qed

lemma to_be_from_be: "to_be (length bs) (from_be bs) = bs"
proof (induction bs)
  case Nil
  then show ?case by simp
next
  case (Cons b bs)
  have l: "from_be bs < 256 ^ length bs" by (rule from_be_less)
  then have "(unat b * 256 ^ length bs + from_be bs) div 256 ^ length bs = unat b" by simp
  moreover have "to_be (length bs) (unat b * 256 ^ length bs + from_be bs) = to_be (length bs) (from_be bs)"
    using to_be_mod [of "length bs" "length bs" "unat b * 256 ^ length bs + from_be bs"] l by simp
  ultimately show ?case using Cons by simp
qed

lemma from_be_to_be: "n < 256 ^ k \<Longrightarrow> from_be (to_be k n) = n"
proof (induction k arbitrary: n)
  case 0
  then show ?case by simp
next
  case (Suc k)
  then have "n div 256 ^ k < 256" by (simp add: less_mult_imp_div_less mult.commute)
  moreover have "from_be (to_be k n) = n mod 256 ^ k"
    using Suc.IH [of "n mod 256 ^ k"] to_be_mod [of k k n] by simp
  ultimately show ?case by (simp add: unat_byte div_mult_mod_eq)
qed

section \<open>Base64\<close>

text \<open>
  \<^verbatim>\<open>base64.b64encode\<close> with the standard alphabet and its URL-safe twin. The alphabet is a pair of
  the characters for 62 and 63.
\<close>

type_synonym alphabet = "char \<times> char"

definition b64_std :: alphabet where
  "b64_std = (CHR ''+'', CHR ''/'')"

definition b64_url :: alphabet where
  "b64_url = (CHR ''-'', CHR ''_'')"

definition b64_char :: "alphabet \<Rightarrow> nat \<Rightarrow> char" where
  "b64_char A n =
     (if n < 26 then chr (65 + n) else if n < 52 then chr (71 + n)
      else if n < 62 then chr (n - 4) else if n = 62 then fst A else snd A)"

definition b64_val :: "alphabet \<Rightarrow> char \<Rightarrow> nat option" where
  "b64_val A c =
     (if is_upper_ascii c then Some (code c - 65)
      else if is_lower_ascii c then Some (code c - 71)
      else if is_digit c then Some (code c + 4)
      else if c = fst A then Some 62 else if c = snd A then Some 63 else None)"

definition alphabet_ok :: "alphabet \<Rightarrow> bool" where
  "alphabet_ok A \<longleftrightarrow> fst A \<noteq> snd A \<and>
     (\<forall>c \<in> {fst A, snd A}. \<not> is_upper_ascii c \<and> \<not> is_lower_ascii c \<and> \<not> is_digit c \<and> c \<noteq> CHR ''='')"

lemma alphabet_ok_std: "alphabet_ok b64_std"
  by (simp add: alphabet_ok_def b64_std_def is_upper_ascii_def is_lower_ascii_def is_digit_def)

lemma alphabet_ok_url: "alphabet_ok b64_url"
  by (simp add: alphabet_ok_def b64_url_def is_upper_ascii_def is_lower_ascii_def is_digit_def)

fun b64_encode :: "alphabet \<Rightarrow> bytes \<Rightarrow> string" where
  "b64_encode A [] = []"
| "b64_encode A [a] =
     [b64_char A (unat a div 4), b64_char A (unat a mod 4 * 16), CHR ''='', CHR ''='']"
| "b64_encode A [a, b] =
     [b64_char A (unat a div 4), b64_char A (unat a mod 4 * 16 + unat b div 16),
      b64_char A (unat b mod 16 * 4), CHR ''='']"
| "b64_encode A (a # b # c # xs) =
     b64_char A (unat a div 4) # b64_char A (unat a mod 4 * 16 + unat b div 16) #
     b64_char A (unat b mod 16 * 4 + unat c div 64) # b64_char A (unat c mod 64) # b64_encode A xs"

text \<open>
  \<^verbatim>\<open>base64.b64decode\<close>: characters outside the alphabet are dropped (the decoder is not strict), the
  groups of four that are left are read, and a wrong padding raises \<^verbatim>\<open>binascii.Error\<close>, a \<^verbatim>\<open>ValueError\<close>
  (here \<open>None\<close>). What follows the first complete padding is ignored.
\<close>

fun b64_groups :: "alphabet \<Rightarrow> string \<Rightarrow> bytes option" where
  "b64_groups A [] = Some []"
| "b64_groups A (p # q # r # s # xs) =
     (case (b64_val A p, b64_val A q) of
        (Some i, Some j) \<Rightarrow>
          (case b64_val A r of
             None \<Rightarrow> (if r = CHR ''='' \<and> s = CHR ''=''
                       then Some [word_of_nat (4 * i + j div 16)] else None)
           | Some k \<Rightarrow>
               (case b64_val A s of
                  None \<Rightarrow> (if s = CHR ''=''
                            then Some [word_of_nat (4 * i + j div 16),
                                       word_of_nat (j mod 16 * 16 + k div 4)] else None)
                | Some l \<Rightarrow>
                    map_option (\<lambda>bs. word_of_nat (4 * i + j div 16) #
                        word_of_nat (j mod 16 * 16 + k div 4) #
                        word_of_nat (k mod 4 * 64 + l) # bs) (b64_groups A xs)))
      | _ \<Rightarrow> None)"
| "b64_groups A _ = None"

definition b64_kept :: "alphabet \<Rightarrow> char \<Rightarrow> bool" where
  "b64_kept A c \<longleftrightarrow> c = CHR ''='' \<or> b64_val A c \<noteq> None"

definition b64_decode :: "alphabet \<Rightarrow> string \<Rightarrow> bytes option" where
  "b64_decode A s = b64_groups A (filter (b64_kept A) s)"

lemma b64_val_char:
  assumes A: "alphabet_ok A" and n: "n < 64"
  shows "b64_val A (b64_char A n) = Some n"
proof -
  consider "n < 26" | "26 \<le> n" "n < 52" | "52 \<le> n" "n < 62" | "n = 62" | "n = 63"
    using n by linarith
  then show ?thesis
  proof cases
    case 1
    then show ?thesis by (simp add: b64_val_def b64_char_def is_upper_ascii_def)
  next
    case 2
    then show ?thesis by (simp add: b64_val_def b64_char_def is_upper_ascii_def is_lower_ascii_def)
  next
    case 3
    then show ?thesis
      by (simp add: b64_val_def b64_char_def is_upper_ascii_def is_lower_ascii_def is_digit_def) arith
  next
    case 4
    with A show ?thesis by (simp add: b64_val_def b64_char_def alphabet_ok_def)
  next
    case 5
    with A show ?thesis by (auto simp: b64_val_def b64_char_def alphabet_ok_def)
  qed
qed

lemma b64_val_pad: "alphabet_ok A \<Longrightarrow> b64_val A CHR ''='' = None"
  by (auto simp: b64_val_def alphabet_ok_def is_upper_ascii_def is_lower_ascii_def is_digit_def)

lemma mult_plus_div_mod: "y < m \<Longrightarrow> (x * m + y) div m = x \<and> (x * m + y) mod m = (y :: nat)"
  by simp

text \<open>The sextets of one, two and three bytes are below 64.\<close>

lemma sextet_bounds:
  fixes a b c :: nat
  assumes "a < 256" "b < 256" "c < 256"
  shows "a div 4 < 64" "a mod 4 * 16 + b div 16 < 64" "a mod 4 * 16 < 64"
    "b mod 16 * 4 + c div 64 < 64" "b mod 16 * 4 < 64" "c mod 64 < 64"
    "b div 16 < 16" "c div 64 < 4"
proof -
  show div: "a div 4 < 64" "b div 16 < 16" "c div 64 < 4"
    using assms by (simp_all add: less_mult_imp_div_less)
  have "a mod 4 < 4" "b mod 16 < 16" by simp_all
  with div show "a mod 4 * 16 + b div 16 < 64" "a mod 4 * 16 < 64"
    "b mod 16 * 4 + c div 64 < 64" "b mod 16 * 4 < 64" by linarith+
qed simp

lemmas byte_sextets = sextet_bounds [OF unat_byte_less unat_byte_less unat_byte_less]

lemma b64_split_first:
  assumes "b < (256 :: nat)" "j = a mod 4 * 16 + b div 16" "a < 256"
  shows "4 * (a div 4) + j div 16 = a" "j mod 16 = b div 16" "j < 64"
proof -
  from assms have "b div 16 < 16" "j < 64" using sextet_bounds by auto
  with mult_plus_div_mod [of "b div 16" 16 "a mod 4"] assms(2)
  show "4 * (a div 4) + j div 16 = a" "j mod 16 = b div 16" "j < 64" by simp_all
qed

lemma b64_split_second:
  assumes "c < (256 :: nat)" "k = b mod 16 * 4 + c div 64"
  shows "k div 4 = b mod 16" "k mod 4 = c div 64" "k < 64"
proof -
  from assms(1) have c: "c div 64 < 4" by (simp add: less_mult_imp_div_less)
  have "b mod 16 < 16" by simp
  with c assms(2) show "k < 64" by linarith
  from mult_plus_div_mod [OF c, of "b mod 16"] assms(2)
  show "k div 4 = b mod 16" "k mod 4 = c div 64" by simp_all
qed

lemma byte_of_parts:
  fixes a :: byte
  assumes "n = unat a"
  shows "(word_of_nat n :: byte) = a"
  using assms by simp

lemma b64_encode_kept: "alphabet_ok A \<Longrightarrow> list_all (b64_kept A) (b64_encode A xs)"
  by (induction A xs rule: b64_encode.induct)
    (simp_all add: b64_kept_def b64_val_char byte_sextets)

lemma b64_groups_encode: "alphabet_ok A \<Longrightarrow> b64_groups A (b64_encode A xs) = Some xs"
proof (induction A xs rule: b64_encode.induct)
  case (1 A)
  then show ?case by simp
next
  case (2 A a)
  have a: "unat a < 256" by simp
  then have "unat a div 4 < 64" "unat a mod 4 * 16 < 64" by (simp_all add: byte_sextets)
  moreover have "4 * (unat a div 4) + unat a mod 4 * 16 div 16 = unat a" by simp
  ultimately show ?case using 2 byte_of_parts by (simp add: b64_val_char b64_val_pad)
next
  case (3 A a b)
  define i j k where "i = unat a div 4" and "j = unat a mod 4 * 16 + unat b div 16"
    and "k = unat b mod 16 * 4"
  have ab: "unat a < 256" "unat b < 256" by simp_all
  have j: "4 * i + j div 16 = unat a" "j mod 16 = unat b div 16" "j < 64"
    using b64_split_first [OF ab(2) j_def ab(1)] by (simp_all add: i_def)
  have "i < 64" "k < 64" "k div 4 = unat b mod 16" using ab by (simp_all add: i_def k_def byte_sextets)
  moreover from this j have "j mod 16 * 16 + k div 4 = unat b" by simp
  ultimately show ?case using 3 j byte_of_parts
    by (simp add: b64_val_char b64_val_pad i_def [symmetric] j_def [symmetric] k_def [symmetric])
next
  case (4 A a b c xs)
  define i j k l where "i = unat a div 4" and "j = unat a mod 4 * 16 + unat b div 16"
    and "k = unat b mod 16 * 4 + unat c div 64" and "l = unat c mod 64"
  have abc: "unat a < 256" "unat b < 256" "unat c < 256" by simp_all
  have j: "4 * i + j div 16 = unat a" "j mod 16 = unat b div 16" "j < 64"
    using b64_split_first [OF abc(2) j_def abc(1)] by (simp_all add: i_def)
  have k: "k div 4 = unat b mod 16" "k mod 4 = unat c div 64" "k < 64"
    using b64_split_second [OF abc(3) k_def] by simp_all
  have "i < 64" "l < 64" by (simp_all add: i_def l_def byte_sextets)
  moreover have "j mod 16 * 16 + k div 4 = unat b" "k mod 4 * 64 + l = unat c"
    using j k by (simp_all add: l_def)
  ultimately show ?case using 4 j k byte_of_parts
    by (simp add: b64_val_char i_def [symmetric] j_def [symmetric] k_def [symmetric] l_def [symmetric])
qed

theorem b64_round_trip: "alphabet_ok A \<Longrightarrow> b64_decode A (b64_encode A xs) = Some xs"
  using b64_encode_kept [of A xs] b64_groups_encode [of A xs]
  by (simp add: b64_decode_def list_all_iff filter_True)

end
