(* ===== verification/Aes_Gcm.thy ===== *)
theory Aes_Gcm
  imports Bytes
begin

unbundle bit_operations_syntax

text \<open>
  The AES block cipher (forward direction) and GCM authenticated encryption of
  \<^verbatim>\<open>app/crypto/aesgcm.py\<close>, in pure Python there and in pure functions here: byte values
  inside the cipher are \<open>nat\<close>, byte strings at its border are \<open>8 word\<close> lists, and every
  \<^verbatim>\<open>bytes(...)\<close> and \<^verbatim>\<open>to_bytes\<close> keeps its range check. The lemmas show that no range check
  fires, that every call returns, and that decryption inverts encryption; the locale
  \<open>aead_scheme\<close> is the interface the rest of the agent uses, interpreted on this cipher.
  (\<^verbatim>\<open>(len * 8).to_bytes(8)\<close> is taken modulo \<open>2 ^ 64\<close>: no byte string of \<open>2 ^ 61\<close> bytes exists.)
\<close>

datatype gcm_error =
    KeySize | BlockSize | ByteRange | IntTooBig | NonceSize
  | CiphertextTooShort | AuthenticationFailed

text \<open>The errors that are \<^verbatim>\<open>AesGcmError\<close>; the others are plain \<^verbatim>\<open>ValueError\<close>/\<^verbatim>\<open>OverflowError\<close>.\<close>

definition is_aes_gcm_error :: "gcm_error \<Rightarrow> bool" where
  "is_aes_gcm_error e \<longleftrightarrow> e = CiphertextTooShort \<or> e = AuthenticationFailed"

section \<open>AES\<close>

definition sbox :: "nat list" where
  "sbox = [
    0x63, 0x7C, 0x77, 0x7B, 0xF2, 0x6B, 0x6F, 0xC5, 0x30, 0x01, 0x67, 0x2B, 0xFE, 0xD7, 0xAB, 0x76,
    0xCA, 0x82, 0xC9, 0x7D, 0xFA, 0x59, 0x47, 0xF0, 0xAD, 0xD4, 0xA2, 0xAF, 0x9C, 0xA4, 0x72, 0xC0,
    0xB7, 0xFD, 0x93, 0x26, 0x36, 0x3F, 0xF7, 0xCC, 0x34, 0xA5, 0xE5, 0xF1, 0x71, 0xD8, 0x31, 0x15,
    0x04, 0xC7, 0x23, 0xC3, 0x18, 0x96, 0x05, 0x9A, 0x07, 0x12, 0x80, 0xE2, 0xEB, 0x27, 0xB2, 0x75,
    0x09, 0x83, 0x2C, 0x1A, 0x1B, 0x6E, 0x5A, 0xA0, 0x52, 0x3B, 0xD6, 0xB3, 0x29, 0xE3, 0x2F, 0x84,
    0x53, 0xD1, 0x00, 0xED, 0x20, 0xFC, 0xB1, 0x5B, 0x6A, 0xCB, 0xBE, 0x39, 0x4A, 0x4C, 0x58, 0xCF,
    0xD0, 0xEF, 0xAA, 0xFB, 0x43, 0x4D, 0x33, 0x85, 0x45, 0xF9, 0x02, 0x7F, 0x50, 0x3C, 0x9F, 0xA8,
    0x51, 0xA3, 0x40, 0x8F, 0x92, 0x9D, 0x38, 0xF5, 0xBC, 0xB6, 0xDA, 0x21, 0x10, 0xFF, 0xF3, 0xD2,
    0xCD, 0x0C, 0x13, 0xEC, 0x5F, 0x97, 0x44, 0x17, 0xC4, 0xA7, 0x7E, 0x3D, 0x64, 0x5D, 0x19, 0x73,
    0x60, 0x81, 0x4F, 0xDC, 0x22, 0x2A, 0x90, 0x88, 0x46, 0xEE, 0xB8, 0x14, 0xDE, 0x5E, 0x0B, 0xDB,
    0xE0, 0x32, 0x3A, 0x0A, 0x49, 0x06, 0x24, 0x5C, 0xC2, 0xD3, 0xAC, 0x62, 0x91, 0x95, 0xE4, 0x79,
    0xE7, 0xC8, 0x37, 0x6D, 0x8D, 0xD5, 0x4E, 0xA9, 0x6C, 0x56, 0xF4, 0xEA, 0x65, 0x7A, 0xAE, 0x08,
    0xBA, 0x78, 0x25, 0x2E, 0x1C, 0xA6, 0xB4, 0xC6, 0xE8, 0xDD, 0x74, 0x1F, 0x4B, 0xBD, 0x8B, 0x8A,
    0x70, 0x3E, 0xB5, 0x66, 0x48, 0x03, 0xF6, 0x0E, 0x61, 0x35, 0x57, 0xB9, 0x86, 0xC1, 0x1D, 0x9E,
    0xE1, 0xF8, 0x98, 0x11, 0x69, 0xD9, 0x8E, 0x94, 0x9B, 0x1E, 0x87, 0xE9, 0xCE, 0x55, 0x28, 0xDF,
    0x8C, 0xA1, 0x89, 0x0D, 0xBF, 0xE6, 0x42, 0x68, 0x41, 0x99, 0x2D, 0x0F, 0xB0, 0x54, 0xBB, 0x16]"

definition rcon :: "nat list" where
  "rcon = [0x01, 0x02, 0x04, 0x08, 0x10, 0x20, 0x40, 0x80, 0x1B, 0x36]"

definition xtime :: "nat \<Rightarrow> nat" where
  "xtime a =
     (let a1 = push_bit 1 a;
          a2 = (if a1 AND 0x100 \<noteq> 0 then a1 XOR 0x11B else a1)
      in a2 AND 0xFF)"

text \<open>\<^verbatim>\<open>_mul\<close>: the loop over the bits of \<open>b\<close>, with its accumulator.\<close>

function mul_loop :: "nat \<Rightarrow> nat \<Rightarrow> nat \<Rightarrow> nat" where
  "mul_loop a b result =
     (if b = 0 then result
      else mul_loop (xtime a) (drop_bit 1 b) (if b AND 1 \<noteq> 0 then result XOR a else result))"
  by pat_completeness auto
termination
  by (relation "measure (\<lambda>(a, b, result). b)") (auto simp: drop_bit_eq_div)

declare mul_loop.simps [simp del]

definition gf_mul :: "nat \<Rightarrow> nat \<Rightarrow> nat" where
  "gf_mul a b = mul_loop a b 0"

record aes_cipher =
  rounds :: nat
  round_keys :: "nat list list"

definition expand_step :: "nat \<Rightarrow> nat \<Rightarrow> nat list list \<Rightarrow> nat list list" where
  "expand_step nk i ws =
     (let temp = ws ! (i - 1);
          temp = (if i mod nk = 0 then
                    (let t = map (\<lambda>b. sbox ! b) (rotate1 temp)
                     in t[0 := t ! 0 XOR rcon ! (i div nk - 1)])
                  else if 6 < nk \<and> i mod nk = 4 then map (\<lambda>b. sbox ! b) temp
                  else temp)
      in ws @ [map (\<lambda>j. ws ! (i - nk) ! j XOR temp ! j) [0..<4]])"

definition expand_key :: "bytes \<Rightarrow> nat \<Rightarrow> nat list list" where
  "expand_key key nk =
     (let ws = map (\<lambda>i. map unat (take 4 (drop (4 * i) key))) [0..<nk];
          ws = fold (expand_step nk) [nk..<4 * (nk + 7)] ws
      in map (\<lambda>r. concat (take 4 (drop (4 * r) ws))) [0..<nk + 7])"

definition aes_init :: "bytes \<Rightarrow> gcm_error + aes_cipher" where
  "aes_init key =
     (if length key \<notin> {16, 24, 32} then Inl KeySize
      else let nk = length key div 4
           in Inr \<lparr>rounds = nk + 6, round_keys = expand_key key nk\<rparr>)"

definition add_round_key :: "aes_cipher \<Rightarrow> nat \<Rightarrow> nat list \<Rightarrow> nat list" where
  "add_round_key c r st = map (\<lambda>i. st ! i XOR round_keys c ! r ! i) [0..<16]"

definition sub_bytes :: "nat list \<Rightarrow> nat list" where
  "sub_bytes st = map (\<lambda>i. sbox ! (st ! i)) [0..<16]"

definition shift_rows :: "nat list \<Rightarrow> nat list" where
  "shift_rows st =
     map (\<lambda>i. let row = i mod 4; c = i div 4 in st ! (row + 4 * ((c + row) mod 4))) [0..<16]"

definition mix_column :: "nat list \<Rightarrow> nat list" where
  "mix_column col =
     [gf_mul (col ! 0) 2 XOR gf_mul (col ! 1) 3 XOR col ! 2 XOR col ! 3,
      col ! 0 XOR gf_mul (col ! 1) 2 XOR gf_mul (col ! 2) 3 XOR col ! 3,
      col ! 0 XOR col ! 1 XOR gf_mul (col ! 2) 2 XOR gf_mul (col ! 3) 3,
      gf_mul (col ! 0) 3 XOR col ! 1 XOR col ! 2 XOR gf_mul (col ! 3) 2]"

definition mix_columns :: "nat list \<Rightarrow> nat list" where
  "mix_columns st = concat (map (\<lambda>c. mix_column (take 4 (drop (4 * c) st))) [0..<4])"

definition aes_round :: "aes_cipher \<Rightarrow> nat \<Rightarrow> nat list \<Rightarrow> nat list" where
  "aes_round c rnd st = add_round_key c rnd (mix_columns (shift_rows (sub_bytes st)))"

text \<open>\<^verbatim>\<open>bytes(state)\<close> raises when an item is not a byte.\<close>

definition bytes_of_ints :: "nat list \<Rightarrow> gcm_error + bytes" where
  "bytes_of_ints xs = (if list_all (\<lambda>x. x < 256) xs then Inr (map word_of_nat xs) else Inl ByteRange)"

definition encrypt_block :: "aes_cipher \<Rightarrow> bytes \<Rightarrow> gcm_error + bytes" where
  "encrypt_block c block =
     (if length block \<noteq> 16 then Inl BlockSize
      else
        let st = add_round_key c 0 (map unat block);
            st = fold (aes_round c) [1..<rounds c] st;
            st = add_round_key c (rounds c) (shift_rows (sub_bytes st))
        in bytes_of_ints st)"

section \<open>GCM\<close>

definition gcm_poly :: nat where
  "gcm_poly = 0xE1000000000000000000000000000000"

definition gf128_step :: "nat \<Rightarrow> nat \<Rightarrow> nat \<times> nat \<Rightarrow> nat \<times> nat" where
  "gf128_step x i zv =
     (let (z, v) = zv
      in (if drop_bit (127 - i) x AND 1 \<noteq> 0 then z XOR v else z,
          if v AND 1 \<noteq> 0 then drop_bit 1 v XOR gcm_poly else drop_bit 1 v))"

definition gf128_mul :: "nat \<Rightarrow> nat \<Rightarrow> nat" where
  "gf128_mul x y = fst (fold (gf128_step x) [0..<128] (0, y))"

definition pad_chunk :: "bytes \<Rightarrow> bytes" where
  "pad_chunk chunk =
     (if length chunk < 16 then chunk @ replicate (16 - length chunk) 0 else chunk)"

function ghash_loop :: "nat \<Rightarrow> nat \<Rightarrow> bytes \<Rightarrow> nat" where
  "ghash_loop h y data =
     (if data = [] then y
      else ghash_loop h (gf128_mul (y XOR from_be (pad_chunk (take 16 data))) h) (drop 16 data))"
  by pat_completeness auto
termination
  by (relation "measure (\<lambda>(h, y, data). length data)") auto

declare ghash_loop.simps [simp del]

definition ghash :: "nat \<Rightarrow> bytes \<Rightarrow> nat" where
  "ghash h data = ghash_loop h 0 data"

text \<open>\<^verbatim>\<open>n.to_bytes(k, "big")\<close>.\<close>

definition to_bytes :: "nat \<Rightarrow> nat \<Rightarrow> gcm_error + bytes" where
  "to_bytes k n = (if n < 256 ^ k then Inr (to_be k n) else Inl IntTooBig)"

definition next_counter :: "nat \<Rightarrow> nat" where
  "next_counter counter = push_bit 32 (drop_bit 32 counter) OR ((counter + 1) AND 0xFFFFFFFF)"

function gctr :: "aes_cipher \<Rightarrow> nat \<Rightarrow> bytes \<Rightarrow> gcm_error + bytes" where
  "gctr c counter data =
     (if data = [] then Inr []
      else
        bindR (to_bytes 16 counter) (\<lambda>ctr.
        bindR (encrypt_block c ctr) (\<lambda>keystream.
        bindR (gctr c (next_counter counter) (drop 16 data)) (\<lambda>rest.
          Inr (map2 (XOR) (take 16 data) keystream @ rest)))))"
  by pat_completeness auto
termination
  by (relation "measure (\<lambda>(c, counter, data). length data)") auto

declare gctr.simps [simp del]

definition pad16 :: "bytes \<Rightarrow> bytes" where
  "pad16 xs = replicate ((16 - length xs mod 16) mod 16) 0"

definition ghash_input :: "bytes \<Rightarrow> bytes \<Rightarrow> bytes" where
  "ghash_input aad ct =
     aad @ pad16 aad @ ct @ pad16 ct @ to_be 8 (length aad * 8) @ to_be 8 (length ct * 8)"

definition gcm_tag :: "aes_cipher \<Rightarrow> nat \<Rightarrow> nat \<Rightarrow> bytes \<Rightarrow> bytes \<Rightarrow> gcm_error + bytes" where
  "gcm_tag c h j0 aad ct =
     bindR (to_bytes 16 (ghash h (ghash_input aad ct))) (\<lambda>s.
     bindR (gctr c j0 s) (\<lambda>block. Inr (take 16 block)))"

definition aes_gcm_encrypt :: "bytes \<Rightarrow> bytes \<Rightarrow> bytes \<Rightarrow> bytes \<Rightarrow> gcm_error + bytes" where
  "aes_gcm_encrypt key nonce plaintext aad =
     (if length nonce \<noteq> 12 then Inl NonceSize
      else
        bindR (aes_init key) (\<lambda>c.
        bindR (encrypt_block c (replicate 16 0)) (\<lambda>h0.
          let h = from_be h0; j0 = from_be (nonce @ [0, 0, 0, 1]) in
          bindR (gctr c (j0 + 1) plaintext) (\<lambda>ct.
          bindR (gcm_tag c h j0 aad ct) (\<lambda>tag. Inr (ct @ tag))))))"

definition aes_gcm_decrypt :: "bytes \<Rightarrow> bytes \<Rightarrow> bytes \<Rightarrow> bytes \<Rightarrow> gcm_error + bytes" where
  "aes_gcm_decrypt key nonce data aad =
     (if length nonce \<noteq> 12 then Inl NonceSize
      else if length data < 16 then Inl CiphertextTooShort
      else
        let ct = take (length data - 16) data; tag = drop (length data - 16) data in
        bindR (aes_init key) (\<lambda>c.
        bindR (encrypt_block c (replicate 16 0)) (\<lambda>h0.
          let h = from_be h0; j0 = from_be (nonce @ [0, 0, 0, 1]) in
          bindR (gcm_tag c h j0 aad ct) (\<lambda>expected.
            if expected \<noteq> tag then Inl AuthenticationFailed
            else gctr c (j0 + 1) ct))))"

section \<open>Every value stays a byte\<close>

lemma xor_less_pow2: "a < 2 ^ n \<Longrightarrow> b < 2 ^ n \<Longrightarrow> a XOR b < (2 ^ n :: nat)"
  by (metis take_bit_nat_eq_self_iff take_bit_xor)

lemma or_less_pow2: "a < 2 ^ n \<Longrightarrow> b < 2 ^ n \<Longrightarrow> a OR b < (2 ^ n :: nat)"
  by (metis take_bit_nat_eq_self_iff take_bit_or)

lemma xor_byte: "a < 256 \<Longrightarrow> b < 256 \<Longrightarrow> a XOR b < (256 :: nat)"
  using xor_less_pow2 [of a 8 b] by simp

lemma and_byte: "x AND 255 < (256 :: nat)"
proof -
  have "x AND 255 = take_bit 8 x" by (simp add: take_bit_eq_mask mask_eq_exp_minus_1)
  then show ?thesis using take_bit_nat_less_exp [of 8 x] by simp
qed

lemma xtime_byte: "xtime a < 256"
  by (simp add: xtime_def Let_def and_byte)

lemma mul_loop_byte: "a < 256 \<Longrightarrow> r < 256 \<Longrightarrow> mul_loop a b r < 256"
proof (induction a b r rule: mul_loop.induct)
  case (1 a b r)
  show ?case
  proof (cases "b = 0")
    case True
    with "1.prems" show ?thesis by (simp add: mul_loop.simps)
  next
    case False
    with "1.IH" "1.prems" show ?thesis
      by (subst mul_loop.simps) (simp add: xtime_byte xor_byte)
  qed
qed

lemma gf_mul_byte: "a < 256 \<Longrightarrow> gf_mul a b < 256"
  by (simp add: gf_mul_def mul_loop_byte)

lemma length_sbox: "length sbox = 256"
  by (simp add: sbox_def)

lemma sbox_bytes: "list_all (\<lambda>x. x < 256) sbox"
  by (simp add: sbox_def)

lemma sbox_byte: "i < 256 \<Longrightarrow> sbox ! i < 256"
  using sbox_bytes by (simp add: list_all_length length_sbox)

text \<open>A block: a list of \<open>n\<close> byte values. Words of the key schedule have four, states sixteen.\<close>

definition block_ok :: "nat \<Rightarrow> nat list \<Rightarrow> bool" where
  "block_ok n st \<longleftrightarrow> length st = n \<and> list_all (\<lambda>x. x < 256) st"

lemma block_ok_nth: "block_ok n st \<Longrightarrow> i < n \<Longrightarrow> st ! i < 256"
  by (simp add: block_ok_def list_all_length)

lemma block_okI: "length st = n \<Longrightarrow> (\<And>i. i < n \<Longrightarrow> st ! i < 256) \<Longrightarrow> block_ok n st"
  by (simp add: block_ok_def list_all_length)

lemma block_ok_map_upt: "(\<And>i. i < n \<Longrightarrow> f i < 256) \<Longrightarrow> block_ok n (map f [0..<n])"
  by (simp add: block_ok_def list_all_iff)

lemma block_ok_unat: "block_ok (length bs) (map unat (bs :: bytes))"
  by (simp add: block_ok_def list_all_iff)

lemma sub_bytes_ok: "block_ok 16 st \<Longrightarrow> block_ok 16 (sub_bytes st)"
  unfolding sub_bytes_def by (intro block_ok_map_upt sbox_byte) (rule block_ok_nth)

lemma shift_rows_ok: "block_ok 16 st \<Longrightarrow> block_ok 16 (shift_rows st)"
  unfolding shift_rows_def Let_def
proof (intro block_ok_map_upt)
  fix i :: nat
  assume st: "block_ok 16 st"
  have "i mod 4 < 4" "(i div 4 + i mod 4) mod 4 < 4" by simp_all
  then have "i mod 4 + 4 * ((i div 4 + i mod 4) mod 4) < 16" by linarith
  with st show "st ! (i mod 4 + 4 * ((i div 4 + i mod 4) mod 4)) < 256" by (rule block_ok_nth)
qed

lemma mix_column_ok: "block_ok 4 col \<Longrightarrow> block_ok 4 (mix_column col)"
proof -
  assume "block_ok 4 col"
  then have "col ! 0 < 256" "col ! 1 < 256" "col ! 2 < 256" "col ! 3 < 256"
    by (auto intro: block_ok_nth)
  then show ?thesis by (simp add: mix_column_def block_ok_def xor_byte gf_mul_byte)
qed

lemma block_ok_part: "block_ok n st \<Longrightarrow> i + 4 \<le> n \<Longrightarrow> block_ok 4 (take 4 (drop i st))"
  unfolding block_ok_def list_all_iff
  by (auto dest: in_set_takeD in_set_dropD)

lemma mix_columns_ok: "block_ok 16 st \<Longrightarrow> block_ok 16 (mix_columns st)"
proof -
  assume st: "block_ok 16 st"
  have cols: "block_ok 4 (mix_column (take 4 (drop (4 * c) st)))" if "c < 4" for c
    using st that by (intro mix_column_ok block_ok_part [of 16]) auto
  have "[0..<4] = [0, 1, 2, 3 :: nat]" by (simp add: upt_rec)
  then show ?thesis
    using cols [of 0] cols [of 1] cols [of 2] cols [of 3]
    by (simp add: mix_columns_def block_ok_def)
qed

definition cipher_ok :: "aes_cipher \<Rightarrow> bool" where
  "cipher_ok c \<longleftrightarrow> length (round_keys c) = rounds c + 1 \<and> (\<forall>k \<in> set (round_keys c). block_ok 16 k)"

lemma add_round_key_ok:
  assumes "cipher_ok c" "r \<le> rounds c" "block_ok 16 st"
  shows "block_ok 16 (add_round_key c r st)"
proof -
  from assms have "block_ok 16 (round_keys c ! r)" by (simp add: cipher_ok_def)
  with assms(3) show ?thesis
    unfolding add_round_key_def by (intro block_ok_map_upt xor_byte) (auto intro: block_ok_nth)
qed

lemma aes_rounds_ok:
  assumes c: "cipher_ok c" and "\<forall>r \<in> set rs. r \<le> rounds c" "block_ok 16 st"
  shows "block_ok 16 (fold (aes_round c) rs st)"
  using assms(2,3)
proof (induction rs arbitrary: st)
  case (Cons r rs)
  have "block_ok 16 (aes_round c r st)"
    using Cons.prems c unfolding aes_round_def
    by (intro add_round_key_ok mix_columns_ok shift_rows_ok sub_bytes_ok) auto
  with Cons show ?case by simp
qed simp

lemma encrypt_block_ok:
  assumes c: "cipher_ok c" and b: "length b = 16"
  shows "\<exists>ks. encrypt_block c b = Inr ks \<and> length ks = 16"
proof -
  let ?st = "add_round_key c (rounds c) (shift_rows (sub_bytes
      (fold (aes_round c) [1..<rounds c] (add_round_key c 0 (map unat b)))))"
  from b have "block_ok 16 (map unat b)" using block_ok_unat [of b] by simp
  with c have "block_ok 16 ?st"
    by (intro add_round_key_ok shift_rows_ok sub_bytes_ok aes_rounds_ok) auto
  then have "length ?st = 16" "list_all (\<lambda>x. x < 256) ?st" unfolding block_ok_def by simp_all
  with b show ?thesis
    unfolding encrypt_block_def bytes_of_ints_def Let_def by simp
qed

section \<open>The key schedule\<close>

definition words_ok :: "nat \<Rightarrow> nat list list \<Rightarrow> bool" where
  "words_ok n ws \<longleftrightarrow> length ws = n \<and> (\<forall>w \<in> set ws. block_ok 4 w)"

lemma words_ok_nth: "words_ok n ws \<Longrightarrow> i < n \<Longrightarrow> block_ok 4 (ws ! i)"
  by (simp add: words_ok_def)

lemma block_ok_sbox: "block_ok 4 w \<Longrightarrow> block_ok 4 (map (\<lambda>b. sbox ! b) w)"
  by (simp add: block_ok_def list_all_iff sbox_byte)

lemma block_ok_rotate: "block_ok 4 w \<Longrightarrow> block_ok 4 (rotate1 w)"
  by (simp add: block_ok_def list_all_iff)

lemma rcon_byte: "i < 10 \<Longrightarrow> rcon ! i < 256"
proof -
  have "list_all (\<lambda>x. x < 256) rcon" "length rcon = 10" by (simp_all add: rcon_def)
  then show "i < 10 \<Longrightarrow> rcon ! i < 256" by (simp add: list_all_length)
qed

lemma block_ok_update: "block_ok n w \<Longrightarrow> x < 256 \<Longrightarrow> block_ok n (w[i := x])"
  by (auto simp: block_ok_def list_all_iff dest!: set_update_subset_insert [THEN subsetD])

lemma expand_step_ok:
  assumes ws: "words_ok i ws" and nk: "0 < nk" "nk \<le> i" and rc: "i div nk - 1 < 10"
  shows "words_ok (Suc i) (expand_step nk i ws)"
proof -
  have prev: "block_ok 4 (ws ! (i - 1))" and old: "block_ok 4 (ws ! (i - nk))"
    using ws nk by (auto intro!: words_ok_nth)
  define t where "t = map (\<lambda>b. sbox ! b) (rotate1 (ws ! (i - 1)))"
  have t: "block_ok 4 t" unfolding t_def using prev by (intro block_ok_sbox block_ok_rotate)
  then have rot: "block_ok 4 (t[0 := t ! 0 XOR rcon ! (i div nk - 1)])"
    using rc by (intro block_ok_update xor_byte rcon_byte block_ok_nth [of 4]) auto
  define temp where "temp = (if i mod nk = 0 then t[0 := t ! 0 XOR rcon ! (i div nk - 1)]
      else if 6 < nk \<and> i mod nk = 4 then map (\<lambda>b. sbox ! b) (ws ! (i - 1)) else ws ! (i - 1))"
  have temp: "block_ok 4 temp" unfolding temp_def using rot prev block_ok_sbox by simp
  have "block_ok 4 (map (\<lambda>j. ws ! (i - nk) ! j XOR temp ! j) [0..<4])"
    using old temp by (intro block_ok_map_upt xor_byte) (auto intro: block_ok_nth)
  moreover have "expand_step nk i ws = ws @ [map (\<lambda>j. ws ! (i - nk) ! j XOR temp ! j) [0..<4]]"
    by (simp add: expand_step_def Let_def temp_def t_def)
  ultimately show ?thesis using ws by (auto simp: words_ok_def)
qed

lemma expand_words_ok:
  assumes nk: "0 < nk" and rc: "\<And>i. i < N \<Longrightarrow> i div nk - 1 < 10" and ws: "words_ok nk ws"
  shows "nk \<le> n \<Longrightarrow> n \<le> N \<Longrightarrow> words_ok n (fold (expand_step nk) [nk..<n] ws)"
proof (induction n rule: dec_induct)
  case base
  with ws show ?case by simp
next
  case (step n)
  then have "words_ok n (fold (expand_step nk) [nk..<n] ws)" by simp
  with step nk rc show ?case by (simp add: expand_step_ok)
qed

lemma list_of_length_4: "length xs = 4 \<Longrightarrow> \<exists>a b c d. xs = [a, b, c, d]"
  by (auto simp: numeral_eq_Suc length_Suc_conv)

lemma concat_words_ok:
  assumes "words_ok n ws" "4 * r + 4 \<le> n"
  shows "block_ok 16 (concat (take 4 (drop (4 * r) ws)))"
proof -
  let ?p = "take 4 (drop (4 * r) ws)"
  have len: "length ?p = 4" and ok: "\<forall>w \<in> set ?p. block_ok 4 w"
    using assms by (auto simp: words_ok_def dest: in_set_takeD in_set_dropD)
  obtain a b c d where "?p = [a, b, c, d]"
    using list_of_length_4 [OF len] by blast
  with ok show ?thesis by (simp add: block_ok_def)
qed

lemma aes_init_ok:
  assumes "length key \<in> {16, 24, 32}"
  shows "\<exists>c. aes_init key = Inr c \<and> cipher_ok c"
proof -
  define nk where "nk = length key div 4"
  from assms have nk: "nk = 4 \<or> nk = 6 \<or> nk = 8" by (auto simp: nk_def)
  have len: "length key = 4 * nk" using assms by (auto simp: nk_def)
  let ?ws = "map (\<lambda>i. map unat (take 4 (drop (4 * i) key))) [0..<nk]"
  have "block_ok 4 (map unat (take 4 (drop (4 * i) key)))" if "i < nk" for i
    using block_ok_unat [of "take 4 (drop (4 * i) key)"] that len by simp
  then have ws: "words_ok nk ?ws" by (auto simp: words_ok_def)
  have "i div nk - 1 < 10" if "i < 4 * (nk + 7)" for i
    using nk that by (auto simp: less_mult_imp_div_less)
  then have "words_ok (4 * (nk + 7)) (fold (expand_step nk) [nk..<4 * (nk + 7)] ?ws)"
    using ws nk by (intro expand_words_ok [where N = "4 * (nk + 7)"]) auto
  then have "block_ok 16 k" if "k \<in> set (expand_key key nk)" for k
    using that concat_words_ok by (fastforce simp: expand_key_def Let_def)
  moreover have "length (expand_key key nk) = nk + 7" by (simp add: expand_key_def Let_def)
  ultimately show ?thesis
    using assms by (simp add: aes_init_def Let_def cipher_ok_def nk_def)
qed

section \<open>Bounds of the 128-bit values\<close>

definition is128 :: "nat \<Rightarrow> bool" where
  "is128 n \<longleftrightarrow> n < 2 ^ 128"

lemma is128_xor: "is128 a \<Longrightarrow> is128 b \<Longrightarrow> is128 (a XOR b)"
  unfolding is128_def by (rule xor_less_pow2)

lemma is128_le: "m \<le> n \<Longrightarrow> is128 n \<Longrightarrow> is128 m"
  unfolding is128_def by (rule order.strict_trans1)

lemma is128_drop: "is128 v \<Longrightarrow> is128 (drop_bit k v)"
  by (erule is128_le [rotated]) (simp add: drop_bit_eq_div)

lemma is128_poly: "is128 gcm_poly"
  by (simp add: is128_def gcm_poly_def)

lemma is128_from_be: "length bs = 16 \<Longrightarrow> is128 (from_be bs)"
  using from_be_less [of bs] by (simp add: is128_def)

lemma gf128_fold_is128:
  "is128 z \<Longrightarrow> is128 v \<Longrightarrow>
   is128 (fst (fold (gf128_step x) is (z, v))) \<and> is128 (snd (fold (gf128_step x) is (z, v)))"
proof (induction "is" arbitrary: z v)
  case (Cons i "is")
  obtain z' v' where step: "gf128_step x i (z, v) = (z', v')" by fastforce
  then have "is128 z'" "is128 v'"
    using Cons.prems is128_poly
    by (auto simp: gf128_step_def split: if_splits intro: is128_xor is128_drop)
  with Cons.IH step show ?case by simp
qed simp

lemma gf128_mul_is128: "is128 y \<Longrightarrow> is128 (gf128_mul x y)"
  unfolding gf128_mul_def by (rule gf128_fold_is128 [THEN conjunct1]) (simp_all add: is128_def)

lemma ghash_loop_is128: "is128 h \<Longrightarrow> is128 y \<Longrightarrow> is128 (ghash_loop h y data)"
proof (induction h y data rule: ghash_loop.induct)
  case (1 h y data)
  then show ?case by (subst ghash_loop.simps) (simp add: gf128_mul_is128)
qed

lemma ghash_is128: "is128 h \<Longrightarrow> is128 (ghash h data)"
  unfolding ghash_def by (rule ghash_loop_is128) (simp_all add: is128_def)

lemma next_counter_is128: "is128 n \<Longrightarrow> is128 (next_counter n)"
proof -
  assume n: "is128 n"
  have "is128 (push_bit 32 (drop_bit 32 n))"
    using n by (rule is128_le [rotated]) (simp add: push_bit_eq_mult drop_bit_eq_div)
  moreover have "(n + 1) AND 0xFFFFFFFF = take_bit 32 (n + 1)"
    by (simp add: take_bit_eq_mask mask_eq_exp_minus_1)
  then have "(n + 1) AND 0xFFFFFFFF < 2 ^ 32" by (metis take_bit_nat_less_exp)
  then have "is128 ((n + 1) AND 0xFFFFFFFF)" by (simp add: is128_def)
  ultimately show ?thesis unfolding next_counter_def is128_def by (rule or_less_pow2)
qed

lemma to_bytes_ok: "is128 n \<Longrightarrow> to_bytes 16 n = Inr (to_be 16 n)"
  by (simp add: to_bytes_def is128_def)

section \<open>CTR mode: total, and its own inverse\<close>

lemma map2_xor_cancel:
  "length (xs :: bytes) \<le> length ks \<Longrightarrow> map2 (XOR) (map2 (XOR) xs ks) ks = xs"
proof (induction xs arbitrary: ks)
  case (Cons x xs)
  then show ?case by (cases ks) (simp_all add: xor.assoc)
qed simp

text \<open>One turn of the loop on a non-empty input.\<close>

lemma gctr_unfold:
  assumes "cipher_ok c" "is128 n" "xs \<noteq> []"
  obtains ks where "length ks = 16"
    "\<And>ys. ys \<noteq> [] \<Longrightarrow> gctr c n ys = bindR (gctr c (next_counter n) (drop 16 ys))
       (\<lambda>rest. Inr (map2 (XOR) (take 16 ys) ks @ rest))"
proof -
  obtain ks where "encrypt_block c (to_be 16 n) = Inr ks" "length ks = 16"
    using encrypt_block_ok [OF assms(1), of "to_be 16 n"] by auto
  then show thesis
    using assms(2) by (intro that [of ks]) (simp_all add: gctr.simps [of c n] to_bytes_ok)
qed

lemma gctr_total:
  assumes c: "cipher_ok c"
  shows "is128 n \<Longrightarrow> \<exists>ys. gctr c n xs = Inr ys \<and> length ys = length xs"
proof (induction "length xs" arbitrary: xs n rule: less_induct)
  case less
  show ?case
  proof (cases "xs = []")
    case True
    then show ?thesis by (simp add: gctr.simps)
  next
    case False
    obtain ks where ks: "length ks = 16"
      "gctr c n xs = bindR (gctr c (next_counter n) (drop 16 xs))
         (\<lambda>rest. Inr (map2 (XOR) (take 16 xs) ks @ rest))"
      using gctr_unfold [OF c less.prems False] False by metis
    obtain rest where "gctr c (next_counter n) (drop 16 xs) = Inr rest"
      "length rest = length (drop 16 xs)"
      using less.hyps [of "drop 16 xs" "next_counter n"] False less.prems next_counter_is128 by auto
    with ks show ?thesis by simp
  qed
qed

lemma gctr_inverse:
  assumes c: "cipher_ok c"
  shows "is128 n \<Longrightarrow> gctr c n xs = Inr ys \<Longrightarrow> gctr c n ys = Inr xs"
proof (induction "length xs" arbitrary: xs ys n rule: less_induct)
  case less
  show ?case
  proof (cases "xs = []")
    case True
    with less.prems show ?thesis by (simp add: gctr.simps)
  next
    case False
    obtain ks where ks: "length ks = 16"
      "\<And>zs. zs \<noteq> [] \<Longrightarrow> gctr c n zs = bindR (gctr c (next_counter n) (drop 16 zs))
         (\<lambda>rest. Inr (map2 (XOR) (take 16 zs) ks @ rest))"
      using gctr_unfold [OF c less.prems(1) False] by metis
    with False less.prems(2) obtain rest where
      rest: "gctr c (next_counter n) (drop 16 xs) = Inr rest"
      and ys: "ys = map2 (XOR) (take 16 xs) ks @ rest"
      by (auto simp: bindR_Inr_conv)
    have tail: "gctr c (next_counter n) rest = Inr (drop 16 xs)"
    proof (rule less.hyps)
      show "length (drop 16 xs) < length xs" using False by simp
    qed (rule next_counter_is128 [OF less.prems(1)], rule rest)
    have len: "length rest = length (drop 16 xs)"
      using gctr_total [OF c next_counter_is128 [OF less.prems(1)], of "drop 16 xs"] rest by auto
    have "length ys = length xs"
      using gctr_total [OF c less.prems(1), of xs] less.prems(2) by auto
    with False have "ys \<noteq> []" by auto
    moreover have "take 16 ys = map2 (XOR) (take 16 xs) ks" "drop 16 ys = rest"
      using ys len ks(1) by (auto simp: min_def)
    ultimately show ?thesis
      using ks tail by (simp add: map2_xor_cancel)
  qed
qed

section \<open>Encryption and decryption\<close>

lemma gcm_tag_total:
  assumes "cipher_ok c" "is128 h" "is128 j0"
  shows "\<exists>tag. gcm_tag c h j0 aad ct = Inr tag \<and> length tag = 16"
proof -
  let ?s = "to_be 16 (ghash h (ghash_input aad ct))"
  have "to_bytes 16 (ghash h (ghash_input aad ct)) = Inr ?s"
    using assms(2) by (intro to_bytes_ok ghash_is128)
  moreover obtain block where "gctr c j0 ?s = Inr block" "length block = 16"
    using gctr_total [OF assms(1,3), of ?s] by auto
  ultimately show ?thesis by (simp add: gcm_tag_def)
qed

lemma from_be_append: "from_be (xs @ ys) = from_be xs * 256 ^ length ys + from_be ys"
  by (induction xs) (simp_all add: power_add algebra_simps)

lemma j0_succ_is128:
  assumes "length nonce = 12"
  shows "is128 (from_be (nonce @ [0, 0, 0, 1]))" "is128 (from_be (nonce @ [0, 0, 0, 1]) + 1)"
proof -
  have "from_be nonce < 256 ^ 12" using from_be_less [of nonce] assms by simp
  then have "from_be nonce * 256 ^ 4 + 2 < 2 ^ 128" by simp
  moreover have "from_be (nonce @ [0, 0, 0, 1]) = from_be nonce * 256 ^ 4 + 1"
    by (simp add: from_be_append)
  ultimately show "is128 (from_be (nonce @ [0, 0, 0, 1]))" "is128 (from_be (nonce @ [0, 0, 0, 1]) + 1)"
    by (simp_all add: is128_def)
qed

definition gcm_key_ok :: "bytes \<Rightarrow> bytes \<Rightarrow> bool" where
  "gcm_key_ok key nonce \<longleftrightarrow> length key \<in> {16, 24, 32} \<and> length nonce = 12"

text \<open>The set-up both directions share: a good cipher, a 128-bit hash key and start counter.\<close>

lemma gcm_setup:
  assumes "gcm_key_ok key nonce"
  obtains c h0 where "aes_init key = Inr c" "cipher_ok c"
    "encrypt_block c (replicate 16 0) = Inr h0" "is128 (from_be h0)"
proof -
  obtain c where c: "aes_init key = Inr c" "cipher_ok c"
    using aes_init_ok assms by (auto simp: gcm_key_ok_def)
  obtain h0 where "encrypt_block c (replicate 16 0) = Inr h0" "length h0 = 16"
    using encrypt_block_ok [OF c(2), of "replicate 16 0"] by auto
  with c that show thesis by (simp add: is128_from_be)
qed

lemma aes_gcm_encrypt_total:
  assumes "gcm_key_ok key nonce"
  shows "\<exists>ct. aes_gcm_encrypt key nonce pt aad = Inr ct \<and> length ct = length pt + 16"
proof -
  obtain c h0 where c: "aes_init key = Inr c" "cipher_ok c"
    "encrypt_block c (replicate 16 0) = Inr h0" "is128 (from_be h0)"
    using gcm_setup [OF assms] .
  let ?j0 = "from_be (nonce @ [0, 0, 0, 1])"
  have j: "is128 ?j0" "is128 (?j0 + 1)"
    using j0_succ_is128 assms by (simp_all add: gcm_key_ok_def)
  obtain ct where ct: "gctr c (?j0 + 1) pt = Inr ct" "length ct = length pt"
    using gctr_total [OF c(2) j(2)] by blast
  obtain tag where "gcm_tag c (from_be h0) ?j0 aad ct = Inr tag" "length tag = 16"
    using gcm_tag_total [OF c(2,4) j(1)] by blast
  with ct c assms show ?thesis by (simp add: aes_gcm_encrypt_def gcm_key_ok_def Let_def)
qed

lemma aes_gcm_decrypt_encrypt:
  assumes ok: "gcm_key_ok key nonce" and enc: "aes_gcm_encrypt key nonce pt aad = Inr data"
  shows "aes_gcm_decrypt key nonce data aad = Inr pt"
proof -
  obtain c h0 where c: "aes_init key = Inr c" "cipher_ok c"
    "encrypt_block c (replicate 16 0) = Inr h0" "is128 (from_be h0)"
    using gcm_setup [OF ok] .
  let ?j0 = "from_be (nonce @ [0, 0, 0, 1])"
  have j: "is128 ?j0" "is128 (?j0 + 1)"
    using j0_succ_is128 ok by (simp_all add: gcm_key_ok_def)
  from enc ok c obtain ct tag where ct: "gctr c (?j0 + 1) pt = Inr ct"
    and tag: "gcm_tag c (from_be h0) ?j0 aad ct = Inr tag" and data: "data = ct @ tag"
    by (auto simp: aes_gcm_encrypt_def gcm_key_ok_def Let_def bindR_Inr_conv)
  have "length tag = 16" using gcm_tag_total [OF c(2,4) j(1), of aad ct] tag by auto
  moreover have "gctr c (?j0 + 1) ct = Inr pt" using gctr_inverse [OF c(2) j(2) ct] .
  ultimately show ?thesis
    using ok c tag data by (simp add: aes_gcm_decrypt_def gcm_key_ok_def Let_def)
qed

lemma aes_gcm_encrypt_decrypt:
  assumes ok: "gcm_key_ok key nonce" and dec: "aes_gcm_decrypt key nonce data aad = Inr pt"
  shows "aes_gcm_encrypt key nonce pt aad = Inr data"
proof -
  obtain c h0 where c: "aes_init key = Inr c" "cipher_ok c"
    "encrypt_block c (replicate 16 0) = Inr h0" "is128 (from_be h0)"
    using gcm_setup [OF ok] .
  let ?j0 = "from_be (nonce @ [0, 0, 0, 1])"
  let ?ct = "take (length data - 16) data" and ?tag = "drop (length data - 16) data"
  have j: "is128 (?j0 + 1)"
    using j0_succ_is128 ok by (simp add: gcm_key_ok_def)
  from dec ok c have tag: "gcm_tag c (from_be h0) ?j0 aad ?ct = Inr ?tag"
    and pt: "gctr c (?j0 + 1) ?ct = Inr pt"
    by (auto simp: aes_gcm_decrypt_def gcm_key_ok_def Let_def bindR_Inr_conv split: if_splits)
  have "gctr c (?j0 + 1) pt = Inr ?ct" using gctr_inverse [OF c(2) j pt] .
  with tag ok c show ?thesis by (simp add: aes_gcm_encrypt_def gcm_key_ok_def Let_def)
qed

lemma aes_gcm_decrypt_errors:
  assumes ok: "gcm_key_ok key nonce" and dec: "aes_gcm_decrypt key nonce data aad = Inl e"
  shows "is_aes_gcm_error e"
proof -
  obtain c h0 where c: "aes_init key = Inr c" "cipher_ok c"
    "encrypt_block c (replicate 16 0) = Inr h0" "is128 (from_be h0)"
    using gcm_setup [OF ok] .
  let ?j0 = "from_be (nonce @ [0, 0, 0, 1])"
  let ?ct = "take (length data - 16) data"
  have j: "is128 ?j0" "is128 (?j0 + 1)"
    using j0_succ_is128 ok by (simp_all add: gcm_key_ok_def)
  obtain tag where "gcm_tag c (from_be h0) ?j0 aad ?ct = Inr tag"
    using gcm_tag_total [OF c(2,4) j(1)] by blast
  moreover obtain pt where "gctr c (?j0 + 1) ?ct = Inr pt"
    using gctr_total [OF c(2) j(2)] by blast
  ultimately show ?thesis
    using dec ok c
    by (auto simp: aes_gcm_decrypt_def gcm_key_ok_def Let_def is_aes_gcm_error_def split: if_splits)
qed

section \<open>The interface to authenticated encryption\<close>

text \<open>
  The backend dispatch at the end of \<^verbatim>\<open>aesgcm.py\<close>: callers see one pair of functions, either these
  pure ones or the wrappers of a library. The record is that pair.
\<close>

record aead =
  seal_bytes :: "bytes \<Rightarrow> bytes \<Rightarrow> bytes \<Rightarrow> bytes \<Rightarrow> gcm_error + bytes"
  open_bytes :: "bytes \<Rightarrow> bytes \<Rightarrow> bytes \<Rightarrow> bytes \<Rightarrow> gcm_error + bytes"

definition pure_aead :: aead where
  "pure_aead = \<lparr>seal_bytes = aes_gcm_encrypt, open_bytes = aes_gcm_decrypt\<rparr>"

text \<open>The wrappers around the \<^verbatim>\<open>cryptography\<close> package, whose two calls are parameters.\<close>

definition library_aead ::
  "(bytes \<Rightarrow> bytes \<Rightarrow> bytes \<Rightarrow> bytes \<Rightarrow> gcm_error + bytes) \<Rightarrow>
   (bytes \<Rightarrow> bytes \<Rightarrow> bytes \<Rightarrow> bytes \<Rightarrow> bytes option) \<Rightarrow> aead" where
  "library_aead lib_encrypt lib_decrypt =
     \<lparr>seal_bytes = (\<lambda>key nonce pt aad.
        if length nonce \<noteq> 12 then Inl NonceSize else lib_encrypt key nonce pt aad),
      open_bytes = (\<lambda>key nonce data aad.
        if length nonce \<noteq> 12 then Inl NonceSize
        else if length data < 16 then Inl CiphertextTooShort
        else (case lib_decrypt key nonce data aad of
                None \<Rightarrow> Inl AuthenticationFailed | Some pt \<Rightarrow> Inr pt))\<rparr>"

locale aead_scheme =
  fixes A :: aead
  assumes seal_total: "gcm_key_ok key nonce \<Longrightarrow> \<exists>ct. seal_bytes A key nonce pt aad = Inr ct"
    and open_seal: "gcm_key_ok key nonce \<Longrightarrow> seal_bytes A key nonce pt aad = Inr ct \<Longrightarrow>
      open_bytes A key nonce ct aad = Inr pt"
    and open_only_sealed: "gcm_key_ok key nonce \<Longrightarrow> open_bytes A key nonce ct aad = Inr pt \<Longrightarrow>
      seal_bytes A key nonce pt aad = Inr ct"
    and open_error: "gcm_key_ok key nonce \<Longrightarrow> open_bytes A key nonce ct aad = Inl e \<Longrightarrow>
      is_aes_gcm_error e"
begin

lemma seal_inject:
  assumes "gcm_key_ok key nonce" "seal_bytes A key nonce pt aad = Inr ct"
    "seal_bytes A key nonce pt' aad = Inr ct"
  shows "pt = pt'"
  using open_seal [OF assms(1,2)] open_seal [OF assms(1,3)] by simp

lemma open_iff: "gcm_key_ok key nonce \<Longrightarrow>
    open_bytes A key nonce ct aad = Inr pt \<longleftrightarrow> seal_bytes A key nonce pt aad = Inr ct"
  using open_seal open_only_sealed by blast

end

interpretation pure_gcm: aead_scheme pure_aead
  unfolding pure_aead_def
  by unfold_locales
    (simp_all, use aes_gcm_encrypt_total in blast, erule (1) aes_gcm_decrypt_encrypt,
      erule (1) aes_gcm_encrypt_decrypt, erule (1) aes_gcm_decrypt_errors)

end
