(* ===== verification/Sha256.thy ===== *)
theory Sha256
  imports Bytes
begin

unbundle bit_operations_syntax

text \<open>
  SHA-256 (FIPS 180-4) and HMAC-SHA256 (RFC 2104) as \<^verbatim>\<open>hashlib.sha256\<close> and
  \<^verbatim>\<open>hmac.new(key, msg, hashlib.sha256)\<close> compute them, HKDF-SHA256 as the code writes it out
  (\<^verbatim>\<open>_hkdf_sha256\<close> in \<^verbatim>\<open>persistence/cipher.py\<close> and \<^verbatim>\<open>crypto/seal.py\<close>), and
  \<^verbatim>\<open>hmac.compare_digest\<close>.
\<close>

type_synonym w32 = "32 word"

definition sha_k :: "w32 list" where
  "sha_k = [
    0x428A2F98, 0x71374491, 0xB5C0FBCF, 0xE9B5DBA5, 0x3956C25B, 0x59F111F1, 0x923F82A4, 0xAB1C5ED5,
    0xD807AA98, 0x12835B01, 0x243185BE, 0x550C7DC3, 0x72BE5D74, 0x80DEB1FE, 0x9BDC06A7, 0xC19BF174,
    0xE49B69C1, 0xEFBE4786, 0x0FC19DC6, 0x240CA1CC, 0x2DE92C6F, 0x4A7484AA, 0x5CB0A9DC, 0x76F988DA,
    0x983E5152, 0xA831C66D, 0xB00327C8, 0xBF597FC7, 0xC6E00BF3, 0xD5A79147, 0x06CA6351, 0x14292967,
    0x27B70A85, 0x2E1B2138, 0x4D2C6DFC, 0x53380D13, 0x650A7354, 0x766A0ABB, 0x81C2C92E, 0x92722C85,
    0xA2BFE8A1, 0xA81A664B, 0xC24B8B70, 0xC76C51A3, 0xD192E819, 0xD6990624, 0xF40E3585, 0x106AA070,
    0x19A4C116, 0x1E376C08, 0x2748774C, 0x34B0BCB5, 0x391C0CB3, 0x4ED8AA4A, 0x5B9CCA4F, 0x682E6FF3,
    0x748F82EE, 0x78A5636F, 0x84C87814, 0x8CC70208, 0x90BEFFFA, 0xA4506CEB, 0xBEF9A3F7, 0xC67178F2]"

definition sha_init :: "w32 list" where
  "sha_init = [
    0x6A09E667, 0xBB67AE85, 0x3C6EF372, 0xA54FF53A, 0x510E527F, 0x9B05688C, 0x1F83D9AB, 0x5BE0CD19]"

definition rotr :: "nat \<Rightarrow> w32 \<Rightarrow> w32" where
  "rotr n x = word_rotr n x"

definition sha_pad :: "bytes \<Rightarrow> bytes" where
  "sha_pad m = m @ 0x80 # replicate ((119 - length m mod 64) mod 64) 0 @ to_be 8 (8 * length m)"

fun word_of_bytes :: "bytes \<Rightarrow> w32 list" where
  "word_of_bytes (a # b # c # d # bs) = word_of_nat (from_be [a, b, c, d]) # word_of_bytes bs"
| "word_of_bytes _ = []"

definition bytes_of_word :: "w32 \<Rightarrow> bytes" where
  "bytes_of_word w = to_be 4 (unat w)"

text \<open>The message schedule, newest word first.\<close>

fun sha_schedule :: "nat \<Rightarrow> w32 list \<Rightarrow> w32 list" where
  "sha_schedule 0 ws = ws"
| "sha_schedule (Suc n) ws =
     (let a = ws ! 14; b = ws ! 1;
          s0 = rotr 7 a XOR rotr 18 a XOR drop_bit 3 a;
          s1 = rotr 17 b XOR rotr 19 b XOR drop_bit 10 b
      in sha_schedule n ((ws ! 15 + s0 + ws ! 6 + s1) # ws))"

type_synonym sha_state = "w32 \<times> w32 \<times> w32 \<times> w32 \<times> w32 \<times> w32 \<times> w32 \<times> w32"

fun sha_round :: "w32 \<times> w32 \<Rightarrow> sha_state \<Rightarrow> sha_state" where
  "sha_round (k, w) (a, b, c, d, e, f, g, h) =
     (let s1 = rotr 6 e XOR rotr 11 e XOR rotr 25 e;
          ch = (e AND f) XOR (NOT e AND g);
          t1 = h + s1 + ch + k + w;
          s0 = rotr 2 a XOR rotr 13 a XOR rotr 22 a;
          maj = (a AND b) XOR (a AND c) XOR (b AND c)
      in (t1 + s0 + maj, a, b, c, d + t1, e, f, g))"

definition sha_block :: "bytes \<Rightarrow> sha_state \<Rightarrow> sha_state" where
  "sha_block blk st =
     (case fold sha_round (zip sha_k (rev (sha_schedule 48 (rev (word_of_bytes blk))))) st of
        (a', b', c', d', e', f', g', h') \<Rightarrow>
          (case st of (a, b, c, d, e, f, g, h) \<Rightarrow>
             (a + a', b + b', c + c', d + d', e + e', f + f', g + g', h + h')))"

function sha_blocks :: "bytes \<Rightarrow> sha_state \<Rightarrow> sha_state" where
  "sha_blocks m st = (if m = [] then st else sha_blocks (drop 64 m) (sha_block (take 64 m) st))"
  by pat_completeness auto
termination
  by (relation "measure (\<lambda>(m, st). length m)") auto

declare sha_blocks.simps [simp del]

definition sha256 :: "bytes \<Rightarrow> bytes" where
  "sha256 m =
     (case sha_blocks (sha_pad m)
         (sha_init ! 0, sha_init ! 1, sha_init ! 2, sha_init ! 3,
          sha_init ! 4, sha_init ! 5, sha_init ! 6, sha_init ! 7) of
        (a, b, c, d, e, f, g, h) \<Rightarrow> concat (map bytes_of_word [a, b, c, d, e, f, g, h]))"

definition sha256_hex :: "bytes \<Rightarrow> string" where
  "sha256_hex m = to_hex (sha256 m)"

lemma length_bytes_of_word [simp]: "length (bytes_of_word w) = 4"
  by (simp add: bytes_of_word_def)

lemma length_sha256 [simp]: "length (sha256 m) = 32"
  by (simp add: sha256_def split: prod.split)

lemma length_sha256_hex [simp]: "length (sha256_hex m) = 64"
  by (simp add: sha256_hex_def)

lemma sha256_hex_inject: "sha256_hex m = sha256_hex n \<longleftrightarrow> sha256 m = sha256 n"
  by (simp add: sha256_hex_def to_hex_inject)

lemma hex_digit_lower: "n < 16 \<Longrightarrow> is_digit (hex_digit n) \<or> is_lower_ascii (hex_digit n)"
  by (auto simp: hex_digit_def is_digit_def is_lower_ascii_def)

lemma to_hex_chars: "list_all (\<lambda>c. is_digit c \<or> is_lower_ascii c) (to_hex bs)"
proof (induction bs)
  case Nil
  then show ?case by (simp add: to_hex_def)
next
  case (Cons b bs)
  have "unat b div 16 < 16" using unat_byte_less [of b] by (simp add: less_mult_imp_div_less)
  with Cons show ?case by (simp add: to_hex_def hex_of_byte_def hex_digit_lower)
qed

lemma sha256_hex_ascii: "list_all is_ascii (sha256_hex m)"
  using to_hex_chars [of "sha256 m"]
  by (auto simp: sha256_hex_def list_all_iff is_ascii_def is_digit_def is_lower_ascii_def)

section \<open>HMAC and HKDF\<close>

definition hmac_key :: "bytes \<Rightarrow> bytes" where
  "hmac_key k = (let k' = (if 64 < length k then sha256 k else k) in k' @ replicate (64 - length k') 0)"

definition hmac_sha256 :: "bytes \<Rightarrow> bytes \<Rightarrow> bytes" where
  "hmac_sha256 k m =
     sha256 (map (\<lambda>b. b XOR 0x5C) (hmac_key k) @ sha256 (map (\<lambda>b. b XOR 0x36) (hmac_key k) @ m))"

lemma length_hmac_sha256 [simp]: "length (hmac_sha256 k m) = 32"
  by (simp add: hmac_sha256_def)

text \<open>
  The loop \<^verbatim>\<open>while len(okm) < length\<close>: each turn adds a block of 32 bytes, so it stops; the
  counter byte \<^verbatim>\<open>bytes([counter])\<close> raises above 255 (\<open>None\<close>).
\<close>

function hkdf_loop :: "bytes \<Rightarrow> bytes \<Rightarrow> nat \<Rightarrow> bytes \<Rightarrow> bytes \<Rightarrow> nat \<Rightarrow> bytes option" where
  "hkdf_loop prk info len okm t counter =
     (if length okm < len then
        (if counter < 256 then
           (let t' = hmac_sha256 prk (t @ info @ [word_of_nat counter])
            in hkdf_loop prk info len (okm @ t') t' (counter + 1))
         else None)
      else Some (take len okm))"
  by pat_completeness auto
termination
  by (relation "measure (\<lambda>(prk, info, len, okm, t, counter). 256 - counter)") auto

declare hkdf_loop.simps [simp del]

definition hkdf_sha256 :: "bytes \<Rightarrow> bytes \<Rightarrow> nat \<Rightarrow> bytes option" where
  "hkdf_sha256 ikm info len = hkdf_loop (hmac_sha256 (replicate 32 0) ikm) info len [] [] 1"

lemma hkdf_sha256_32: "\<exists>k. hkdf_sha256 ikm info 32 = Some k \<and> length k = 32"
  by (simp add: hkdf_sha256_def hkdf_loop.simps Let_def)

text \<open>
  \<^verbatim>\<open>hmac.compare_digest\<close> on two strings: a \<^verbatim>\<open>TypeError\<close> when either holds a character
  outside ASCII.
\<close>

datatype digest_error = NonAsciiDigest

definition compare_digest :: "string \<Rightarrow> string \<Rightarrow> digest_error + bool" where
  "compare_digest a b =
     (if list_all is_ascii a \<and> list_all is_ascii b then Inr (a = b) else Inl NonAsciiDigest)"

end
