(* ===== verification/Cipher.thy ===== *)
theory Cipher
  imports Aes_Gcm Sha256
begin

text \<open>
  \<^verbatim>\<open>app/persistence/cipher.py\<close>: the data key derived from the master secret, and
  \<^verbatim>\<open>SecretsCipher\<close>, which seals a JSON object to a printable blob bound to an associated string.
  The operations take the pair of AEAD functions they call (\<open>aead\<close>) and, where the code draws
  \<^verbatim>\<open>os.urandom(12)\<close>, the nonce that was drawn. \<^verbatim>\<open>json.loads\<close> on bytes is read as UTF-8.
\<close>

datatype cipher_error =
    DataKeySize | MasterSecretShort | HkdfTooLong
  | UnknownFormat | BadBase64 | GcmError gcm_error
  | FailedAuthentication | NotUtf8 | NotJson | NotObject

text \<open>The errors raised as \<^verbatim>\<open>CipherError\<close>; the others are other \<^verbatim>\<open>ValueError\<close>s.\<close>

definition is_cipher_error :: "cipher_error \<Rightarrow> bool" where
  "is_cipher_error e \<longleftrightarrow>
     e \<in> {DataKeySize, MasterSecretShort, UnknownFormat, FailedAuthentication, NotJson, NotObject}"

definition key_info :: bytes where
  "key_info = utf8_encode ''zagros/db-credentials/v1''"

definition blob_prefix :: string where
  "blob_prefix = ''v1:''"

definition derive_key :: "bytes \<Rightarrow> bytes \<Rightarrow> cipher_error + bytes" where
  "derive_key master_secret info =
     (if length master_secret < 16 then Inl MasterSecretShort
      else (case hkdf_sha256 master_secret info 32 of
              None \<Rightarrow> Inl HkdfTooLong | Some k \<Rightarrow> Inr k))"

record secrets_cipher =
  cipher_key :: bytes

definition new_cipher :: "bytes \<Rightarrow> cipher_error + secrets_cipher" where
  "new_cipher key = (if length key \<noteq> 32 then Inl DataKeySize else Inr \<lparr>cipher_key = key\<rparr>)"

definition from_master_secret :: "bytes \<Rightarrow> cipher_error + secrets_cipher" where
  "from_master_secret master_secret = bindR (derive_key master_secret key_info) new_cipher"

definition encrypt_json ::
  "aead \<Rightarrow> secrets_cipher \<Rightarrow> bytes \<Rightarrow> jobj \<Rightarrow> string \<Rightarrow> cipher_error + string" where
  "encrypt_json A C nonce value aad =
     (let plaintext = utf8_encode (json_dumps compact_style (JObj value)) in
      case seal_bytes A (cipher_key C) nonce plaintext (utf8_encode aad) of
        Inl e \<Rightarrow> Inl (GcmError e)
      | Inr ct \<Rightarrow> Inr (blob_prefix @ b64_encode b64_std (nonce @ ct)))"

text \<open>\<^verbatim>\<open>base64.b64decode\<close> on a \<^verbatim>\<open>str\<close>: non-ASCII text is a \<^verbatim>\<open>ValueError\<close>.\<close>

definition b64decode_str :: "string \<Rightarrow> bytes option" where
  "b64decode_str s = (if list_all is_ascii s then b64_decode b64_std s else None)"

definition decrypt_json :: "aead \<Rightarrow> secrets_cipher \<Rightarrow> string \<Rightarrow> string \<Rightarrow> cipher_error + jobj" where
  "decrypt_json A C blob aad =
     (if \<not> starts_with blob blob_prefix then Inl UnknownFormat
      else
        case b64decode_str (drop (length blob_prefix) blob) of
          None \<Rightarrow> Inl BadBase64
        | Some raw \<Rightarrow>
            (case open_bytes A (cipher_key C) (take 12 raw) (drop 12 raw) (utf8_encode aad) of
               Inl e \<Rightarrow> Inl (if is_aes_gcm_error e then FailedAuthentication else GcmError e)
             | Inr plaintext \<Rightarrow>
                 (case utf8_decode plaintext of
                    None \<Rightarrow> Inl NotUtf8
                  | Some s \<Rightarrow>
                      (case json_loads s of
                         None \<Rightarrow> Inl NotJson
                       | Some (JObj d) \<Rightarrow> Inr d
                       | Some _ \<Rightarrow> Inl NotObject))))"

definition cipher_ready :: "secrets_cipher \<Rightarrow> bool" where
  "cipher_ready C \<longleftrightarrow> length (cipher_key C) = 32"

lemma new_cipher_ready: "new_cipher key = Inr C \<Longrightarrow> cipher_ready C"
  by (auto simp: new_cipher_def cipher_ready_def split: if_splits)

lemma from_master_secret_iff: "is_ok (from_master_secret s) \<longleftrightarrow> 16 \<le> length s"
  using hkdf_sha256_32 [of s key_info]
  by (auto simp: from_master_secret_def derive_key_def new_cipher_def)

lemma cipher_ready_key: "cipher_ready C \<Longrightarrow> length nonce = 12 \<Longrightarrow> gcm_key_ok (cipher_key C) nonce"
  by (simp add: cipher_ready_def gcm_key_ok_def)

lemma b64_char_ascii: "n < 64 \<Longrightarrow> is_ascii (b64_char b64_std n)"
  by (auto simp: b64_char_def b64_std_def is_ascii_def)

lemma b64_encode_ascii: "list_all is_ascii (b64_encode b64_std xs)"
  by (induction b64_std xs rule: b64_encode.induct)
    (simp_all add: b64_char_ascii byte_sextets, simp_all add: is_ascii_def)

lemma b64decode_str_encode: "b64decode_str (b64_encode b64_std xs) = Some xs"
  by (simp add: b64decode_str_def b64_encode_ascii b64_round_trip alphabet_ok_std)

context aead_scheme
begin

lemma encrypt_json_total:
  assumes "cipher_ready C" "length nonce = 12"
  shows "\<exists>blob. encrypt_json A C nonce v aad = Inr blob"
proof -
  obtain ct where "seal_bytes A (cipher_key C) nonce
      (utf8_encode (json_dumps compact_style (JObj v))) (utf8_encode aad) = Inr ct"
    using seal_total cipher_ready_key [OF assms] by blast
  then show ?thesis by (simp add: encrypt_json_def Let_def)
qed

lemma decrypt_encrypt_json:
  assumes C: "cipher_ready C" and n: "length nonce = 12" and v: "json_ok (JObj v)"
    and enc: "encrypt_json A C nonce v aad = Inr blob"
  shows "decrypt_json A C blob aad = Inr v"
proof -
  let ?pt = "utf8_encode (json_dumps compact_style (JObj v))"
  note key = cipher_ready_key [OF C n]
  from enc obtain ct where ct: "seal_bytes A (cipher_key C) nonce ?pt (utf8_encode aad) = Inr ct"
    and blob: "blob = blob_prefix @ b64_encode b64_std (nonce @ ct)"
    by (auto simp: encrypt_json_def Let_def split: sum.splits)
  from open_seal [OF key ct] have
    "open_bytes A (cipher_key C) nonce ct (utf8_encode aad) = Inr ?pt" .
  then show ?thesis
    using n v by (simp add: decrypt_json_def blob b64decode_str_encode utf8_round_trip
        json_loads_dumps style_ok_compact del: json_ok.simps)
qed

text \<open>A blob that opens holds a value that was sealed under the same key and associated string.\<close>

lemma decrypt_json_sealed:
  assumes C: "cipher_ready C" and dec: "decrypt_json A C blob aad = Inr v"
    and len: "b64decode_str (drop (length blob_prefix) blob) = Some raw" "12 \<le> length raw"
  shows "\<exists>pt. seal_bytes A (cipher_key C) (take 12 raw) pt (utf8_encode aad) = Inr (drop 12 raw) \<and>
    (\<exists>s. utf8_decode pt = Some s \<and> json_loads s = Some (JObj v))"
proof -
  from dec len(1) obtain pt s where
    open_pt: "open_bytes A (cipher_key C) (take 12 raw) (drop 12 raw) (utf8_encode aad) = Inr pt"
    and s: "utf8_decode pt = Some s" "json_loads s = Some (JObj v)"
    by (auto simp: decrypt_json_def
        split: if_splits option.splits sum.splits json.splits)
  have "gcm_key_ok (cipher_key C) (take 12 raw)"
    using C len(2) by (intro cipher_ready_key) auto
  with open_pt have "seal_bytes A (cipher_key C) (take 12 raw) pt (utf8_encode aad) = Inr (drop 12 raw)"
    by (intro open_only_sealed)
  with s show ?thesis by blast
qed

end

end
