(* ===== verification/Security.thy ===== *)
theory Security
  imports Cipher
begin

text \<open>
  \<^verbatim>\<open>node_agent/security.py\<close>: the sealed node identity and its one-time registration token
  (\<open>id_store\<close>), the replay guard (\<open>replay_guard\<close>) with its persisted nonce cache, and the canonical
  request that a command's HMAC covers. What the code draws from the system (random bytes,
  the clock) is an argument of the operation that draws it.
\<close>

datatype exc =
    NodeSecurityError string
  | ValueError
  | TypeError
  | AttributeError

text \<open>\<^verbatim>\<open>NodeSecurityError\<close> is a \<^verbatim>\<open>ValueError\<close>.\<close>

definition is_value_error :: "exc \<Rightarrow> bool" where
  "is_value_error e \<longleftrightarrow> (case e of NodeSecurityError _ \<Rightarrow> True | ValueError \<Rightarrow> True | _ \<Rightarrow> False)"

section \<open>The identity store\<close>

record identity =
  node_id :: string
  registration_token_hash :: string
  signing_key_enc :: "string option"
  registered_panel :: "string option"
  registered_at :: "int option"

record audit_row =
  row_ts :: int
  row_action :: string
  row_detail :: jobj

text \<open>
  The state directory: \<^verbatim>\<open>identity.key\<close>, \<^verbatim>\<open>identity.json\<close> (absent before the first start) and
  \<^verbatim>\<open>audit.jsonl\<close>. Every operation of the code reads \<^verbatim>\<open>identity.json\<close> and replaces it whole.
\<close>

record id_disk =
  key_file :: "bytes option"
  identity_file :: "identity option"
  audit_file :: "audit_row list"

record id_store =
  id_cipher :: secrets_cipher
  ident :: identity
  audit_log :: "audit_row list"

definition fresh_identity :: "string \<Rightarrow> string option \<Rightarrow> identity" where
  "fresh_identity nid registration_hash =
     \<lparr>node_id = nid,
      registration_token_hash = (case registration_hash of None \<Rightarrow> [] | Some h \<Rightarrow> h),
      signing_key_enc = None, registered_panel = None, registered_at = None\<rparr>"

text \<open>\<^verbatim>\<open>NodeIdentityStore.__init__\<close>; \<open>key_draw\<close> and \<open>id_draw\<close> are the random bytes it would draw.\<close>

definition open_identity ::
  "id_disk \<Rightarrow> string option \<Rightarrow> bytes \<Rightarrow> bytes \<Rightarrow> exc + id_store" where
  "open_identity disk registration_hash key_draw id_draw =
     (let local_key = (case key_file disk of None \<Rightarrow> key_draw | Some k \<Rightarrow> k) in
      if length local_key \<noteq> 32
      then Inl (NodeSecurityError ''identity.key must contain exactly 32 bytes'')
      else
        let state =
          (case identity_file disk of
             None \<Rightarrow> fresh_identity (to_hex id_draw) registration_hash
           | Some st \<Rightarrow>
               (case registration_hash of
                  None \<Rightarrow> st
                | Some h \<Rightarrow>
                    if h \<noteq> [] \<and> registration_token_hash st \<noteq> h
                    then st\<lparr>registration_token_hash := h\<rparr> else st))
        in Inr \<lparr>id_cipher = \<lparr>cipher_key = local_key\<rparr>, ident = state, audit_log = audit_file disk\<rparr>)"

text \<open>What a stopped agent leaves on disk.\<close>

definition disk_of :: "id_store \<Rightarrow> id_disk" where
  "disk_of s =
     \<lparr>key_file = Some (cipher_key (id_cipher s)), identity_file = Some (ident s),
      audit_file = audit_log s\<rparr>"

definition has_pending_token :: "id_store \<Rightarrow> bool" where
  "has_pending_token s \<longleftrightarrow> registration_token_hash (ident s) \<noteq> []"

definition signing_aad :: "string \<Rightarrow> string" where
  "signing_aad nid = ''node-signing:'' @ nid"

definition seal_signing_key :: "aead \<Rightarrow> id_store \<Rightarrow> bytes \<Rightarrow> bytes \<Rightarrow> string \<Rightarrow> cipher_error + string" where
  "seal_signing_key A s nonce key nid =
     encrypt_json A (id_cipher s) nonce [(''key'', JStr (b64_encode b64_std key))] (signing_aad nid)"

text \<open>\<^verbatim>\<open>base64.b64decode(unsealed["key"])\<close>, any exception being \<open>None\<close>.\<close>

definition unsealed_key :: "jobj \<Rightarrow> bytes option" where
  "unsealed_key d = (case dget d ''key'' of Some (JStr t) \<Rightarrow> b64decode_str t | _ \<Rightarrow> None)"

definition signing_key :: "aead \<Rightarrow> id_store \<Rightarrow> exc + bytes option" where
  "signing_key A s =
     (case signing_key_enc (ident s) of
        None \<Rightarrow> Inr None
      | Some value \<Rightarrow>
          if value = [] then Inr None
          else
            (case decrypt_json A (id_cipher s) value (signing_aad (node_id (ident s))) of
               Inl _ \<Rightarrow> Inl (NodeSecurityError ''node signing key cannot be unsealed'')
             | Inr unsealed \<Rightarrow>
                 (case unsealed_key unsealed of
                    None \<Rightarrow> Inl (NodeSecurityError ''node signing key cannot be unsealed'')
                  | Some key \<Rightarrow>
                      if length key \<noteq> 32
                      then Inl (NodeSecurityError ''node signing key has invalid length'')
                      else Inr (Some key))))"

definition audit :: "int \<Rightarrow> string \<Rightarrow> jobj \<Rightarrow> id_store \<Rightarrow> id_store" where
  "audit now action detail s =
     s\<lparr>audit_log := audit_log s @ [\<lparr>row_ts = now, row_action = action, row_detail = detail\<rparr>]\<rparr>"

text \<open>\<^verbatim>\<open>lines[-limit:]\<close>.\<close>

definition audit_tail :: "id_store \<Rightarrow> int \<Rightarrow> audit_row list" where
  "audit_tail s limit =
     (if 0 < limit then drop (length (audit_log s) - nat limit) (audit_log s)
      else drop (nat (- limit)) (audit_log s))"

definition register ::
  "aead \<Rightarrow> id_store \<Rightarrow> string \<Rightarrow> string \<Rightarrow> bytes \<Rightarrow> bytes \<Rightarrow> int \<Rightarrow> (exc + bytes) \<times> id_store" where
  "register A s token panel_id key nonce now =
     (let expected = registration_token_hash (ident s);
          actual = sha256_hex (utf8_encode token);
          refused = Inl (NodeSecurityError ''invalid or already-consumed registration token'')
      in if expected = [] then (refused, s)
         else
           case compare_digest expected actual of
             Inl _ \<Rightarrow> (Inl TypeError, s)
           | Inr False \<Rightarrow> (refused, s)
           | Inr True \<Rightarrow>
               (case seal_signing_key A s nonce key (node_id (ident s)) of
                  Inl _ \<Rightarrow> (Inl ValueError, s)
                | Inr blob \<Rightarrow>
                    (Inr key,
                     audit now ''node.register'' [(''panel_id'', JStr panel_id)]
                       (s\<lparr>ident := (ident s)
                            \<lparr>registration_token_hash := [], signing_key_enc := Some blob,
                             registered_panel := Some panel_id, registered_at := Some now\<rparr>\<rparr>))))"

definition unpaired :: "identity \<Rightarrow> identity" where
  "unpaired st = st\<lparr>signing_key_enc := None, registered_panel := None, registered_at := None\<rparr>"

definition revoke :: "id_store \<Rightarrow> int \<Rightarrow> id_store" where
  "revoke s now = audit now ''node.revoke'' [] (s\<lparr>ident := unpaired (ident s)\<rparr>)"

definition reset_registration :: "id_store \<Rightarrow> string \<Rightarrow> int \<Rightarrow> id_store" where
  "reset_registration s registration_hash now =
     audit now ''node.reset_registration'' []
       (s\<lparr>ident := (unpaired (ident s))\<lparr>registration_token_hash := registration_hash\<rparr>\<rparr>)"

section \<open>The replay guard\<close>

record replay_guard =
  window :: int
  seen :: "(string, int) dict"
  replay_file :: "string option"

text \<open>The file is \<^verbatim>\<open>json.dumps(seen, sort_keys=True) + "\n"\<close>.\<close>

definition newline :: string where
  "newline = [chr 10]"

definition seen_json :: "(string, int) dict \<Rightarrow> json" where
  "seen_json d = JObj (map (\<lambda>(k, t). (k, JInt t)) d)"

definition replay_text :: "(string, int) dict \<Rightarrow> string" where
  "replay_text d = json_dumps default_style (jsort (seen_json d)) @ newline"

text \<open>\<^verbatim>\<open>{str(key): int(ts) for key, ts in value.items()}\<close>.\<close>

fun int_items :: "jobj \<Rightarrow> (conv_error + (string, int) dict)" where
  "int_items [] = Inr []"
| "int_items ((k, v) # d) = bindR (py_int v) (\<lambda>t. bindR (int_items d) (\<lambda>rest. Inr ((k, t) # rest)))"

text \<open>\<^verbatim>\<open>ReplayGuard.__init__\<close> with a state directory.\<close>

definition open_replay :: "string option \<Rightarrow> int \<Rightarrow> exc + replay_guard" where
  "open_replay file w =
     (case file of
        None \<Rightarrow> Inr \<lparr>window = w, seen = [], replay_file = None\<rparr>
      | Some txt \<Rightarrow>
          (case json_loads txt of
             None \<Rightarrow> Inl (NodeSecurityError ''node replay cache is invalid'')
           | Some (JObj d) \<Rightarrow>
               (case int_items d of
                  Inl _ \<Rightarrow> Inl (NodeSecurityError ''node replay cache is invalid'')
                | Inr ts \<Rightarrow> Inr \<lparr>window = w, seen = ts, replay_file = file\<rparr>)
           | Some _ \<Rightarrow> Inl AttributeError))"

definition nonce_ok :: "string \<Rightarrow> bool" where
  "nonce_ok nonce \<longleftrightarrow> 16 \<le> length nonce \<and> length nonce \<le> 128 \<and> py_isalnum nonce"

definition prune :: "replay_guard \<Rightarrow> int \<Rightarrow> replay_guard" where
  "prune g now = g\<lparr>seen := filter (\<lambda>(key, ts). now - ts \<le> window g) (seen g)\<rparr>"

definition accept :: "replay_guard \<Rightarrow> string \<Rightarrow> int \<Rightarrow> int \<Rightarrow> (exc + unit) \<times> replay_guard" where
  "accept g nonce ts now =
     (if window g < \<bar>now - ts\<bar>
      then (Inl (NodeSecurityError ''request timestamp is outside the replay window''), g)
      else if \<not> nonce_ok nonce
      then (Inl (NodeSecurityError ''invalid request nonce''), g)
      else
        let g1 = prune g now in
        if dget (seen g1) nonce \<noteq> None
        then (Inl (NodeSecurityError ''replayed request nonce''), g1)
        else
          let seen2 = dput nonce ts (seen g1)
          in (Inr (), g1\<lparr>seen := seen2, replay_file := Some (replay_text seen2)\<rparr>))"

section \<open>Request signatures\<close>

definition canonical_request :: "string \<Rightarrow> string \<Rightarrow> string \<Rightarrow> string \<Rightarrow> bytes \<Rightarrow> bytes" where
  "canonical_request method path timestamp nonce body =
     utf8_encode (py_join newline [py_upper method, path, timestamp, nonce, sha256_hex body])"

definition signature :: "bytes \<Rightarrow> string \<Rightarrow> string \<Rightarrow> string \<Rightarrow> string \<Rightarrow> bytes \<Rightarrow> string" where
  "signature key method path timestamp nonce body =
     to_hex (hmac_sha256 key (canonical_request method path timestamp nonce body))"

definition verify_signature ::
  "bytes \<Rightarrow> string \<Rightarrow> string \<Rightarrow> string \<Rightarrow> string \<Rightarrow> string \<Rightarrow> bytes \<Rightarrow> exc + unit" where
  "verify_signature key provided method path timestamp nonce body =
     (case compare_digest (signature key method path timestamp nonce body) provided of
        Inl _ \<Rightarrow> Inl TypeError
      | Inr ok \<Rightarrow> if ok then Inr () else Inl (NodeSecurityError ''invalid request signature''))"

section \<open>Lemmas on the identity store\<close>

definition store_ready :: "id_store \<Rightarrow> bool" where
  "store_ready s \<longleftrightarrow> cipher_ready (id_cipher s)"

lemma open_identity_ready: "open_identity disk h kd idd = Inr s \<Longrightarrow> store_ready s"
  by (auto simp: open_identity_def store_ready_def cipher_ready_def Let_def split: if_splits)

lemma audit_simps [simp]:
  "ident (audit t a d s) = ident s" "id_cipher (audit t a d s) = id_cipher s"
  "audit_log (audit t a d s) = audit_log s @ [\<lparr>row_ts = t, row_action = a, row_detail = d\<rparr>]"
  by (simp_all add: audit_def)

lemma register_consumed:
  assumes "registration_token_hash (ident s) = []"
  shows "register A s token panel key nonce now =
    (Inl (NodeSecurityError ''invalid or already-consumed registration token''), s)"
  using assms by (simp add: register_def Let_def)

lemma register_error_unchanged:
  "register A s token panel key nonce now = (Inl e, s') \<Longrightarrow> s' = s"
  by (auto simp: register_def Let_def split: if_splits sum.splits bool.splits)

lemma register_accepts_only:
  assumes "register A s token panel key nonce now = (Inr k, s')"
  shows "registration_token_hash (ident s) = sha256_hex (utf8_encode token)" "k = key"
    "registration_token_hash (ident s') = []" "registered_panel (ident s') = Some panel"
    "registered_at (ident s') = Some now" "node_id (ident s') = node_id (ident s)"
    "id_cipher s' = id_cipher s"
  using assms
  by (auto simp: register_def compare_digest_def Let_def split: if_splits sum.splits bool.splits)

lemma aead_key_blob_not_Nil: "encrypt_json A C nonce v aad = Inr blob \<Longrightarrow> blob \<noteq> []"
  by (auto simp: encrypt_json_def blob_prefix_def Let_def split: sum.splits)

context aead_scheme
begin

lemma register_total:
  assumes ready: "store_ready s" and n: "length nonce = 12"
    and tok: "registration_token_hash (ident s) = sha256_hex (utf8_encode token)"
  shows "\<exists>s'. register A s token panel key nonce now = (Inr key, s')"
proof -
  obtain blob where "seal_signing_key A s nonce key (node_id (ident s)) = Inr blob"
    using encrypt_json_total ready n unfolding seal_signing_key_def store_ready_def by blast
  moreover have "sha256_hex (utf8_encode token) \<noteq> []"
    using length_sha256_hex by (metis list.size(3) zero_neq_numeral)
  ultimately show ?thesis
    using tok by (simp add: register_def compare_digest_def sha256_hex_ascii)
qed

lemma signing_key_after_register:
  assumes ready: "store_ready s" and n: "length nonce = 12" and k: "length key = 32"
    and reg: "register A s token panel key nonce now = (Inr k', s')"
  shows "signing_key A s' = Inr (Some key)"
proof -
  from reg obtain blob where blob: "seal_signing_key A s nonce key (node_id (ident s)) = Inr blob"
    and enc: "signing_key_enc (ident s') = Some blob"
    by (auto simp: register_def Let_def split: if_splits sum.splits bool.splits)
  note keep = register_accepts_only [OF reg]
  from blob have sealed: "encrypt_json A (id_cipher s') nonce [(''key'', JStr (b64_encode b64_std key))]
      (signing_aad (node_id (ident s'))) = Inr blob"
    by (simp add: seal_signing_key_def keep)
  have "decrypt_json A (id_cipher s') blob (signing_aad (node_id (ident s'))) =
      Inr [(''key'', JStr (b64_encode b64_std key))]"
    using ready keep(7) by (intro decrypt_encrypt_json [OF _ n _ sealed])
      (simp_all add: store_ready_def)
  then show ?thesis
    using enc k aead_key_blob_not_Nil [OF sealed]
    by (simp add: signing_key_def unsealed_key_def b64decode_str_encode)
qed

end

lemma reopen_disk_of:
  assumes "store_ready s"
  shows "open_identity (disk_of s) None kd idd = Inr s"
  using assms by (cases s) (simp add: open_identity_def disk_of_def store_ready_def cipher_ready_def)

section \<open>Lemmas on the replay guard\<close>

lemma int_items_seen: "int_items (map (\<lambda>(k, t). (k, JInt t)) d) = Inr d"
  by (induction d) auto

lemma sort_key_map_fst:
  "sort_key fst (map (\<lambda>(k, t). (k, f t)) d) = map (\<lambda>(k, t). (k, f t)) (sort_key fst d)"
proof -
  have ins: "insort_key fst (case x of (k, t) \<Rightarrow> (k, f t)) (map (\<lambda>(k, t). (k, f t)) ys) =
      map (\<lambda>(k, t). (k, f t)) (insort_key fst x ys)" for x and ys
    by (cases x, induction ys) auto
  show ?thesis by (induction d) (simp_all add: ins)
qed

lemma seen_json_sorted: "jsort (seen_json d) = seen_json (sort_key fst d)"
  unfolding seen_json_def sort_key_map_fst [symmetric] by (simp add: comp_def case_prod_unfold)

lemma json_ok_seen: "dict_ok d \<Longrightarrow> json_ok (seen_json d)"
  by (auto simp: seen_json_def dict_ok_def comp_def case_prod_beta)

lemma open_replay_text:
  assumes "dict_ok d"
  shows "open_replay (Some (replay_text d)) w =
    Inr \<lparr>window = w, seen = sort_key fst d, replay_file = Some (replay_text d)\<rparr>"
proof -
  have ok: "json_ok (jsort (seen_json d))" using assms by (intro json_ok_jsort json_ok_seen)
  have "json_loads (json_dumps default_style (jsort (seen_json d)) @ newline) =
      Some (jsort (seen_json d))"
    by (rule json_loads_dumps_ws [OF style_ok_default ok]) (simp add: newline_def jws_def code_chr)
  moreover have "jsort (seen_json d) = JObj (map (\<lambda>(k, t). (k, JInt t)) (sort_key fst d))"
    by (simp only: seen_json_sorted) (simp add: seen_json_def)
  ultimately show ?thesis
    by (simp add: open_replay_def replay_text_def int_items_seen del: jsort.simps)
qed

text \<open>The guard's invariant: what the next start reads back holds at least every live nonce.\<close>

definition guard_ok :: "replay_guard \<Rightarrow> bool" where
  "guard_ok g \<longleftrightarrow> dict_ok (seen g) \<and>
     (case replay_file g of
        None \<Rightarrow> seen g = []
      | Some txt \<Rightarrow> \<exists>d. dict_ok d \<and> txt = replay_text d \<and>
          (\<forall>k t. dget (seen g) k = Some t \<longrightarrow> dget d k = Some t))"

definition fresh_guard :: "int \<Rightarrow> replay_guard" where
  "fresh_guard w = \<lparr>window = w, seen = [], replay_file = None\<rparr>"

definition reopen_guard :: "replay_guard \<Rightarrow> exc + replay_guard" where
  "reopen_guard g = open_replay (replay_file g) (window g)"

lemma fresh_guard_ok: "guard_ok (fresh_guard w)"
  by (simp add: guard_ok_def fresh_guard_def)

lemma dget_prune:
  "dict_ok (seen g) \<Longrightarrow> dget (seen (prune g now)) k = Some t \<longleftrightarrow>
     dget (seen g) k = Some t \<and> now - t \<le> window g"
  by (auto simp: prune_def dget_filter split: option.splits)

lemma prune_simps [simp]:
  "window (prune g now) = window g" "replay_file (prune g now) = replay_file g"
  by (simp_all add: prune_def)

lemma prune_guard_ok:
  assumes g: "guard_ok g"
  shows "guard_ok (prune g now)"
proof -
  have d: "dict_ok (seen g)" using g by (simp add: guard_ok_def)
  then have "dict_ok (seen (prune g now))" by (simp add: prune_def)
  moreover have "seen g = [] \<Longrightarrow> seen (prune g now) = []" by (simp add: prune_def)
  ultimately show ?thesis
    using g by (auto simp: guard_ok_def dget_prune d split: option.splits)
qed

lemma accept_Inr:
  assumes "accept g nonce ts now = (Inr u, g')"
  shows "\<bar>now - ts\<bar> \<le> window g" "nonce_ok nonce" "dget (seen (prune g now)) nonce = None"
    "g' = (prune g now)\<lparr>seen := dput nonce ts (seen (prune g now)),
      replay_file := Some (replay_text (dput nonce ts (seen (prune g now))))\<rparr>"
  using assms by (auto simp: accept_def Let_def split: if_splits)

lemma accept_Inl:
  "accept g nonce ts now = (Inl e, g') \<Longrightarrow> g' = g \<or> g' = prune g now"
  by (auto simp: accept_def Let_def split: if_splits)

lemma accept_window [simp]: "window (snd (accept g nonce ts now)) = window g"
  by (simp add: accept_def Let_def)

lemma accept_guard_ok:
  assumes g: "guard_ok g"
  shows "guard_ok (snd (accept g nonce ts now))"
proof (cases "accept g nonce ts now")
  case (Pair r g')
  show ?thesis
  proof (cases r)
    case (Inl e)
    with Pair accept_Inl prune_guard_ok [OF g] g show ?thesis by fastforce
  next
    case (Inr u)
    from g have "dict_ok (seen (prune g now))" by (simp add: guard_ok_def prune_def)
    with accept_Inr(4) [OF Pair [unfolded Inr]] Pair show ?thesis
      by (auto simp: guard_ok_def intro!: exI [of _ "dput nonce ts (seen (prune g now))"])
  qed
qed

lemma reopen_guard_ok:
  assumes g: "guard_ok g"
  obtains g' where "reopen_guard g = Inr g'" "guard_ok g'" "window g' = window g"
    "\<And>k t. dget (seen g) k = Some t \<Longrightarrow> dget (seen g') k = Some t"
proof (cases "replay_file g")
  case None
  with g that [of "\<lparr>window = window g, seen = [], replay_file = None\<rparr>"] show ?thesis
    by (simp add: reopen_guard_def open_replay_def guard_ok_def)
next
  case (Some content)
  with g obtain d where d: "dict_ok d" "content = replay_text d"
    "\<And>k t. dget (seen g) k = Some t \<Longrightarrow> dget d k = Some t"
    by (auto simp: guard_ok_def)
  then have same: "dget (sort_key fst d) = dget d" and dist: "dict_ok (sort_key fst d)"
    by (simp_all add: dict_ok_def dget_sort_key distinct_sort_key)
  show ?thesis
  proof (rule that)
    show "reopen_guard g =
        Inr \<lparr>window = window g, seen = sort_key fst d, replay_file = Some (replay_text d)\<rparr>"
      using Some d by (simp add: reopen_guard_def open_replay_text)
  qed (insert d same dist, auto simp: guard_ok_def)
qed

section \<open>The contract of replay protection\<close>

text \<open>
  What the agent sees over its life: signed requests with their nonce and timestamp, and
  restarts of the process. \<open>run_guard\<close> lists the requests that a guard lets through. The
  contract of \<open>replay_protection\<close>: once a nonce has been let through, it comes through again
  only with a later timestamp (its record may have expired in between), so that no nonce comes
  through twice with the same timestamp.
\<close>

datatype guard_event = Request (ev_nonce: string) (ev_ts: int) (ev_now: int) | Restart

fun run_guard ::
  "('g \<Rightarrow> string \<Rightarrow> int \<Rightarrow> int \<Rightarrow> (exc + unit) \<times> 'g) \<Rightarrow> ('g \<Rightarrow> exc + 'g) \<Rightarrow> 'g \<Rightarrow>
   guard_event list \<Rightarrow> exc + (string \<times> int) list" where
  "run_guard attempt reopen g [] = Inr []"
| "run_guard attempt reopen g (Request nonce ts now # evs) =
     (case attempt g nonce ts now of
        (Inl _, g') \<Rightarrow> run_guard attempt reopen g' evs
      | (Inr _, g') \<Rightarrow>
          bindR (run_guard attempt reopen g' evs) (\<lambda>rest. Inr ((nonce, ts) # rest)))"
| "run_guard attempt reopen g (Restart # evs) = bindR (reopen g) (\<lambda>g'. run_guard attempt reopen g' evs)"

text \<open>The clock never runs backwards.\<close>

fun clock_ok :: "int \<Rightarrow> guard_event list \<Rightarrow> bool" where
  "clock_ok t [] = True"
| "clock_ok t (Request _ _ now # evs) = (t \<le> now \<and> clock_ok now evs)"
| "clock_ok t (Restart # evs) = clock_ok t evs"

locale replay_protection =
  fixes attempt :: "'g \<Rightarrow> string \<Rightarrow> int \<Rightarrow> int \<Rightarrow> (exc + unit) \<times> 'g"
    and reopen :: "'g \<Rightarrow> exc + 'g"
    and ok :: "'g \<Rightarrow> bool"
    and blocks :: "'g \<Rightarrow> int \<Rightarrow> string \<Rightarrow> int \<Rightarrow> bool"
  assumes attempt_ok: "ok g \<Longrightarrow> ok (snd (attempt g nonce ts now))"
    and reopen_ok: "ok g \<Longrightarrow> \<exists>g'. reopen g = Inr g' \<and> ok g'"
    and blocks_later: "blocks g t nonce ts \<Longrightarrow> t \<le> t' \<Longrightarrow> blocks g t' nonce ts"
    and blocks_accepted: "ok g \<Longrightarrow> attempt g nonce ts now = (Inr u, g') \<Longrightarrow> blocks g' now nonce ts"
    and blocks_attempt: "ok g \<Longrightarrow> blocks g now nonce ts \<Longrightarrow> blocks (snd (attempt g nonce' ts' now)) now nonce ts"
    and blocks_reopen: "ok g \<Longrightarrow> blocks g t nonce ts \<Longrightarrow> reopen g = Inr g' \<Longrightarrow> blocks g' t nonce ts"
    and blocks_refuse: "ok g \<Longrightarrow> blocks g now nonce ts \<Longrightarrow> s \<le> ts \<Longrightarrow> \<exists>e. fst (attempt g nonce s now) = Inl e"
begin

lemma run_blocked:
  assumes "ok g" "blocks g t nonce ts" "clock_ok t evs" "run_guard attempt reopen g evs = Inr acc"
  shows "(nonce, s) \<in> set acc \<Longrightarrow> ts < s"
  using assms
proof (induction evs arbitrary: g t acc)
  case (Cons ev evs)
  show ?case
  proof (cases ev)
    case (Request n s' now)
    obtain r g' where step: "attempt g n s' now = (r, g')" by fastforce
    have b: "blocks g now nonce ts"
      using Cons.prems Request by (auto intro: blocks_later)
    have g': "ok g'" "blocks g' now nonce ts"
      using attempt_ok [OF Cons.prems(2), of n s' now] blocks_attempt [OF Cons.prems(2) b, of n s'] step
      by simp_all
    have fresh: "r = Inr u \<Longrightarrow> n = nonce \<Longrightarrow> ts < s'" for u
      using blocks_refuse [OF Cons.prems(2) b, of s'] step by (cases "s' \<le> ts") auto
    from Cons.prems Request step obtain acc' where
      "run_guard attempt reopen g' evs = Inr acc'" "acc = (case r of Inl _ \<Rightarrow> acc' | Inr _ \<Rightarrow> (n, s') # acc')"
      by (auto split: sum.splits simp: bindR_Inr_conv)
    then show ?thesis
      using Cons.IH [OF _ g'] Cons.prems Request fresh by (auto split: sum.splits)
  next
    case Restart
    obtain g' where g': "reopen g = Inr g'" "ok g'" using reopen_ok Cons.prems(2) by blast
    with blocks_reopen Cons.prems have "blocks g' t nonce ts" by blast
    with g' show ?thesis using Cons.IH Cons.prems Restart by simp
  qed
qed simp

lemma run_increasing:
  assumes "ok g" "clock_ok t evs"
  shows "\<exists>acc. run_guard attempt reopen g evs = Inr acc \<and>
    sorted_wrt (\<lambda>p q. fst p = fst q \<longrightarrow> snd p < snd q) acc"
  using assms
proof (induction evs arbitrary: g t)
  case (Cons ev evs)
  show ?case
  proof (cases ev)
    case (Request n s now)
    obtain r g' where step: "attempt g n s now = (r, g')" by fastforce
    have g': "ok g'" using attempt_ok [OF Cons.prems(1), of n s now] step by simp
    then obtain acc where acc: "run_guard attempt reopen g' evs = Inr acc"
      "sorted_wrt (\<lambda>p q. fst p = fst q \<longrightarrow> snd p < snd q) acc"
      using Cons Request by fastforce
    show ?thesis
    proof (cases r)
      case (Inr u)
      have "blocks g' now n s" using blocks_accepted Cons.prems(1) step Inr by blast
      then have "ts = n \<Longrightarrow> (ts, s') \<in> set acc \<Longrightarrow> s < s'" for ts s'
        using run_blocked g' acc Cons.prems Request by auto
      with acc Request step Inr show ?thesis by auto
    qed (use acc Request step in simp)
  next
    case Restart
    then show ?thesis using Cons reopen_ok [of g] by fastforce
  qed
qed simp

end

lemma increasing_distinct:
  "sorted_wrt (\<lambda>p q. fst p = fst q \<longrightarrow> snd p < snd q) (acc :: ('n \<times> int) list) \<Longrightarrow> distinct acc"
  by (induction acc) force+

text \<open>The guard of the code: a request is blocked when it has expired or its nonce is on record.\<close>

definition guard_blocks :: "replay_guard \<Rightarrow> int \<Rightarrow> string \<Rightarrow> int \<Rightarrow> bool" where
  "guard_blocks g t nonce ts \<longleftrightarrow> window g < t - ts \<or> dget (seen g) nonce = Some ts"

lemma guard_blocks_accept:
  assumes ok: "guard_ok g" and b: "guard_blocks g now nonce ts"
  shows "guard_blocks (snd (accept g nonce' ts' now)) now nonce ts"
proof (cases "window g < now - ts")
  case True
  then show ?thesis by (simp add: guard_blocks_def)
next
  case False
  with ok b have live: "dget (seen (prune g now)) nonce = Some ts" "dget (seen g) nonce = Some ts"
    by (simp_all add: guard_blocks_def dget_prune guard_ok_def)
  obtain r g' where step: "accept g nonce' ts' now = (r, g')" by fastforce
  show ?thesis
  proof (cases r)
    case (Inl e)
    with step live accept_Inl show ?thesis by (fastforce simp: guard_blocks_def)
  next
    case (Inr u)
    note a = accept_Inr [OF step [unfolded Inr]]
    from a(3) live have "nonce' \<noteq> nonce" by auto
    with a(4) live step show ?thesis by (simp add: guard_blocks_def)
  qed
qed

interpretation guard: replay_protection accept reopen_guard guard_ok guard_blocks
proof
  fix g g' :: replay_guard and nonce :: string and ts now t t' u
  show "guard_ok g \<Longrightarrow> guard_ok (snd (accept g nonce ts now))"
    by (rule accept_guard_ok)
  show "guard_ok g \<Longrightarrow> \<exists>g'. reopen_guard g = Inr g' \<and> guard_ok g'"
    by (erule reopen_guard_ok) blast
  show "guard_blocks g t nonce ts \<Longrightarrow> t \<le> t' \<Longrightarrow> guard_blocks g t' nonce ts"
    by (auto simp: guard_blocks_def)
  show "accept g nonce ts now = (Inr u, g') \<Longrightarrow> guard_blocks g' now nonce ts"
    using accept_Inr(4) by (fastforce simp: guard_blocks_def)
  show "guard_ok g \<Longrightarrow> guard_blocks g t nonce ts \<Longrightarrow> reopen_guard g = Inr g' \<Longrightarrow>
      guard_blocks g' t nonce ts"
    by (erule reopen_guard_ok) (auto simp: guard_blocks_def)
  show "guard_ok g \<Longrightarrow> guard_blocks g now nonce ts \<Longrightarrow> s \<le> ts \<Longrightarrow> \<exists>e. fst (accept g nonce s now) = Inl e" for s
    by (auto simp: guard_blocks_def accept_def dget_prune guard_ok_def Let_def)
qed (rule guard_blocks_accept)

section \<open>What the guard, the registration and the signature promise\<close>

text \<open>
  C3: over any sequence of requests and process restarts under a clock that does not run
  backwards, the replay guard reopens from its own file at every restart and lets a nonce that
  it has let through come through again only with a later timestamp: no nonce is accepted twice
  with the same timestamp, so that no captured request is accepted again. (A nonce itself is
  not single use for ever: its record is dropped when it expires, \<open>nonce_accepted_again\<close>.)
\<close>

theorem replay_never_accepted_twice:
  assumes "clock_ok t evs"
  shows "\<exists>acc. run_guard accept reopen_guard (fresh_guard w) evs = Inr acc
    \<and> sorted_wrt (\<lambda>p q. fst p = fst q \<longrightarrow> snd p < snd q) acc \<and> distinct acc"
  using guard.run_increasing [OF fresh_guard_ok assms] increasing_distinct by blast

lemma short_nonce_ok: "nonce_ok ''0123456789abcdef''" "nonce_ok ''fedcba9876543210''"
  by (simp_all add: nonce_ok_def py_isalnum_def alnum_char_def is_digit_def is_lower_ascii_def)

text \<open>One nonce: let through, replayed after a restart and refused, expired and let through again with a new timestamp.\<close>

lemma run_example:
  "run_guard accept reopen_guard (fresh_guard 300)
     [Request ''0123456789abcdef'' 1000 1100, Restart, Request ''0123456789abcdef'' 1000 1200,
      Request ''0123456789abcdef'' 1400 1450, Request ''0123456789abcdef'' 1000 1450]
   = Inr [(''0123456789abcdef'', 1000), (''0123456789abcdef'', 1400)]"
proof -
  have "dict_ok [(''0123456789abcdef'', 1000 :: int)]" by (simp add: dict_ok_def)
  note reopened = open_replay_text [OF this]
  show ?thesis
    by (simp add: accept_def reopen_guard_def reopened fresh_guard_def prune_def Let_def short_nonce_ok)
qed

theorem replay_never_accepted_twice_witness:
  "\<exists>acc. acc = [(''0123456789abcdef'', 1000), (''0123456789abcdef'', 1400)]
    \<and> run_guard accept reopen_guard (fresh_guard 300)
     [Request ''0123456789abcdef'' 1000 1100, Restart, Request ''0123456789abcdef'' 1000 1200,
      Request ''0123456789abcdef'' 1400 1450, Request ''0123456789abcdef'' 1000 1450] = Inr acc
    \<and> sorted_wrt (\<lambda>p q. fst p = fst q \<longrightarrow> snd p < snd q) acc \<and> distinct acc"
  using replay_never_accepted_twice [of 0 "[Request ''0123456789abcdef'' 1000 1100, Restart,
      Request ''0123456789abcdef'' 1000 1200, Request ''0123456789abcdef'' 1400 1450,
      Request ''0123456789abcdef'' 1000 1450]" 300]
  unfolding run_example by simp

text \<open>
  The comment beside the window calls nonces single use, but a record lasts only as long as its
  window: the same nonce is accepted again with a new timestamp. And when the clock is set back,
  the very same nonce and timestamp are accepted again once another request has pruned them.
\<close>

theorem nonce_accepted_again:
  "run_guard accept reopen_guard (fresh_guard 300)
     [Request ''0123456789abcdef'' 1000 1000, Request ''0123456789abcdef'' 1400 1400]
   = Inr [(''0123456789abcdef'', 1000), (''0123456789abcdef'', 1400)]"
  by (simp add: accept_def fresh_guard_def prune_def Let_def short_nonce_ok)

theorem clock_set_back_replays:
  "run_guard accept reopen_guard (fresh_guard 300)
     [Request ''0123456789abcdef'' 1000 1000, Request ''fedcba9876543210'' 1400 1400,
      Request ''0123456789abcdef'' 1000 1000]
   = Inr [(''0123456789abcdef'', 1000), (''fedcba9876543210'', 1400), (''0123456789abcdef'', 1000)]"
  by (simp add: accept_def fresh_guard_def prune_def Let_def short_nonce_ok)

text \<open>
  The replay guard accepts a request exactly when its timestamp is inside the window, its
  nonce is well formed and no live record holds the nonce; then the cache holds the nonce and
  every record in it is still inside the window, and on a refusal no new nonce is recorded.
\<close>

theorem accept_spec:
  assumes "guard_ok g"
  shows "(fst (accept g nonce ts now) = Inr () \<longleftrightarrow>
      \<bar>now - ts\<bar> \<le> window g \<and> nonce_ok nonce \<and>
      \<not> (\<exists>t. dget (seen g) nonce = Some t \<and> now - t \<le> window g))
    \<and> (fst (accept g nonce ts now) = Inr () \<longrightarrow>
      (\<forall>k t. dget (seen (snd (accept g nonce ts now))) k = Some t \<longleftrightarrow>
         (if k = nonce then t = ts else dget (seen g) k = Some t \<and> now - t \<le> window g)))
    \<and> (fst (accept g nonce ts now) \<noteq> Inr () \<longrightarrow>
      set (seen (snd (accept g nonce ts now))) \<subseteq> set (seen g))"
proof -
  have d: "dict_ok (seen g)" using assms by (simp add: guard_ok_def)
  have none: "dget (seen (prune g now)) nonce = None \<longleftrightarrow>
      \<not> (\<exists>t. dget (seen g) nonce = Some t \<and> now - t \<le> window g)"
    using dget_prune [OF d] by (metis not_None_eq)
  have sub: "set (seen (prune g now)) \<subseteq> set (seen g)" by (auto simp: prune_def)
  show ?thesis
    using none sub by (auto simp: accept_def Let_def dget_prune d split: if_splits)
qed

theorem accept_spec_witness:
  "fst (accept (fresh_guard 300) ''0123456789abcdef'' 1000 1100) = Inr ()"
  using accept_spec [OF fresh_guard_ok, of 300 "''0123456789abcdef''" 1000 1100]
  by (simp add: fresh_guard_def short_nonce_ok)

text \<open>
  C17: a node with a pending token registers exactly for the token whose SHA-256 it stores:
  then the drawn key is returned and can be unsealed again, the panel is recorded, and the
  burnt token is refused for good; for any other token nothing at all changes.
\<close>

theorem register_burns_token:
  assumes ready: "store_ready s" and n: "length nonce = 12" and k: "length key = 32"
  shows "(registration_token_hash (ident s) = sha256_hex (utf8_encode token) \<longrightarrow>
      (\<exists>s'. register pure_aead s token panel key nonce now = (Inr key, s') \<and>
        signing_key pure_aead s' = Inr (Some key) \<and>
        registered_panel (ident s') = Some panel \<and> \<not> has_pending_token s' \<and>
        (\<forall>token' panel' key' nonce' now'.
           register pure_aead s' token' panel' key' nonce' now' =
             (Inl (NodeSecurityError ''invalid or already-consumed registration token''), s'))))
    \<and> (registration_token_hash (ident s) \<noteq> sha256_hex (utf8_encode token) \<longrightarrow>
      (\<exists>e. register pure_aead s token panel key nonce now = (Inl e, s)))"
proof (intro conjI impI)
  assume tok: "registration_token_hash (ident s) = sha256_hex (utf8_encode token)"
  from pure_gcm.register_total [OF ready n tok] obtain s' where
    reg: "register pure_aead s token panel key nonce now = (Inr key, s')" by blast
  with pure_gcm.signing_key_after_register [OF ready n k reg] register_accepts_only [OF reg]
  show "\<exists>s'. register pure_aead s token panel key nonce now = (Inr key, s') \<and>
        signing_key pure_aead s' = Inr (Some key) \<and>
        registered_panel (ident s') = Some panel \<and> \<not> has_pending_token s' \<and>
        (\<forall>token' panel' key' nonce' now'.
           register pure_aead s' token' panel' key' nonce' now' =
             (Inl (NodeSecurityError ''invalid or already-consumed registration token''), s'))"
    by (auto simp: has_pending_token_def register_consumed)
next
  assume tok: "registration_token_hash (ident s) \<noteq> sha256_hex (utf8_encode token)"
  obtain r s' where reg: "register pure_aead s token panel key nonce now = (r, s')" by fastforce
  then show "\<exists>e. register pure_aead s token panel key nonce now = (Inl e, s)"
    using tok register_error_unchanged register_accepts_only(1) by (cases r) fastforce+
qed

definition demo_store :: id_store where
  "demo_store =
     \<lparr>id_cipher = \<lparr>cipher_key = replicate 32 7\<rparr>,
      ident = fresh_identity ''n1'' (Some (sha256_hex (utf8_encode ''token''))), audit_log = []\<rparr>"

theorem register_burns_token_witness:
  "\<exists>s'. register pure_aead demo_store ''token'' ''panel'' (replicate 32 1) (replicate 12 2) 99 =
      (Inr (replicate 32 1), s') \<and> signing_key pure_aead s' = Inr (Some (replicate 32 1))"
  using register_burns_token [of demo_store "replicate 12 2" "replicate 32 1" "''token''" "''panel''" 99]
  by (auto simp: demo_store_def store_ready_def cipher_ready_def fresh_identity_def)

text \<open>
  C37: the one-time token is not burnt across a restart: the agent is started with the same
  registration hash each time, and opening a paired identity with it arms the used token
  again, so that the token registers a second panel over the first.
\<close>

theorem restart_rearms_burnt_token:
  assumes ready: "store_ready s" and n: "length nonce = 12"
    and reg: "register pure_aead s token panel key nonce now = (Inr k, s')"
    and start: "open_identity (disk_of s') (Some (registration_token_hash (ident s))) kd idd = Inr s2"
  shows "has_pending_token s2 \<and>
    (\<exists>s3. register pure_aead s2 token panel2 key2 nonce now2 = (Inr key2, s3) \<and>
      registered_panel (ident s3) = Some panel2)"
proof -
  note r = register_accepts_only [OF reg]
  have ne: "sha256_hex (utf8_encode token) \<noteq> []"
    using length_sha256_hex by (metis list.size(3) zero_neq_numeral)
  have h: "registration_token_hash (ident s2) = sha256_hex (utf8_encode token)"
    using start r(1,3) ne by (auto simp: open_identity_def disk_of_def Let_def split: if_splits)
  obtain s3 where "register pure_aead s2 token panel2 key2 nonce now2 = (Inr key2, s3)"
    using pure_gcm.register_total [OF open_identity_ready [OF start] n h] by blast
  with register_accepts_only(4) h ne show ?thesis by (auto simp: has_pending_token_def)
qed

theorem restart_rearms_burnt_token_witness:
  "\<exists>s' s2. register pure_aead demo_store ''token'' ''panel'' (replicate 32 1) (replicate 12 2) 99 =
      (Inr (replicate 32 1), s') \<and>
    open_identity (disk_of s') (Some (sha256_hex (utf8_encode ''token''))) [] [] = Inr s2 \<and>
    has_pending_token s2"
proof -
  have ready: "store_ready demo_store"
    by (simp add: demo_store_def store_ready_def cipher_ready_def)
  have n: "length (replicate 12 2 :: bytes) = 12" by simp
  have h: "registration_token_hash (ident demo_store) = sha256_hex (utf8_encode ''token'')"
    by (simp add: demo_store_def fresh_identity_def)
  from pure_gcm.register_total [OF ready n h] obtain s' where reg:
    "register pure_aead demo_store ''token'' ''panel'' (replicate 32 1) (replicate 12 2) 99 =
      (Inr (replicate 32 1), s')" by blast
  have "length (cipher_key (id_cipher s')) = 32"
    using register_accepts_only(7) [OF reg] by (simp add: demo_store_def)
  then obtain s2 where
    "open_identity (disk_of s') (Some (registration_token_hash (ident demo_store))) [] [] = Inr s2"
    by (simp add: open_identity_def disk_of_def)
  with restart_rearms_burnt_token [OF ready n reg this] reg h show ?thesis by auto
qed

lemma newline_chr: "newline = [CHR 0x0A]"
  by (simp add: newline_def char_of_def bit_0)

lemma upper_char_newline: "upper_char c = CHR 0x0A \<longleftrightarrow> c = CHR 0x0A"
proof -
  have "is_lower_ascii c \<Longrightarrow> code (chr (code c - 32)) = code c - 32"
    by (rule code_chr) (use code_less [of c] in linarith)
  then show ?thesis
    by (auto simp: upper_char_def is_lower_ascii_def dest: arg_cong [of _ _ code])
qed

lemma newline_py_upper: "CHR 0x0A \<notin> set s \<Longrightarrow> CHR 0x0A \<notin> set (py_upper s)"
  by (induction s) (auto simp: py_upper_def, metis upper_char_newline)

lemma newline_hex: "CHR 0x0A \<notin> set (to_hex bs)"
  using to_hex_chars [of bs] by (auto simp: list_all_iff is_digit_def is_lower_ascii_def)

text \<open>
  C21: two commands have the same canonical encoding only when they agree on method (up to
  case), path, timestamp, nonce and body hash, so a signature never covers a second command;
  no part of an HTTP request line or header holds a line break.
\<close>

theorem canonical_request_injective:
  assumes "canonical_request m p t n b = canonical_request m' p' t' n' b'"
    and "\<forall>s \<in> {m, p, t, n, m', p', t', n'}. CHR 0x0A \<notin> set s"
  shows "py_upper m = py_upper m' \<and> p = p' \<and> t = t' \<and> n = n' \<and> sha256 b = sha256 b'"
proof -
  have eq: "py_join newline [py_upper m, p, t, n, sha256_hex b] =
      py_join newline [py_upper m', p', t', n', sha256_hex b']"
    using assms(1) by (simp only: canonical_request_def utf8_encode_inject)
  have hex: "CHR 0x0A \<notin> set (sha256_hex x)" for x by (simp add: sha256_hex_def newline_hex)
  have "[py_upper m, p, t, n, sha256_hex b] = [py_upper m', p', t', n', sha256_hex b']"
    by (rule py_join_inject [OF eq [unfolded newline_chr]])
       (use assms(2) in \<open>auto simp: newline_py_upper hex\<close>)
  then show ?thesis by (simp add: sha256_hex_inject)
qed

theorem canonical_request_injective_witness:
  "py_upper ''post'' = py_upper ''POST'' \<and> ''/cmd'' = ''/cmd'' \<and> ''7'' = ''7'' \<and> ''ab'' = ''ab'' \<and>
   sha256 [] = sha256 []"
  by (rule canonical_request_injective)
     (simp_all add: canonical_request_def py_upper_def upper_char_def is_lower_ascii_def char_of_def bit_0)

lemma signature_ascii: "list_all is_ascii (signature key m p t n b)"
  unfolding signature_def using to_hex_chars [of "hmac_sha256 key (canonical_request m p t n b)"]
  by (auto simp: list_all_iff is_digit_def is_lower_ascii_def is_ascii_def)

text \<open>
  An ASCII signature header passes exactly when it is the hex HMAC-SHA256 of the canonical
  request; one with a character outside ASCII is a \<^verbatim>\<open>TypeError\<close>, not the refusal the caller
  of \<^verbatim>\<open>verify_signature\<close> handles.
\<close>

theorem verify_signature_spec:
  "verify_signature key provided m p t n b =
     (if list_all is_ascii provided
      then if provided = to_hex (hmac_sha256 key (canonical_request m p t n b)) then Inr ()
        else Inl (NodeSecurityError ''invalid request signature'')
      else Inl TypeError)"
  using signature_ascii [of key m p t n b] by (auto simp: verify_signature_def compare_digest_def signature_def)

end
