(* ===== verification/Effects.thy ===== *)
theory Effects
  imports Prelude
begin

text \<open>
  Code that changes state and may raise: an operation maps a state to an error or a value, and
  to the state it leaves behind. What was changed before an exception stays changed, as in the
  code. A handler catches the errors its predicate selects.
\<close>

named_theorems eff_simps

type_synonym ('s, 'e, 'a) eff = "'s \<Rightarrow> ('e + 'a) \<times> 's"

definition ret :: "'a \<Rightarrow> ('s, 'e, 'a) eff" where
  [eff_simps]: "ret x s = (Inr x, s)"

definition fail :: "'e \<Rightarrow> ('s, 'e, 'a) eff" where
  [eff_simps]: "fail e s = (Inl e, s)"

definition bindE :: "('s, 'e, 'a) eff \<Rightarrow> ('a \<Rightarrow> ('s, 'e, 'b) eff) \<Rightarrow> ('s, 'e, 'b) eff" where
  "bindE m f s = (case m s of (Inl e, s') \<Rightarrow> (Inl e, s') | (Inr x, s') \<Rightarrow> f x s')"

abbreviation seqE :: "('s, 'e, unit) eff \<Rightarrow> ('s, 'e, 'b) eff \<Rightarrow> ('s, 'e, 'b) eff" where
  "seqE m n \<equiv> bindE m (\<lambda>_. n)"

definition catchE ::
  "('s, 'e, 'a) eff \<Rightarrow> ('e \<Rightarrow> bool) \<Rightarrow> ('e \<Rightarrow> ('s, 'e, 'a) eff) \<Rightarrow> ('s, 'e, 'a) eff" where
  "catchE m p h s = (case m s of (Inl e, s') \<Rightarrow> if p e then h e s' else (Inl e, s')
     | (Inr x, s') \<Rightarrow> (Inr x, s'))"

definition getE :: "('s \<Rightarrow> 'a) \<Rightarrow> ('s, 'e, 'a) eff" where
  [eff_simps]: "getE f s = (Inr (f s), s)"

definition modE :: "('s \<Rightarrow> 's) \<Rightarrow> ('s, 'e, unit) eff" where
  [eff_simps]: "modE f s = (Inr (), f s)"

definition liftE :: "('e + 'a) \<Rightarrow> ('s, 'e, 'a) eff" where
  [eff_simps]: "liftE r s = (r, s)"

abbreviation whenE :: "bool \<Rightarrow> ('s, 'e, unit) eff \<Rightarrow> ('s, 'e, unit) eff" where
  "whenE b m \<equiv> (if b then m else ret ())"

fun forE :: "('x \<Rightarrow> ('s, 'e, unit) eff) \<Rightarrow> 'x list \<Rightarrow> ('s, 'e, unit) eff" where
  "forE f [] = ret ()"
| "forE f (x # xs) = seqE (f x) (forE f xs)"

fun mapE :: "('x \<Rightarrow> ('s, 'e, 'a) eff) \<Rightarrow> 'x list \<Rightarrow> ('s, 'e, 'a list) eff" where
  "mapE f [] = ret []"
| "mapE f (x # xs) = bindE (f x) (\<lambda>y. bindE (mapE f xs) (\<lambda>ys. ret (y # ys)))"

lemma bindE_simps [eff_simps]:
  "m s = (Inl e, s') \<Longrightarrow> bindE m f s = (Inl e, s')"
  "m s = (Inr x, s') \<Longrightarrow> bindE m f s = f x s'"
  by (simp_all add: bindE_def)

lemma bindE_ret [simp]: "bindE (ret x) f = f x" "bindE (fail e) f = fail e"
  "bindE (getE g) h s = h (g s) s" "bindE (modE u) k s = k () (u s)"
  "bindE (liftE (Inr x)) f = f x" "bindE (liftE (Inl e)) f = fail e"
  by (auto simp: bindE_def ret_def fail_def getE_def modE_def liftE_def)

lemma bindE_assoc: "bindE (bindE m f) g = bindE m (\<lambda>x. bindE (f x) g)"
  by (rule ext) (auto simp: bindE_def split: prod.splits sum.splits)

lemma catchE_simps [eff_simps]:
  "m s = (Inr x, s') \<Longrightarrow> catchE m p h s = (Inr x, s')"
  "m s = (Inl e, s') \<Longrightarrow> catchE m p h s = (if p e then h e s' else (Inl e, s'))"
  by (simp_all add: catchE_def)

lemma bindE_Inr:
  assumes "bindE m f s = (Inr y, s')"
  obtains x s1 where "m s = (Inr x, s1)" "f x s1 = (Inr y, s')"
  using assms by (auto simp: bindE_def split: prod.splits sum.splits)

lemma bindE_Inl:
  assumes "bindE m f s = (Inl e, s')"
  obtains "m s = (Inl e, s')" | x s1 where "m s = (Inr x, s1)" "f x s1 = (Inl e, s')"
  using assms by (auto simp: bindE_def split: prod.splits sum.splits)

section \<open>What an operation preserves\<close>

text \<open>\<open>keeps P m\<close>: from a state with \<open>P\<close>, the operation ends in a state with \<open>P\<close>, whether it returns or raises.\<close>

definition keeps :: "('s \<Rightarrow> bool) \<Rightarrow> ('s, 'e, 'a) eff \<Rightarrow> bool" where
  "keeps P m \<longleftrightarrow> (\<forall>s. P s \<longrightarrow> P (snd (m s)))"

lemma keepsI: "(\<And>s. P s \<Longrightarrow> P (snd (m s))) \<Longrightarrow> keeps P m"
  by (simp add: keeps_def)

lemma keepsD: "keeps P m \<Longrightarrow> P s \<Longrightarrow> P (snd (m s))"
  by (simp add: keeps_def)

named_theorems keeps_intros

lemma keeps_basic [keeps_intros]:
  "keeps P (ret x)" "keeps P (fail e)" "keeps P (getE f)" "keeps P (liftE r)"
  by (simp_all add: keeps_def ret_def fail_def getE_def liftE_def)

lemma keeps_bindE [keeps_intros]:
  assumes "keeps P m" "\<And>x. keeps P (f x)"
  shows "keeps P (bindE m f)"
proof (rule keepsI)
  fix s assume "P s"
  obtain r s1 where m: "m s = (r, s1)" by fastforce
  with keepsD [OF assms(1) \<open>P s\<close>] have "P s1" by simp
  with m keepsD [OF assms(2)] show "P (snd (bindE m f s))"
    by (cases r) (simp_all add: bindE_def)
qed

lemma keeps_catchE [keeps_intros]:
  assumes "keeps P m" "\<And>e. keeps P (h e)"
  shows "keeps P (catchE m p h)"
proof (rule keepsI)
  fix s assume "P s"
  obtain r s1 where m: "m s = (r, s1)" by fastforce
  with keepsD [OF assms(1) \<open>P s\<close>] have "P s1" by simp
  with m keepsD [OF assms(2)] show "P (snd (catchE m p h s))"
    by (cases r) (simp_all add: catchE_def)
qed

lemma keeps_modE: "(\<And>s. P s \<Longrightarrow> P (u s)) \<Longrightarrow> keeps P (modE u)"
  by (simp add: keeps_def modE_def)

lemma keeps_if [keeps_intros]: "(b \<Longrightarrow> keeps P m) \<Longrightarrow> (\<not> b \<Longrightarrow> keeps P n) \<Longrightarrow> keeps P (if b then m else n)"
  by simp

lemma keeps_forE [keeps_intros]: "(\<And>x. keeps P (f x)) \<Longrightarrow> keeps P (forE f xs)"
  by (induction xs) (auto intro: keeps_intros)

lemma keeps_mapE [keeps_intros]: "(\<And>x. keeps P (f x)) \<Longrightarrow> keeps P (mapE f xs)"
  by (induction xs) (auto intro: keeps_intros)

text \<open>\<open>ends P Q m\<close>: from \<open>P\<close> the operation ends in \<open>Q\<close>, whether it returns or raises.\<close>

definition ends :: "('s \<Rightarrow> bool) \<Rightarrow> ('s \<Rightarrow> bool) \<Rightarrow> ('s, 'e, 'a) eff \<Rightarrow> bool" where
  "ends P Q m \<longleftrightarrow> (\<forall>s. P s \<longrightarrow> Q (snd (m s)))"

lemma ends_keeps: "keeps P m \<Longrightarrow> (\<And>s. P s \<Longrightarrow> Q s) \<Longrightarrow> ends P Q m"
  by (auto simp: ends_def keeps_def)

lemma ends_bindE:
  assumes "keeps P m" "\<And>x. ends P Q (f x)" "\<And>s. P s \<Longrightarrow> Q s"
  shows "ends P Q (bindE m f)"
  unfolding ends_def
proof (intro allI impI)
  fix s assume "P s"
  obtain r s1 where m: "m s = (r, s1)" by fastforce
  with keepsD [OF assms(1) \<open>P s\<close>] have "P s1" by simp
  with m assms(2,3) show "Q (snd (bindE m f s))"
    by (cases r) (simp_all add: bindE_def ends_def)
qed

lemma ends_then:
  assumes "ends P Q m" "\<And>x. keeps Q (f x)"
  shows "ends P Q (bindE m f)"
  unfolding ends_def
proof (intro allI impI)
  fix s assume "P s"
  obtain r s1 where m: "m s = (r, s1)" by fastforce
  with assms(1) \<open>P s\<close> have "Q s1" by (auto simp: ends_def)
  with m assms(2) show "Q (snd (bindE m f s))"
    by (cases r) (simp_all add: bindE_def keeps_def)
qed

lemma keeps_option [keeps_intros]:
  "(x = None \<Longrightarrow> keeps P m) \<Longrightarrow> (\<And>y. x = Some y \<Longrightarrow> keeps P (f y)) \<Longrightarrow>
   keeps P (case x of None \<Rightarrow> m | Some y \<Rightarrow> f y)"
  by (cases x) simp_all

lemma keeps_sum [keeps_intros]:
  "(\<And>y. x = Inl y \<Longrightarrow> keeps P (f y)) \<Longrightarrow> (\<And>y. x = Inr y \<Longrightarrow> keeps P (g y)) \<Longrightarrow>
   keeps P (case x of Inl y \<Rightarrow> f y | Inr y \<Rightarrow> g y)"
  by (cases x) simp_all

lemma keeps_prod [keeps_intros]:
  "(\<And>a b. x = (a, b) \<Longrightarrow> keeps P (f a b)) \<Longrightarrow> keeps P (case x of (a, b) \<Rightarrow> f a b)"
  by (cases x) simp_all

end
