(* ===== verification/Core_Types.thy ===== *)
theory Core_Types
  imports Json Effects
begin

text \<open>
  \<^verbatim>\<open>cores/types.py\<close>, \<^verbatim>\<open>cores/exceptions.py\<close>, \<^verbatim>\<open>cores/registry.py\<close> and \<^verbatim>\<open>cores/events.py\<close>: the
  enumerations and transfer objects that the manager and the drivers exchange, the exceptions
  and their texts, the registry of driver classes and the event bus.
\<close>

section \<open>Enumerations\<close>

datatype core_state =
    LOADED | INSTALLED | STARTING | RUNNING | STOPPING | STOPPED | ERROR | UNINSTALLED

primrec state_value :: "core_state \<Rightarrow> string" where
  "state_value LOADED = ''loaded''"
| "state_value INSTALLED = ''installed''"
| "state_value STARTING = ''starting''"
| "state_value RUNNING = ''running''"
| "state_value STOPPING = ''stopping''"
| "state_value STOPPED = ''stopped''"
| "state_value ERROR = ''error''"
| "state_value UNINSTALLED = ''uninstalled''"

definition all_core_states :: "core_state list" where
  "all_core_states =
     [LOADED, INSTALLED, STARTING, RUNNING, STOPPING, STOPPED, ERROR, UNINSTALLED]"

text \<open>\<^verbatim>\<open>CoreState(value)\<close>: a \<^verbatim>\<open>ValueError\<close> for any other value.\<close>

definition core_state_of :: "json \<Rightarrow> core_state option" where
  "core_state_of v =
     (case v of JStr s \<Rightarrow> List.find (\<lambda>st. state_value st = s) all_core_states | _ \<Rightarrow> None)"

lemma core_state_of_value [simp]: "core_state_of (JStr (state_value st)) = Some st"
  by (cases st) (simp_all add: core_state_of_def all_core_states_def)

lemma state_value_inject: "state_value a = state_value b \<longleftrightarrow> a = b"
  by (metis core_state_of_value option.inject)

datatype health = UNKNOWN | HEALTHY | DEGRADED | UNHEALTHY

primrec health_value :: "health \<Rightarrow> string" where
  "health_value UNKNOWN = ''unknown''"
| "health_value HEALTHY = ''healthy''"
| "health_value DEGRADED = ''degraded''"
| "health_value UNHEALTHY = ''unhealthy''"

datatype capability =
    USER_MANAGEMENT | SUSPEND_RESUME | USAGE_ACCOUNTING | ONLINE_TRACKING | HOT_RELOAD
  | SERVICE_CONTROL | SELF_INSTALL | CLIENT_CONFIG | MULTI_NODE
  | ROUTING | GEO_ROUTING | PROCESS_ROUTING | OUTBOUND_MANAGEMENT | CHAIN_ROUTING | UDP_SUPPORT
  | DEVICE_DETECTION | SPEED_LIMIT | POLICY_ENFORCEMENT | KEY_ROTATION

primrec capability_value :: "capability \<Rightarrow> string" where
  "capability_value USER_MANAGEMENT = ''user_management''"
| "capability_value SUSPEND_RESUME = ''suspend_resume''"
| "capability_value USAGE_ACCOUNTING = ''usage_accounting''"
| "capability_value ONLINE_TRACKING = ''online_tracking''"
| "capability_value HOT_RELOAD = ''hot_reload''"
| "capability_value SERVICE_CONTROL = ''service_control''"
| "capability_value SELF_INSTALL = ''self_install''"
| "capability_value CLIENT_CONFIG = ''client_config''"
| "capability_value MULTI_NODE = ''multi_node''"
| "capability_value ROUTING = ''routing''"
| "capability_value GEO_ROUTING = ''geo_routing''"
| "capability_value PROCESS_ROUTING = ''process_routing''"
| "capability_value OUTBOUND_MANAGEMENT = ''outbound_management''"
| "capability_value CHAIN_ROUTING = ''chain_routing''"
| "capability_value UDP_SUPPORT = ''udp_support''"
| "capability_value DEVICE_DETECTION = ''device_detection''"
| "capability_value SPEED_LIMIT = ''speed_limit''"
| "capability_value POLICY_ENFORCEMENT = ''policy_enforcement''"
| "capability_value KEY_ROTATION = ''key_rotation''"

section \<open>Exceptions\<close>

text \<open>
  \<open>OtherError\<close> is an exception that some other code raises, by type and text. \<open>CancelledError\<close> is a
  \<^verbatim>\<open>BaseException\<close>: \<^verbatim>\<open>except Exception\<close> does not catch it.
\<close>

datatype core_exc =
    DriverRegistrationError string
  | DriverNotFoundError string
  | CoreNotFoundError string
  | CoreStateError string
  | CapabilityNotSupportedError string string
  | OtherError string string
  | CancelledError

definition is_exception :: "core_exc \<Rightarrow> bool" where
  "is_exception e \<longleftrightarrow> e \<noteq> CancelledError"

definition is_core_error :: "core_exc \<Rightarrow> bool" where
  "is_core_error e \<longleftrightarrow> (case e of OtherError ty _ \<Rightarrow> ty = ''CoreError'' | CancelledError \<Rightarrow> False | _ \<Rightarrow> True)"

definition is_not_supported :: "core_exc \<Rightarrow> bool" where
  "is_not_supported e \<longleftrightarrow> (case e of CapabilityNotSupportedError _ _ \<Rightarrow> True | _ \<Rightarrow> False)"

definition quoted :: "string \<Rightarrow> string" where
  "quoted s = [CHR 0x27] @ s @ [CHR 0x27]"

text \<open>\<^verbatim>\<open>str(exc)\<close>.\<close>

primrec exc_text :: "core_exc \<Rightarrow> string" where
  "exc_text (DriverRegistrationError m) = m"
| "exc_text (DriverNotFoundError c) = ''No driver registered for core type '' @ quoted c @ ''.''"
| "exc_text (CoreNotFoundError c) = ''Core '' @ quoted c @ '' is not installed or not managed.''"
| "exc_text (CoreStateError m) = m"
| "exc_text (CapabilityNotSupportedError c cap) =
     ''Core '' @ quoted c @ '' does not support capability '' @ quoted cap @ ''.''"
| "exc_text (OtherError ty m) = m"
| "exc_text CancelledError = []"

text \<open>\<^verbatim>\<open>type(exc).__name__\<close>.\<close>

primrec exc_type :: "core_exc \<Rightarrow> string" where
  "exc_type (DriverRegistrationError m) = ''DriverRegistrationError''"
| "exc_type (DriverNotFoundError c) = ''DriverNotFoundError''"
| "exc_type (CoreNotFoundError c) = ''CoreNotFoundError''"
| "exc_type (CoreStateError m) = ''CoreStateError''"
| "exc_type (CapabilityNotSupportedError c cap) = ''CapabilityNotSupportedError''"
| "exc_type (OtherError ty m) = ty"
| "exc_type CancelledError = ''CancelledError''"

section \<open>Transfer objects\<close>

datatype availability = SUPPORTED | UNSUPPORTED | ENVIRONMENT_LIMITED | NOT_INSTALLED | NOT_APPLICABLE

record core_metadata =
  md_id :: string
  md_name :: string
  md_description :: string
  md_protocols :: "string list"
  md_capabilities :: "capability list"
  md_config_schema :: jobj
  md_default_settings :: jobj
  md_feature_capabilities :: "(string, availability \<times> string option) dict"
  md_driver_version :: string
  md_homepage :: "string option"
  md_release_repo :: "string option"
  md_provides :: "string list"
  md_requires :: "string list"
  md_studio_inbounds_path :: "string option"
  md_studio_max_inbounds :: "int option"
  md_security_class :: "string option"
  md_stop_when_no_inbounds :: bool

record core_status =
  cs_core_id :: string
  cs_state :: core_state
  cs_health :: health
  cs_enabled :: bool
  cs_version :: "string option"
  cs_version_reason :: "string option"
  cs_message :: "string option"

record user_account =
  ua_user_id :: int
  ua_username :: string
  ua_account_id :: string
  ua_protocol :: string
  ua_enabled :: bool
  ua_expire_at :: "int option"
  ua_data_limit_bytes :: "int option"
  ua_settings :: jobj

record provision_result =
  pr_core_id :: string
  pr_account_id :: string
  pr_success :: bool
  pr_error :: "string option"

record usage_record =
  ur_core_id :: string
  ur_account_id :: string
  ur_uplink_bytes :: int
  ur_downlink_bytes :: int

record device_session =
  ds_core_id :: string
  ds_account_id :: string
  ds_ip :: "string option"
  ds_connected_at :: "int option"
  ds_last_activity :: "int option"
  ds_metadata :: jobj

record client_config =
  cc_core_id :: string
  cc_protocol :: string
  cc_engine :: string
  cc_payload :: jobj
  cc_display_name :: string

definition public_view :: "client_config \<Rightarrow> jobj" where
  "public_view c =
     [(''core'', JStr (cc_core_id c)), (''protocol'', JStr (cc_protocol c)),
      (''engine'', JStr (cc_engine c)), (''display_name'', JStr (cc_display_name c))]"

definition client_config_repr :: "client_config \<Rightarrow> string" where
  "client_config_repr c =
     ''ClientConfig(core_id='' @ py_repr_str (cc_core_id c) @ '', protocol='' @
     py_repr_str (cc_protocol c) @ '', engine='' @ py_repr_str (cc_engine c) @
     '', payload=<REDACTED>)''"

section \<open>The driver registry\<close>

text \<open>
  A driver class has a name, its module, and \<^verbatim>\<open>metadata\<close> when it declares one. Two classes are
  the same object when they have the same module and name.
\<close>

record 'c driver_decl =
  dd_module :: string
  dd_name :: string
  dd_metadata :: "core_metadata option"
  dd_class :: 'c

type_synonym 'c registry = "(string, 'c driver_decl) dict"

definition same_class :: "'c driver_decl \<Rightarrow> 'c driver_decl \<Rightarrow> bool" where
  "same_class a b \<longleftrightarrow> dd_module a = dd_module b \<and> dd_name a = dd_name b"

definition register_driver :: "'c driver_decl \<Rightarrow> ('c registry, core_exc, unit) eff" where
  "register_driver cls reg =
     (case dd_metadata cls of
        None \<Rightarrow> fail (DriverRegistrationError
          (dd_name cls @ '' has no '' @ quoted ''metadata'' @ '' CoreMetadata attribute.'')) reg
      | Some meta \<Rightarrow>
          (case dget reg (md_id meta) of
             None \<Rightarrow> ret () (dput (md_id meta) cls reg)
           | Some old \<Rightarrow>
               if same_class old cls then ret () (dput (md_id meta) cls reg)
               else fail (DriverRegistrationError
                 (''Driver id '' @ quoted (md_id meta) @ '' already taken by '' @ dd_module old @
                  ''.'' @ dd_name old @ ''.'')) reg))"

definition get_driver_class :: "'c registry \<Rightarrow> string \<Rightarrow> core_exc + 'c driver_decl" where
  "get_driver_class reg core_id =
     (case dget reg core_id of None \<Rightarrow> Inl (DriverNotFoundError core_id) | Some cls \<Rightarrow> Inr cls)"

definition available_drivers :: "'c registry \<Rightarrow> (string, core_metadata option) dict" where
  "available_drivers reg = map (\<lambda>(cid, cls). (cid, dd_metadata cls)) reg"

definition unregister_driver :: "string \<Rightarrow> 'c registry \<Rightarrow> 'c registry" where
  "unregister_driver core_id reg = dpop core_id reg"

text \<open>A plugin that fails to load or to register is skipped; the count is of those that did.\<close>

fun load_entry_points :: "(core_exc + 'c driver_decl) list \<Rightarrow> 'c registry \<Rightarrow> nat \<times> 'c registry" where
  "load_entry_points [] reg = (0, reg)"
| "load_entry_points (Inl e # eps) reg = load_entry_points eps reg"
| "load_entry_points (Inr cls # eps) reg =
     (case register_driver cls reg of
        (Inl e, reg') \<Rightarrow> load_entry_points eps reg'
      | (Inr u, reg') \<Rightarrow> (let (n, reg'') = load_entry_points eps reg' in (Suc n, reg'')))"

text \<open>Every driver is registered under its own id.\<close>

definition registry_ok :: "'c registry \<Rightarrow> bool" where
  "registry_ok reg \<longleftrightarrow> dict_ok reg \<and>
     (\<forall>cid cls. dget reg cid = Some cls \<longrightarrow> (\<exists>meta. dd_metadata cls = Some meta \<and> md_id meta = cid))"

lemma register_driver_ok: "registry_ok reg \<Longrightarrow> registry_ok (snd (register_driver cls reg))"
  by (auto simp: registry_ok_def register_driver_def ret_def fail_def split: option.splits)

lemma register_driver_keeps:
  assumes "dget reg cid = Some old"
  shows "\<exists>new. dget (snd (register_driver cls reg)) cid = Some new \<and> (new = old \<or> same_class old new)"
  using assms by (auto simp: register_driver_def ret_def fail_def split: option.splits)

lemma load_entry_points_ok: "registry_ok reg \<Longrightarrow> registry_ok (snd (load_entry_points eps reg))"
proof (induction eps reg rule: load_entry_points.induct)
  case (3 cls eps reg)
  then show ?case
    using register_driver_ok [of reg cls]
    by (auto split: prod.splits sum.splits)
qed simp_all

section \<open>Events\<close>

datatype event =
    USER_CREATED | USER_UPDATED | USER_DELETED | USER_ENABLED | USER_DISABLED | USER_EXPIRED
  | USER_DATA_LIMIT_REACHED | CORE_STATE_CHANGED | CORE_HEALTH_CHANGED | ROUTE_DEPLOYED
  | POLICY_VIOLATION | DEVICE_BLOCKED | DEVICE_REMOVED

text \<open>
  A handler is a function of the payload and the world it acts on; \<^verbatim>\<open>emit\<close> calls each handler that is subscribed
  when it starts and drops what they raise.
\<close>

record 'w handler =
  h_id :: nat
  h_run :: "jobj \<Rightarrow> ('w, core_exc, unit) eff"

type_synonym 'w event_bus = "event \<Rightarrow> 'w handler list"

definition subscribe :: "event \<Rightarrow> 'w handler \<Rightarrow> 'w event_bus \<Rightarrow> 'w event_bus" where
  "subscribe ev h b = b(ev := b ev @ [h])"

fun remove_first :: "('a \<Rightarrow> bool) \<Rightarrow> 'a list \<Rightarrow> 'a list" where
  "remove_first p [] = []"
| "remove_first p (x # xs) = (if p x then xs else x # remove_first p xs)"

definition unsubscribe :: "event \<Rightarrow> 'w handler \<Rightarrow> 'w event_bus \<Rightarrow> 'w event_bus" where
  "unsubscribe ev h b = b(ev := remove_first (\<lambda>h'. h_id h' = h_id h) (b ev))"

definition emit :: "event \<Rightarrow> jobj \<Rightarrow> 'w event_bus \<Rightarrow> 'w \<Rightarrow> 'w" where
  "emit ev payload b w = fold (\<lambda>h w'. snd (h_run h payload w')) (b ev) w"

definition clear_bus :: "'w event_bus \<Rightarrow> 'w event_bus" where
  "clear_bus b = (\<lambda>_. [])"

lemma unsubscribe_fresh:
  "h_id h \<notin> h_id ` set (b ev) \<Longrightarrow> unsubscribe ev h (subscribe ev h b) = b"
proof -
  have "h_id h \<notin> h_id ` set hs \<Longrightarrow> remove_first (\<lambda>h'. h_id h' = h_id h) (hs @ [h]) = hs" for hs
    by (induction hs) auto
  then show "h_id h \<notin> h_id ` set (b ev) \<Longrightarrow> ?thesis"
    by (simp add: unsubscribe_def subscribe_def)
qed

lemma emit_runs_all:
  "emit ev p (subscribe ev h b) w = snd (h_run h p (emit ev p b w))"
  by (simp add: emit_def subscribe_def)

end
