(* ===== verification/Jobs.thy ===== *)
theory Jobs
  imports Core_Types
begin

text \<open>
  \<^verbatim>\<open>node_agent/jobs.py\<close>: lifecycle jobs, serialized per core, with a bounded history. A job object
  outlives its eviction from the history, because its task refers to it: \<open>heap\<close> holds the job
  objects by their id, \<open>known\<close> the keys of \<^verbatim>\<open>_jobs\<close>. Times count milliseconds. \<open>job_step\<close> interleaves the
  submissions with the tasks of the jobs.
\<close>

datatype job_state = Queued | Running | Succeeded | Failed | Cancelled

definition terminal :: "job_state \<Rightarrow> bool" where
  "terminal st \<longleftrightarrow> st \<in> {Succeeded, Failed, Cancelled}"

primrec job_state_value :: "job_state \<Rightarrow> string" where
  "job_state_value Queued = ''queued''"
| "job_state_value Running = ''running''"
| "job_state_value Succeeded = ''succeeded''"
| "job_state_value Failed = ''failed''"
| "job_state_value Cancelled = ''cancelled''"

record job =
  job_id :: string
  job_core :: string
  job_action :: string
  job_state :: job_state
  queued_at :: int
  started_at :: "int option"
  finished_at :: "int option"
  job_result :: "jobj option"
  job_error :: "string option"
  job_error_type :: "string option"

record job_manager =
  history_limit :: nat
  heap :: "(string, job) dict"
  known :: "string list"
  order :: "string list"
  active :: "(string, string) dict"

definition default_history_limit :: nat where
  "default_history_limit = 200"

definition new_job_manager :: "nat \<Rightarrow> job_manager" where
  "new_job_manager limit =
     \<lparr>history_limit = limit, heap = [], known = [], order = [], active = []\<rparr>"

definition new_job :: "string \<Rightarrow> string \<Rightarrow> string \<Rightarrow> int \<Rightarrow> job" where
  "new_job jid cid action now =
     \<lparr>job_id = jid, job_core = cid, job_action = action, job_state = Queued, queued_at = now,
      started_at = None, finished_at = None, job_result = None, job_error = None,
      job_error_type = None\<rparr>"

text \<open>\<^verbatim>\<open>self.finished_at or time.time()\<close>.\<close>

definition elapsed :: "int \<Rightarrow> job \<Rightarrow> int" where
  "elapsed now j =
     (case finished_at j of None \<Rightarrow> now | Some t \<Rightarrow> if t = 0 then now else t) - queued_at j"

definition opt_json :: "('a \<Rightarrow> json) \<Rightarrow> 'a option \<Rightarrow> json" where
  "opt_json f x = (case x of None \<Rightarrow> JNull | Some y \<Rightarrow> f y)"

definition job_to_dict :: "int \<Rightarrow> job \<Rightarrow> jobj" where
  "job_to_dict now j =
     [(''job_id'', JStr (job_id j)), (''core_id'', JStr (job_core j)),
      (''action'', JStr (job_action j)), (''state'', JStr (job_state_value (job_state j))),
      (''queued_at'', JInt (queued_at j)), (''started_at'', opt_json JInt (started_at j)),
      (''finished_at'', opt_json JInt (finished_at j)), (''elapsed_seconds'', JInt (elapsed now j)),
      (''result'', opt_json JObj (job_result j)), (''error'', opt_json JStr (job_error j)),
      (''error_type'', opt_json JStr (job_error_type j))]"

section \<open>The manager\<close>

definition get_job :: "job_manager \<Rightarrow> string \<Rightarrow> job option" where
  "get_job s jid = (if jid \<in> set (known s) then dget (heap s) jid else None)"

definition active_for :: "job_manager \<Rightarrow> string \<Rightarrow> job option" where
  "active_for s cid =
     (case dget (active s) cid of
        None \<Rightarrow> None | Some jid \<Rightarrow> if jid = [] then None else get_job s jid)"

definition remember :: "job \<Rightarrow> job_manager \<Rightarrow> job_manager" where
  "remember j s =
     (let order1 = order s @ [job_id j];
          overflow = length order1 - history_limit s;
          known1 = (if job_id j \<in> set (known s) then known s else known s @ [job_id j])
      in s\<lparr>heap := dput (job_id j) j (heap s),
           known := filter (\<lambda>jid. jid \<notin> set (take overflow order1)) known1,
           order := drop overflow order1\<rparr>)"

datatype job_exc = JobConflictError string | JobKeyError string

definition submit :: "string \<Rightarrow> string \<Rightarrow> string \<Rightarrow> int \<Rightarrow> (job_manager, job_exc, job) eff" where
  "submit cid action jid now s =
     (case dget (active s) cid of
        Some aid \<Rightarrow>
          (case get_job s aid of
             None \<Rightarrow> (Inl (JobKeyError aid), s)
           | Some j \<Rightarrow>
               if job_action j = action then (Inr j, s)
               else (Inl (JobConflictError (''a '' @ quoted (job_action j) @ '' job for core '' @
                      quoted cid @ '' is already '' @ job_state_value (job_state j) @ '' (job '' @
                      job_id j @ '')'')), s))
      | None \<Rightarrow>
          let j = new_job jid cid action now;
              s1 = remember j s
          in (Inr j, s1\<lparr>active := dput cid jid (active s1)\<rparr>))"

text \<open>The task of a job, up to its \<^verbatim>\<open>await\<close> and from there on.\<close>

datatype outcome = Done jobj | TimedOut | WasCancelled | Raised string string

definition update_job :: "string \<Rightarrow> (job \<Rightarrow> job) \<Rightarrow> job_manager \<Rightarrow> job_manager" where
  "update_job jid f s =
     (case dget (heap s) jid of None \<Rightarrow> s | Some j \<Rightarrow> s\<lparr>heap := dput jid (f j) (heap s)\<rparr>)"

definition begin_run :: "string \<Rightarrow> int \<Rightarrow> job_manager \<Rightarrow> job_manager" where
  "begin_run jid now = update_job jid (\<lambda>j. j\<lparr>job_state := Running, started_at := Some now\<rparr>)"

definition settle :: "nat \<Rightarrow> outcome \<Rightarrow> job \<Rightarrow> job" where
  "settle timeout out j =
     (case out of
        Done r \<Rightarrow> j\<lparr>job_result := Some r, job_state := Succeeded\<rparr>
      | TimedOut \<Rightarrow> j\<lparr>job_state := Failed,
          job_error := Some (job_action j @ '' timed out after '' @ str_of_nat timeout @ ''s''),
          job_error_type := Some ''TimeoutError''\<rparr>
      | WasCancelled \<Rightarrow> j\<lparr>job_state := Cancelled, job_error_type := Some ''CancelledError''\<rparr>
      | Raised ty msg \<Rightarrow> j\<lparr>job_state := Failed, job_error := Some msg, job_error_type := Some ty\<rparr>)"

definition finish_run :: "string \<Rightarrow> nat \<Rightarrow> outcome \<Rightarrow> int \<Rightarrow> job_manager \<Rightarrow> job_manager" where
  "finish_run jid timeout out now s =
     (case dget (heap s) jid of
        None \<Rightarrow> s
      | Some j \<Rightarrow>
          let s1 = update_job jid (\<lambda>j. (settle timeout out j)\<lparr>finished_at := Some now\<rparr>) s
          in s1\<lparr>active := dpop (job_core j) (active s1)\<rparr>)"

definition recent :: "job_manager \<Rightarrow> int \<Rightarrow> int \<Rightarrow> jobj list" where
  "recent s limit now =
     (let n = nat (max 1 (min limit (int (history_limit s))))
      in map (job_to_dict now) (List.map_filter (get_job s) (take n (rev (order s)))))"

section \<open>Submissions and tasks interleaved\<close>

inductive job_step :: "job_manager \<Rightarrow> job_manager \<Rightarrow> bool" where
  submitted: "jid \<notin> set (dkeys (heap s)) \<Longrightarrow> submit cid action jid now s = (r, s') \<Longrightarrow> job_step s s'"
| begun: "dget (heap s) jid = Some j \<Longrightarrow> job_state j = Queued \<Longrightarrow> job_step s (begin_run jid now s)"
| finished: "dget (heap s) jid = Some j \<Longrightarrow> job_state j = Running \<Longrightarrow>
    job_step s (finish_run jid timeout out now s)"

inductive reachable :: "nat \<Rightarrow> job_manager \<Rightarrow> bool" for limit where
  start: "reachable limit (new_job_manager limit)"
| step: "reachable limit s \<Longrightarrow> job_step s s' \<Longrightarrow> reachable limit s'"

text \<open>
  The invariant: the active table and the unfinished jobs are the same, and the history is a
  bounded list of the known ids.
\<close>

definition jobs_ok :: "job_manager \<Rightarrow> bool" where
  "jobs_ok s \<longleftrightarrow>
     dict_ok (heap s) \<and> dict_ok (active s) \<and>
     (\<forall>jid j. dget (heap s) jid = Some j \<longrightarrow> job_id j = jid) \<and>
     (\<forall>cid jid. dget (active s) cid = Some jid \<longrightarrow>
        (\<exists>j. dget (heap s) jid = Some j \<and> job_core j = cid \<and> \<not> terminal (job_state j))) \<and>
     (\<forall>jid j. dget (heap s) jid = Some j \<longrightarrow> \<not> terminal (job_state j) \<longrightarrow>
        dget (active s) (job_core j) = Some jid)"

definition history_ok :: "job_manager \<Rightarrow> bool" where
  "history_ok s \<longleftrightarrow>
     distinct (order s) \<and> set (known s) = set (order s) \<and>
     set (order s) \<subseteq> set (dkeys (heap s)) \<and> length (order s) \<le> history_limit s"

lemma terminal_simps [simp]:
  "\<not> terminal Queued" "\<not> terminal Running" "terminal Succeeded" "terminal Failed" "terminal Cancelled"
  by (simp_all add: terminal_def)

lemma settle_simps [simp]:
  "job_core (settle t out j) = job_core j" "job_id (settle t out j) = job_id j"
  "terminal (job_state (settle t out j))"
  by (simp_all add: settle_def split: outcome.split)

lemma new_job_simps [simp]:
  "job_id (new_job jid cid a now) = jid" "job_core (new_job jid cid a now) = cid"
  "job_state (new_job jid cid a now) = Queued" "job_action (new_job jid cid a now) = a"
  by (simp_all add: new_job_def)

lemma remember_simps [simp]:
  "heap (remember j s) = dput (job_id j) j (heap s)" "active (remember j s) = active s"
  "history_limit (remember j s) = history_limit s"
  by (simp_all add: remember_def Let_def)

lemma update_job_simps [simp]:
  "active (update_job jid f s) = active s" "known (update_job jid f s) = known s"
  "order (update_job jid f s) = order s" "history_limit (update_job jid f s) = history_limit s"
  by (simp_all add: update_job_def split: option.split)

lemma update_job_heap:
  "dget (heap s) jid = Some j \<Longrightarrow> heap (update_job jid f s) = dput jid (f j) (heap s)"
  by (simp add: update_job_def)

lemma take_drop_split:
  assumes "distinct xs"
  shows "set xs - set (take n xs) = set (drop n xs)"
proof -
  have "set xs = set (take n xs) \<union> set (drop n xs)"
    by (metis append_take_drop_id set_append)
  moreover have "set (take n xs) \<inter> set (drop n xs) = {}"
    using assms by (meson set_take_disj_set_drop_if_distinct le_refl)
  ultimately show ?thesis by blast
qed

lemma remember_history:
  assumes "history_ok s" "job_id j \<notin> set (dkeys (heap s))"
  shows "history_ok (remember j s)"
proof -
  define o1 where "o1 = order s @ [job_id j]"
  define n where "n = length o1 - history_limit s"
  have d: "distinct o1" "set o1 = insert (job_id j) (set (known s))" "job_id j \<notin> set (known s)"
    using assms by (auto simp: history_ok_def o1_def)
  have "order (remember j s) = drop n o1"
    by (simp add: remember_def Let_def o1_def n_def)
  moreover have "set (known (remember j s)) = set o1 - set (take n o1)"
    using d by (auto simp: remember_def Let_def o1_def [symmetric] n_def [symmetric])
  moreover have "set (drop n o1) \<subseteq> set (dkeys (heap (remember j s)))"
    using assms(1) d(2) by (auto simp: history_ok_def dom_update dest!: in_set_dropD)
  moreover have "length (drop n o1) \<le> history_limit s" by (simp add: n_def)
  ultimately show ?thesis
    using d(1) by (simp add: history_ok_def take_drop_split)
qed

lemma jobs_ok_active:
  assumes "jobs_ok s" "dget (active s) cid = Some jid"
  obtains j where "dget (heap s) jid = Some j" "job_core j = cid" "\<not> terminal (job_state j)"
  using assms unfolding jobs_ok_def by blast

lemma jobs_ok_live:
  "jobs_ok s \<Longrightarrow> dget (heap s) jid = Some j \<Longrightarrow> \<not> terminal (job_state j) \<Longrightarrow>
   dget (active s) (job_core j) = Some jid"
  by (simp add: jobs_ok_def)

lemma jobs_ok_id: "jobs_ok s \<Longrightarrow> dget (heap s) jid = Some j \<Longrightarrow> job_id j = jid"
  by (simp add: jobs_ok_def)

lemma jobs_okI:
  assumes "dict_ok (heap s)" "dict_ok (active s)"
    "\<And>jid j. dget (heap s) jid = Some j \<Longrightarrow> job_id j = jid"
    "\<And>cid jid. dget (active s) cid = Some jid \<Longrightarrow>
        \<exists>j. dget (heap s) jid = Some j \<and> job_core j = cid \<and> \<not> terminal (job_state j)"
    "\<And>jid j. dget (heap s) jid = Some j \<Longrightarrow> \<not> terminal (job_state j) \<Longrightarrow>
        dget (active s) (job_core j) = Some jid"
  shows "jobs_ok s"
  unfolding jobs_ok_def
  by (intro conjI allI impI;
      (fact assms(1) | fact assms(2) | erule assms(3) | erule assms(4) | erule (1) assms(5)))

lemma submit_jobs_ok:
  assumes s: "jobs_ok s" and fresh: "jid \<notin> set (dkeys (heap s))"
    and r: "submit cid action jid now s = (r, s')"
  shows "jobs_ok s'"
proof (cases "dget (active s) cid")
  case (Some aid)
  with r s show ?thesis by (auto simp: submit_def split: option.splits if_splits)
next
  case None
  have new: "dget (heap s) jid = None" using fresh by (simp add: dget_None_iff)
  have ne: "jid \<noteq> jid'" if a: "dget (active s) c = Some jid'" for c jid'
    by (rule jobs_ok_active [OF s a]) (use new in auto)
  have s': "heap s' = dput jid (new_job jid cid action now) (heap s)"
    "active s' = dput cid jid (active s)"
    using r None by (auto simp: submit_def Let_def)
  show ?thesis
  proof (rule jobs_okI)
    fix c a assume a: "dget (active s') c = Some a"
    show "\<exists>j. dget (heap s') a = Some j \<and> job_core j = c \<and> \<not> terminal (job_state j)"
    proof (cases "c = cid")
      case True
      with a s' show ?thesis by simp
    next
      case False
      with a s' have a': "dget (active s) c = Some a" by simp
      from jobs_ok_active [OF s a'] obtain j where
        "dget (heap s) a = Some j" "job_core j = c" "\<not> terminal (job_state j)" .
      with ne [OF a'] s' show ?thesis by simp
    qed
  next
    fix a i assume i: "dget (heap s') a = Some i" "\<not> terminal (job_state i)"
    show "dget (active s') (job_core i) = Some a"
    proof (cases "a = jid")
      case True
      with i s' have "i = new_job jid cid action now" by simp
      with True s' show ?thesis by simp
    next
      case False
      with i s' have live: "dget (active s) (job_core i) = Some a"
        using jobs_ok_live [OF s] by simp
      with None have "job_core i \<noteq> cid" by auto
      with live s' show ?thesis by simp
    qed
  qed (insert s s', auto simp: jobs_ok_def split: if_splits)
qed

lemma submit_history_ok:
  assumes "history_ok s" "jid \<notin> set (dkeys (heap s))" "submit cid action jid now s = (r, s')"
  shows "history_ok s'"
proof (cases "dget (active s) cid")
  case (Some aid)
  with assms show ?thesis by (auto simp: submit_def split: option.splits if_splits)
next
  case None
  have "history_ok (remember (new_job jid cid action now) s)"
    using assms by (intro remember_history) simp_all
  with None assms(3) show ?thesis by (auto simp: submit_def Let_def history_ok_def)
qed

lemma update_history_ok:
  "history_ok s \<Longrightarrow> history_ok (update_job jid f s)"
  by (auto simp: history_ok_def update_job_def dom_update split: option.split)

lemma begin_jobs_ok:
  assumes s: "jobs_ok s" and j: "dget (heap s) jid = Some j" "job_state j = Queued"
  shows "jobs_ok (begin_run jid now s)"
proof -
  have act: "dget (active s) (job_core j) = Some jid" using jobs_ok_live [OF s j(1)] j(2) by simp
  have own: "c = job_core j" if "dget (active s) c = Some jid" for c
    by (rule jobs_ok_active [OF s that]) (use j(1) in auto)
  have heap: "heap (begin_run jid now s) =
      dput jid (j\<lparr>job_state := Running, started_at := Some now\<rparr>) (heap s)"
    using j by (simp add: begin_run_def update_job_heap)
  show ?thesis
  proof (rule jobs_okI)
    fix c a assume "dget (active (begin_run jid now s)) c = Some a"
    then have a: "dget (active s) c = Some a" by (simp add: begin_run_def)
    show "\<exists>j. dget (heap (begin_run jid now s)) a = Some j \<and> job_core j = c \<and> \<not> terminal (job_state j)"
    proof (cases "a = jid")
      case True
      with own a heap show ?thesis by auto
    next
      case False
      then show ?thesis by - (rule jobs_ok_active [OF s a], simp add: heap)
    qed
  qed (insert s j act heap, auto simp: jobs_ok_def begin_run_def split: if_splits)
qed

lemma finish_jobs_ok:
  assumes s: "jobs_ok s" and j: "dget (heap s) jid = Some j" "job_state j = Running"
  shows "jobs_ok (finish_run jid timeout out now s)"
proof -
  let ?s' = "finish_run jid timeout out now s"
  have act: "dget (active s) (job_core j) = Some jid" using jobs_ok_live [OF s j(1)] j(2) by simp
  have own: "c = job_core j" if "dget (active s) c = Some jid" for c
    by (rule jobs_ok_active [OF s that]) (use j(1) in auto)
  have heap: "heap ?s' = dput jid ((settle timeout out j)\<lparr>finished_at := Some now\<rparr>) (heap s)"
    and active: "active ?s' = dpop (job_core j) (active s)"
    using j by (simp_all add: finish_run_def update_job_heap Let_def)
  show ?thesis
  proof (rule jobs_okI)
    fix c a assume "dget (active ?s') c = Some a"
    then have a: "dget (active s) c = Some a" "c \<noteq> job_core j"
      using active by (auto split: if_splits)
    then have "a \<noteq> jid" using own by auto
    then show "\<exists>j. dget (heap ?s') a = Some j \<and> job_core j = c \<and> \<not> terminal (job_state j)"
      by - (rule jobs_ok_active [OF s a(1)], simp add: heap)
  next
    fix a i assume "dget (heap ?s') a = Some i" "\<not> terminal (job_state i)"
    then have "dget (heap s) a = Some i" "a \<noteq> jid" "\<not> terminal (job_state i)"
      using heap by (auto split: if_splits)
    then have "dget (active s) (job_core i) = Some a" using jobs_ok_live [OF s] by blast
    moreover from this act \<open>a \<noteq> jid\<close> have "job_core i \<noteq> job_core j" by auto
    ultimately show "dget (active ?s') (job_core i) = Some a" using active by simp
  qed (insert s j heap active, auto simp: jobs_ok_def split: if_splits)
qed

lemma reachable_ok: "reachable limit s \<Longrightarrow> jobs_ok s \<and> history_ok s \<and> history_limit s = limit"
proof (induction rule: reachable.induct)
  case start
  then show ?case by (simp add: new_job_manager_def jobs_ok_def history_ok_def)
next
  case (step s s')
  from step.hyps(2) show ?case
  proof cases
    case (submitted jid cid action now r)
    moreover have "history_limit s' = history_limit s"
      using submitted by (auto simp: submit_def Let_def split: option.splits if_splits)
    ultimately show ?thesis using step.IH submit_jobs_ok submit_history_ok by metis
  next
    case (begun jid j now)
    then show ?thesis
      using step.IH begin_jobs_ok update_history_ok by (auto simp: begin_run_def)
  next
    case (finished jid j timeout out now)
    have "history_ok (finish_run jid timeout out now s)"
      using step.IH update_history_ok [of s jid] finished(2)
      by (simp add: finish_run_def Let_def history_ok_def)
    then show ?thesis
      using step.IH finished finish_jobs_ok by (simp add: finish_run_def Let_def)
  qed
qed

section \<open>Properties\<close>

text \<open>
  C10: however submissions and tasks interleave, at most one unfinished job exists per core, it
  is the one in the active table, and the history never exceeds its bound.
\<close>

theorem jobs_serialized:
  assumes "reachable limit s"
  shows "(\<forall>a b i j. dget (heap s) a = Some i \<longrightarrow> dget (heap s) b = Some j \<longrightarrow>
      \<not> terminal (job_state i) \<longrightarrow> \<not> terminal (job_state j) \<longrightarrow> job_core i = job_core j \<longrightarrow> a = b) \<and>
    (\<forall>a i. dget (heap s) a = Some i \<longrightarrow>
      (dget (active s) (job_core i) = Some a \<longleftrightarrow> \<not> terminal (job_state i))) \<and>
    length (order s) \<le> limit \<and> set (known s) = set (order s)"
proof -
  note ok = reachable_ok [OF assms]
  then have "\<And>a i. dget (heap s) a = Some i \<Longrightarrow> \<not> terminal (job_state i) \<Longrightarrow>
      dget (active s) (job_core i) = Some a"
    by (simp add: jobs_ok_def)
  moreover have "\<And>a i c. dget (heap s) a = Some i \<Longrightarrow> dget (active s) c = Some a \<Longrightarrow>
      \<not> terminal (job_state i)"
    using ok by (fastforce simp: jobs_ok_def)
  ultimately show ?thesis
    using ok by (auto simp: history_ok_def) (metis option.inject)+
qed

lemma reach_submit:
  "reachable limit s \<Longrightarrow> jid \<notin> set (dkeys (heap s)) \<Longrightarrow>
   reachable limit (snd (submit cid action jid now s))"
  by (rule reachable.step) (auto intro!: job_step.submitted [OF _ prod.collapse [symmetric]])

definition two_jobs :: job_manager where
  "two_jobs = snd (submit ''b'' ''start'' ''j2'' 5
     (snd (submit ''a'' ''install'' ''j1'' 0 (new_job_manager 1))))"

lemma two_jobs_reachable: "reachable 1 two_jobs"
  unfolding two_jobs_def
  by (intro reach_submit reachable.start)
    (simp_all add: new_job_manager_def submit_def remember_def Let_def new_job_def)

theorem jobs_serialized_witness:
  "length (order two_jobs) \<le> 1 \<and> set (known two_jobs) = set (order two_jobs)"
  using jobs_serialized [OF two_jobs_reachable] by blast

lemma remember_keeps_new:
  assumes "history_ok s" "0 < history_limit s" "job_id j \<notin> set (dkeys (heap s))"
  shows "job_id j \<in> set (known (remember j s))"
proof -
  let ?n = "Suc (length (order s)) - history_limit s"
  have "job_id j \<notin> set (order s)" using assms by (auto simp: history_ok_def)
  then have "job_id j \<notin> set (take ?n (order s))" by (meson in_set_takeD)
  moreover have "take ?n (order s @ [job_id j]) = take ?n (order s)" using assms(2) by simp
  ultimately have "job_id j \<notin> set (take ?n (order s @ [job_id j]))" by simp
  then show ?thesis
    by (simp add: remember_def Let_def del: take_append)
qed

text \<open>
  A submission joins the job in flight for the same action, conflicts with one for
  another action, and otherwise queues a new job that is then the active one; a job in flight
  that the history has dropped makes it fail with a \<^verbatim>\<open>KeyError\<close>.
\<close>

theorem submit_spec:
  assumes s: "reachable limit s" and limit: "0 < limit"
    and jid: "jid \<noteq> []" "jid \<notin> set (dkeys (heap s))"
  shows "case dget (active s) cid of
      None \<Rightarrow> (\<exists>s'. submit cid action jid now s = (Inr (new_job jid cid action now), s') \<and>
          active_for s' cid = Some (new_job jid cid action now))
    | Some aid \<Rightarrow> snd (submit cid action jid now s) = s \<and>
        (case get_job s aid of
           None \<Rightarrow> fst (submit cid action jid now s) = Inl (JobKeyError aid)
         | Some j \<Rightarrow> job_core j = cid \<and> \<not> terminal (job_state j) \<and>
             (if job_action j = action then fst (submit cid action jid now s) = Inr j
              else \<exists>msg. fst (submit cid action jid now s) = Inl (JobConflictError msg)))"
proof (cases "dget (active s) cid")
  case (Some aid)
  from reachable_ok [OF s] have "jobs_ok s" by simp
  from jobs_ok_active [OF this Some] obtain j where
    "dget (heap s) aid = Some j" "job_core j = cid" "\<not> terminal (job_state j)" .
  with Some show ?thesis by (simp add: submit_def get_job_def)
next
  case None
  have "jid \<in> set (known (remember (new_job jid cid action now) s))"
    using remember_keeps_new [of s "new_job jid cid action now"] reachable_ok [OF s] limit jid by simp
  with None jid show ?thesis
    by (auto simp: submit_def Let_def active_for_def get_job_def)
qed

theorem submit_spec_witness:
  "fst (submit ''a'' ''install'' ''j3'' 9 two_jobs) = Inl (JobKeyError ''j1'')"
  using submit_spec [OF two_jobs_reachable, of "''j3''" "''a''" "''install''" 9]
  by (simp add: two_jobs_def new_job_manager_def submit_def remember_def Let_def new_job_def
      get_job_def)

text \<open>
  The history does not spare unfinished jobs: when it is full and its oldest entry is a
  job still in flight, a submission for another core drops that job, which then can neither
  be polled nor found as its core's active job, while every new submission for its core fails
  with a \<^verbatim>\<open>KeyError\<close>.
\<close>

theorem eviction_loses_active_job:
  assumes s: "reachable limit s" and full: "length (order s) = limit" "order s = jid # rest"
    and j: "dget (heap s) jid = Some j" "\<not> terminal (job_state j)"
    and other: "cid' \<noteq> job_core j" "dget (active s) cid' = None"
      "jid' \<notin> set (dkeys (heap s))"
  shows "\<exists>s'. submit cid' action jid' now s = (Inr (new_job jid' cid' action now), s') \<and>
    dget (heap s') jid = Some j \<and> get_job s' jid = None \<and> active_for s' (job_core j) = None \<and>
    (\<forall>a i t. submit (job_core j) a i t s' = (Inl (JobKeyError jid), s'))"
proof -
  note ok = reachable_ok [OF s]
  have act: "dget (active s) (job_core j) = Some jid" using jobs_ok_live ok j by blast
  have ne: "jid \<noteq> jid'" using j(1) other(3) by (metis dget_None_iff option.distinct(1))
  have "take (Suc (length (order s)) - history_limit s) (order s @ [jid']) = [jid]"
    using full ok by simp
  then have lost: "jid \<notin> set (known (remember (new_job jid' cid' action now) s))"
    by (simp add: remember_def Let_def)
  let ?s1 = "remember (new_job jid' cid' action now) s"
  let ?s' = "?s1\<lparr>active := dput cid' jid' (active ?s1)\<rparr>"
  have "submit cid' action jid' now s = (Inr (new_job jid' cid' action now), ?s')"
    using other(2) by (simp add: submit_def Let_def)
  moreover have "get_job ?s' jid = None" using lost by (simp add: get_job_def)
  moreover from this have "submit (job_core j) a i t ?s' = (Inl (JobKeyError jid), ?s')" for a i t
    using act other(1) by (simp add: submit_def)
  moreover have "active_for ?s' (job_core j) = None"
    using act other(1) \<open>get_job ?s' jid = None\<close> by (simp add: active_for_def)
  moreover have "dget (heap ?s') jid = Some j" using j(1) ne by simp
  ultimately show ?thesis by blast
qed

definition one_job :: job_manager where
  "one_job = snd (submit ''a'' ''install'' ''j1'' 0 (new_job_manager 1))"

theorem eviction_loses_active_job_witness:
  "\<exists>s'. submit ''b'' ''start'' ''j2'' 5 one_job = (Inr (new_job ''j2'' ''b'' ''start'' 5), s') \<and>
    active_for s' ''a'' = None"
proof -
  have "reachable 1 one_job"
    unfolding one_job_def by (intro reach_submit reachable.start) (simp add: new_job_manager_def)
  from eviction_loses_active_job [OF this, of "''j1''" "[]" "new_job ''j1'' ''a'' ''install'' 0"
      "''b''" "''j2''" "''start''" 5]
  show ?thesis
    by (auto simp: one_job_def new_job_manager_def submit_def remember_def Let_def)
qed

end
