(* ===== verification/Files.thy ===== *)
theory Files
  imports Json
begin

text \<open>
  \<^verbatim>\<open>pathlib\<close> as the agent uses it. A path is its root (empty, \<^verbatim>\<open>/\<close> or \<^verbatim>\<open>//\<close>) and its parts, as
  \<^verbatim>\<open>PurePosixPath\<close> keeps them; what depends on the file system (\<^verbatim>\<open>resolve\<close>) is a parameter of the definitions
  that call it. JSON files are read and written as text.
\<close>

section \<open>Paths\<close>

type_synonym path = "string \<times> string list"

definition path_root :: "string \<Rightarrow> string" where
  "path_root s =
     (if starts_with s ''//'' \<and> \<not> starts_with s ''///'' then ''//''
      else if starts_with s ''/'' then ''/'' else [])"

definition path_of :: "string \<Rightarrow> path" where
  "path_of s = (path_root s, filter (\<lambda>p. p \<noteq> [] \<and> p \<noteq> ''.'') (py_split CHR ''/'' s))"

text \<open>\<^verbatim>\<open>str(path)\<close>.\<close>

definition path_text :: "path \<Rightarrow> string" where
  "path_text p = (if fst p = [] \<and> snd p = [] then ''.'' else fst p @ py_join ''/'' (snd p))"

text \<open>\<^verbatim>\<open>p / s\<close>: an absolute right-hand side replaces the left one.\<close>

definition path_join :: "path \<Rightarrow> string \<Rightarrow> path" where
  "path_join p s =
     (let q = path_of s in if fst q \<noteq> [] then q else (fst p, snd p @ snd q))"

definition is_absolute :: "path \<Rightarrow> bool" where
  "is_absolute p \<longleftrightarrow> fst p \<noteq> []"

text \<open>\<^verbatim>\<open>q in p.parents\<close>.\<close>

definition is_parent :: "path \<Rightarrow> path \<Rightarrow> bool" where
  "is_parent q p \<longleftrightarrow> fst q = fst p \<and> length (snd q) < length (snd p) \<and> take (length (snd q)) (snd p) = snd q"

definition within :: "path \<Rightarrow> path \<Rightarrow> bool" where
  "within root p \<longleftrightarrow> p = root \<or> is_parent root p"

lemma within_iff: "within root p \<longleftrightarrow> fst root = fst p \<and> (\<exists>rest. snd p = snd root @ rest)"
proof
  assume "within root p"
  then show "fst root = fst p \<and> (\<exists>rest. snd p = snd root @ rest)"
    by (metis append.right_neutral append_take_drop_id is_parent_def within_def)
next
  assume a: "fst root = fst p \<and> (\<exists>rest. snd p = snd root @ rest)"
  then obtain rest where r: "snd p = snd root @ rest" by blast
  show "within root p"
  proof (cases rest)
    case Nil
    with a r show ?thesis by (simp add: within_def prod_eq_iff)
  next
    case Cons
    with a r show ?thesis by (simp add: within_def is_parent_def)
  qed
qed

lemma within_trans: "within a b \<Longrightarrow> within b c \<Longrightarrow> within a c"
  by (auto simp: within_iff)

text \<open>\<^verbatim>\<open>name\<close>, \<^verbatim>\<open>stem\<close> and \<^verbatim>\<open>with_suffix\<close> of a file name.\<close>

definition dot_split :: "string \<Rightarrow> (string \<times> string) option" where
  "dot_split name =
     (let back = takeWhile (\<lambda>c. c \<noteq> CHR ''.'') (rev name);
          front = drop (Suc (length back)) (rev name)
      in if length back < length name \<and> back \<noteq> [] \<and> front \<noteq> [] then Some (rev front, rev back) else None)"

definition stem :: "string \<Rightarrow> string" where
  "stem name = (case dot_split name of None \<Rightarrow> name | Some (a, _) \<Rightarrow> a)"

lemma takeWhile_dot_append:
  "CHR ''.'' \<notin> set b \<Longrightarrow> takeWhile (\<lambda>c. c \<noteq> CHR ''.'') (b @ CHR ''.'' # a) = b"
  by (induction b) auto

lemma stem_suffix:
  assumes "CHR ''.'' \<notin> set b" "a \<noteq> []" "b \<noteq> []"
  shows "stem (a @ CHR ''.'' # b) = a"
  using assms takeWhile_dot_append [of "rev b" "rev a"] by (simp add: stem_def dot_split_def Let_def)

section \<open>JSON files\<close>

text \<open>\<^verbatim>\<open>json.dumps(v, sort_keys=True)\<close>.\<close>

definition sorted_text :: "json \<Rightarrow> string" where
  "sorted_text v = json_dumps default_style (jsort v)"

lemma sorted_text_loads: "json_ok v \<Longrightarrow> json_loads (sorted_text v) = Some (jsort v)"
  by (simp add: sorted_text_def json_loads_dumps json_ok_jsort style_ok_default)

text \<open>Only the objects of a list: \<^verbatim>\<open>[item for item in data if isinstance(item, dict)]\<close>.\<close>

fun objects :: "json list \<Rightarrow> jobj list" where
  "objects [] = []"
| "objects (JObj d # xs) = d # objects xs"
| "objects (_ # xs) = objects xs"

lemma objects_map_JObj [simp]: "objects (map JObj ds) = ds"
  by (induction ds) auto

lemma map_JObj_objects: "map JObj (objects xs) = filter (\<lambda>x. \<exists>d. x = JObj d) xs"
  by (induction xs rule: objects.induct) auto

definition sort_obj :: "jobj \<Rightarrow> jobj" where
  "sort_obj d = sort_key fst (map (\<lambda>kv. (fst kv, jsort (snd kv))) d)"

lemma jsort_JObj: "jsort (JObj d) = JObj (sort_obj d)"
  by (simp add: sort_obj_def)

lemma jsort_objects: "map (jsort \<circ> JObj) ds = map JObj (map sort_obj ds)"
  by (simp add: sort_obj_def)

lemma dget_sort_obj: "distinct (map fst d) \<Longrightarrow> dget (sort_obj d) k = map_option jsort (dget d k)"
proof -
  assume d: "distinct (map fst d)"
  have keys: "map fst (map (\<lambda>kv. (fst kv, jsort (snd kv))) d) = map fst d" by simp
  from d have "dget (sort_obj d) = dget (map (\<lambda>kv. (fst kv, jsort (snd kv))) d)"
    unfolding sort_obj_def by (intro dget_sort_key) (simp only: keys)
  then show ?thesis
    using dget_map_snd [of "\<lambda>_. jsort" d k] by (simp add: case_prod_unfold)
qed

lemma truthy_jsort [simp]: "truthy (jsort v) = truthy v"
proof (cases v)
  case (JObj d)
  have "length (sort_obj d) = length d" by (simp add: sort_obj_def)
  then show ?thesis
    using JObj by (cases d; cases "sort_obj d") (simp_all add: jsort_JObj del: jsort.simps(2))
qed auto

end
