(* ===== verification/Accounts.thy ===== *)
theory Accounts
  imports Files
begin

text \<open>
  \<^verbatim>\<open>node_agent/accounts_store.py\<close>: the snapshot of the accounts that the panel pushed for a core, one JSON file
  per core. The state is the directory: its files by name, the names that cannot be read (\<^verbatim>\<open>OSError\<close>), and
  whether writing raises. The new text replaces the old one in one step, through a \<^verbatim>\<open>.part\<close> file that no
  operation reads.
\<close>

record account_dir =
  acct_files :: "(string, string) dict"
  acct_unreadable :: "string list"
  acct_full :: bool
  acct_made :: bool

text \<open>\<^verbatim>\<open>_SAFE.sub("_", core_id)\<close>: every run of other characters becomes one underscore.\<close>

definition safe_char :: "char \<Rightarrow> bool" where
  "safe_char c \<longleftrightarrow> is_upper_ascii c \<or> is_lower_ascii c \<or> is_digit c \<or> c \<in> {CHR ''.'', CHR ''_'', CHR ''-''}"

fun safe_sub :: "bool \<Rightarrow> string \<Rightarrow> string" where
  "safe_sub inside [] = []"
| "safe_sub inside (c # cs) =
     (if safe_char c then c # safe_sub False cs
      else if inside then safe_sub True cs else CHR ''_'' # safe_sub True cs)"

definition account_file :: "string \<Rightarrow> string" where
  "account_file cid = safe_sub False cid @ ''.json''"

section \<open>Reading\<close>

text \<open>\<^verbatim>\<open>load\<close>: an unreadable or invalid file counts as no accounts.\<close>

definition load_accounts :: "account_dir \<Rightarrow> string \<Rightarrow> jobj list" where
  "load_accounts D cid =
     (case dget (acct_files D) (account_file cid) of
        None \<Rightarrow> []
      | Some content \<Rightarrow>
          if account_file cid \<in> set (acct_unreadable D) then []
          else (case json_loads content of Some (JList data) \<Rightarrow> objects data | _ \<Rightarrow> []))"

definition all_accounts :: "account_dir \<Rightarrow> (string, jobj list) dict" where
  "all_accounts D =
     (if acct_made D
      then map (\<lambda>name. (stem name, load_accounts D (stem name)))
             (sort (filter (\<lambda>name. ends_with name ''.json'') (dkeys (acct_files D))))
      else [])"

section \<open>Writing\<close>

definition account_key :: "jobj \<Rightarrow> string" where
  "account_key item = py_str (jor (jget item ''account_id'') (JStr []))"

text \<open>\<^verbatim>\<open>known[key] = item\<close> for the items that have a key.\<close>

fun index_accounts :: "jobj list \<Rightarrow> (string, jobj) dict \<Rightarrow> (string, jobj) dict" where
  "index_accounts [] known = known"
| "index_accounts (item # items) known =
     index_accounts items
       (if account_key item \<noteq> [] then dput (account_key item) item known else known)"

text \<open>\<^verbatim>\<open>{key: n for n, i in enumerate(stored)}\<close>, later positions winning.\<close>

fun positions :: "nat \<Rightarrow> jobj list \<Rightarrow> (string, nat) dict \<Rightarrow> (string, nat) dict" where
  "positions n [] d = d"
| "positions n (i # items) d = positions (Suc n) items (dput (account_key i) n d)"

definition merge_accounts :: "jobj list \<Rightarrow> jobj list \<Rightarrow> jobj list" where
  "merge_accounts loaded incoming =
     (let known = index_accounts incoming (index_accounts loaded []);
          stored = loaded @ filter (\<lambda>i. account_key i = []) incoming;
          order = positions 0 stored []
      in sort_key (\<lambda>i. case dget order (account_key i) of None \<Rightarrow> 10 ^ 6 | Some n \<Rightarrow> n) (map snd known))"

definition accounts_text :: "jobj list \<Rightarrow> string" where
  "accounts_text stored = sorted_text (JList (map JObj stored))"

definition store_accounts ::
  "string \<Rightarrow> json list \<Rightarrow> bool \<Rightarrow> account_dir \<Rightarrow> jobj list \<times> account_dir" where
  "store_accounts cid accounts replace D =
     (let incoming = objects accounts;
          stored = (if replace then incoming else merge_accounts (load_accounts D cid) incoming)
      in (stored,
          if acct_full D then D
          else D\<lparr>acct_files := dput (account_file cid) (accounts_text stored) (acct_files D),
                 acct_made := True\<rparr>))"

definition forget_accounts :: "string \<Rightarrow> account_dir \<Rightarrow> account_dir" where
  "forget_accounts cid D = D\<lparr>acct_files := dpop (account_file cid) (acct_files D)\<rparr>"

section \<open>File names\<close>

lemma safe_sub_safe: "list_all safe_char s \<Longrightarrow> safe_sub b s = s"
  by (induction s arbitrary: b) auto

lemma safe_sub_chars: "list_all safe_char (safe_sub b s)"
  by (induction s arbitrary: b) (auto simp: safe_char_def)

lemma account_file_inject:
  "list_all safe_char a \<Longrightarrow> list_all safe_char b \<Longrightarrow> account_file a = account_file b \<longleftrightarrow> a = b"
  by (simp add: account_file_def safe_sub_safe)

text \<open>No core id leaves the directory: the name has no slash and is not a dot entry.\<close>

lemma account_file_confined: "CHR ''/'' \<notin> set (account_file cid) \<and> account_file cid \<notin> {''.'', ''..''}"
proof -
  have "CHR ''/'' \<notin> set (safe_sub False cid)"
    using safe_sub_chars [of False cid]
    by (auto simp: list_all_iff safe_char_def is_upper_ascii_def is_lower_ascii_def is_digit_def)
  moreover have "5 \<le> length (account_file cid)" by (simp add: account_file_def)
  ultimately show ?thesis by (auto simp: account_file_def)
qed

lemma stem_account_file: "safe_sub False cid \<noteq> [] \<Longrightarrow> stem (account_file cid) = safe_sub False cid"
  using stem_suffix [of "''json''" "safe_sub False cid"] by (simp add: account_file_def)

section \<open>What a snapshot reads back\<close>

definition accounts_ok :: "jobj list \<Rightarrow> bool" where
  "accounts_ok ds \<longleftrightarrow> (\<forall>d \<in> set ds. json_ok (JObj d))"

lemma accounts_text_loads:
  "accounts_ok ds \<Longrightarrow> json_loads (accounts_text ds) = Some (JList (map JObj (map sort_obj ds)))"
proof -
  assume "accounts_ok ds"
  then have "json_ok (JList (map JObj ds))" by (simp add: accounts_ok_def)
  from sorted_text_loads [OF this] show ?thesis
    by (simp add: accounts_text_def sort_obj_def comp_def)
qed

lemma account_key_sort:
  "json_ok (JObj d) \<Longrightarrow> \<forall>v. dget d ''account_id'' = Some v \<longrightarrow> jsort v = v \<Longrightarrow>
   account_key (sort_obj d) = account_key d"
  by (cases "dget d ''account_id''") (simp_all add: account_key_def jget_def dget_sort_obj)

lemma load_after_store:
  assumes "\<not> acct_full D" "account_file cid \<notin> set (acct_unreadable D)"
    and "store_accounts cid accounts replace D = (stored, D')" "accounts_ok stored"
  shows "load_accounts D' cid = map sort_obj stored"
    and "account_file other \<noteq> account_file cid \<Longrightarrow> load_accounts D' other = load_accounts D other"
proof -
  from assms(1,3) have D': "D' = D\<lparr>acct_files := dput (account_file cid) (accounts_text stored) (acct_files D),
      acct_made := True\<rparr>"
    by (auto simp: store_accounts_def Let_def)
  show "load_accounts D' cid = map sort_obj stored"
    using assms(2) accounts_text_loads [OF assms(4)]
    by (simp add: load_accounts_def D' del: map_map)
  show "account_file other \<noteq> account_file cid \<Longrightarrow> load_accounts D' other = load_accounts D other"
    by (simp add: load_accounts_def D' cong: option.case_cong if_cong)
qed

section \<open>What a merge keeps\<close>

definition last_with_key :: "string \<Rightarrow> jobj list \<Rightarrow> jobj option" where
  "last_with_key k items = List.find (\<lambda>i. account_key i = k) (rev items)"

lemma last_with_key_key: "last_with_key k items = Some i \<Longrightarrow> account_key i = k"
  by (auto simp: last_with_key_def find_Some_iff)

lemma last_with_key_unique:
  assumes "distinct (map account_key items)"
  shows "last_with_key k items = Some i \<longleftrightarrow> i \<in> set items \<and> account_key i = k"
proof
  assume "last_with_key k items = Some i"
  then show "i \<in> set items \<and> account_key i = k"
    by (auto simp: last_with_key_def find_Some_iff) (metis nth_mem length_rev set_rev)
next
  assume i: "i \<in> set items \<and> account_key i = k"
  then obtain j where j: "last_with_key k items = Some j"
    by (cases "last_with_key k items") (auto simp: last_with_key_def find_None_iff)
  then have "j \<in> set items \<and> account_key j = k"
    by (auto simp: last_with_key_def find_Some_iff) (metis nth_mem length_rev set_rev)
  with i assms have "j = i" by (auto simp: distinct_map inj_on_def)
  with j show "last_with_key k items = Some i" by simp
qed

lemma find_append: "List.find P (xs @ ys) = (case List.find P xs of None \<Rightarrow> List.find P ys | Some x \<Rightarrow> Some x)"
  by (induction xs) auto

lemma index_accounts_get:
  "k \<noteq> [] \<Longrightarrow> dget (index_accounts items known) k =
     (case last_with_key k items of None \<Rightarrow> dget known k | Some i \<Rightarrow> Some i)"
  by (induction items known rule: index_accounts.induct)
    (auto simp: last_with_key_def find_append split: option.splits)

definition index_ok :: "(string, jobj) dict \<Rightarrow> bool" where
  "index_ok known \<longleftrightarrow> dict_ok known \<and> (\<forall>(k, i) \<in> set known. k \<noteq> [] \<and> account_key i = k)"

lemma index_ok_dput:
  assumes "index_ok known" "account_key item \<noteq> []"
  shows "index_ok (dput (account_key item) item known)"
proof -
  have "k \<noteq> [] \<and> account_key i = k" if "(k, i) \<in> set (dput (account_key item) item known)" for k i
  proof -
    from assms(1) have "dict_ok (dput (account_key item) item known)" by (simp add: index_ok_def)
    from dget_iff_in_set [OF this] that have "dget (dput (account_key item) item known) k = Some i" by blast
    then show ?thesis
      using assms by (auto simp: index_ok_def split: if_splits dest: map_of_SomeD)
  qed
  with assms(1) show ?thesis by (auto simp: index_ok_def)
qed

lemma index_accounts_ok: "index_ok known \<Longrightarrow> index_ok (index_accounts items known)"
  by (induction items known rule: index_accounts.induct) (simp_all add: index_ok_dput)

lemma index_ok_keys: "index_ok known \<Longrightarrow> map account_key (map snd known) = map fst known"
  unfolding map_map by (intro map_cong refl) (auto simp: index_ok_def)

lemma index_ok_item:
  assumes "index_ok known"
  shows "i \<in> set (map snd known) \<longleftrightarrow> account_key i \<noteq> [] \<and> dget known (account_key i) = Some i"
proof -
  have "i \<in> set (map snd known) \<longleftrightarrow> (\<exists>k. (k, i) \<in> set known)" by force
  also have "\<dots> \<longleftrightarrow> account_key i \<noteq> [] \<and> (account_key i, i) \<in> set known"
    using assms by (auto simp: index_ok_def)
  finally show ?thesis
    using dget_iff_in_set [of known "account_key i" i] assms by (simp add: index_ok_def)
qed

lemma merge_accounts_set:
  "set (merge_accounts loaded incoming) =
     {i. account_key i \<noteq> [] \<and>
        (case last_with_key (account_key i) incoming of
           None \<Rightarrow> last_with_key (account_key i) loaded = Some i | Some j \<Rightarrow> j = i)}"
proof -
  let ?known = "index_accounts incoming (index_accounts loaded [])"
  have "index_ok []" by (simp add: index_ok_def)
  then have "index_ok ?known" by (intro index_accounts_ok)
  from index_ok_item [OF this] show ?thesis
    by (auto simp: merge_accounts_def Let_def index_accounts_get split: option.splits simp del: set_map)
qed

lemma merge_accounts_distinct: "distinct (map account_key (merge_accounts loaded incoming))"
proof -
  let ?known = "index_accounts incoming (index_accounts loaded [])"
  have "index_ok []" by (simp add: index_ok_def)
  then have ok: "index_ok ?known" by (intro index_accounts_ok)
  then have "distinct (map account_key (map snd ?known))"
    unfolding index_ok_keys [OF ok] by (simp add: index_ok_def dict_ok_def)
  then show ?thesis by (simp add: merge_accounts_def Let_def distinct_map del: map_map)
qed

section \<open>Properties\<close>

lemma snapshot_read_back:
  assumes "\<not> acct_full D" "account_file cid \<notin> set (acct_unreadable D)"
    and "store_accounts cid accounts replace D = (stored, D')"
    and "accounts_ok stored" "list_all safe_char cid" "cid \<noteq> []"
  shows "load_accounts D' cid = map sort_obj stored \<and>
    (cid, map sort_obj stored) \<in> set (all_accounts D') \<and>
    (\<forall>other. list_all safe_char other \<and> other \<noteq> cid \<longrightarrow> load_accounts D' other = load_accounts D other)"
proof -
  note load = load_after_store [OF assms(1-4)]
  from assms(1,3) have D': "D' = D\<lparr>acct_files := dput (account_file cid) (accounts_text stored) (acct_files D),
      acct_made := True\<rparr>"
    by (auto simp: store_accounts_def Let_def)
  have stem: "stem (account_file cid) = cid"
    using assms(5,6) by (simp add: stem_account_file safe_sub_safe)
  have "account_file cid \<in> set (dkeys (acct_files D'))"
    unfolding set_dkeys by (simp add: D')
  moreover have "ends_with (account_file cid) ''.json''" by (auto simp: ends_with_iff account_file_def)
  ultimately have "(stem (account_file cid), load_accounts D' (stem (account_file cid))) \<in> set (all_accounts D')"
    by (auto simp: all_accounts_def D')
  with load assms(5) show ?thesis by (simp add: stem account_file_inject)
qed

text \<open>
  A snapshot that could be written is what a restarted agent reads back: loading the core returns exactly the
  accounts that the store operation reported, in their order (each as JSON with sorted keys), the boot-time enumeration
  of all snapshots lists them under the core's id, and no other core's snapshot changes.
\<close>

theorem account_snapshot_roundtrip:
  assumes "\<not> acct_full D" "account_file cid \<notin> set (acct_unreadable D)"
    and "store_accounts cid accounts replace D = (stored, D')"
    and "accounts_ok stored" "list_all safe_char cid" "cid \<noteq> []"
  shows "load_accounts D' cid = map sort_obj stored \<and>
    (cid, map sort_obj stored) \<in> set (all_accounts D') \<and>
    (\<forall>other. list_all safe_char other \<and> other \<noteq> cid \<longrightarrow> load_accounts D' other = load_accounts D other)"
  using snapshot_read_back [OF assms] .

definition demo_account :: "string \<Rightarrow> int \<Rightarrow> jobj" where
  "demo_account aid uid = [(''user_id'', JInt uid), (''account_id'', JStr aid)]"

definition demo_accounts_dir :: account_dir where
  "demo_accounts_dir = \<lparr>acct_files = [], acct_unreadable = [], acct_full = False, acct_made = False\<rparr>"

theorem account_snapshot_roundtrip_witness:
  "load_accounts (snd (store_accounts ''sing-box'' [JObj (demo_account ''b'' 2), JNull, JObj (demo_account ''a'' 1)]
     True demo_accounts_dir)) ''sing-box'' = map sort_obj [demo_account ''b'' 2, demo_account ''a'' 1]"
proof -
  have run: "store_accounts ''sing-box'' [JObj (demo_account ''b'' 2), JNull, JObj (demo_account ''a'' 1)]
      True demo_accounts_dir = ([demo_account ''b'' 2, demo_account ''a'' 1],
      snd (store_accounts ''sing-box'' [JObj (demo_account ''b'' 2), JNull, JObj (demo_account ''a'' 1)]
      True demo_accounts_dir))"
    by (simp add: store_accounts_def Let_def)
  have "accounts_ok [demo_account ''b'' 2, demo_account ''a'' 1]"
    by (simp add: accounts_ok_def demo_account_def)
  moreover have "list_all safe_char ''sing-box''"
    by (simp add: safe_char_def is_upper_ascii_def is_lower_ascii_def is_digit_def)
  ultimately show ?thesis
    using account_snapshot_roundtrip [OF _ _ run] by (simp add: demo_accounts_dir_def)
qed

text \<open>
  An incremental save (\<open>replace = False\<close>) merges by account id: the result has at most one account per id; an id
  that is sent carries the last account sent for it, any other id the last account stored for it, so no account with an
  id is lost. An account without an id, stored or sent, is dropped although the code appends it.
\<close>

theorem account_merge_spec:
  assumes run: "store_accounts cid accounts False D = (stored, D')"
  shows "distinct (map account_key stored) \<and> (\<forall>i \<in> set stored. account_key i \<noteq> []) \<and>
    (\<forall>k. k \<noteq> [] \<longrightarrow> last_with_key k stored =
      (case last_with_key k (objects accounts) of
         None \<Rightarrow> last_with_key k (load_accounts D cid) | Some i \<Rightarrow> Some i))"
proof (intro conjI allI impI)
  from run have stored: "stored = merge_accounts (load_accounts D cid) (objects accounts)"
    by (simp add: store_accounts_def Let_def)
  show d: "distinct (map account_key stored)" by (simp add: stored merge_accounts_distinct)
  show "\<forall>i \<in> set stored. account_key i \<noteq> []" by (simp add: stored merge_accounts_set)
  fix k :: string
  let ?new = "last_with_key k (objects accounts)" and ?old = "last_with_key k (load_accounts D cid)"
  assume k: "k \<noteq> []"
  have "last_with_key k stored = Some i \<longleftrightarrow> (case ?new of None \<Rightarrow> ?old | Some i \<Rightarrow> Some i) = Some i" for i
  proof -
    have "last_with_key k stored = Some i \<longleftrightarrow>
        account_key i = k \<and> (case ?new of None \<Rightarrow> ?old = Some i | Some j \<Rightarrow> j = i)"
      unfolding last_with_key_unique [OF d] unfolding stored merge_accounts_set using k by auto
    then show ?thesis
      using last_with_key_key [of k _ i] by (cases ?new) auto
  qed
  then show "last_with_key k stored = (case ?new of None \<Rightarrow> ?old | Some i \<Rightarrow> Some i)"
    by (metis option.exhaust)
qed

theorem account_merge_spec_witness:
  "map account_key (fst (store_accounts ''ssh'' [JObj (demo_account ''a'' 5), JObj (demo_account [] 6)] False
     (snd (store_accounts ''ssh'' [JObj (demo_account ''b'' 2), JObj (demo_account ''a'' 1)] True
        demo_accounts_dir)))) \<noteq> [''a'', ''a''] \<and>
   last_with_key ''a'' (fst (store_accounts ''ssh'' [JObj (demo_account ''a'' 5)] False demo_accounts_dir)) =
     Some (demo_account ''a'' 5)"
proof -
  have "last_with_key ''a'' (objects [JObj (demo_account ''a'' 5)]) = Some (demo_account ''a'' 5)"
    by (simp add: last_with_key_def account_key_def demo_account_def jget_def jor_def)
  moreover note account_merge_spec
    [of "''ssh''" "[JObj (demo_account ''a'' 5)]" demo_accounts_dir, OF surjective_pairing]
  ultimately have "last_with_key ''a'' (fst (store_accounts ''ssh'' [JObj (demo_account ''a'' 5)] False
      demo_accounts_dir)) = Some (demo_account ''a'' 5)"
    by simp
  moreover have "distinct (map account_key (fst (store_accounts ''ssh''
      [JObj (demo_account ''a'' 5), JObj (demo_account [] 6)] False
      (snd (store_accounts ''ssh'' [JObj (demo_account ''b'' 2), JObj (demo_account ''a'' 1)] True
        demo_accounts_dir)))))"
    using account_merge_spec [OF surjective_pairing] by blast
  then have "map account_key (fst (store_accounts ''ssh''
      [JObj (demo_account ''a'' 5), JObj (demo_account [] 6)] False
      (snd (store_accounts ''ssh'' [JObj (demo_account ''b'' 2), JObj (demo_account ''a'' 1)] True
        demo_accounts_dir)))) \<noteq> [''a'', ''a'']"
    by (metis distinct_length_2_or_more)
  ultimately show ?thesis by blast
qed

end
