(* ===== verification/State_Store.thy ===== *)
theory State_Store
  imports Core_Types Cipher
begin

text \<open>
  \<^verbatim>\<open>node_agent/state.py\<close>: the sealed store of the cores' lifecycle, and the contract that the
  manager's port \<^verbatim>\<open>CoreStateStore\<close> states (locale \<open>core_state_store\<close>). The file's text is part of the state;
  the nonces that \<^verbatim>\<open>os.urandom(12)\<close> will draw are \<open>draws\<close>, of which \<open>drawn\<close> are used.
\<close>

record core_record =
  rec_state :: json
  rec_enabled :: bool
  rec_settings :: jobj

record node_store =
  ns_cipher :: secrets_cipher
  ns_file :: "string option"
  draws :: "nat \<Rightarrow> bytes"
  drawn :: nat

text \<open>Errors of the cipher and of the JSON text reach the caller as exceptions of other code.\<close>

definition value_error :: "string \<Rightarrow> core_exc" where
  "value_error m = OtherError ''ValueError'' m"

definition store_cipher_error :: "cipher_error \<Rightarrow> core_exc" where
  "store_cipher_error e = OtherError (if is_cipher_error e then ''CipherError'' else ''ValueError'') []"

definition core_aad :: "string \<Rightarrow> string" where
  "core_aad cid = ''node-core:'' @ cid"

text \<open>\<^verbatim>\<open>NodeCoreStateStore.__init__\<close>: the key file is made when missing and must hold 32 bytes.\<close>

definition open_store ::
  "bytes option \<Rightarrow> string option \<Rightarrow> bytes \<Rightarrow> (nat \<Rightarrow> bytes) \<Rightarrow> core_exc + node_store" where
  "open_store key_file file key_draw rng =
     (let key = (case key_file of None \<Rightarrow> key_draw | Some k \<Rightarrow> k) in
      if length key \<noteq> 32 then Inl (value_error ''node state.key must contain exactly 32 bytes'')
      else Inr \<lparr>ns_cipher = \<lparr>cipher_key = key\<rparr>, ns_file = file, draws = rng, drawn = 0\<rparr>)"

text \<open>\<^verbatim>\<open>dict(record.get("settings") or {})\<close> on a JSON value; \<^verbatim>\<open>dict\<close> of a list of pairs, which nothing writes, is refused.\<close>

definition dict_or_empty :: "json \<Rightarrow> core_exc + jobj" where
  "dict_or_empty v =
     (if truthy v then
        (case v of JObj d \<Rightarrow> Inr d
         | JStr _ \<Rightarrow> Inl (value_error ''dictionary update sequence'')
         | JList _ \<Rightarrow> Inl (value_error ''dictionary update sequence'')
         | _ \<Rightarrow> Inl (OtherError ''TypeError'' ''object is not iterable''))
      else Inr [])"

definition read_record ::
  "aead \<Rightarrow> secrets_cipher \<Rightarrow> string \<Rightarrow> jobj \<Rightarrow> core_exc + core_record" where
  "read_record A C cid r =
     bindR
       (if truthy (jget r ''settings_enc'')
        then (case decrypt_json A C (py_str (jget r ''settings_enc'')) (core_aad cid) of
                Inl e \<Rightarrow> Inl (store_cipher_error e) | Inr d \<Rightarrow> Inr d)
        else dict_or_empty (jget r ''settings''))
       (\<lambda>settings. Inr
         \<lparr>rec_state = jget_default r ''state'' (JStr (state_value INSTALLED)),
          rec_enabled = truthy (jget_default r ''enabled'' (JBool True)),
          rec_settings = settings\<rparr>)"

fun read_records ::
  "aead \<Rightarrow> secrets_cipher \<Rightarrow> jobj \<Rightarrow> core_exc + (string, core_record) dict" where
  "read_records A C [] = Inr []"
| "read_records A C ((cid, JObj r) # rest) =
     bindR (read_record A C cid r) (\<lambda>v. bindR (read_records A C rest) (\<lambda>vs. Inr ((cid, v) # vs)))"
| "read_records A C ((cid, _) # rest) = read_records A C rest"

definition store_read :: "aead \<Rightarrow> node_store \<Rightarrow> core_exc + (string, core_record) dict" where
  "store_read A s =
     (case ns_file s of
        None \<Rightarrow> Inr []
      | Some content \<Rightarrow>
          (case json_loads content of
             None \<Rightarrow> Inl (OtherError ''JSONDecodeError'' [])
           | Some (JObj raw) \<Rightarrow> read_records A (ns_cipher s) raw
           | Some _ \<Rightarrow> Inr []))"

definition seal_settings ::
  "aead \<Rightarrow> string \<Rightarrow> jobj \<Rightarrow> (node_store, core_exc, string) eff" where
  "seal_settings A cid settings s =
     ((case encrypt_json A (ns_cipher s) (draws s (drawn s)) settings (core_aad cid) of
         Inl e \<Rightarrow> Inl (store_cipher_error e) | Inr blob \<Rightarrow> Inr blob),
      s\<lparr>drawn := Suc (drawn s)\<rparr>)"

definition sealed_record :: "core_record \<Rightarrow> string \<Rightarrow> json" where
  "sealed_record r blob =
     JObj [(''state'', rec_state r), (''enabled'', JBool (rec_enabled r)),
           (''settings_enc'', JStr blob)]"

fun seal_records ::
  "aead \<Rightarrow> (string, core_record) dict \<Rightarrow> (node_store, core_exc, jobj) eff" where
  "seal_records A [] = ret []"
| "seal_records A ((cid, r) # rest) =
     bindE (seal_settings A cid (rec_settings r)) (\<lambda>blob.
     bindE (seal_records A rest) (\<lambda>sealed. ret ((cid, sealed_record r blob) # sealed)))"

definition file_text :: "jobj \<Rightarrow> string" where
  "file_text sealed = json_dumps default_style (jsort (JObj sealed)) @ [CHR 0x0A]"

definition store_write ::
  "aead \<Rightarrow> (string, core_record) dict \<Rightarrow> (node_store, core_exc, unit) eff" where
  "store_write A value =
     bindE (seal_records A value) (\<lambda>sealed. modE (\<lambda>s. s\<lparr>ns_file := Some (file_text sealed)\<rparr>))"

text \<open>A record in clear from before encryption is rewritten sealed at the first load.\<close>

definition plaintext_record :: "string \<times> json \<Rightarrow> bool" where
  "plaintext_record kv =
     (case snd kv of
        JObj r \<Rightarrow> ''settings'' \<in> set (dkeys r) \<and> ''settings_enc'' \<notin> set (dkeys r)
      | _ \<Rightarrow> False)"

definition has_plaintext :: "node_store \<Rightarrow> bool" where
  "has_plaintext s =
     (case ns_file s of
        None \<Rightarrow> False
      | Some content \<Rightarrow>
          (case json_loads content of Some (JObj raw) \<Rightarrow> list_ex plaintext_record raw | _ \<Rightarrow> False))"

definition store_load :: "aead \<Rightarrow> (node_store, core_exc, (string, core_record) dict) eff" where
  "store_load A =
     bindE (getE (store_read A)) (\<lambda>r. bindE (liftE r) (\<lambda>value.
     bindE (getE has_plaintext) (\<lambda>plain.
     seqE (whenE plain (store_write A value)) (ret value))))"

definition store_save ::
  "aead \<Rightarrow> string \<Rightarrow> core_state \<Rightarrow> bool \<Rightarrow> jobj option \<Rightarrow> (node_store, core_exc, unit) eff" where
  "store_save A cid st enabled settings =
     bindE (getE (store_read A)) (\<lambda>r. bindE (liftE r) (\<lambda>value.
     let previous = (case dget value cid of None \<Rightarrow> [] | Some p \<Rightarrow> rec_settings p) in
     store_write A (dput cid
       \<lparr>rec_state = JStr (state_value st), rec_enabled = enabled,
        rec_settings = (case settings of Some d \<Rightarrow> d | None \<Rightarrow> previous)\<rparr> value)))"

definition store_remove :: "aead \<Rightarrow> string \<Rightarrow> (node_store, core_exc, unit) eff" where
  "store_remove A cid =
     bindE (getE (store_read A)) (\<lambda>r. bindE (liftE r) (\<lambda>value. store_write A (dpop cid value)))"

section \<open>The contract of a core state store\<close>

text \<open>The port as the manager sees it: three operations on a store.\<close>

record 's store_ops =
  op_load :: "('s, core_exc, (string, core_record) dict) eff"
  op_save :: "string \<Rightarrow> core_state \<Rightarrow> bool \<Rightarrow> jobj option \<Rightarrow> ('s, core_exc, unit) eff"
  op_remove :: "string \<Rightarrow> ('s, core_exc, unit) eff"

definition saved_record ::
  "core_state \<Rightarrow> bool \<Rightarrow> jobj option \<Rightarrow> core_record option \<Rightarrow> core_record" where
  "saved_record st enabled settings old =
     \<lparr>rec_state = JStr (state_value st), rec_enabled = enabled,
      rec_settings = (case settings of Some d \<Rightarrow> d
        | None \<Rightarrow> (case old of None \<Rightarrow> [] | Some p \<Rightarrow> rec_settings p))\<rparr>"

text \<open>Settings that can be written as JSON: keys are not repeated, on any level.\<close>

definition settings_ok :: "jobj \<Rightarrow> bool" where
  "settings_ok d \<longleftrightarrow> json_ok (JObj d)"

definition opt_settings_ok :: "jobj option \<Rightarrow> bool" where
  "opt_settings_ok s \<longleftrightarrow> (case s of None \<Rightarrow> True | Some d \<Rightarrow> settings_ok d)"

lemma opt_settings_ok_simps [simp]: "opt_settings_ok None" "opt_settings_ok (Some d) = settings_ok d"
  by (simp_all add: opt_settings_ok_def)

locale core_state_store =
  fixes ops :: "'s store_ops"
    and ok :: "'s \<Rightarrow> bool"
    and view :: "'s \<Rightarrow> string \<Rightarrow> core_record option"
  assumes load_law: "ok s \<Longrightarrow> \<exists>d s'. op_load ops s = (Inr d, s') \<and> dget d = view s \<and> dict_ok d \<and>
        ok s' \<and> view s' = view s"
    and save_law: "ok s \<Longrightarrow> opt_settings_ok settings \<Longrightarrow>
        \<exists>s'. op_save ops cid st enabled settings s = (Inr (), s') \<and> ok s' \<and>
          view s' = (view s)(cid \<mapsto> saved_record st enabled settings (view s cid))"
    and remove_law: "ok s \<Longrightarrow> \<exists>s'. op_remove ops cid s = (Inr (), s') \<and> ok s' \<and>
          view s' = (view s)(cid := None)"
begin

text \<open>A save is durable: whatever is loaded next shows it.\<close>

lemma load_after_save:
  assumes "ok s" "opt_settings_ok settings"
  shows "\<exists>s1 d s2. op_save ops cid st enabled settings s = (Inr (), s1) \<and>
    op_load ops s1 = (Inr d, s2) \<and>
    dget d = (view s)(cid \<mapsto> saved_record st enabled settings (view s cid))"
  using save_law [OF assms] load_law by fastforce

lemma load_after_remove:
  assumes "ok s"
  shows "\<exists>s1 d s2. op_remove ops cid s = (Inr (), s1) \<and> op_load ops s1 = (Inr d, s2) \<and>
    dget d = (view s)(cid := None)"
  using remove_law [OF assms] load_law by fastforce

end

section \<open>The node's store keeps the contract\<close>

definition node_ops :: "aead \<Rightarrow> node_store store_ops" where
  "node_ops A = \<lparr>op_load = store_load A, op_save = store_save A, op_remove = store_remove A\<rparr>"

text \<open>What the store holds: the records read back from its file.\<close>

definition node_view :: "aead \<Rightarrow> node_store \<Rightarrow> string \<Rightarrow> core_record option" where
  "node_view A s = (case store_read A s of Inl _ \<Rightarrow> (\<lambda>_. None) | Inr d \<Rightarrow> dget d)"

definition record_ok :: "core_record \<Rightarrow> bool" where
  "record_ok r \<longleftrightarrow> (\<exists>st. rec_state r = JStr st) \<and> settings_ok (rec_settings r)"

definition records_ok :: "(string, core_record) dict \<Rightarrow> bool" where
  "records_ok d \<longleftrightarrow> dict_ok d \<and> (\<forall>cid r. dget d cid = Some r \<longrightarrow> record_ok r)"

definition node_store_ok :: "aead \<Rightarrow> node_store \<Rightarrow> bool" where
  "node_store_ok A s \<longleftrightarrow> cipher_ready (ns_cipher s) \<and> (\<forall>n. length (draws s n) = 12) \<and>
     (\<exists>d. store_read A s = Inr d \<and> records_ok d)"

lemma records_ok_Nil: "records_ok []"
  by (simp add: records_ok_def)

lemma records_ok_dput: "records_ok d \<Longrightarrow> record_ok r \<Longrightarrow> records_ok (dput cid r d)"
  by (auto simp: records_ok_def)

lemma records_ok_dpop: "records_ok d \<Longrightarrow> records_ok (dpop cid d)"
  by (auto simp: records_ok_def)

lemma records_ok_Cons:
  "records_ok ((cid, r) # d) \<Longrightarrow> record_ok r \<and> records_ok d"
  by (auto simp: records_ok_def dict_ok_def split: if_splits
      dest: map_of_SomeD intro: rev_image_eqI)

lemma records_ok_sort: "records_ok d \<Longrightarrow> records_ok (sort_key fst d)"
  by (simp add: records_ok_def dict_ok_def dget_sort_key distinct_sort_key)

text \<open>A written entry reads back as the record it seals.\<close>

definition entry_reads :: "aead \<Rightarrow> secrets_cipher \<Rightarrow> string \<times> json \<Rightarrow> string \<times> core_record \<Rightarrow> bool" where
  "entry_reads A C e v \<longleftrightarrow> fst e = fst v \<and>
     (\<exists>d. snd e = JObj d \<and> read_record A C (fst e) d = Inr (snd v))"

lemma read_records_entries:
  "list_all2 (entry_reads A C) es vs \<Longrightarrow> read_records A C es = Inr vs"
proof (induction es vs rule: list_all2_induct)
  case (Cons e es v vs)
  then show ?case by (cases e, cases v) (auto simp: entry_reads_def)
qed simp

lemma insort_key_entries:
  assumes "entry_reads A C e v" "list_all2 (entry_reads A C) es vs"
  shows "list_all2 (entry_reads A C) (insort_key fst e es) (insort_key fst v vs)"
  using assms(2,1)
proof (induction es vs rule: list_all2_induct)
  case (Cons e' es v' vs)
  then have "fst e' = fst v'" "fst e = fst v" by (simp_all add: entry_reads_def)
  with Cons show ?case by simp
qed simp

lemma sort_key_entries:
  "list_all2 (entry_reads A C) es vs \<Longrightarrow>
   list_all2 (entry_reads A C) (sort_key fst es) (sort_key fst vs)"
  by (induction es vs rule: list_all2_induct) (simp_all add: insort_key_entries)

context aead_scheme
begin

lemma seal_settings_reads:
  assumes C: "cipher_ready (ns_cipher s)" and n: "\<forall>n. length (draws s n) = 12"
    and r: "record_ok r"
  obtains blob where "seal_settings A cid (rec_settings r) s = (Inr blob, s\<lparr>drawn := Suc (drawn s)\<rparr>)"
    "entry_reads A (ns_cipher s) (cid, jsort (sealed_record r blob)) (cid, r)"
proof -
  from n have n': "length (draws s (drawn s)) = 12" by simp
  obtain blob where blob:
    "encrypt_json A (ns_cipher s) (draws s (drawn s)) (rec_settings r) (core_aad cid) = Inr blob"
    using encrypt_json_total [OF C n'] by blast
  have dec: "decrypt_json A (ns_cipher s) blob (core_aad cid) = Inr (rec_settings r)"
    using r by (intro decrypt_encrypt_json [OF C n' _ blob]) (simp add: record_ok_def settings_ok_def)
  have "blob \<noteq> []"
    using blob by (auto simp: encrypt_json_def blob_prefix_def Let_def split: sum.splits)
  moreover obtain st where "rec_state r = JStr st" using r by (auto simp: record_ok_def)
  moreover have "jsort (sealed_record r blob) = JObj (sort_key fst
      [(''state'', JStr st), (''enabled'', JBool (rec_enabled r)), (''settings_enc'', JStr blob)])"
    using calculation by (simp add: sealed_record_def)
  moreover have "dget (sort_key fst
      [(''state'', JStr st), (''enabled'', JBool (rec_enabled r)), (''settings_enc'', JStr blob)]) =
    dget [(''state'', JStr st), (''enabled'', JBool (rec_enabled r)), (''settings_enc'', JStr blob)]"
    by (rule dget_sort_key) simp
  ultimately have "entry_reads A (ns_cipher s) (cid, jsort (sealed_record r blob)) (cid, r)"
    using dec by (simp add: entry_reads_def read_record_def jget_def jget_default_def)
  with blob that show thesis by (simp add: seal_settings_def)
qed

lemma seal_records_reads:
  assumes "cipher_ready (ns_cipher s)" "\<forall>n. length (draws s n) = 12" "records_ok d"
  shows "\<exists>sealed k. seal_records A d s = (Inr sealed, s\<lparr>drawn := k\<rparr>) \<and>
    list_all2 (entry_reads A (ns_cipher s)) (map (\<lambda>kv. (fst kv, jsort (snd kv))) sealed) d \<and>
    (\<forall>kv \<in> set sealed. json_ok (snd kv)) \<and> map fst sealed = map fst d"
  using assms
proof (induction d arbitrary: s)
  case Nil
  then show ?case by (auto simp: eff_simps intro: exI [of _ "drawn s"])
next
  case (Cons e d)
  obtain cid r where e: "e = (cid, r)" by fastforce
  from Cons.prems e have r: "record_ok r" and d: "records_ok d" by (auto dest: records_ok_Cons)
  obtain blob where blob:
    "seal_settings A cid (rec_settings r) s = (Inr blob, s\<lparr>drawn := Suc (drawn s)\<rparr>)"
    "entry_reads A (ns_cipher s) (cid, jsort (sealed_record r blob)) (cid, r)"
    using seal_settings_reads Cons.prems r by blast
  have ok: "json_ok (sealed_record r blob)" using r by (auto simp: sealed_record_def record_ok_def)
  from Cons.IH [of "s\<lparr>drawn := Suc (drawn s)\<rparr>"] Cons.prems d blob e ok show ?case
    by (auto simp: eff_simps bindE_def)
qed

lemma sealed_not_plaintext: "\<not> plaintext_record (cid, jsort (sealed_record r blob))"
proof -
  have "set (dkeys (sort_key fst (d :: jobj))) = set (dkeys d)" for d
    by (simp add: image_image)
  then show ?thesis by (simp add: plaintext_record_def sealed_record_def image_image)
qed

lemma seal_records_sealed:
  "seal_records A d s = (Inr sealed, s') \<Longrightarrow>
    \<forall>kv \<in> set sealed. \<exists>r blob. snd kv = sealed_record r blob"
proof (induction d arbitrary: s sealed)
  case (Cons e d)
  obtain cid r where e: "e = (cid, r)" by fastforce
  from Cons.prems e obtain blob s1 rest where
    "seal_records A d s1 = (Inr rest, s')" "sealed = (cid, sealed_record r blob) # rest"
    by (auto elim!: bindE_Inr simp: eff_simps)
  with Cons.IH show ?case by auto
qed (simp add: eff_simps)

lemma store_write_reads:
  assumes C: "cipher_ready (ns_cipher s)" and n: "\<forall>n. length (draws s n) = 12"
    and d: "records_ok d"
  shows "\<exists>s'. store_write A d s = (Inr (), s') \<and> store_read A s' = Inr (sort_key fst d) \<and>
    node_store_ok A s' \<and> ns_cipher s' = ns_cipher s \<and> \<not> has_plaintext s'"
proof -
  obtain sealed k where sealed: "seal_records A d s = (Inr sealed, s\<lparr>drawn := k\<rparr>)"
    and reads: "list_all2 (entry_reads A (ns_cipher s)) (map (\<lambda>kv. (fst kv, jsort (snd kv))) sealed) d"
    and ok: "\<forall>kv \<in> set sealed. json_ok (snd kv)" "map fst sealed = map fst d"
    using seal_records_reads [OF assms] by blast
  let ?s' = "s\<lparr>drawn := k, ns_file := Some (file_text sealed)\<rparr>"
  have "json_ok (JObj sealed)" using ok d by (simp add: records_ok_def dict_ok_def)
  then have ok': "json_ok (jsort (JObj sealed))" by (rule json_ok_jsort)
  have "json_loads (file_text sealed) = Some (jsort (JObj sealed))"
    unfolding file_text_def
    by (rule json_loads_dumps_ws [OF style_ok_default ok']) (simp add: jws_def)
  moreover have "read_records A (ns_cipher s)
      (sort_key fst (map (\<lambda>kv. (fst kv, jsort (snd kv))) sealed)) = Inr (sort_key fst d)"
    by (intro read_records_entries sort_key_entries reads)
  ultimately have "store_read A ?s' = Inr (sort_key fst d)"
    by (simp add: store_read_def)
  moreover have "store_write A d s = (Inr (), ?s')"
    using sealed by (simp add: store_write_def eff_simps)
  moreover have "\<not> has_plaintext ?s'"
  proof -
    have "\<not> plaintext_record (fst kv, jsort (snd kv))" if "kv \<in> set sealed" for kv
      using seal_records_sealed [OF sealed] that sealed_not_plaintext by fastforce
    then show ?thesis
      by (simp add: has_plaintext_def \<open>json_loads (file_text sealed) = _\<close> list_ex_iff)
  qed
  ultimately show ?thesis
    using C n records_ok_sort [OF d] by (auto simp: node_store_ok_def)
qed

lemma node_save_law:
  assumes s: "node_store_ok A s" and set: "opt_settings_ok settings"
  shows "\<exists>s'. store_save A cid st enabled settings s = (Inr (), s') \<and> node_store_ok A s' \<and>
    node_view A s' = (node_view A s)(cid \<mapsto> saved_record st enabled settings (node_view A s cid))"
proof -
  from s obtain d where d: "store_read A s = Inr d" "records_ok d"
    and C: "cipher_ready (ns_cipher s)" "\<forall>n. length (draws s n) = 12"
    by (auto simp: node_store_ok_def)
  let ?r = "saved_record st enabled settings (dget d cid)"
  have "settings_ok []" by (simp add: settings_ok_def)
  with d(2) set have r: "record_ok ?r"
    by (auto simp: record_ok_def saved_record_def records_ok_def opt_settings_ok_def
        split: option.splits)
  have dput: "records_ok (dput cid ?r d)" using d(2) r by (rule records_ok_dput)
  have "distinct (map fst (dput cid ?r d))" using dput by (simp add: records_ok_def dict_ok_def)
  then have sorted: "dget (sort_key fst (dput cid ?r d)) = (dget d)(cid \<mapsto> ?r)"
    by (simp add: dget_sort_key)
  from store_write_reads [OF C dput] obtain s' where
    s': "store_write A (dput cid ?r d) s = (Inr (), s')" "node_store_ok A s'"
    "store_read A s' = Inr (sort_key fst (dput cid ?r d))" by blast
  have "store_save A cid st enabled settings s = store_write A (dput cid ?r d) s"
    by (simp add: store_save_def d saved_record_def Let_def split: option.splits)
  with s' sorted d show ?thesis by (simp add: node_view_def)
qed

lemma node_remove_law:
  assumes s: "node_store_ok A s"
  shows "\<exists>s'. store_remove A cid s = (Inr (), s') \<and> node_store_ok A s' \<and>
    node_view A s' = (node_view A s)(cid := None)"
proof -
  from s obtain d where d: "store_read A s = Inr d" "records_ok d"
    and C: "cipher_ready (ns_cipher s)" "\<forall>n. length (draws s n) = 12"
    by (auto simp: node_store_ok_def)
  have pop: "records_ok (dpop cid d)" using d(2) by (rule records_ok_dpop)
  have "distinct (map fst (dpop cid d))" using pop by (simp add: records_ok_def dict_ok_def)
  then have sorted: "dget (sort_key fst (dpop cid d)) = (dget d)(cid := None)"
    by (simp add: dget_sort_key)
  from store_write_reads [OF C pop] obtain s' where
    "store_write A (dpop cid d) s = (Inr (), s')" "node_store_ok A s'"
    "store_read A s' = Inr (sort_key fst (dpop cid d))" by blast
  with sorted d show ?thesis by (simp add: node_view_def store_remove_def)
qed

lemma node_load_law:
  assumes s: "node_store_ok A s"
  shows "\<exists>d s'. store_load A s = (Inr d, s') \<and> dget d = node_view A s \<and> dict_ok d \<and>
    node_store_ok A s' \<and> node_view A s' = node_view A s"
proof -
  from s obtain d where d: "store_read A s = Inr d" "records_ok d"
    and C: "cipher_ready (ns_cipher s)" "\<forall>n. length (draws s n) = 12"
    by (auto simp: node_store_ok_def)
  have dist: "distinct (map fst d)" using d(2) by (simp add: records_ok_def dict_ok_def)
  from store_write_reads [OF C d(2)] obtain s' where
    s': "store_write A d s = (Inr (), s')" "node_store_ok A s'"
    "store_read A s' = Inr (sort_key fst d)" by blast
  have "store_load A s = (if has_plaintext s then (Inr d, s') else (Inr d, s))"
    using s' by (simp add: store_load_def d eff_simps)
  with s' s d dist show ?thesis
    by (auto simp: node_view_def dget_sort_key records_ok_def)
qed

lemma node_core_state_store: "core_state_store (node_ops A) (node_store_ok A) (node_view A)"
  using node_load_law node_save_law node_remove_law
  by unfold_locales (simp_all add: node_ops_def)

end

interpretation node_state: core_state_store "node_ops pure_aead" "node_store_ok pure_aead"
    "node_view pure_aead"
  by (rule pure_gcm.node_core_state_store)

lemma store_save_sealed:
  assumes "node_store_ok pure_aead s" "opt_settings_ok settings"
  shows "\<exists>s'. store_save pure_aead cid st enabled settings s = (Inr (), s') \<and>
    ns_cipher s' = ns_cipher s \<and> \<not> has_plaintext s'"
proof -
  from assms(1) obtain d where d: "store_read pure_aead s = Inr d" "records_ok d"
    and C: "cipher_ready (ns_cipher s)" "\<forall>n. length (draws s n) = 12"
    by (auto simp: node_store_ok_def)
  let ?r = "saved_record st enabled settings (dget d cid)"
  have "settings_ok []" by (simp add: settings_ok_def)
  with d(2) assms(2) have "record_ok ?r"
    by (auto simp: record_ok_def saved_record_def records_ok_def opt_settings_ok_def
        split: option.splits)
  with d(2) have "records_ok (dput cid ?r d)" by (rule records_ok_dput)
  from pure_gcm.store_write_reads [OF C this] show ?thesis
    by (auto simp: store_save_def d saved_record_def Let_def split: option.splits)
qed

text \<open>
  C12: what the node saves about a core survives a restart: a new process that opens the same
  key and file loads the saved record for that core and the old record for every other core,
  with settings given as none leaving the stored ones alone, and the file holds no settings
  in clear.
\<close>

theorem save_survives_restart:
  assumes s: "node_store_ok pure_aead s" and settings: "opt_settings_ok settings"
  shows "\<exists>s1 s2 d s3. store_save pure_aead cid st enabled settings s = (Inr (), s1) \<and>
    \<not> has_plaintext s1 \<and>
    open_store (Some (cipher_key (ns_cipher s))) (ns_file s1) key_draw rng = Inr s2 \<and>
    store_load pure_aead s2 = (Inr d, s3) \<and>
    dget d = (node_view pure_aead s)(cid \<mapsto>
      saved_record st enabled settings (node_view pure_aead s cid))"
proof -
  obtain s1 where s1: "store_save pure_aead cid st enabled settings s = (Inr (), s1)"
    "node_store_ok pure_aead s1"
    "node_view pure_aead s1 = (node_view pure_aead s)(cid \<mapsto>
      saved_record st enabled settings (node_view pure_aead s cid))"
    using node_state.save_law [OF s settings, of cid st enabled] by (auto simp: node_ops_def)
  have c: "ns_cipher s1 = ns_cipher s" and p: "\<not> has_plaintext s1"
    using store_save_sealed [OF s settings, of cid st enabled] s1(1) by auto
  let ?s2 = "\<lparr>ns_cipher = ns_cipher s, ns_file = ns_file s1, draws = rng, drawn = 0\<rparr>"
  have read: "store_read pure_aead ?s2 = store_read pure_aead s1"
    by (simp add: store_read_def c cong: option.case_cong json.case_cong)
  have "has_plaintext ?s2 = has_plaintext s1" by (simp add: has_plaintext_def)
  with p s1(2) read obtain d where d: "store_load pure_aead ?s2 = (Inr d, ?s2)"
    "store_read pure_aead s1 = Inr d"
    by (auto simp: store_load_def node_store_ok_def eff_simps)
  have "open_store (Some (cipher_key (ns_cipher s))) (ns_file s1) key_draw rng = Inr ?s2"
    using s by (simp add: open_store_def node_store_ok_def cipher_ready_def)
  with s1 p d show ?thesis by (auto simp: node_view_def)
qed

definition demo_node_store :: node_store where
  "demo_node_store = \<lparr>ns_cipher = \<lparr>cipher_key = replicate 32 9\<rparr>, ns_file = None,
     draws = (\<lambda>n. replicate 12 3), drawn = 0\<rparr>"

lemma demo_node_store_ok: "node_store_ok pure_aead demo_node_store"
  by (simp add: node_store_ok_def demo_node_store_def cipher_ready_def store_read_def records_ok_Nil)

theorem save_survives_restart_witness:
  "\<exists>s1 s2 d s3.
     store_save pure_aead ''wg'' RUNNING True (Some [(''port'', JInt 51820)]) demo_node_store = (Inr (), s1) \<and>
     open_store (Some (replicate 32 9)) (ns_file s1) [] (\<lambda>n. []) = Inr s2 \<and>
     store_load pure_aead s2 = (Inr d, s3) \<and>
     dget d ''wg'' = Some \<lparr>rec_state = JStr ''running'', rec_enabled = True,
       rec_settings = [(''port'', JInt 51820)]\<rparr>"
proof -
  have "opt_settings_ok (Some [(''port'', JInt 51820)])" by (simp add: settings_ok_def)
  from save_survives_restart [OF demo_node_store_ok this, of "''wg''" RUNNING True "[]" "\<lambda>n. []"]
  show ?thesis by (auto simp: demo_node_store_def saved_record_def)
qed

end
