(* ===== verification/Manager.thy ===== *)
theory Manager
  imports State_Store
begin

text \<open>
  \<^verbatim>\<open>cores/manager.py\<close>: the core manager over its port to a state store (\<open>store_ops\<close>) and over the
  drivers of the cores (\<open>driver_class\<close>, a record of what the manager calls on a driver object whose state is
  \<open>'d\<close>). Every call of a driver may raise, \<open>CancelledError\<close> included. An operation that holds a
  core's lock is one step; the health monitor, which takes no lock, is split at its \<^verbatim>\<open>await\<close>.
  The two refusals for a built-in core, whose text has characters outside Latin-1, are shortened.
\<close>

record 'd driver_class =
  cls_metadata :: core_metadata
  cls_new :: "jobj \<Rightarrow> core_exc + 'd"
  cls_settings :: "'d \<Rightarrow> jobj"
  cls_install :: "('d, core_exc, unit) eff"
  cls_uninstall :: "bool \<Rightarrow> ('d, core_exc, unit) eff"
  cls_update :: "string option \<Rightarrow> ('d, core_exc, string) eff"
  cls_start :: "('d, core_exc, unit) eff"
  cls_stop :: "('d, core_exc, unit) eff"
  cls_status :: "('d, core_exc, core_status) eff"
  cls_health_check :: "('d, core_exc, core_status) eff"
  cls_logs :: "int \<Rightarrow> ('d, core_exc, string list) eff"
  cls_studio :: "(jobj \<Rightarrow> ('d, core_exc, unit) eff) option"
  cls_create_hub :: "(jobj \<Rightarrow> ('d, core_exc, jobj) eff) option"
  cls_delete_hub :: "(string \<Rightarrow> ('d, core_exc, unit) eff) option"
  cls_create_account :: "user_account \<Rightarrow> ('d, core_exc, unit) eff"
  cls_update_account :: "user_account \<Rightarrow> ('d, core_exc, unit) eff"
  cls_delete_account :: "string \<Rightarrow> ('d, core_exc, unit) eff"
  cls_suspend_account :: "string \<Rightarrow> ('d, core_exc, unit) eff"
  cls_resume_account :: "user_account \<Rightarrow> ('d, core_exc, unit) eff"
  cls_sync_accounts :: "user_account list \<Rightarrow> ('d, core_exc, unit) eff"
  cls_usage :: "string list \<Rightarrow> ('d, core_exc, usage_record list) eff"
  cls_online :: "string list \<Rightarrow> ('d, core_exc, device_session list) eff"

record 'd driver =
  drv_class :: "'d driver_class"
  drv_state :: 'd

record ('d, 's) mgr =
  drivers :: "(string, 'd driver) dict"
  states :: "(string, core_state) dict"
  enabled :: "(string, bool) dict"
  store :: 's
  emitted :: "(event \<times> jobj) list"

record ('d, 's) wiring =
  w_store :: "'s store_ops"
  w_registry :: "'d driver_class registry"
  w_builtin :: "string list"
  w_provider :: "(string \<Rightarrow> core_exc + jobj) option"
  w_transform :: "(string \<Rightarrow> jobj \<Rightarrow> core_exc + jobj) option"

type_synonym ('d, 's, 'a) op = "(('d, 's) mgr, core_exc, 'a) eff"

definition builtin_core_ids :: "string list" where
  "builtin_core_ids = [''xray'']"

definition new_manager :: "'s \<Rightarrow> ('d, 's) mgr" where
  "new_manager s = \<lparr>drivers = [], states = [], enabled = [], store = s, emitted = []\<rparr>"

section \<open>Basic steps\<close>

definition key_error :: "string \<Rightarrow> core_exc" where
  "key_error k = OtherError ''KeyError'' (quoted k)"

definition on_store :: "('s, core_exc, 'a) eff \<Rightarrow> ('d, 's, 'a) op" where
  "on_store f m = (let (r, s) = f (store m) in (r, m\<lparr>store := s\<rparr>))"

definition get_core :: "string \<Rightarrow> ('d, 's, 'd driver) op" where
  "get_core cid m =
     (case dget (drivers m) cid of None \<Rightarrow> (Inl (CoreNotFoundError cid), m) | Some d \<Rightarrow> (Inr d, m))"

definition state_at :: "string \<Rightarrow> ('d, 's, core_state) op" where
  "state_at cid m =
     (case dget (states m) cid of None \<Rightarrow> (Inl (key_error cid), m) | Some st \<Rightarrow> (Inr st, m))"

definition enabled_at :: "string \<Rightarrow> ('d, 's, bool) op" where
  "enabled_at cid m =
     (case dget (enabled m) cid of None \<Rightarrow> (Inl (key_error cid), m) | Some b \<Rightarrow> (Inr b, m))"

text \<open>A method of the driver object that is kept for \<open>cid\<close>.\<close>

definition call_driver ::
  "string \<Rightarrow> ('d driver_class \<Rightarrow> ('d, core_exc, 'a) eff) \<Rightarrow> ('d, 's, 'a) op" where
  "call_driver cid f m =
     (case dget (drivers m) cid of
        None \<Rightarrow> (Inl (CoreNotFoundError cid), m)
      | Some d \<Rightarrow>
          (let (r, d') = f (drv_class d) (drv_state d)
           in (r, m\<lparr>drivers := dput cid (d\<lparr>drv_state := d'\<rparr>) (drivers m)\<rparr>)))"

definition driver_settings :: "string \<Rightarrow> ('d, 's, jobj) op" where
  "driver_settings cid = call_driver cid (\<lambda>c. getE (cls_settings c))"

definition is_enabled :: "('d, 's) mgr \<Rightarrow> string \<Rightarrow> bool" where
  "is_enabled m cid = (case dget (enabled m) cid of None \<Rightarrow> False | Some b \<Rightarrow> b)"

definition state_of :: "('d, 's) mgr \<Rightarrow> string \<Rightarrow> core_state" where
  "state_of m cid = (case dget (states m) cid of None \<Rightarrow> LOADED | Some st \<Rightarrow> st)"

definition list_cores :: "('d, 's) mgr \<Rightarrow> string list" where
  "list_cores m = sort (dkeys (drivers m))"

definition attach :: "string \<Rightarrow> 'd driver \<Rightarrow> bool \<Rightarrow> core_state \<Rightarrow> ('d, 's) mgr \<Rightarrow> ('d, 's) mgr" where
  "attach cid d en st m =
     m\<lparr>drivers := dput cid d (drivers m), states := dput cid st (states m),
       enabled := dput cid en (enabled m)\<rparr>"

definition detach :: "string \<Rightarrow> ('d, 's) mgr \<Rightarrow> ('d, 's) mgr" where
  "detach cid m =
     m\<lparr>drivers := dpop cid (drivers m), states := dpop cid (states m),
       enabled := dpop cid (enabled m)\<rparr>"

definition emit_event :: "event \<Rightarrow> jobj \<Rightarrow> ('d, 's, unit) op" where
  "emit_event ev payload = modE (\<lambda>m. m\<lparr>emitted := emitted m @ [(ev, payload)]\<rparr>)"

definition save_row ::
  "('d, 's) wiring \<Rightarrow> string \<Rightarrow> core_state \<Rightarrow> bool \<Rightarrow> jobj option \<Rightarrow> ('d, 's, unit) op" where
  "save_row W cid st en settings = on_store (op_save (w_store W) cid st en settings)"

definition set_state :: "('d, 's) wiring \<Rightarrow> string \<Rightarrow> core_state \<Rightarrow> ('d, 's, unit) op" where
  "set_state W cid st =
     seqE (modE (\<lambda>m. m\<lparr>states := dput cid st (states m)\<rparr>))
    (bindE (getE (\<lambda>m. is_enabled m cid)) (\<lambda>en.
     seqE (save_row W cid st en None)
       (emit_event CORE_STATE_CHANGED
          [(''core_id'', JStr cid), (''state'', JStr (state_value st))])))"

text \<open>Save the state of memory with the settings that the driver has now.\<close>

definition save_live :: "('d, 's) wiring \<Rightarrow> string \<Rightarrow> ('d, 's, unit) op" where
  "save_live W cid =
     bindE (state_at cid) (\<lambda>st.
     bindE (getE (\<lambda>m. is_enabled m cid)) (\<lambda>en.
     bindE (driver_settings cid) (\<lambda>settings. save_row W cid st en (Some settings))))"

definition run_transition ::
  "('d, 's) wiring \<Rightarrow> string \<Rightarrow> core_state \<Rightarrow> core_state \<Rightarrow> ('d, 's, unit) op \<Rightarrow> ('d, 's, unit) op" where
  "run_transition W cid intermediate success action =
     seqE (set_state W cid intermediate)
    (seqE (catchE action is_exception (\<lambda>e. seqE (set_state W cid ERROR) (fail e)))
       (set_state W cid success))"

section \<open>Boot\<close>

definition lookup_class :: "('d, 's) wiring \<Rightarrow> string \<Rightarrow> core_exc + 'd driver_class" where
  "lookup_class W cid =
     (case get_driver_class (w_registry W) cid of Inl e \<Rightarrow> Inl e | Inr c \<Rightarrow> Inr (dd_class c))"

definition transform :: "('d, 's) wiring \<Rightarrow> string \<Rightarrow> jobj \<Rightarrow> core_exc + jobj" where
  "transform W cid settings =
     (case w_transform W of None \<Rightarrow> Inr settings | Some f \<Rightarrow> f cid settings)"

definition new_driver :: "'d driver_class \<Rightarrow> jobj \<Rightarrow> core_exc + 'd driver" where
  "new_driver cls settings =
     bindR (cls_new cls settings) (\<lambda>d. Inr \<lparr>drv_class = cls, drv_state = d\<rparr>)"

definition put_driver :: "string \<Rightarrow> 'd driver \<Rightarrow> ('d, 's, unit) op" where
  "put_driver cid d = modE (\<lambda>m. m\<lparr>drivers := dput cid d (drivers m)\<rparr>)"

definition put_state :: "string \<Rightarrow> core_state \<Rightarrow> ('d, 's, unit) op" where
  "put_state cid st = modE (\<lambda>m. m\<lparr>states := dput cid st (states m)\<rparr>)"

definition put_enabled :: "string \<Rightarrow> bool \<Rightarrow> ('d, 's, unit) op" where
  "put_enabled cid en = modE (\<lambda>m. m\<lparr>enabled := dput cid en (enabled m)\<rparr>)"

definition boot_state :: "core_state \<Rightarrow> core_state" where
  "boot_state st = (if st \<in> {RUNNING, STARTING, STOPPING} then STOPPED else st)"

definition boot_saved :: "('d, 's) wiring \<Rightarrow> string \<times> core_record \<Rightarrow> ('d, 's, unit) op" where
  "boot_saved W entry =
     (let (cid, r) = entry in
      case lookup_class W cid of
        Inl _ \<Rightarrow> ret ()
      | Inr cls \<Rightarrow>
          bindE (liftE (transform W cid (rec_settings r))) (\<lambda>settings.
          bindE (liftE (new_driver cls settings)) (\<lambda>d.
          seqE (put_driver cid d)
            (case core_state_of (rec_state r) of
               None \<Rightarrow> fail (value_error (py_repr (rec_state r) @ '' is not a valid CoreState''))
             | Some st \<Rightarrow>
                 seqE (put_state cid (boot_state st)) (put_enabled cid (rec_enabled r))))))"

definition boot_builtin :: "('d, 's) wiring \<Rightarrow> string \<Rightarrow> ('d, 's, unit) op" where
  "boot_builtin W cid =
     bindE (getE (\<lambda>m. dget (drivers m) cid)) (\<lambda>present.
     if present \<noteq> None then ret ()
     else
       (case lookup_class W cid of
          Inl _ \<Rightarrow> ret ()
        | Inr cls \<Rightarrow>
            bindE (liftE (transform W cid [])) (\<lambda>settings.
            bindE (liftE (new_driver cls settings)) (\<lambda>d.
            seqE (put_driver cid d) (seqE (put_state cid INSTALLED) (put_enabled cid True))))))"

definition boot :: "('d, 's) wiring \<Rightarrow> ('d, 's, unit) op" where
  "boot W =
     bindE (on_store (op_load (w_store W))) (\<lambda>saved.
     seqE (forE (boot_saved W) saved) (forE (boot_builtin W) (sort (w_builtin W))))"

section \<open>Install, uninstall, update, enable\<close>

definition resolve_settings :: "('d, 's) wiring \<Rightarrow> string \<Rightarrow> core_exc + jobj" where
  "resolve_settings W cid = (case w_provider W of None \<Rightarrow> Inr [] | Some f \<Rightarrow> f cid)"

definition install_core ::
  "('d, 's) wiring \<Rightarrow> string \<Rightarrow> jobj option \<Rightarrow> bool \<Rightarrow> ('d, 's, core_state) op" where
  "install_core W cid settings en =
     bindE (getE (\<lambda>m. dget (drivers m) cid)) (\<lambda>present.
     if present \<noteq> None
     then fail (CoreStateError (''Core '' @ quoted cid @ '' is already installed.''))
     else
       bindE (liftE (lookup_class W cid)) (\<lambda>cls.
       bindE (liftE (case settings of
                       Some (kv # d) \<Rightarrow> Inr (kv # d) | _ \<Rightarrow> resolve_settings W cid)) (\<lambda>given.
       bindE (liftE (transform W cid given)) (\<lambda>effective.
       bindE (liftE (new_driver cls effective)) (\<lambda>d.
       seqE (modE (attach cid d en LOADED))
      (seqE (catchE (call_driver cid cls_install) is_exception
               (\<lambda>e. if is_not_supported e then ret ()
                    else seqE (modE (detach cid)) (fail e)))
      (seqE (set_state W cid INSTALLED)
      (bindE (state_at cid) (\<lambda>st.
       bindE (driver_settings cid) (\<lambda>live.
       seqE (save_row W cid st en (Some live)) (state_at cid)))))))))))"

definition dependents :: "('d, 's) mgr \<Rightarrow> string \<Rightarrow> string list" where
  "dependents m cid =
     (case dget (drivers m) cid of
        None \<Rightarrow> []
      | Some provider \<Rightarrow>
          sort (map fst (filter (\<lambda>(other, d). other \<noteq> cid \<and>
            list_ex (\<lambda>f. f \<in> set (md_provides (cls_metadata (drv_class provider))))
              (md_requires (cls_metadata (drv_class d)))) (drivers m))))"

definition provider_of :: "('d, 's) mgr \<Rightarrow> string \<Rightarrow> string \<Rightarrow> string option" where
  "provider_of m cid feat =
     map_option fst (List.find (\<lambda>(other, d). other \<noteq> cid \<and>
       feat \<in> set (md_provides (cls_metadata (drv_class d)))) (drivers m))"

record dependency_info =
  di_requires :: "string list"
  di_provided_by :: "(string, string option) dict"
  di_missing :: "string list"

definition dependency_report :: "('d, 's) mgr \<Rightarrow> string \<Rightarrow> core_exc + dependency_info" where
  "dependency_report m cid =
     (case dget (drivers m) cid of
        None \<Rightarrow> Inl (CoreNotFoundError cid)
      | Some d \<Rightarrow>
          let feats = sort (md_requires (cls_metadata (drv_class d)))
          in Inr \<lparr>di_requires = feats,
                  di_provided_by = map (\<lambda>f. (f, provider_of m cid f)) feats,
                  di_missing = filter (\<lambda>f. provider_of m cid f = None) feats\<rparr>)"

definition uninstall_locked :: "('d, 's) wiring \<Rightarrow> string \<Rightarrow> bool \<Rightarrow> ('d, 's, unit) op" where
  "uninstall_locked W cid purge =
     bindE (state_at cid) (\<lambda>st.
     seqE (whenE (st = RUNNING) (run_transition W cid STOPPING STOPPED (call_driver cid cls_stop)))
    (seqE (catchE (call_driver cid (\<lambda>c. cls_uninstall c purge)) is_not_supported (\<lambda>_. ret ()))
    (seqE (set_state W cid UNINSTALLED)
    (seqE (modE (detach cid)) (on_store (op_remove (w_store W) cid))))))"

definition uninstall_core :: "('d, 's) wiring \<Rightarrow> string \<Rightarrow> bool \<Rightarrow> bool \<Rightarrow> ('d, 's, unit) op" where
  "uninstall_core W cid purge force =
     (if cid \<in> set (w_builtin W)
      then fail (CoreStateError (''Core '' @ quoted cid @ '' is the panel built-in engine''))
      else
        bindE (getE (\<lambda>m. dependents m cid)) (\<lambda>deps.
        if deps \<noteq> [] \<and> \<not> force
        then fail (CoreStateError (''Core '' @ quoted cid @ '' provides features required by '' @
          py_repr (JList (map JStr deps)) @ ''; uninstall those first or pass force=True.''))
        else bindE (get_core cid) (\<lambda>_. uninstall_locked W cid purge)))"

definition update_core :: "string \<Rightarrow> string option \<Rightarrow> ('d, 's, string) op" where
  "update_core cid version =
     bindE (get_core cid) (\<lambda>_. call_driver cid (\<lambda>c. cls_update c version))"

definition enable_core :: "('d, 's) wiring \<Rightarrow> string \<Rightarrow> ('d, 's, unit) op" where
  "enable_core W cid =
     bindE (get_core cid) (\<lambda>_.
     seqE (put_enabled cid True)
       (bindE (state_at cid) (\<lambda>st. save_row W cid st True None)))"

section \<open>Start, stop, restart\<close>

definition startable :: "core_state \<Rightarrow> bool" where
  "startable st \<longleftrightarrow> st \<in> {INSTALLED, STOPPED, ERROR}"

definition stoppable :: "core_state \<Rightarrow> bool" where
  "stoppable st \<longleftrightarrow> st \<in> {RUNNING, ERROR, STARTING}"

definition start_core :: "('d, 's) wiring \<Rightarrow> string \<Rightarrow> ('d, 's, core_status) op" where
  "start_core W cid =
     bindE (get_core cid) (\<lambda>_.
     bindE (enabled_at cid) (\<lambda>en.
     if \<not> en then fail (CoreStateError (''Core '' @ quoted cid @ '' is disabled; enable it first.''))
     else
       bindE (state_at cid) (\<lambda>st.
       if st = RUNNING
       then fail (CoreStateError (''Core '' @ quoted cid @ '' is already running.''))
       else if \<not> startable st
       then fail (CoreStateError (''Cannot start core '' @ quoted cid @ '' from state '' @
              quoted (state_value st) @ ''.''))
       else
         seqE (run_transition W cid STARTING RUNNING (call_driver cid cls_start))
        (seqE (save_live W cid) (call_driver cid cls_status)))))"

definition stop_core :: "('d, 's) wiring \<Rightarrow> string \<Rightarrow> ('d, 's, core_status) op" where
  "stop_core W cid =
     bindE (get_core cid) (\<lambda>_.
     bindE (state_at cid) (\<lambda>st.
     if \<not> stoppable st
     then fail (CoreStateError (''Cannot stop core '' @ quoted cid @ '' from state '' @
            quoted (state_value st) @ ''.''))
     else
       seqE (run_transition W cid STOPPING STOPPED (call_driver cid cls_stop))
         (call_driver cid cls_status)))"

definition restart_core :: "('d, 's) wiring \<Rightarrow> string \<Rightarrow> ('d, 's, core_status) op" where
  "restart_core W cid =
     bindE (get_core cid) (\<lambda>_.
     bindE (state_at cid) (\<lambda>st.
     if st \<noteq> RUNNING
     then fail (CoreStateError (''Only a running core can be restarted ('' @ quoted cid @ '' is '' @
            quoted (state_value st) @ '').''))
     else
       seqE (set_state W cid STOPPING)
      (seqE (call_driver cid cls_stop)
      (seqE (set_state W cid STARTING)
      (seqE (catchE (call_driver cid cls_start) is_exception
               (\<lambda>e. seqE (set_state W cid ERROR) (fail e)))
      (seqE (set_state W cid RUNNING)
      (seqE (save_live W cid) (call_driver cid cls_status))))))))"

definition disable_core :: "('d, 's) wiring \<Rightarrow> string \<Rightarrow> ('d, 's, unit) op" where
  "disable_core W cid =
     (if cid \<in> set (w_builtin W)
      then fail (CoreStateError (''Core '' @ quoted cid @ '' is the panel built-in engine''))
      else
        bindE (getE (\<lambda>m. dget (states m) cid)) (\<lambda>st.
        seqE (if st = Some RUNNING then bindE (stop_core W cid) (\<lambda>_. ret ()) else ret ())
       (bindE (get_core cid) (\<lambda>_.
        seqE (put_enabled cid False)
          (bindE (state_at cid) (\<lambda>now. save_row W cid now False None)))))) "

text \<open>The two loops over all cores ignore the errors of one core.\<close>

definition ignoring :: "('d, 's, 'a) op \<Rightarrow> ('d, 's, unit) op" where
  "ignoring f = catchE (bindE f (\<lambda>_. ret ())) is_exception (\<lambda>_. ret ())"

definition start_enabled :: "('d, 's) wiring \<Rightarrow> ('d, 's, unit) op" where
  "start_enabled W =
     bindE (getE list_cores) (\<lambda>cids.
     forE (\<lambda>cid.
       if cid \<in> set (w_builtin W) then ret ()
       else bindE (enabled_at cid) (\<lambda>en.
            if \<not> en then ret ()
            else bindE (state_at cid) (\<lambda>st.
                 if \<not> startable st then ret () else ignoring (start_core W cid)))) cids)"

definition stop_all :: "('d, 's) wiring \<Rightarrow> ('d, 's, unit) op" where
  "stop_all W =
     bindE (getE list_cores) (\<lambda>cids.
     forE (\<lambda>cid.
       bindE (getE (\<lambda>m. dget (states m) cid)) (\<lambda>st.
       if st = Some RUNNING then ignoring (stop_core W cid) else ret ())) cids)"

section \<open>Studio documents, settings, SoftEther hubs\<close>

text \<open>\<^verbatim>\<open>for segment in path.split("/") if segment\<close>: the node of the document that the path leads to.\<close>

definition document_at :: "string \<Rightarrow> json \<Rightarrow> json" where
  "document_at path doc =
     fold (\<lambda>segment node. case node of JObj d \<Rightarrow> jget d segment | _ \<Rightarrow> JNull)
       (filter (\<lambda>s. s \<noteq> []) (py_split CHR ''/'' path)) doc"

definition empty_stops :: "core_metadata \<Rightarrow> jobj \<Rightarrow> bool" where
  "empty_stops md document =
     (case md_studio_inbounds_path md of
        None \<Rightarrow> False
      | Some path \<Rightarrow> md_stop_when_no_inbounds md \<and> path \<noteq> [] \<and>
          (case document_at path (JObj document) of JList xs \<Rightarrow> xs = [] | _ \<Rightarrow> True))"

text \<open>The driver's status, \<open>None\<close> when the probe raises.\<close>

definition probe_state :: "string \<Rightarrow> ('d, 's, core_state option) op" where
  "probe_state cid =
     catchE (bindE (call_driver cid cls_status) (\<lambda>a. ret (Some (cs_state a)))) is_exception
       (\<lambda>_. ret None)"

definition studio_failed :: "('d, 's) wiring \<Rightarrow> string \<Rightarrow> core_state \<Rightarrow> core_exc \<Rightarrow> ('d, 's, unit) op" where
  "studio_failed W cid before e =
     bindE (probe_state cid) (\<lambda>actual.
     seqE (whenE (before = RUNNING \<and> actual \<noteq> Some RUNNING) (set_state W cid ERROR)) (fail e))"

definition studio_restart :: "('d, 's) wiring \<Rightarrow> string \<Rightarrow> core_state \<Rightarrow> bool \<Rightarrow> ('d, 's, unit) op" where
  "studio_restart W cid before halt =
     (if halt then
        bindE (call_driver cid cls_status) (\<lambda>actual.
        seqE (whenE (cs_state actual = RUNNING) (call_driver cid cls_stop))
          (whenE (before \<in> {RUNNING, ERROR}) (set_state W cid STOPPED)))
      else if before \<in> {RUNNING, ERROR} then
        bindE (call_driver cid cls_status) (\<lambda>actual.
        if cs_state actual = RUNNING then whenE (before \<noteq> RUNNING) (set_state W cid RUNNING)
        else
          seqE (set_state W cid STARTING)
         (seqE (catchE (call_driver cid cls_start) is_exception
                  (\<lambda>e. seqE (set_state W cid ERROR) (fail e)))
            (set_state W cid RUNNING)))
      else ret ())"

definition apply_studio_document :: "('d, 's) wiring \<Rightarrow> string \<Rightarrow> jobj \<Rightarrow> ('d, 's, unit) op" where
  "apply_studio_document W cid document =
     bindE (get_core cid) (\<lambda>d.
     case cls_studio (drv_class d) of
       None \<Rightarrow> fail (CapabilityNotSupportedError cid ''studio_document_apply'')
     | Some hook \<Rightarrow>
         bindE (state_at cid) (\<lambda>before.
         seqE (catchE (call_driver cid (\<lambda>_. hook document)) is_exception (studio_failed W cid before))
        (seqE (studio_restart W cid before (empty_stops (cls_metadata (drv_class d)) document))
           (save_live W cid))))"

definition persist_settings :: "('d, 's) wiring \<Rightarrow> string \<Rightarrow> ('d, 's, unit) op" where
  "persist_settings W cid = bindE (get_core cid) (\<lambda>_. save_live W cid)"

definition softether_id :: string where
  "softether_id = ''softether''"

definition create_softether_policy_hub :: "('d, 's) wiring \<Rightarrow> jobj \<Rightarrow> ('d, 's, jobj) op" where
  "create_softether_policy_hub W kwargs =
     bindE (get_core softether_id) (\<lambda>d.
     case (cls_create_hub (drv_class d), cls_delete_hub (drv_class d)) of
       (Some create, Some delete) \<Rightarrow>
         bindE (call_driver softether_id (\<lambda>_. create kwargs)) (\<lambda>created.
         seqE (catchE (save_live W softether_id) is_exception
                (\<lambda>e. seqE
                  (case dget created ''hub'' of
                     None \<Rightarrow> ret ()
                   | Some hub \<Rightarrow> ignoring (call_driver softether_id (\<lambda>_. delete (py_str hub))))
                  (fail e)))
           (ret created))
     | _ \<Rightarrow> fail (CapabilityNotSupportedError softether_id ''managed_policy_hubs''))"

definition delete_softether_policy_hub :: "('d, 's) wiring \<Rightarrow> string \<Rightarrow> ('d, 's, unit) op" where
  "delete_softether_policy_hub W hub =
     bindE (get_core softether_id) (\<lambda>d.
     case cls_delete_hub (drv_class d) of
       Some delete \<Rightarrow>
         seqE (call_driver softether_id (\<lambda>_. delete hub)) (save_live W softether_id)
     | None \<Rightarrow> fail (CapabilityNotSupportedError softether_id ''managed_policy_hubs''))"

section \<open>Status and health\<close>

definition failed_status :: "('d, 's) mgr \<Rightarrow> string \<Rightarrow> core_exc \<Rightarrow> core_status" where
  "failed_status m cid e =
     \<lparr>cs_core_id = cid, cs_state = (case dget (states m) cid of None \<Rightarrow> ERROR | Some st \<Rightarrow> st),
      cs_health = UNHEALTHY, cs_enabled = True, cs_version = None,
      cs_version_reason = Some (''status probe failed: '' @ exc_type e),
      cs_message = Some (exc_text e)\<rparr>"

definition status_of :: "string \<Rightarrow> ('d, 's, core_status) op" where
  "status_of cid =
     bindE (get_core cid) (\<lambda>_.
     bindE (catchE (call_driver cid cls_status) is_exception
              (\<lambda>e. getE (\<lambda>m. failed_status m cid e))) (\<lambda>status.
     getE (\<lambda>m. status\<lparr>cs_enabled := is_enabled m cid\<rparr>)))"

definition status_all :: "('d, 's, core_status list) op" where
  "status_all = bindE (getE list_cores) (mapE status_of)"

definition get_logs :: "string \<Rightarrow> int \<Rightarrow> ('d, 's, string list) op" where
  "get_logs cid tail = bindE (get_core cid) (\<lambda>_. call_driver cid (\<lambda>c. cls_logs c tail))"

type_synonym health_map = "(string, health) dict"

text \<open>
  One core of \<^verbatim>\<open>_health_cycle\<close>, in the two halves between which other tasks run: what is read
  before the probe, and what is done with its outcome (\<open>None\<close>: it raised or timed out).
\<close>

definition health_recorded :: "('d, 's) mgr \<Rightarrow> string \<Rightarrow> core_state option option" where
  "health_recorded m cid =
     (let recorded = dget (states m) cid
      in if recorded \<in> {Some UNINSTALLED, Some LOADED, Some STARTING, Some STOPPING}
         then None else Some recorded)"

definition health_probe :: "string \<Rightarrow> ('d, 's, core_status option) op" where
  "health_probe cid =
     catchE (bindE (call_driver cid cls_health_check) (\<lambda>st. ret (Some st))) is_exception (\<lambda>_. ret None)"

definition health_apply ::
  "('d, 's) wiring \<Rightarrow> string \<Rightarrow> core_state option \<Rightarrow> core_status option \<Rightarrow> health_map \<Rightarrow>
   ('d, 's, health_map) op" where
  "health_apply W cid recorded status seen_health =
     seqE
       (case status of
          None \<Rightarrow> ret ()
        | Some s \<Rightarrow>
            if cs_state s = RUNNING \<and> recorded \<noteq> Some RUNNING then set_state W cid RUNNING
            else if cs_state s \<noteq> RUNNING \<and> recorded = Some RUNNING then set_state W cid STOPPED
            else ret ())
       (let now = (case status of None \<Rightarrow> UNHEALTHY | Some s \<Rightarrow> cs_health s);
            previous = (case dget seen_health cid of None \<Rightarrow> UNKNOWN | Some h \<Rightarrow> h)
        in if now \<noteq> previous
           then seqE (emit_event CORE_HEALTH_CHANGED
                        [(''core_id'', JStr cid), (''health'', JStr (health_value now))])
                  (ret (dput cid now seen_health))
           else ret seen_health)"

definition health_core :: "('d, 's) wiring \<Rightarrow> string \<Rightarrow> health_map \<Rightarrow> ('d, 's, health_map) op" where
  "health_core W cid seen_health =
     bindE (getE (\<lambda>m. health_recorded m cid)) (\<lambda>recorded.
     case recorded of
       None \<Rightarrow> ret seen_health
     | Some r \<Rightarrow> bindE (health_probe cid) (\<lambda>status. health_apply W cid r status seen_health))"

fun health_cores :: "('d, 's) wiring \<Rightarrow> string list \<Rightarrow> health_map \<Rightarrow> ('d, 's, health_map) op" where
  "health_cores W [] seen_health = ret seen_health"
| "health_cores W (cid # cids) seen_health =
     bindE (health_core W cid seen_health) (\<lambda>next_health. health_cores W cids next_health)"

definition health_cycle :: "('d, 's) wiring \<Rightarrow> health_map \<Rightarrow> ('d, 's, health_map) op" where
  "health_cycle W seen_health = bindE (getE list_cores) (\<lambda>cids. health_cores W cids seen_health)"

section \<open>Accounts on every core\<close>

definition supports :: "'d driver \<Rightarrow> capability \<Rightarrow> bool" where
  "supports d c \<longleftrightarrow> c \<in> set (md_capabilities (cls_metadata (drv_class d)))"

definition sync_accounts :: "string \<Rightarrow> user_account list \<Rightarrow> ('d, 's, unit) op" where
  "sync_accounts cid accounts =
     bindE (get_core cid) (\<lambda>_. call_driver cid (\<lambda>c. cls_sync_accounts c accounts))"

definition provisioned :: "string \<Rightarrow> string \<Rightarrow> provision_result" where
  "provisioned cid aid =
     \<lparr>pr_core_id = cid, pr_account_id = aid, pr_success = True, pr_error = None\<rparr>"

definition not_provisioned :: "string \<Rightarrow> string \<Rightarrow> core_exc \<Rightarrow> provision_result" where
  "not_provisioned cid aid e =
     \<lparr>pr_core_id = cid, pr_account_id = aid, pr_success = False, pr_error = Some (exc_text e)\<rparr>"

text \<open>An action on one core, its error turned into the result.\<close>

definition reported :: "string \<Rightarrow> string \<Rightarrow> ('d, 's, unit) op \<Rightarrow> ('d, 's, provision_result) op" where
  "reported cid aid action =
     catchE (seqE action (ret (provisioned cid aid))) is_exception
       (\<lambda>e. ret (not_provisioned cid aid e))"

definition provision_user ::
  "(string, user_account) dict \<Rightarrow> ('d, 's, provision_result list) op" where
  "provision_user = mapE (\<lambda>(cid, account). reported cid (ua_account_id account)
     (bindE (get_core cid) (\<lambda>_. call_driver cid (\<lambda>c. cls_create_account c account))))"

definition update_user ::
  "(string, user_account) dict \<Rightarrow> ('d, 's, provision_result list) op" where
  "update_user = mapE (\<lambda>(cid, account). reported cid (ua_account_id account)
     (bindE (get_core cid) (\<lambda>_. call_driver cid (\<lambda>c. cls_update_account c account))))"

definition suspend_user ::
  "(string, user_account) dict \<Rightarrow> ('d, 's, provision_result list) op" where
  "suspend_user = mapE (\<lambda>(cid, account). reported cid (ua_account_id account)
     (bindE (get_core cid) (\<lambda>d.
      if supports d SUSPEND_RESUME
      then call_driver cid (\<lambda>c. cls_suspend_account c (ua_account_id account))
      else if supports d USER_MANAGEMENT
      then call_driver cid (\<lambda>c. cls_update_account c (account\<lparr>ua_enabled := False\<rparr>))
      else fail (CapabilityNotSupportedError cid (capability_value SUSPEND_RESUME)))))"

definition resume_user ::
  "(string, user_account) dict \<Rightarrow> ('d, 's, provision_result list) op" where
  "resume_user = mapE (\<lambda>(cid, account). reported cid (ua_account_id account)
     (bindE (get_core cid) (\<lambda>d.
      if supports d SUSPEND_RESUME
      then call_driver cid (\<lambda>c. cls_resume_account c account)
      else if supports d USER_MANAGEMENT
      then call_driver cid (\<lambda>c. cls_update_account c (account\<lparr>ua_enabled := True\<rparr>))
      else fail (CapabilityNotSupportedError cid (capability_value SUSPEND_RESUME)))))"

definition deprovision_user ::
  "(string, string) dict \<Rightarrow> ('d, 's, provision_result list) op" where
  "deprovision_user = mapE (\<lambda>(cid, aid). reported cid aid
     (bindE (get_core cid) (\<lambda>_. call_driver cid (\<lambda>c. cls_delete_account c aid))))"

text \<open>Collected from one core; nothing when it is unknown, unable or raises.\<close>

definition collected ::
  "string \<Rightarrow> capability \<Rightarrow> ('d driver_class \<Rightarrow> ('d, core_exc, 'a list) eff) \<Rightarrow> ('d, 's, 'a list) op" where
  "collected cid cap f =
     catchE
       (bindE (get_core cid) (\<lambda>d. if supports d cap then call_driver cid f else ret []))
       is_exception (\<lambda>_. ret [])"

definition aggregate_usage ::
  "(string, string list) dict \<Rightarrow> ('d, 's, usage_record list) op" where
  "aggregate_usage accounts =
     bindE (mapE (\<lambda>(cid, ids). collected cid USAGE_ACCOUNTING (\<lambda>c. cls_usage c ids)) accounts)
       (\<lambda>groups. ret (concat groups))"

definition online_devices ::
  "(string, string list) dict \<Rightarrow> ('d, 's, device_session list) op" where
  "online_devices accounts =
     bindE (mapE (\<lambda>(cid, ids). collected cid ONLINE_TRACKING (\<lambda>c. cls_online c ids)) accounts)
       (\<lambda>groups. ret (concat groups))"

end
