(* ===== verification/Ip_Address.thy ===== *)
theory Ip_Address
  imports Json
begin

text \<open>
  \<^verbatim>\<open>ipaddress.ip_address\<close> and \<^verbatim>\<open>ip_interface\<close> of the standard library on strings, and \<^verbatim>\<open>str\<close> of the address: an
  IPv4 address in dotted decimal without leading zeros, an IPv6 address in hextets with at most one \<^verbatim>\<open>::\<close>, an
  embedded IPv4 tail and a scope.
\<close>

datatype ip_addr = V4 nat | V6 nat "string option"

section \<open>Reading\<close>

definition parse_octet :: "string \<Rightarrow> nat option" where
  "parse_octet s =
     (if s \<noteq> [] \<and> list_all is_digit s \<and> length s \<le> 3 \<and> (s = ''0'' \<or> hd s \<noteq> CHR ''0'') \<and> nat_of_digits s \<le> 255
      then Some (nat_of_digits s) else None)"

fun join_digits :: "nat \<Rightarrow> nat option list \<Rightarrow> nat \<Rightarrow> nat option" where
  "join_digits b [] acc = Some acc"
| "join_digits b (None # xs) acc = None"
| "join_digits b (Some d # xs) acc = join_digits b xs (acc * b + d)"

definition parse_v4 :: "string \<Rightarrow> nat option" where
  "parse_v4 s =
     (let octets = py_split CHR ''.'' s
      in if length octets = 4 then join_digits 256 (map parse_octet octets) 0 else None)"

definition hex_char :: "char \<Rightarrow> bool" where
  "hex_char c \<longleftrightarrow> is_digit c \<or> (65 \<le> code c \<and> code c \<le> 70) \<or> (97 \<le> code c \<and> code c \<le> 102)"

definition hex_char_val :: "char \<Rightarrow> nat" where
  "hex_char_val c =
     (if is_digit c then code c - 48 else if code c \<le> 70 then code c - 55 else code c - 87)"

definition parse_hextet :: "string \<Rightarrow> nat option" where
  "parse_hextet s =
     (if s \<noteq> [] \<and> list_all hex_char s \<and> length s \<le> 4
      then Some (foldl (\<lambda>a c. 16 * a + hex_char_val c) 0 s) else None)"

text \<open>\<^verbatim>\<open>'%x' % n\<close>.\<close>

fun hex_text :: "nat \<Rightarrow> string" where
  "hex_text n = (if n < 16 then [hex_digit n] else hex_text (n div 16) @ [hex_digit (n mod 16)])"

declare hex_text.simps [simp del]

text \<open>An IPv4 tail counts as two hextets.\<close>

definition expand_tail :: "string list \<Rightarrow> string list option" where
  "expand_tail parts =
     (if CHR ''.'' \<in> set (last parts)
      then map_option (\<lambda>n. butlast parts @ [hex_text (n div 65536 mod 65536), hex_text (n mod 65536)])
             (parse_v4 (last parts))
      else Some parts)"

text \<open>The interior parts that are empty, by index.\<close>

definition gaps :: "string list \<Rightarrow> nat list" where
  "gaps parts = filter (\<lambda>i. parts ! i = []) [1..<length parts - 1]"

definition v6_value :: "string list \<Rightarrow> nat \<Rightarrow> string list \<Rightarrow> nat option" where
  "v6_value hi skipped lo =
     (case join_digits 65536 (map parse_hextet hi) 0 of
        None \<Rightarrow> None
      | Some n \<Rightarrow> join_digits 65536 (map parse_hextet lo) (n * 65536 ^ skipped))"

definition v6_parts :: "string list \<Rightarrow> nat option" where
  "v6_parts parts =
     (case gaps parts of
        [] \<Rightarrow>
          if length parts = 8 \<and> hd parts \<noteq> [] \<and> last parts \<noteq> [] then v6_value parts 0 [] else None
      | [g] \<Rightarrow>
          (let hi = take g parts; lo = drop (Suc g) parts;
               hi' = (if hd parts = [] then tl hi else hi);
               lo' = (if last parts = [] then butlast lo else lo)
           in if (hd parts = [] \<and> hi' \<noteq> []) \<or> (last parts = [] \<and> lo' \<noteq> []) \<or>
                 8 < Suc (length hi' + length lo')
              then None
              else v6_value hi' (8 - (length hi' + length lo')) lo')
      | _ \<Rightarrow> None)"

definition parse_v6_number :: "string \<Rightarrow> nat option" where
  "parse_v6_number s =
     (let parts = py_split CHR '':'' s
      in if length parts < 3 then None
         else (case expand_tail parts of
                 None \<Rightarrow> None
               | Some ps \<Rightarrow> if 9 < length ps then None else v6_parts ps))"

text \<open>\<^verbatim>\<open>ip_str.partition('%')\<close>.\<close>

definition split_scope :: "string \<Rightarrow> (string \<times> string option) option" where
  "split_scope s =
     (case py_split CHR 0x25 s of
        [a] \<Rightarrow> Some (a, None)
      | [a, sc] \<Rightarrow> if sc = [] then None else Some (a, Some sc)
      | _ \<Rightarrow> None)"

definition parse_v6 :: "string \<Rightarrow> ip_addr option" where
  "parse_v6 s =
     (case split_scope s of
        None \<Rightarrow> None
      | Some (a, sc) \<Rightarrow> map_option (\<lambda>n. V6 n sc) (parse_v6_number a))"

definition ip_address :: "string \<Rightarrow> ip_addr option" where
  "ip_address s =
     (if CHR ''/'' \<in> set s then None
      else (case parse_v4 s of Some n \<Rightarrow> Some (V4 n) | None \<Rightarrow> parse_v6 s))"

section \<open>Printing\<close>

definition v4_text :: "nat \<Rightarrow> string" where
  "v4_text n = py_join ''.'' (map str_of_nat [n div 16777216 mod 256, n div 65536 mod 256, n div 256 mod 256, n mod 256])"

text \<open>
  \<^verbatim>\<open>_compress_hextets\<close>: the first longest run of zero hextets, as its start and length; the accumulator is the
  current run and the best one.
\<close>

fun best_run :: "nat \<Rightarrow> nat \<times> nat \<Rightarrow> nat \<times> nat \<Rightarrow> nat list \<Rightarrow> nat \<times> nat" where
  "best_run i (cs, cl) (bs, bl) [] = (bs, bl)"
| "best_run i (cs, cl) (bs, bl) (h # hs) =
     (if h = 0
      then let cs' = (if cl = 0 then i else cs); cl' = Suc cl
           in best_run (Suc i) (cs', cl') (if bl < cl' then (cs', cl') else (bs, bl)) hs
      else best_run (Suc i) (0, 0) (bs, bl) hs)"

definition hextets :: "nat \<Rightarrow> nat list" where
  "hextets n = map (\<lambda>k. n div 65536 ^ k mod 65536) [7, 6, 5, 4, 3, 2, 1, 0]"

definition compressed :: "nat list \<Rightarrow> string list" where
  "compressed hs =
     (let (s, l) = best_run 0 (0, 0) (0, 0) hs in
      if 1 < l
      then (if s = 0 then [[]] else []) @ map hex_text (take s hs) @ [[]] @
           (if s + l = length hs then [[]] else map hex_text (drop (s + l) hs))
      else map hex_text hs)"

definition v6_text :: "nat \<Rightarrow> string" where
  "v6_text n = py_join '':'' (compressed (hextets n))"

definition ip_text :: "ip_addr \<Rightarrow> string" where
  "ip_text a =
     (case a of
        V4 n \<Rightarrow> v4_text n
      | V6 n None \<Rightarrow> v6_text n
      | V6 n (Some sc) \<Rightarrow> v6_text n @ CHR 0x25 # sc)"

definition ip_version :: "ip_addr \<Rightarrow> nat" where
  "ip_version a = (case a of V4 _ \<Rightarrow> 4 | V6 _ _ \<Rightarrow> 6)"

definition is_loopback :: "ip_addr \<Rightarrow> bool" where
  "is_loopback a = (case a of V4 n \<Rightarrow> n div 16777216 = 127 | V6 n _ \<Rightarrow> n = 1)"

section \<open>Interfaces\<close>

text \<open>
  \<^verbatim>\<open>ip_interface(s).ip\<close>: the address before the slash, when what follows is a prefix length or, for IPv4, a net
  mask or a host mask.
\<close>

definition parse_prefix :: "nat \<Rightarrow> string \<Rightarrow> bool" where
  "parse_prefix bits s \<longleftrightarrow> s \<noteq> [] \<and> list_all is_digit s \<and> nat_of_digits s \<le> bits"

definition v4_mask :: "string \<Rightarrow> bool" where
  "v4_mask s =
     (case parse_v4 s of
        None \<Rightarrow> False
      | Some n \<Rightarrow> list_ex (\<lambda>p. n = 2 ^ 32 - 2 ^ (32 - p) \<or> n = 2 ^ (32 - p) - 1) [0..<33])"

text \<open>The \<^verbatim>\<open>ip\<close> of an interface has no scope.\<close>

definition drop_scope :: "ip_addr \<Rightarrow> ip_addr" where
  "drop_scope a = (case a of V4 n \<Rightarrow> V4 n | V6 n _ \<Rightarrow> V6 n None)"

definition ip_interface :: "string \<Rightarrow> ip_addr option" where
  "ip_interface s =
     map_option drop_scope
       (case py_split CHR ''/'' s of
          [a] \<Rightarrow> ip_address a
        | [a, m] \<Rightarrow>
            (case parse_v4 a of
               Some n \<Rightarrow> if parse_prefix 32 m \<or> v4_mask m then Some (V4 n) else None
             | None \<Rightarrow> if parse_prefix 128 m then parse_v6 a else None)
        | _ \<Rightarrow> None)"

section \<open>Printing and reading agree\<close>

lemma join_digits_Some: "join_digits b (map Some ds) acc = Some (foldl (\<lambda>a d. a * b + d) acc ds)"
  by (induction ds arbitrary: acc) auto

lemma nat_of_digits_less: "list_all is_digit ds \<Longrightarrow> nat_of_digits ds < 10 ^ length ds"
proof (induction ds rule: rev_induct)
  case (snoc c ds)
  then have "nat_of_digits ds < 10 ^ length ds" "digit_val c \<le> 9" by (auto simp: is_digit_def digit_val_def)
  then show ?case by (simp add: nat_of_digits_snoc)
qed (simp add: nat_of_digits_def)

lemma length_str_of_nat: "n < 10 ^ Suc k \<Longrightarrow> length (str_of_nat n) \<le> Suc k"
proof (induction k arbitrary: n)
  case (Suc k)
  then show ?case by (subst str_of_nat.simps) auto
qed (simp add: str_of_nat.simps)

lemma parse_octet_text: "d < 256 \<Longrightarrow> parse_octet (str_of_nat d) = Some d"
proof -
  assume d: "d < 256"
  have len: "length (str_of_nat d) \<le> 3" using length_str_of_nat [of d 2] d by simp
  have "str_of_nat d = ''0'' \<or> hd (str_of_nat d) \<noteq> CHR ''0''"
    using str_of_nat_leading_zero [of d] by (cases "str_of_nat d") auto
  with len d show ?thesis by (simp add: parse_octet_def str_of_nat_digits nat_of_digits_str)
qed

lemma digits_no_sep: "\<not> is_digit c \<Longrightarrow> c \<notin> set (str_of_nat n)"
  using str_of_nat_digits [of n] by (auto simp: list_all_iff)

lemma v4_digits:
  "n < 2 ^ 32 \<Longrightarrow> ((n div 16777216 mod 256 * 256 + n div 65536 mod 256) * 256 + n div 256 mod 256) * 256 + n mod 256 = (n::nat)"
proof -
  assume "n < 2 ^ 32"
  then have "n div 16777216 < 256" by simp
  have a: "n div 65536 = n div 256 div 256" "n div 16777216 = n div 256 div 256 div 256"
    by (simp_all add: div_mult2_eq [symmetric])
  have "n div 256 div 256 div 256 mod 256 = n div 256 div 256 div 256"
    using \<open>n div 16777216 < 256\<close> a by simp
  then show ?thesis unfolding a by (metis div_mult_mod_eq)
qed

lemma parse_v4_text: "n < 2 ^ 32 \<Longrightarrow> parse_v4 (v4_text n) = Some n"
proof -
  assume n: "n < 2 ^ 32"
  let ?ds = "[n div 16777216 mod 256, n div 65536 mod 256, n div 256 mod 256, n mod 256]"
  have "py_split CHR ''.'' (v4_text n) = map str_of_nat ?ds"
    unfolding v4_text_def by (intro py_split_join) (auto simp: digits_no_sep is_digit_def)
  moreover have "map parse_octet (map str_of_nat ?ds) = map Some ?ds"
    by (simp add: parse_octet_text)
  ultimately have "parse_v4 (v4_text n) = join_digits 256 (map Some ?ds) 0"
    by (simp only: parse_v4_def Let_def) simp
  then show ?thesis
    unfolding join_digits_Some using v4_digits [OF n] by (simp only: foldl.simps mult_0 add_0)
qed

lemma hex_digit_char: "d < 16 \<Longrightarrow> hex_char (hex_digit d) \<and> hex_char_val (hex_digit d) = d"
  by (auto simp: hex_digit_def hex_char_def hex_char_val_def is_digit_def)

lemma hex_text_chars: "list_all hex_char (hex_text n)"
  by (induction n rule: hex_text.induct) (subst hex_text.simps, auto simp: hex_digit_char)

lemma hex_text_not_Nil [simp]: "hex_text n \<noteq> []"
  by (subst hex_text.simps) simp

lemma hex_text_val: "foldl (\<lambda>a c. 16 * a + hex_char_val c) 0 (hex_text n) = n"
proof (induction n rule: hex_text.induct)
  case (1 n)
  show ?case
  proof (cases "n < 16")
    case True
    then show ?thesis by (subst hex_text.simps) (simp add: hex_digit_char)
  next
    case False
    with 1 show ?thesis by (subst hex_text.simps) (simp add: hex_digit_char)
  qed
qed

lemma length_hex_text: "n < 16 ^ Suc k \<Longrightarrow> length (hex_text n) \<le> Suc k"
proof (induction k arbitrary: n)
  case (Suc k)
  then show ?case by (subst hex_text.simps) auto
qed (simp add: hex_text.simps)

lemma parse_hextet_text: "h < 65536 \<Longrightarrow> parse_hextet (hex_text h) = Some h"
  using length_hex_text [of h 3] by (simp add: parse_hextet_def hex_text_chars hex_text_val)

lemma hex_text_no_sep: "\<not> hex_char c \<Longrightarrow> c \<notin> set (hex_text n)"
  using hex_text_chars [of n] by (auto simp: list_all_iff)

lemma sep_not_hex: "\<not> hex_char CHR '':''" "\<not> hex_char CHR ''.''" "\<not> hex_char CHR 0x25" "\<not> hex_char CHR ''/''"
  by (simp_all add: hex_char_def is_digit_def)

text \<open>The run that is left out holds only zeros.\<close>

definition zero_run :: "nat list \<Rightarrow> nat \<times> nat \<Rightarrow> bool" where
  "zero_run hs r \<longleftrightarrow> snd r = 0 \<or>
     (fst r + snd r \<le> length hs \<and> (\<forall>k < snd r. hs ! (fst r + k) = 0))"

lemma zero_run_snoc: "zero_run hs r \<Longrightarrow> zero_run (hs @ [h]) r"
  by (auto simp: zero_run_def nth_append)

lemma zero_run_extend:
  assumes "zero_run hs (s, l)" "l = 0 \<or> s + l = length hs"
  shows "zero_run (hs @ [0]) (if l = 0 then length hs else s, Suc l)"
proof (cases "l = 0")
  case False
  with assms have sl: "s + l = length hs" and z: "\<forall>k < l. hs ! (s + k) = 0" by (auto simp: zero_run_def)
  have "(hs @ [0]) ! (s + k) = 0" if "k < Suc l" for k
    using that sl z by (cases "k = l") (auto simp: nth_append)
  with sl False show ?thesis by (simp add: zero_run_def)
qed (simp add: zero_run_def nth_append)

lemma best_run_zero:
  assumes "zero_run pre (cs, cl)" "cl = 0 \<or> cs + cl = length pre" "zero_run pre b"
  shows "zero_run (pre @ hs) (best_run (length pre) (cs, cl) b hs)"
  using assms
proof (induction hs arbitrary: pre cs cl b)
  case Nil
  then show ?case by (cases b) simp
next
  case (Cons h hs)
  obtain bs bl where b: "b = (bs, bl)" by (cases b)
  show ?case
  proof (cases "h = 0")
    case True
    let ?cur = "(if cl = 0 then length pre else cs, Suc cl)"
    have cur: "zero_run (pre @ [h]) ?cur"
      using zero_run_extend [OF Cons.prems(1,2)] True by simp
    have new: "Suc cl = 0 \<or> (if cl = 0 then length pre else cs) + Suc cl = length (pre @ [h])"
      using Cons.prems(2) by auto
    have "zero_run (pre @ [h]) (if bl < Suc cl then ?cur else b)"
      using cur zero_run_snoc [OF Cons.prems(3)] by simp
    from Cons.IH [OF cur new this] True show ?thesis
      by (cases "cl = 0"; cases "bl < Suc cl") (simp_all add: b Let_def)
  next
    case False
    have "zero_run (pre @ [h]) (0, 0)" by (simp add: zero_run_def)
    from Cons.IH [OF this _ zero_run_snoc [OF Cons.prems(3)]] False show ?thesis by (simp add: b)
  qed
qed

lemma zero_run_foldl:
  assumes "zero_run hs (s, l)" "1 < l"
  shows "foldl (\<lambda>a d. a * b + d) acc hs =
    foldl (\<lambda>a d. a * b + d) (foldl (\<lambda>a d. a * b + d) acc (take s hs) * b ^ l) (drop (s + l) hs)"
proof -
  have zeros: "foldl (\<lambda>a d. a * b + d) x (replicate l 0) = x * b ^ l" for x :: nat and l
    by (induction l arbitrary: x) (simp_all add: mult.assoc)
  from assms have sl: "s + l \<le> length hs" and z: "\<forall>k < l. hs ! (s + k) = 0" by (auto simp: zero_run_def)
  have "take l (drop s hs) = replicate l 0"
    using sl z by (intro nth_equalityI) auto
  then have "hs = take s hs @ replicate l 0 @ drop (s + l) hs"
    by (metis append_take_drop_id add.commute drop_drop)
  then have "foldl (\<lambda>a d. a * b + d) acc hs =
      foldl (\<lambda>a d. a * b + d) acc (take s hs @ replicate l 0 @ drop (s + l) hs)" by simp
  also have "\<dots> = foldl (\<lambda>a d. a * b + d)
      (foldl (\<lambda>a d. a * b + d) (foldl (\<lambda>a d. a * b + d) acc (take s hs)) (replicate l 0)) (drop (s + l) hs)"
    by (simp only: foldl_append)
  finally show ?thesis by (simp only: zeros)
qed

lemma parse_hextets_text:
  "list_all (\<lambda>h. h < 65536) hs \<Longrightarrow>
   join_digits 65536 (map parse_hextet (map hex_text hs)) acc = Some (foldl (\<lambda>a d. a * 65536 + d) acc hs)"
  by (induction hs arbitrary: acc) (auto simp: parse_hextet_text)

lemma gaps_texts: "list_all (\<lambda>x. x \<noteq> []) parts \<Longrightarrow> gaps parts = []"
  by (auto simp: gaps_def list_all_length filter_empty_conv)

lemma gaps_one:
  assumes "list_all (\<lambda>x. x \<noteq> []) as" "list_all (\<lambda>x. x \<noteq> []) bs" "as \<noteq> [] \<or> pre = [[]]" "bs \<noteq> [] \<or> post = [[]]"
    and "pre \<in> {[], [[]]}" "post \<in> {[], [[]]}" "pre = [[]] \<longrightarrow> as = []" "post = [[]] \<longrightarrow> bs = []"
  shows "gaps (pre @ as @ [[]] @ bs @ post) = [length (pre @ as)]"
proof -
  let ?A = "pre @ as" and ?B = "bs @ post"
  have len: "1 \<le> length ?A" "1 \<le> length ?B" using assms(3,4) by (auto simp: Suc_le_eq)
  have a: "?A ! i \<noteq> []" if "1 \<le> i" "i < length ?A" for i
    using that assms(1,5,7) by (auto simp: list_all_length)
  have b: "?B ! i \<noteq> []" if "Suc i < length ?B" for i
    using that assms(2,6,8) by (auto simp: list_all_length)
  have split: "[1..<length (?A @ [] # ?B) - 1] =
      [1..<length ?A] @ [length ?A] @ [Suc (length ?A)..<length ?A + length ?B]"
  proof -
    have "length (?A @ [] # ?B) - 1 = length ?A + length ?B" by simp
    moreover have "[1..<length ?A + length ?B] = [1..<length ?A] @ [length ?A..<length ?A + length ?B]"
      using len(1) by (rule upt_add_eq_append)
    moreover have "[length ?A..<length ?A + length ?B] = length ?A # [Suc (length ?A)..<length ?A + length ?B]"
      using len(2) by (intro upt_conv_Cons) linarith
    ultimately show ?thesis by (simp only: append_Cons append_Nil)
  qed
  have "filter (\<lambda>i. (?A @ [] # ?B) ! i = []) [1..<length ?A] = []"
    using a by (auto simp: filter_empty_conv nth_append simp del: length_append append_assoc)
  moreover have "filter (\<lambda>i. (?A @ [] # ?B) ! i = []) [Suc (length ?A)..<length ?A + length ?B] = []"
  proof -
    have "(?A @ [] # ?B) ! i \<noteq> []" if "Suc (length ?A) \<le> i" "i < length ?A + length ?B" for i
    proof -
      from that obtain j where j: "i = length ?A + Suc j" "Suc j < length ?B"
        by (metis add_Suc_right add_less_cancel_left le_iff_add add_Suc)
      then have "(?A @ [] # ?B) ! i = ?B ! j" by (simp only: nth_append_length_plus nth_Cons_Suc)
      with b [OF j(2)] show ?thesis by simp
    qed
    then show ?thesis by (auto simp: filter_empty_conv simp del: length_append append_assoc)
  qed
  ultimately have "gaps (?A @ [] # ?B) = [length ?A]"
    unfolding gaps_def split filter_append by (simp del: length_append append_assoc)
  then show ?thesis by simp
qed

lemma v6_parts_compressed:
  assumes "length hs = 8" "list_all (\<lambda>h. h < 65536) hs"
  shows "v6_parts (compressed hs) = Some (foldl (\<lambda>a d. a * 65536 + d) 0 hs)"
proof -
  obtain s l where run: "best_run 0 (0, 0) (0, 0) hs = (s, l)" by fastforce
  have zr: "zero_run hs (s, l)"
    using best_run_zero [of "[]" 0 0 "(0, 0)" hs] run by (simp add: zero_run_def)
  have texts: "list_all (\<lambda>x. x \<noteq> []) (map hex_text xs)" for xs by (simp add: list_all_iff)
  show ?thesis
  proof (cases "1 < l")
    case False
    then have c: "compressed hs = map hex_text hs" by (simp add: compressed_def run)
    have "v6_value (map hex_text hs) 0 [] = Some (foldl (\<lambda>a d. a * 65536 + d) 0 hs)"
      unfolding v6_value_def parse_hextets_text [OF assms(2)] by simp
    moreover have "hd (map hex_text hs) \<noteq> []" "last (map hex_text hs) \<noteq> []"
      using assms(1) by (cases hs; simp add: last_map)+
    ultimately show ?thesis
      using assms(1) unfolding c v6_parts_def gaps_texts [OF texts] by simp
  next
    case True
    let ?as = "map hex_text (take s hs)" and ?bs = "map hex_text (drop (s + l) hs)"
    let ?pre = "if s = 0 then [[]] else []" and ?post = "if s + l = 8 then [[]] else []"
    have sl: "s + l \<le> 8" using zr True assms(1) by (auto simp: zero_run_def)
    have c: "compressed hs = ?pre @ ?as @ [[]] @ ?bs @ ?post"
      using True assms(1) by (simp add: compressed_def run)
    have g: "gaps (compressed hs) = [length (?pre @ ?as)]"
      unfolding c using sl assms(1) by (intro gaps_one texts) auto
    have take: "take (length (?pre @ ?as)) (compressed hs) = ?pre @ ?as"
      "drop (Suc (length (?pre @ ?as))) (compressed hs) = ?bs @ ?post"
      unfolding c by (simp_all del: length_map length_take length_drop)
    have hd: "hd (compressed hs) = [] \<longleftrightarrow> s = 0"
      unfolding c using sl assms(1) by (cases hs) (auto simp: hd_append hd_map)
    have last: "last (compressed hs) = [] \<longleftrightarrow> s + l = 8"
      unfolding c using sl assms(1) by (auto simp: last_map last_append)
    have hi: "(if hd (compressed hs) = [] then tl (?pre @ ?as) else ?pre @ ?as) = ?as"
      using hd by simp
    have lo: "(if last (compressed hs) = [] then butlast (?bs @ ?post) else ?bs @ ?post) = ?bs"
      using last by (simp add: butlast_append)
    have len: "length ?as + length ?bs = 8 - l" using sl assms(1) by simp
    have small: "list_all (\<lambda>h. h < 65536) (take s hs)" "list_all (\<lambda>h. h < 65536) (drop (s + l) hs)"
      using assms(2) by (auto simp: list_all_iff dest: in_set_takeD in_set_dropD)
    have "v6_value ?as l ?bs = Some (foldl (\<lambda>a d. a * 65536 + d) 0 hs)"
      unfolding v6_value_def parse_hextets_text [OF small(1)] option.case parse_hextets_text [OF small(2)]
        zero_run_foldl [OF zr True] by (rule refl)
    moreover have "8 - (8 - l) = l" "\<not> 8 < Suc (8 - l)" using sl True by simp_all
    moreover have "\<not> (hd (compressed hs) = [] \<and> ?as \<noteq> [])" "\<not> (last (compressed hs) = [] \<and> ?bs \<noteq> [])"
      using assms(1) unfolding hd last by auto
    ultimately show ?thesis
      unfolding v6_parts_def g list.case Let_def take hi lo len by (simp only: if_False simp_thms)
  qed
qed

lemma hextets_small: "list_all (\<lambda>h. h < 65536) (hextets n)"
  by (simp add: hextets_def)

lemma hextets_value: "n < 65536 ^ 8 \<Longrightarrow> foldl (\<lambda>a d. a * 65536 + d) 0 (hextets n) = n"
proof -
  have step: "k' = Suc k \<Longrightarrow> n div 65536 ^ k' * 65536 + n div 65536 ^ k mod 65536 = n div 65536 ^ k" for k k' :: nat
    by (metis div_mult2_eq div_mult_mod_eq power_Suc2)
  assume "n < 65536 ^ 8"
  then have "n div 65536 ^ 7 < 65536" by (simp add: div_less_iff_less_mult)
  then have top: "n div 65536 ^ 7 mod 65536 = n div 65536 ^ 7" by (rule mod_less)
  have steps: "n div 65536 ^ 7 * 65536 + n div 65536 ^ 6 mod 65536 = n div 65536 ^ 6"
    "n div 65536 ^ 6 * 65536 + n div 65536 ^ 5 mod 65536 = n div 65536 ^ 5"
    "n div 65536 ^ 5 * 65536 + n div 65536 ^ 4 mod 65536 = n div 65536 ^ 4"
    "n div 65536 ^ 4 * 65536 + n div 65536 ^ 3 mod 65536 = n div 65536 ^ 3"
    "n div 65536 ^ 3 * 65536 + n div 65536 ^ 2 mod 65536 = n div 65536 ^ 2"
    "n div 65536 ^ 2 * 65536 + n div 65536 ^ 1 mod 65536 = n div 65536 ^ 1"
    "n div 65536 ^ 1 * 65536 + n div 65536 ^ 0 mod 65536 = n div 65536 ^ 0"
    by (rule step, simp)+
  have "foldl (\<lambda>a d. a * 65536 + d) 0 (hextets n) = n div 65536 ^ 0"
    unfolding hextets_def list.map foldl.simps mult_0 add_0 top steps by (rule refl)
  then show ?thesis by simp
qed

lemma compressed_chars: "x \<in> set (compressed hs) \<Longrightarrow> \<not> hex_char c \<Longrightarrow> c \<notin> set x"
  by (auto simp: compressed_def Let_def hex_text_no_sep split: prod.splits if_splits)

lemma compressed_length:
  assumes "length hs = 8" shows "3 \<le> length (compressed hs) \<and> length (compressed hs) \<le> 9"
proof -
  obtain s l where run: "best_run 0 (0, 0) (0, 0) hs = (s, l)" by fastforce
  have "zero_run hs (s, l)" using best_run_zero [of "[]" 0 0 "(0, 0)" hs] run by (simp add: zero_run_def)
  then show ?thesis using assms by (auto simp: compressed_def run zero_run_def)
qed

lemma parse_v6_text: "n < 65536 ^ 8 \<Longrightarrow> parse_v6_number (v6_text n) = Some n"
proof -
  assume n: "n < 65536 ^ 8"
  have len8: "length (hextets n) = 8" by (simp add: hextets_def)
  note len = compressed_length [OF len8]
  have ne: "compressed (hextets n) \<noteq> []" using len by auto
  have "\<forall>x \<in> set (compressed (hextets n)). CHR '':'' \<notin> set x"
    using compressed_chars sep_not_hex(1) by blast
  from py_split_join [OF ne this] have split: "py_split CHR '':'' (v6_text n) = compressed (hextets n)"
    unfolding v6_text_def .
  have "CHR ''.'' \<notin> set (last (compressed (hextets n)))"
    using compressed_chars [OF last_in_set [OF ne] sep_not_hex(2)] .
  then have tail: "expand_tail (compressed (hextets n)) = Some (compressed (hextets n))"
    by (simp add: expand_tail_def)
  have "\<not> length (compressed (hextets n)) < 3" "\<not> 9 < length (compressed (hextets n))" using len by auto
  then show ?thesis
    unfolding parse_v6_number_def Let_def split tail option.case v6_parts_compressed [OF len8 hextets_small]
      hextets_value [OF n] by (simp only: if_False)
qed

lemma v6_text_chars: "\<not> hex_char c \<Longrightarrow> c \<noteq> CHR '':'' \<Longrightarrow> c \<notin> set (v6_text n)"
proof -
  have join: "c \<notin> set (py_join '':'' xs)" if "\<forall>x \<in> set xs. c \<notin> set x" "c \<noteq> CHR '':''" for c xs
    using that by (induction "'':''" xs rule: py_join.induct) auto
  assume "\<not> hex_char c" "c \<noteq> CHR '':''"
  then show ?thesis unfolding v6_text_def using compressed_chars by (intro join) blast+
qed

lemma v4_text_chars: "\<not> is_digit c \<Longrightarrow> c \<noteq> CHR ''.'' \<Longrightarrow> c \<notin> set (v4_text n)"
  by (auto simp: v4_text_def digits_no_sep)

definition ip_ok :: "ip_addr \<Rightarrow> bool" where
  "ip_ok a \<longleftrightarrow>
     (case a of
        V4 n \<Rightarrow> n < 2 ^ 32
      | V6 n sc \<Rightarrow> n < 2 ^ 128 \<and>
          (case sc of None \<Rightarrow> True | Some t \<Rightarrow> t \<noteq> [] \<and> CHR 0x25 \<notin> set t \<and> CHR ''/'' \<notin> set t))"

lemma py_split_chars: "c \<in> set s \<Longrightarrow> c \<noteq> d \<Longrightarrow> \<exists>w \<in> set (py_split d s). c \<in> set w"
  by (induction s) (auto split: list.splits)

lemma py_split_words: "w \<in> set (py_split d s) \<Longrightarrow> set w \<subseteq> set s - {d}"
proof (induction s arbitrary: w)
  case (Cons x xs)
  obtain v vs where v: "py_split d xs = v # vs" by (cases "py_split d xs") auto
  have "set u \<subseteq> set xs - {d}" if "u \<in> set (v # vs)" for u using Cons.IH [of u] that v by simp
  then show ?case using Cons.prems v by (fastforce split: if_splits)
qed simp

lemma py_join_has_sep: "2 \<le> length xs \<Longrightarrow> c \<in> set (py_join [c] xs)"
  by (cases xs; cases "tl xs") auto

lemma join_digits_None: "None \<in> set xs \<Longrightarrow> join_digits b xs acc = None"
proof (induction xs arbitrary: acc)
  case (Cons x xs)
  then show ?case by (cases x) auto
qed simp

lemma join_digits_less:
  assumes "join_digits b xs acc = Some n" "\<forall>x \<in> set xs. \<forall>d. x = Some d \<longrightarrow> d < b"
  shows "n < (acc + 1) * b ^ length xs"
  using assms
proof (induction xs arbitrary: acc)
  case (Cons x xs)
  then obtain d where x: "x = Some d" "d < b" by (cases x) auto
  with Cons have "n < (acc * b + d + 1) * b ^ length xs" by auto
  also have "\<dots> \<le> ((acc + 1) * b) * b ^ length xs"
    using x(2) by (intro mult_le_mono1) (simp add: Suc_le_eq)
  finally show ?case by (simp add: algebra_simps)
qed simp

lemma parse_v4_no_colon: "CHR '':'' \<in> set s \<Longrightarrow> parse_v4 s = None"
proof -
  assume "CHR '':'' \<in> set s"
  then obtain w where w: "w \<in> set (py_split CHR ''.'' s)" "CHR '':'' \<in> set w"
    using py_split_chars [of "CHR '':''" s "CHR ''.''"] by auto
  have "\<not> is_digit CHR '':''" by (simp add: is_digit_def)
  with w(2) have "\<not> list_all is_digit w" by (auto simp only: list_all_iff)
  then have "parse_octet w = None" by (simp add: parse_octet_def)
  with w have "None \<in> set (map parse_octet (py_split CHR ''.'' s))" by force
  then show ?thesis using join_digits_None by (simp add: parse_v4_def Let_def)
qed

lemma parse_v4_less: "parse_v4 s = Some n \<Longrightarrow> n < 2 ^ 32"
proof -
  assume n: "parse_v4 s = Some n"
  let ?xs = "map parse_octet (py_split CHR ''.'' s)"
  from n have "join_digits 256 ?xs 0 = Some n" "length ?xs = 4"
    by (auto simp: parse_v4_def Let_def split: if_splits)
  then show ?thesis
    using join_digits_less [of 256 ?xs 0 n] by (fastforce simp: parse_octet_def split: if_splits)
qed

lemma hex_foldl_less: "list_all hex_char s \<Longrightarrow> foldl (\<lambda>a c. 16 * a + hex_char_val c) 0 s < 16 ^ length s"
proof (induction s rule: rev_induct)
  case (snoc c s)
  then have "foldl (\<lambda>a c. 16 * a + hex_char_val c) 0 s < 16 ^ length s" by simp
  moreover have "hex_char_val c < 16"
    using snoc.prems by (auto simp: hex_char_def hex_char_val_def is_digit_def)
  ultimately show ?case by simp
qed simp

lemma parse_hextet_less: "parse_hextet s = Some d \<Longrightarrow> d < 65536"
proof -
  assume "parse_hextet s = Some d"
  then have d: "list_all hex_char s" "length s \<le> 4" "d = foldl (\<lambda>a c. 16 * a + hex_char_val c) 0 s"
    by (auto simp: parse_hextet_def split: if_splits)
  have "(16::nat) ^ length s \<le> 16 ^ 4" using d(2) by (intro power_increasing) simp_all
  with hex_foldl_less [OF d(1)] d(3) show ?thesis by simp
qed

lemma v6_value_less:
  assumes "v6_value hi k lo = Some n"
  shows "n < 65536 ^ (length hi + k + length lo)"
proof -
  from assms obtain m where m: "join_digits 65536 (map parse_hextet hi) 0 = Some m"
    and n: "join_digits 65536 (map parse_hextet lo) (m * 65536 ^ k) = Some n"
    by (auto simp: v6_value_def split: option.splits)
  have "m < 65536 ^ length hi"
    using join_digits_less [OF m] by (auto simp: parse_hextet_less)
  then have "m * 65536 ^ k + 1 \<le> 65536 ^ length hi * 65536 ^ k"
    by (metis Suc_eq_plus1 Suc_leI mult_less_cancel2 zero_less_numeral zero_less_power)
  moreover have "n < (m * 65536 ^ k + 1) * 65536 ^ length lo"
    using join_digits_less [OF n] by (auto simp: parse_hextet_less)
  ultimately have "n < (65536 ^ length hi * 65536 ^ k) * 65536 ^ length lo"
    by (meson less_le_trans mult_le_mono1)
  then show ?thesis by (simp add: power_add)
qed

lemma v6_parts_less: "v6_parts ps = Some n \<Longrightarrow> n < 65536 ^ 8"
  using v6_value_less
  by (fastforce simp: v6_parts_def Let_def not_less split: list.splits if_splits)

lemma ip_address_ok:
  assumes "ip_address s = Some a"
  shows "ip_ok a"
proof -
  from assms have slash: "CHR ''/'' \<notin> set s" by (auto simp: ip_address_def split: if_splits)
  show ?thesis
  proof (cases "parse_v4 s")
    case (Some n)
    with assms slash parse_v4_less show ?thesis by (auto simp: ip_address_def ip_ok_def)
  next
    case None
    with assms slash obtain t sc n where t: "split_scope s = Some (t, sc)" "parse_v6_number t = Some n" "a = V6 n sc"
      by (auto simp: ip_address_def parse_v6_def split: option.splits)
    from t(2) have "n < 65536 ^ 8"
      using v6_parts_less by (auto simp: parse_v6_number_def Let_def split: if_splits option.splits)
    moreover have "case sc of None \<Rightarrow> True | Some u \<Rightarrow> u \<noteq> [] \<and> CHR 0x25 \<notin> set u \<and> CHR ''/'' \<notin> set u"
    proof (cases sc)
      case (Some u)
      with t(1) have parts: "py_split CHR 0x25 s = [t, u]" "u \<noteq> []"
        by (auto simp: split_scope_def split: list.splits if_splits)
      have "set u \<subseteq> set s - {CHR 0x25}"
        using py_split_words [of u "CHR 0x25" s] parts(1) by simp
      with slash parts(2) Some show ?thesis by auto
    qed simp
    ultimately show ?thesis using t(3) by (simp add: ip_ok_def)
  qed
qed

lemma ip_read_text:
  assumes "ip_ok a"
  shows "ip_address (ip_text a) = Some a"
proof (cases a)
  case (V4 n)
  with assms have "n < 2 ^ 32" by (simp add: ip_ok_def)
  moreover have "CHR ''/'' \<notin> set (v4_text n)" by (intro v4_text_chars) (simp_all add: is_digit_def)
  ultimately show ?thesis by (simp add: V4 ip_text_def ip_address_def parse_v4_text)
next
  case (V6 n sc)
  with assms have "n < 65536 ^ 8" by (simp add: ip_ok_def)
  note num = parse_v6_text [OF this]
  have scope: "CHR 0x25 \<notin> set (v6_text n)" and slash: "CHR ''/'' \<notin> set (v6_text n)"
    by (intro v6_text_chars sep_not_hex; simp)+
  have colon: "CHR '':'' \<in> set (v6_text n)"
    using compressed_length [of "hextets n"] by (auto simp: v6_text_def hextets_def py_join_has_sep)
  have "split_scope (ip_text a) = Some (v6_text n, sc)"
    using assms scope by (cases sc) (simp_all add: V6 ip_ok_def ip_text_def split_scope_def py_split_no_sep
      py_split_append_sep)
  moreover have "parse_v4 (ip_text a) = None"
    using colon by (intro parse_v4_no_colon) (cases sc; simp add: V6 ip_text_def)
  moreover have "CHR ''/'' \<notin> set (ip_text a)"
    using assms slash by (cases sc) (simp_all add: V6 ip_ok_def ip_text_def)
  ultimately show ?thesis using num by (simp add: ip_address_def parse_v6_def V6)
qed

text \<open>
  Printing an address and reading it back are inverse: the text of any valid IPv4 or IPv6 address (with the zero
  run compressed as the library compresses it, and with its scope) is read back as that address, and whatever the reader
  accepts is a valid address, so every text that parses can be normalised and parsed again.
\<close>

theorem ip_text_roundtrip:
  "(ip_ok a \<longrightarrow> ip_address (ip_text a) = Some a) \<and>
   (ip_address s = Some b \<longrightarrow> ip_ok b \<and> ip_address (ip_text b) = Some b)"
  using ip_read_text ip_address_ok by blast

theorem ip_text_roundtrip_witness:
  "ip_address (ip_text (V6 (0x20010db8 * 2 ^ 96 + 1) (Some ''eth0''))) = Some (V6 (0x20010db8 * 2 ^ 96 + 1) (Some ''eth0''))"
proof -
  have "ip_ok (V6 (0x20010db8 * 2 ^ 96 + 1) (Some ''eth0''))" by (simp add: ip_ok_def)
  then show ?thesis using ip_text_roundtrip [of "V6 (0x20010db8 * 2 ^ 96 + 1) (Some ''eth0'')"] by blast
qed

end
