(* ===== verification/Clock.thy ===== *)
theory Clock
  imports Json
begin

text \<open>
  Python's \<^verbatim>\<open>datetime\<close> as the sources use it: the fields, the offset from UTC in seconds of an
  aware value (\<open>None\<close> when naive), the instant it names, its weekday and its ISO text. The clock itself is an
  argument of what reads it; durations count microseconds.
\<close>

record datetime =
  dt_year :: int
  dt_month :: int
  dt_day :: int
  dt_hour :: int
  dt_minute :: int
  dt_second :: int
  dt_micro :: int
  dt_offset :: "int option"

text \<open>Days since 1970-01-01 in the proleptic Gregorian calendar.\<close>

definition days_from_civil :: "int \<Rightarrow> int \<Rightarrow> int \<Rightarrow> int" where
  "days_from_civil y m d =
     (let y1 = (if m \<le> 2 then y - 1 else y);
          era = y1 div 400; yoe = y1 mod 400;
          doy = (153 * (if 2 < m then m - 3 else m + 9) + 2) div 5 + d - 1;
          doe = yoe * 365 + yoe div 4 - yoe div 100 + doy
      in era * 146097 + doe - 719468)"

definition dt_days :: "datetime \<Rightarrow> int" where
  "dt_days t = days_from_civil (dt_year t) (dt_month t) (dt_day t)"

text \<open>\<^verbatim>\<open>t.weekday()\<close>: Monday is 0.\<close>

definition weekday :: "datetime \<Rightarrow> int" where
  "weekday t = (dt_days t + 3) mod 7"

definition utc :: "datetime \<Rightarrow> datetime" where
  "utc t = (case dt_offset t of None \<Rightarrow> t\<lparr>dt_offset := Some 0\<rparr> | Some _ \<Rightarrow> t)"

text \<open>Microseconds since the epoch; a naive value is read as it stands.\<close>

definition instant :: "datetime \<Rightarrow> int" where
  "instant t =
     (dt_days t * 86400 + dt_hour t * 3600 + dt_minute t * 60 + dt_second t -
       (case dt_offset t of None \<Rightarrow> 0 | Some off \<Rightarrow> off)) * 1000000 + dt_micro t"

text \<open>\<^verbatim>\<open>a >= b\<close>: a \<^verbatim>\<open>TypeError\<close> (\<open>None\<close>) when one is naive and the other aware.\<close>

definition dt_ge :: "datetime \<Rightarrow> datetime \<Rightarrow> bool option" where
  "dt_ge a b =
     (if (dt_offset a = None) \<noteq> (dt_offset b = None) then None
      else Some (instant b \<le> instant a))"

definition pad :: "nat \<Rightarrow> int \<Rightarrow> string" where
  "pad n i = (let s = str_of_int i in replicate (n - length s) CHR ''0'' @ s)"

definition iso_offset :: "int \<Rightarrow> string" where
  "iso_offset off =
     (let a = \<bar>off\<bar> in
      (if off < 0 then ''-'' else ''+'') @ pad 2 (a div 3600) @ '':'' @ pad 2 (a div 60 mod 60) @
      (if a mod 60 = 0 then [] else '':'' @ pad 2 (a mod 60)))"

definition isoformat :: "datetime \<Rightarrow> string" where
  "isoformat t =
     pad 4 (dt_year t) @ ''-'' @ pad 2 (dt_month t) @ ''-'' @ pad 2 (dt_day t) @ ''T'' @
     pad 2 (dt_hour t) @ '':'' @ pad 2 (dt_minute t) @ '':'' @ pad 2 (dt_second t) @
     (if dt_micro t = 0 then [] else ''.'' @ pad 6 (dt_micro t)) @
     (case dt_offset t of None \<Rightarrow> [] | Some off \<Rightarrow> iso_offset off)"

end
