(* ===== verification/Ip_Limits.thy ===== *)
theory Ip_Limits
  imports Manager Ip_Address Clock
begin

text \<open>
  \<^verbatim>\<open>node_agent/ip_limits.py\<close>: the panel's timed source-address bans as one nftables table. The external
  programs are the record \<open>tools\<close>: \<^verbatim>\<open>shutil.which\<close> and the run of a command, which changes a world of its own.
  Sets of ports and addresses are lists without duplicates. The clock reading is an argument.
\<close>

record listener_claim =
  lc_protocol :: string
  lc_transport :: string
  lc_address :: string
  lc_port :: int

record 'w tools =
  which :: "string \<Rightarrow> string option"
  run_tool :: "string list \<Rightarrow> string \<Rightarrow> 'w \<Rightarrow> (int \<times> string) \<times> 'w"

section \<open>Which ports are guarded\<close>

definition claim_ports :: "listener_claim \<Rightarrow> int list \<times> int list \<Rightarrow> int list \<times> int list" where
  "claim_ports c ports =
     (let (tcp, udp) = ports in
      if (case ip_address (lc_address c) of None \<Rightarrow> False | Some a \<Rightarrow> is_loopback a) then ports
      else if lc_protocol c = ''accel-ppp-cli'' then ports
      else
        let (tcp1, udp1) = (if py_lower (lc_transport c) = ''udp'' then (tcp, List.insert (lc_port c) udp)
                            else (List.insert (lc_port c) tcp, udp))
        in (tcp1, if lc_protocol c = ''openvpn-clone'' then List.insert (lc_port c) udp1 else udp1))"

text \<open>A core whose claims cannot be read is skipped.\<close>

definition managed_ports ::
  "('d driver_class \<Rightarrow> ('d, core_exc, listener_claim list) eff) \<Rightarrow> ('d, 's, int list \<times> int list) op" where
  "managed_ports claims =
     bindE (getE list_cores) (\<lambda>cids.
     bindE (mapE (\<lambda>cid.
       bindE (getE (\<lambda>m. is_enabled m cid)) (\<lambda>en.
       if \<not> en then ret []
       else catchE (call_driver cid claims) is_exception (\<lambda>_. ret []))) cids) (\<lambda>groups.
     ret (fold claim_ports (concat groups) ([], []))))"

section \<open>Times\<close>

text \<open>
  \<^verbatim>\<open>datetime.fromisoformat\<close> on the extended format: \<^verbatim>\<open>YYYY-MM-DD\<close>, optionally any separator and
  \<^verbatim>\<open>HH[:MM[:SS[.f]]]\<close> with an optional offset of the same shape. The basic and the week formats, which the panel
  does not send, are refused here.
\<close>

definition two_digits :: "string \<Rightarrow> (int \<times> string) option" where
  "two_digits s =
     (case s of
        a # b # r \<Rightarrow> if is_digit a \<and> is_digit b then Some (int (nat_of_digits [a, b]), r) else None
      | _ \<Rightarrow> None)"

definition micros :: "string \<Rightarrow> int option" where
  "micros s =
     (if s \<noteq> [] \<and> list_all is_digit s
      then Some (int (nat_of_digits (take 6 (s @ replicate 6 CHR ''0''))))
      else None)"

definition iso_clock :: "string \<Rightarrow> (int \<times> int \<times> int \<times> int) option" where
  "iso_clock s =
     (case two_digits s of
        None \<Rightarrow> None
      | Some (h, []) \<Rightarrow> Some (h, 0, 0, 0)
      | Some (h, c # r) \<Rightarrow>
          if c \<noteq> CHR '':'' then None
          else (case two_digits r of
                  None \<Rightarrow> None
                | Some (m, []) \<Rightarrow> Some (h, m, 0, 0)
                | Some (m, d # r2) \<Rightarrow>
                    if d \<noteq> CHR '':'' then None
                    else (case two_digits r2 of
                            None \<Rightarrow> None
                          | Some (sec, []) \<Rightarrow> Some (h, m, sec, 0)
                          | Some (sec, e # f) \<Rightarrow>
                              if e \<in> {CHR ''.'', CHR '',''}
                              then map_option (\<lambda>us. (h, m, sec, us)) (micros f) else None)))"

definition iso_zone :: "string \<Rightarrow> int option option" where
  "iso_zone z =
     (case z of
        [] \<Rightarrow> Some None
      | sign # off \<Rightarrow>
          (case iso_clock off of
             Some (h, m, s, us) \<Rightarrow>
               if h < 24 \<and> m < 60 \<and> s < 60
               then Some (Some ((if sign = CHR ''-'' then -1 else 1) * (h * 3600 + m * 60 + s))) else None
           | None \<Rightarrow> None))"

definition leap_year :: "int \<Rightarrow> bool" where
  "leap_year y \<longleftrightarrow> y mod 4 = 0 \<and> (y mod 100 \<noteq> 0 \<or> y mod 400 = 0)"

definition days_in_month :: "int \<Rightarrow> int \<Rightarrow> int" where
  "days_in_month y m =
     (if m = 2 then (if leap_year y then 29 else 28) else if m \<in> {4, 6, 9, 11} then 30 else 31)"

definition from_iso :: "string \<Rightarrow> datetime option" where
  "from_iso s =
     (let date = take 10 s; rest = drop 11 s;
          clock = takeWhile (\<lambda>c. c \<noteq> CHR ''+'' \<and> c \<noteq> CHR ''-'') rest;
          zone = drop (length clock) rest;
          y = int (nat_of_digits (take 4 date)); m = int (nat_of_digits (take 2 (drop 5 date)));
          d = int (nat_of_digits (drop 8 date))
      in if length date = 10 \<and> list_all is_digit (take 4 date @ take 2 (drop 5 date) @ drop 8 date) \<and>
            date ! 4 = CHR ''-'' \<and> date ! 7 = CHR ''-'' \<and>
            1 \<le> y \<and> 1 \<le> m \<and> m \<le> 12 \<and> 1 \<le> d \<and> d \<le> days_in_month y m
         then
           if length s = 10
           then Some \<lparr>dt_year = y, dt_month = m, dt_day = d, dt_hour = 0, dt_minute = 0, dt_second = 0,
                      dt_micro = 0, dt_offset = None\<rparr>
           else (case (iso_clock clock, iso_zone zone) of
                   (Some (h, mi, sec, us), Some off) \<Rightarrow>
                     if h < 24 \<and> mi < 60 \<and> sec < 60
                     then Some \<lparr>dt_year = y, dt_month = m, dt_day = d, dt_hour = h, dt_minute = mi,
                                dt_second = sec, dt_micro = us, dt_offset = off\<rparr>
                     else None
                 | _ \<Rightarrow> None)
         else None)"

definition zulu :: "string \<Rightarrow> string" where
  "zulu s = concat (map (\<lambda>c. if c = CHR ''Z'' then ''+00:00'' else [c]) s)"

definition parse_time :: "json \<Rightarrow> core_exc + datetime" where
  "parse_time v =
     (case from_iso (zulu (py_str v)) of
        None \<Rightarrow> Inl (value_error (''Invalid isoformat string: '' @ py_repr_str (zulu (py_str v))))
      | Some t \<Rightarrow> Inr (utc t))"

section \<open>The table\<close>

definition row_field :: "jobj \<Rightarrow> string \<Rightarrow> core_exc + json" where
  "row_field row k = (case dget row k of None \<Rightarrow> Inl (key_error k) | Some v \<Rightarrow> Inr v)"

definition row_ip :: "jobj \<Rightarrow> core_exc + ip_addr" where
  "row_ip row =
     bindR (row_field row ''ip'') (\<lambda>v.
     case ip_address (py_str v) of
       None \<Rightarrow> Inl (value_error (py_repr_str (py_str v) @ '' does not appear to be an IPv4 or IPv6 address''))
     | Some a \<Rightarrow> Inr a)"

definition row_expiry :: "jobj \<Rightarrow> core_exc + datetime" where
  "row_expiry row = bindR (row_field row ''expires_at'') parse_time"

text \<open>\<^verbatim>\<open>max(1, int((expires - now).total_seconds()))\<close>.\<close>

definition seconds_left :: "datetime \<Rightarrow> datetime \<Rightarrow> int" where
  "seconds_left now t = max 1 ((instant t - instant now) div 1000000)"

type_synonym ban_groups = "(string, int) dict \<times> (string, int) dict"

definition raise_ban :: "string \<Rightarrow> int \<Rightarrow> (string, int) dict \<Rightarrow> (string, int) dict" where
  "raise_ban ip seconds g = dput ip (max (case dget g ip of None \<Rightarrow> 0 | Some n \<Rightarrow> n) seconds) g"

definition add_ban :: "string \<Rightarrow> nat \<Rightarrow> int \<Rightarrow> ban_groups \<Rightarrow> ban_groups" where
  "add_ban ip version seconds g =
     (if version = 6 then (fst g, raise_ban ip seconds (snd g)) else (raise_ban ip seconds (fst g), snd g))"

fun group_bans :: "datetime \<Rightarrow> jobj list \<Rightarrow> ban_groups \<Rightarrow> core_exc + ban_groups" where
  "group_bans now [] g = Inr g"
| "group_bans now (row # rows) g =
     bindR (row_ip row) (\<lambda>a.
     bindR (row_expiry row) (\<lambda>t.
     group_bans now rows (add_ban (ip_text a) (ip_version a) (seconds_left now t) g)))"

definition table_name :: string where
  "table_name = ''zagros_ip_limit''"

definition ban_elements :: "(string, int) dict \<Rightarrow> string" where
  "ban_elements g =
     py_join '', '' (map (\<lambda>(ip, n). ip @ '' timeout '' @ str_of_int n @ ''s'') (sort_key fst g))"

definition port_elements :: "int list \<Rightarrow> string" where
  "port_elements ps = py_join '', '' (map str_of_int (sort ps))"

definition set_line :: "string \<Rightarrow> string \<Rightarrow> string \<Rightarrow> bool \<Rightarrow> string" where
  "set_line name nft_type values timed =
     '' set '' @ name @ '' { type '' @ nft_type @ '';'' @ (if timed then '' flags timeout;'' else []) @
     (if values = [] then [] else '' elements = { '' @ values @ '' };'') @ '' }''"

definition nl :: string where
  "nl = [CHR 0x0A]"

definition drop_line :: "string \<Rightarrow> string \<Rightarrow> string" where
  "drop_line family proto =
     ''  '' @ (if family = ''4'' then ''ip'' else ''ip6'') @ '' saddr @banned_v'' @ family @ '' '' @ proto @
     '' dport @vpn_'' @ proto @ ''_ports counter drop'' @ nl"

definition script_text :: "ban_groups \<Rightarrow> int list \<Rightarrow> int list \<Rightarrow> string" where
  "script_text g tcp udp =
     ''table inet '' @ table_name @ '' {'' @ nl @
     set_line ''banned_v4'' ''ipv4_addr'' (ban_elements (fst g)) True @ nl @
     set_line ''banned_v6'' ''ipv6_addr'' (ban_elements (snd g)) True @ nl @
     set_line ''vpn_tcp_ports'' ''inet_service'' (port_elements tcp) False @ nl @
     set_line ''vpn_udp_ports'' ''inet_service'' (port_elements udp) False @ nl @
     '' chain input {'' @ nl @
     ''  type filter hook input priority -210; policy accept;'' @ nl @
     drop_line ''4'' ''tcp'' @ drop_line ''4'' ''udp'' @ drop_line ''6'' ''tcp'' @ drop_line ''6'' ''udp'' @
     '' }'' @ nl @ ''}'' @ nl"

definition ban_script :: "jobj list \<Rightarrow> int list \<Rightarrow> int list \<Rightarrow> datetime \<Rightarrow> core_exc + string" where
  "ban_script bans tcp udp now = bindR (group_bans now bans ([], [])) (\<lambda>g. Inr (script_text g tcp udp))"

section \<open>Applying it\<close>

datatype ban_report = BansApplied nat | BansFailed string

fun active_bans :: "datetime \<Rightarrow> jobj list \<Rightarrow> core_exc + jobj list" where
  "active_bans now [] = Inr []"
| "active_bans now (row # rows) =
     bindR (row_expiry row) (\<lambda>t.
     bindR (active_bans now rows) (\<lambda>rest.
     Inr (if instant now < instant t then row # rest else rest)))"

definition shell :: "'w tools \<Rightarrow> string list \<Rightarrow> string \<Rightarrow> ('w, core_exc, int \<times> string) eff" where
  "shell T argv input w = (let (r, w') = run_tool T argv input w in (Inr r, w'))"

definition nft_failed :: "int \<times> string \<Rightarrow> ban_report \<Rightarrow> ban_report" where
  "nft_failed r done_report = (if fst r = 0 then done_report else BansFailed (py_strip (snd r)))"

definition apply_bans ::
  "'w tools \<Rightarrow> datetime \<Rightarrow> jobj list \<Rightarrow> int list \<Rightarrow> int list \<Rightarrow> ('w, core_exc, ban_report) eff" where
  "apply_bans T now bans tcp udp =
     (case which T ''nft'' of
        None \<Rightarrow> ret (BansFailed ''nft is not installed'')
      | Some nft \<Rightarrow>
          bindE (liftE (active_bans now bans)) (\<lambda>active.
          bindE (shell T [nft, ''list'', ''table'', ''inet'', table_name] []) (\<lambda>listed.
          let exists_already = (fst listed = 0) in
          if active = [] then
            (if exists_already
             then bindE (shell T [nft, ''delete'', ''table'', ''inet'', table_name] []) (\<lambda>r.
                  ret (nft_failed r (BansApplied 0)))
             else ret (BansApplied 0))
          else
            bindE (liftE (ban_script active tcp udp now)) (\<lambda>script.
            bindE (shell T [nft, ''-f'', ''-'']
                     ((if exists_already then ''delete table inet '' @ table_name @ nl else []) @ script)) (\<lambda>r.
            ret (nft_failed r (BansApplied (length active))))))))"

fun count_ok :: "('w, core_exc, int \<times> string) eff list \<Rightarrow> ('w, core_exc, int) eff" where
  "count_ok [] = ret 0"
| "count_ok (c # cs) = bindE c (\<lambda>r. bindE (count_ok cs) (\<lambda>n. ret (n + (if fst r = 0 then 1 else 0))))"

definition drop_conntrack ::
  "'w tools \<Rightarrow> string list \<Rightarrow> int list \<Rightarrow> int list \<Rightarrow> ('w, core_exc, int) eff" where
  "drop_conntrack T ips tcp udp =
     (case which T ''conntrack'' of
        None \<Rightarrow> ret 0
      | Some tool \<Rightarrow>
          count_ok (concat (map (\<lambda>ip.
            map (\<lambda>p. shell T [tool, ''-D'', ''-s'', ip, ''-p'', ''tcp'', ''--dport'', str_of_int p] []) tcp @
            map (\<lambda>p. shell T [tool, ''-D'', ''-s'', ip, ''-p'', ''udp'', ''--dport'', str_of_int p] []) udp) ips)))"

text \<open>\<^verbatim>\<open>terminate\<close>: every driver that can is asked to end the connections of each address.\<close>

definition closed_count :: "json \<Rightarrow> core_exc + int" where
  "closed_count v =
     (case py_int (jor v (JInt 0)) of
        Inr n \<Rightarrow> Inr n
      | Inl ConvType \<Rightarrow> Inl (OtherError ''TypeError'' [])
      | Inl ConvValue \<Rightarrow> Inl (value_error []))"

definition terminate_bans ::
  "('d driver_class \<Rightarrow> (string \<Rightarrow> ('d, core_exc, json) eff) option) \<Rightarrow> string list \<Rightarrow> ('d, 's, int) op" where
  "terminate_bans term_hook ips =
     bindE (getE list_cores) (\<lambda>cids.
     bindE (mapE (\<lambda>cid.
       bindE (get_core cid) (\<lambda>d.
       case term_hook (drv_class d) of
         None \<Rightarrow> ret 0
       | Some operation \<Rightarrow>
           bindE (mapE (\<lambda>ip. bindE (call_driver cid (\<lambda>_. operation ip)) (\<lambda>v. liftE (closed_count v))) ips)
             (\<lambda>ns. ret (sum_list ns)))) cids) (\<lambda>counts. ret (sum_list counts)))"

section \<open>The ports of the claims\<close>

definition guarded :: "listener_claim \<Rightarrow> bool" where
  "guarded c \<longleftrightarrow> (\<forall>a. ip_address (lc_address c) = Some a \<longrightarrow> \<not> is_loopback a) \<and> lc_protocol c \<noteq> ''accel-ppp-cli''"

lemma claim_ports_set:
  "set (fst (claim_ports c ps)) = set (fst ps) \<union>
     (if guarded c \<and> py_lower (lc_transport c) \<noteq> ''udp'' then {lc_port c} else {}) \<and>
   set (snd (claim_ports c ps)) = set (snd ps) \<union>
     (if guarded c \<and> (py_lower (lc_transport c) = ''udp'' \<or> lc_protocol c = ''openvpn-clone'') then {lc_port c} else {})"
  by (cases ps) (auto simp: claim_ports_def guarded_def Let_def split: option.splits)

lemma fold_claim_ports_set:
  "set (fst (fold claim_ports cs ps)) = set (fst ps) \<union>
     {p. \<exists>c \<in> set cs. guarded c \<and> py_lower (lc_transport c) \<noteq> ''udp'' \<and> p = lc_port c} \<and>
   set (snd (fold claim_ports cs ps)) = set (snd ps) \<union>
     {p. \<exists>c \<in> set cs. guarded c \<and> (py_lower (lc_transport c) = ''udp'' \<or> lc_protocol c = ''openvpn-clone'') \<and> p = lc_port c}"
proof (induction cs arbitrary: ps)
  case (Cons c cs)
  show ?case using Cons.IH [of "claim_ports c ps"] claim_ports_set [of c ps] by auto
qed simp

section \<open>What the groups denote\<close>

lemma ip_text_inject: "ip_ok a \<Longrightarrow> ip_ok b \<Longrightarrow> ip_text a = ip_text b \<longleftrightarrow> a = b"
  using ip_read_text by (metis option.inject)

text \<open>The seconds that the rows of an address have left.\<close>

definition ban_times :: "datetime \<Rightarrow> jobj list \<Rightarrow> ip_addr \<Rightarrow> int list" where
  "ban_times now rows a =
     List.map_filter (\<lambda>row. case (row_ip row, row_expiry row) of
         (Inr b, Inr t) \<Rightarrow> if b = a then Some (seconds_left now t) else None | _ \<Rightarrow> None) rows"

definition group_of :: "nat \<Rightarrow> ban_groups \<Rightarrow> (string, int) dict" where
  "group_of version g = (if version = 6 then snd g else fst g)"

lemma group_of_add:
  "group_of v (add_ban ip w n g) = (if (v = 6) = (w = 6) then raise_ban ip n (group_of v g) else group_of v g)"
  by (auto simp: group_of_def add_ban_def)

lemma row_ip_ok: "row_ip row = Inr a \<Longrightarrow> ip_ok a"
  using ip_address_ok by (auto simp: row_ip_def bindR_Inr_conv split: option.splits)

lemma seconds_left_pos: "1 \<le> seconds_left now t"
  by (simp add: seconds_left_def)

lemma group_bans_get:
  assumes "group_bans now rows g = Inr g'" "ip_ok a"
    and "\<forall>n. dget (group_of (ip_version a) g) (ip_text a) = Some n \<longrightarrow> 1 \<le> n"
  shows "dget (group_of (ip_version a) g') (ip_text a) =
    (case dget (group_of (ip_version a) g) (ip_text a) of
       None \<Rightarrow> if ban_times now rows a = [] then None else Some (Max (set (ban_times now rows a)))
     | Some n \<Rightarrow> Some (Max (insert n (set (ban_times now rows a)))))"
  using assms
proof (induction now rows g rule: group_bans.induct)
  case (1 now g)
  then show ?case by (simp add: ban_times_def map_filter_def split: option.split)
next
  case (2 now row rows g)
  from "2.prems"(1) obtain b t where b: "row_ip row = Inr b" and t: "row_expiry row = Inr t"
    and rest: "group_bans now rows (add_ban (ip_text b) (ip_version b) (seconds_left now t) g) = Inr g'"
    by (auto simp: bindR_Inr_conv)
  let ?n = "seconds_left now t" and ?g = "group_of (ip_version a) g"
  let ?g1 = "group_of (ip_version a) (add_ban (ip_text b) (ip_version b) ?n g)"
  show ?case
  proof (cases "a = b")
    case True
    have get: "dget ?g1 (ip_text a) = Some (max (case dget ?g (ip_text a) of None \<Rightarrow> 0 | Some n \<Rightarrow> n) ?n)"
      by (simp add: True group_of_add raise_ban_def)
    have times: "ban_times now (row # rows) a = ?n # ban_times now rows a"
      by (simp add: ban_times_def map_filter_def b t True)
    have pos: "1 \<le> max (case dget ?g (ip_text a) of None \<Rightarrow> 0 | Some n \<Rightarrow> n) ?n"
      using seconds_left_pos [of now t] by simp
    have ih: "dget (group_of (ip_version a) g') (ip_text a) =
        Some (Max (insert (max (case dget ?g (ip_text a) of None \<Rightarrow> 0 | Some n \<Rightarrow> n) ?n) (set (ban_times now rows a))))"
      using "2.IH" [OF rest "2.prems"(2)] get pos by simp
    show ?thesis
    proof (cases "dget ?g (ip_text a)")
      case None
      then show ?thesis using ih seconds_left_pos [of now t] by (simp add: times max_absorb2)
    next
      case (Some n)
      then show ?thesis
        using ih by (cases "ban_times now rows a = []") (simp_all add: times insert_commute max.assoc)
    qed
  next
    case False
    have "ip_text a \<noteq> ip_text b" using ip_text_inject [OF "2.prems"(2) row_ip_ok [OF b]] False by simp
    then have get: "dget ?g1 (ip_text a) = dget ?g (ip_text a)"
      by (simp add: group_of_add raise_ban_def)
    have times: "ban_times now (row # rows) a = ban_times now rows a"
      using False by (simp add: ban_times_def map_filter_def b t)
    show ?thesis using "2.IH" [OF rest "2.prems"(2)] "2.prems"(3) unfolding times get by blast
  qed
qed

lemma group_bans_expiry:
  "group_bans now rows g = Inr g' \<Longrightarrow> \<forall>row \<in> set rows. \<exists>t. row_expiry row = Inr t"
  by (induction now rows g rule: group_bans.induct) (auto simp: bindR_Inr_conv)

text \<open>
  The nftables sets hold exactly the banned addresses: when the rows can be read, an address is an element of the
  set of its family exactly when some row names it, whatever spelling the row uses, and its timeout is the longest time
  that any of its rows has left, at least one second.
\<close>

theorem ban_groups_exact:
  assumes "group_bans now rows ([], []) = Inr g" "ip_ok a"
  shows "dget (group_of (ip_version a) g) (ip_text a) =
      (if ban_times now rows a = [] then None else Some (Max (set (ban_times now rows a)))) \<and>
    (\<forall>n \<in> set (ban_times now rows a). 1 \<le> n) \<and>
    (ban_times now rows a \<noteq> [] \<longleftrightarrow> (\<exists>row \<in> set rows. row_ip row = Inr a))"
proof -
  have empty: "dget (group_of (ip_version a) ([], [])) (ip_text a) = None" by (simp add: group_of_def)
  have expiry: "\<forall>row \<in> set rows. \<exists>t. row_expiry row = Inr t" using assms(1) by (rule group_bans_expiry)
  have "ban_times now rows a = [] \<longleftrightarrow> (\<forall>row \<in> set rows. row_ip row \<noteq> Inr a)"
  proof -
    have "(case (row_ip row, row_expiry row) of
        (Inr b, Inr t) \<Rightarrow> if b = a then Some (seconds_left now t) else None | _ \<Rightarrow> None) = None \<longleftrightarrow>
      row_ip row \<noteq> Inr a" if "row \<in> set rows" for row
      using expiry that by (cases "row_ip row") fastforce+
    then show ?thesis by (auto simp: ban_times_def map_filter_def filter_empty_conv)
  qed
  then have "ban_times now rows a \<noteq> [] \<longleftrightarrow> (\<exists>row \<in> set rows. row_ip row = Inr a)" by blast
  moreover have "\<forall>n \<in> set (ban_times now rows a). 1 \<le> n"
    using seconds_left_pos by (auto simp: ban_times_def map_filter_def split: sum.splits if_splits)
  ultimately show ?thesis using group_bans_get [OF assms] empty by simp
qed

definition demo_time :: datetime where
  "demo_time = \<lparr>dt_year = 2026, dt_month = 1, dt_day = 2, dt_hour = 3, dt_minute = 4, dt_second = 5,
     dt_micro = 0, dt_offset = Some 0\<rparr>"

definition demo_ban :: "string \<Rightarrow> string \<Rightarrow> jobj" where
  "demo_ban ip t = [(''ip'', JStr ip), (''expires_at'', JStr t)]"

definition demo_bans :: "jobj list" where
  "demo_bans = [demo_ban ''2001:DB8:0::1'' ''2026-01-02T03:04:35Z'', demo_ban ''9.9.9.9'' ''2026-01-02T03:14:05'',
     demo_ban ''2001:db8::1'' ''2026-01-02T03:05:05Z'']"

text \<open>The readers and printers evaluate with these rules.\<close>

lemmas ip_eval = ip_address_def parse_v4_def parse_v6_def split_scope_def parse_v6_number_def expand_tail_def
  v6_parts_def gaps_def v6_value_def parse_hextet_def hex_char_def hex_char_val_def is_digit_def parse_octet_def
  nat_of_digits_def digit_val_def upt_rec

lemmas ip_print = ip_text_def v4_text_def str_of_nat.simps digit_char_def v6_text_def compressed_def hextets_def
  hex_text.simps hex_digit_def char_of_eq_iff

lemma demo_addresses:
  "ip_address ''2001:db8::1'' = Some (V6 0x20010db8000000000000000000000001 None)"
  "ip_address ''2001:DB8:0::1'' = Some (V6 0x20010db8000000000000000000000001 None)"
  "ip_address ''9.9.9.9'' = Some (V4 0x09090909)"
  by (simp_all add: ip_eval)

lemma demo_texts:
  "ip_text (V6 0x20010db8000000000000000000000001 None) = ''2001:db8::1''"
  "ip_text (V4 0x09090909) = ''9.9.9.9''"
  by (simp_all add: ip_print)

lemma demo_expiries:
  "from_iso ''2026-01-02T03:04:35+00:00'' = Some (demo_time\<lparr>dt_second := 35\<rparr>)"
  "from_iso ''2026-01-02T03:14:05'' = Some (demo_time\<lparr>dt_minute := 14, dt_offset := None\<rparr>)"
  "from_iso ''2026-01-02T03:05:05+00:00'' = Some (demo_time\<lparr>dt_minute := 5\<rparr>)"
  by (simp_all add: from_iso_def iso_clock_def iso_zone_def two_digits_def nat_of_digits_def digit_val_def
      is_digit_def days_in_month_def demo_time_def)

lemma demo_rows:
  "row_ip (demo_ban ip t) = (case ip_address ip of
     None \<Rightarrow> Inl (value_error (py_repr_str ip @ '' does not appear to be an IPv4 or IPv6 address''))
   | Some a \<Rightarrow> Inr a)"
  "row_expiry (demo_ban ip t) = parse_time (JStr t)"
  by (simp_all add: row_ip_def row_expiry_def row_field_def demo_ban_def cong: option.case_cong)

lemma demo_times:
  "parse_time (JStr ''2026-01-02T03:04:35Z'') = Inr (demo_time\<lparr>dt_second := 35\<rparr>)"
  "parse_time (JStr ''2026-01-02T03:14:05'') = Inr (demo_time\<lparr>dt_minute := 14\<rparr>)"
  "parse_time (JStr ''2026-01-02T03:05:05Z'') = Inr (demo_time\<lparr>dt_minute := 5\<rparr>)"
  by (simp_all add: parse_time_def zulu_def demo_expiries utc_def) (simp_all add: demo_time_def)

lemma instant_later:
  "instant (t\<lparr>dt_second := x\<rparr>) = instant t + (x - dt_second t) * 1000000"
  "instant (t\<lparr>dt_minute := x\<rparr>) = instant t + (x - dt_minute t) * 60000000"
  by (simp_all add: instant_def dt_days_def algebra_simps)

lemma demo_seconds:
  "instant (demo_time\<lparr>dt_second := 35\<rparr>) = instant demo_time + 30000000"
  "instant (demo_time\<lparr>dt_minute := 14\<rparr>) = instant demo_time + 600000000"
  "instant (demo_time\<lparr>dt_minute := 5\<rparr>) = instant demo_time + 60000000"
proof -
  have "dt_second demo_time = 5" "dt_minute demo_time = 4" by (simp_all add: demo_time_def)
  then show "instant (demo_time\<lparr>dt_second := 35\<rparr>) = instant demo_time + 30000000"
    "instant (demo_time\<lparr>dt_minute := 14\<rparr>) = instant demo_time + 600000000"
    "instant (demo_time\<lparr>dt_minute := 5\<rparr>) = instant demo_time + 60000000"
    by (simp_all add: instant_later)
qed

lemma demo_groups:
  "group_bans demo_time demo_bans ([], []) = Inr ([(''9.9.9.9'', 600)], [(''2001:db8::1'', 60)])"
proof -
  have step: "group_bans now (demo_ban ip t # rows) g =
      group_bans now rows (add_ban (ip_text a) (ip_version a) (seconds_left now u) g)"
    if "ip_address ip = Some a" "parse_time (JStr t) = Inr u" for now ip t rows g a u
    using that by (simp add: demo_rows)
  show ?thesis
    unfolding demo_bans_def step [OF demo_addresses(2) demo_times(1)] step [OF demo_addresses(3) demo_times(2)]
      step [OF demo_addresses(1) demo_times(3)]
    by (simp add: demo_texts seconds_left_def demo_seconds add_ban_def raise_ban_def ip_version_def)
qed

theorem ban_groups_exact_witness:
  "ban_times demo_time demo_bans (V6 0x20010db8000000000000000000000001 None) \<noteq> [] \<and>
   Max (set (ban_times demo_time demo_bans (V6 0x20010db8000000000000000000000001 None))) = 60"
proof -
  let ?a = "V6 0x20010db8000000000000000000000001 None"
  have ok: "ip_ok ?a" using ip_address_ok [OF demo_addresses(1)] .
  have "dget (group_of (ip_version ?a) ([(''9.9.9.9'', 600)], [(''2001:db8::1'', 60)])) (ip_text ?a) = Some 60"
    by (simp add: group_of_def ip_version_def demo_texts)
  with ban_groups_exact [OF demo_groups ok] show ?thesis
    by (metis option.distinct(1) option.inject)
qed

section \<open>What nft installs\<close>

text \<open>
  What the agent relies on of \<^verbatim>\<open>nft\<close>: \<open>tab\<close> reads the text of the agent's table in a world; listing tells whether
  the table is there and changes nothing; deleting and loading are transactions that do what they say when the
  exit code is 0 and nothing otherwise. Nothing is asked about scripts other than the rulesets that are generated here.
\<close>

definition ban_ruleset :: "string \<Rightarrow> bool" where
  "ban_ruleset script \<longleftrightarrow> (\<exists>now active g tcp udp. active \<noteq> [] \<and> group_bans now active ([], []) = Inr g \<and>
     script = script_text g tcp udp)"

definition nft_behaves :: "'w tools \<Rightarrow> string \<Rightarrow> ('w \<Rightarrow> string option) \<Rightarrow> bool" where
  "nft_behaves T nft tab \<longleftrightarrow> (\<forall>w.
     tab (snd (run_tool T [nft, ''list'', ''table'', ''inet'', table_name] [] w)) = tab w \<and>
     (fst (fst (run_tool T [nft, ''list'', ''table'', ''inet'', table_name] [] w)) = 0 \<longleftrightarrow> tab w \<noteq> None) \<and>
     tab (snd (run_tool T [nft, ''delete'', ''table'', ''inet'', table_name] [] w)) =
       (if fst (fst (run_tool T [nft, ''delete'', ''table'', ''inet'', table_name] [] w)) = 0 then None else tab w) \<and>
     (\<forall>script. ban_ruleset script \<longrightarrow>
       (tab w = None \<longrightarrow> tab (snd (run_tool T [nft, ''-f'', ''-''] script w)) =
         (if fst (fst (run_tool T [nft, ''-f'', ''-''] script w)) = 0 then Some script else tab w)) \<and>
       (tab w \<noteq> None \<longrightarrow>
         tab (snd (run_tool T [nft, ''-f'', ''-''] (''delete table inet '' @ table_name @ nl @ script) w)) =
         (if fst (fst (run_tool T [nft, ''-f'', ''-''] (''delete table inet '' @ table_name @ nl @ script) w)) = 0
          then Some script else tab w))))"

lemma shell_run: "shell T argv input w = (Inr (fst (run_tool T argv input w)), snd (run_tool T argv input w))"
  by (simp add: shell_def split: prod.split)

lemma nft_listing:
  assumes "nft_behaves T nft tab"
  shows "tab (snd (run_tool T [nft, ''list'', ''table'', ''inet'', table_name] [] w)) = tab w"
    "fst (fst (run_tool T [nft, ''list'', ''table'', ''inet'', table_name] [] w)) = 0 \<longleftrightarrow> tab w \<noteq> None"
  using assms by (simp_all add: nft_behaves_def)

lemma no_bans_applied:
  assumes nft: "nft_behaves T nft tab" "which T ''nft'' = Some nft"
    and run: "apply_bans T now bans tcp udp w = (r, w')" "active_bans now bans = Inr []"
  shows "r = Inr (BansApplied 0) \<and> tab w' = None \<or> (\<exists>e. r = Inr (BansFailed e)) \<and> tab w' = tab w"
proof -
  let ?list = "run_tool T [nft, ''list'', ''table'', ''inet'', table_name] [] w"
  let ?del = "run_tool T [nft, ''delete'', ''table'', ''inet'', table_name] [] (snd ?list)"
  note listed = nft_listing [OF nft(1)]
  have del: "tab (snd ?del) = (if fst (fst ?del) = 0 then None else tab w)"
    using nft(1) listed(1) by (simp add: nft_behaves_def)
  have "apply_bans T now bans tcp udp w =
      (if tab w \<noteq> None then (Inr (nft_failed (fst ?del) (BansApplied 0)), snd ?del) else (Inr (BansApplied 0), snd ?list))"
    using nft(2) listed(2) [of w] by (simp add: apply_bans_def run(2) bindE_def shell_run ret_def)
  with run(1) del listed(1) [of w] show ?thesis
    by (cases "tab w"; cases "fst (fst ?del) = 0") (auto simp: nft_failed_def)
qed

lemma some_bans_applied:
  assumes nft: "nft_behaves T nft tab" "which T ''nft'' = Some nft"
    and run: "apply_bans T now bans tcp udp w = (r, w')" "active_bans now bans = Inr active" "active \<noteq> []"
  shows "(\<exists>g. group_bans now active ([], []) = Inr g \<and> r = Inr (BansApplied (length active)) \<and> tab w' = Some (script_text g tcp udp)) \<or>
    ((\<exists>e. r = Inl e) \<or> (\<exists>e. r = Inr (BansFailed e))) \<and> tab w' = tab w"
proof (cases "group_bans now active ([], [])")
  case (Inl e)
  with nft(2) run(3) have "apply_bans T now bans tcp udp w =
      (Inl e, snd (run_tool T [nft, ''list'', ''table'', ''inet'', table_name] [] w))"
    by (simp add: apply_bans_def run(2) bindE_def shell_run ret_def ban_script_def liftE_def fail_def)
  with run(1) nft_listing(1) [OF nft(1), of w] show ?thesis by auto
next
  case (Inr g)
  let ?list = "run_tool T [nft, ''list'', ''table'', ''inet'', table_name] [] w"
  let ?s = "(if tab w \<noteq> None then ''delete table inet '' @ table_name @ nl else []) @ script_text g tcp udp"
  let ?load = "run_tool T [nft, ''-f'', ''-''] ?s (snd ?list)"
  note listed = nft_listing [OF nft(1), of w]
  have "ban_ruleset (script_text g tcp udp)" using Inr run(3) unfolding ban_ruleset_def by blast
  then have load: "tab (snd ?load) = (if fst (fst ?load) = 0 then Some (script_text g tcp udp) else tab w)"
    using nft(1) listed(1) by (cases "tab w") (simp_all add: nft_behaves_def)
  have "apply_bans T now bans tcp udp w = (Inr (nft_failed (fst ?load) (BansApplied (length active))), snd ?load)"
    using nft(2) run(3) listed(2)
    by (simp add: apply_bans_def run(2) bindE_def shell_run ret_def ban_script_def liftE_def Inr Let_def)
  with run(1) load Inr show ?thesis by (cases "fst (fst ?load) = 0") (auto simp: nft_failed_def)
qed

text \<open>
  C34: Applying the bans is all or nothing. When it reports success, exactly the bans that had not expired count as
  active and the table in the kernel is the ruleset of their groups (no table at all when none is active). When it
  reports a failure of nft, or a row cannot be read, the table is what it was before.
\<close>

theorem bans_all_or_nothing:
  assumes "nft_behaves T nft tab" "which T ''nft'' = Some nft" "apply_bans T now bans tcp udp w = (r, w')"
  shows "case r of
      Inr (BansApplied n) \<Rightarrow>
        (\<exists>active. active_bans now bans = Inr active \<and> n = length active \<and>
           (if active = [] then tab w' = None
            else \<exists>g. group_bans now active ([], []) = Inr g \<and> tab w' = Some (script_text g tcp udp)))
    | _ \<Rightarrow> tab w' = tab w"
proof (cases "active_bans now bans")
  case (Inl e)
  with assms(2) have "apply_bans T now bans tcp udp w = (Inl e, w)" by (simp add: apply_bans_def eff_simps)
  with assms(3) show ?thesis by auto
next
  case (Inr active)
  show ?thesis
  proof (cases "active = []")
    case True
    with no_bans_applied [OF assms] Inr show ?thesis by auto
  next
    case False
    from some_bans_applied [OF assms Inr False] Inr False show ?thesis by (elim disjE conjE exE) simp_all
  qed
qed

text \<open>An nft whose world is the text of the table.\<close>

definition demo_nft :: "string list \<Rightarrow> string \<Rightarrow> string option \<Rightarrow> (int \<times> string) \<times> string option" where
  "demo_nft argv input w =
     (if argv ! 1 = ''list'' then ((if w = None then 1 else 0, []), w)
      else if argv ! 1 = ''delete'' then (if w = None then ((1, ''no table''), w) else ((0, []), None))
      else
        let p = ''delete table inet '' @ table_name @ nl
        in if w = None then ((0, []), Some input)
           else if starts_with input p then ((0, []), Some (drop (length p) input))
           else ((1, ''exists''), w))"

definition demo_tools :: "string option tools" where
  "demo_tools = \<lparr>which = (\<lambda>name. Some (''/usr/sbin/'' @ name)), run_tool = demo_nft\<rparr>"

lemma demo_nft_behaves: "nft_behaves demo_tools nft id"
  by (simp add: nft_behaves_def demo_tools_def demo_nft_def Let_def)

theorem bans_all_or_nothing_witness:
  "\<exists>w'. apply_bans demo_tools demo_time demo_bans [443] [] None = (Inr (BansApplied 3), w') \<and>
     (\<exists>g. w' = Some (script_text g [443] []))"
proof -
  have active: "active_bans demo_time demo_bans = Inr demo_bans"
    by (simp add: demo_bans_def demo_rows demo_times demo_seconds)
  obtain r w' where run: "apply_bans demo_tools demo_time demo_bans [443] [] None = (r, w')" by fastforce
  have "demo_bans \<noteq> []" "length demo_bans = 3" by (simp_all add: demo_bans_def)
  then have "apply_bans demo_tools demo_time demo_bans [443] [] None =
      (Inr (BansApplied 3), Some (script_text ([(''9.9.9.9'', 600)], [(''2001:db8::1'', 60)]) [443] []))"
    by (simp add: apply_bans_def demo_tools_def active bindE_def shell_run ret_def demo_nft_def Let_def
        ban_script_def demo_groups liftE_def nft_failed_def)
  with run have r: "r = Inr (BansApplied 3)" by simp
  have "which demo_tools ''nft'' = Some ''/usr/sbin/nft''" by (simp add: demo_tools_def)
  from bans_all_or_nothing [OF demo_nft_behaves this run] r \<open>demo_bans \<noteq> []\<close> active run show ?thesis
    by auto
qed

end
