(* ===== verification/Config.thy ===== *)
theory Config
  imports Files
begin

text \<open>
  \<^verbatim>\<open>node_agent/config.py\<close>: the agent's configuration, read from the environment and validated. The environment is
  a dictionary of strings; an error is the text of the \<^verbatim>\<open>ValueError\<close>.
\<close>

type_synonym environ = "(string, string) dict"

definition agent_name :: string where
  "agent_name = ''zagros-node''"

definition agent_version :: string where
  "agent_version = ''0.3.3''"

definition api_version :: int where
  "api_version = 1"

definition default_port :: int where
  "default_port = 62050"

definition default_api_port :: int where
  "default_api_port = 62051"

definition node_core_allowlist :: "string list" where
  "node_core_allowlist =
     [''xray'', ''sing-box'', ''openvpn'', ''wireguard'', ''ssh'', ''softether'', ''pptp'']"

definition env_get :: "environ \<Rightarrow> string \<Rightarrow> string \<Rightarrow> string" where
  "env_get env name d = (case dget env name of None \<Rightarrow> d | Some v \<Rightarrow> v)"

definition env_int :: "environ \<Rightarrow> string \<Rightarrow> int \<Rightarrow> string + int" where
  "env_int env name d =
     (let raw = env_get env name [] in
      if raw = [] then Inr d
      else (case py_int_of_str raw of
              None \<Rightarrow> Inl (name @ '' must be an integer, got '' @ py_repr_str raw)
            | Some i \<Rightarrow> Inr i))"

definition env_bool :: "environ \<Rightarrow> string \<Rightarrow> bool \<Rightarrow> bool" where
  "env_bool env name d =
     (let raw = env_get env name [] in
      if raw = [] then d
      else py_lower (py_strip raw) \<in> {''1'', ''true'', ''yes'', ''on''})"

record node_config =
  data_dir :: string
  host :: string
  port :: int
  api_port :: int
  info_bind :: string
  tls_cert :: string
  tls_key :: string
  registration_hash :: string
  cfg_name :: string
  address :: string
  image :: string
  allow_insecure_test :: bool

definition cfg_root :: "node_config \<Rightarrow> path" where
  "cfg_root c = path_of (data_dir c)"

definition tls_dir :: "node_config \<Rightarrow> path" where
  "tls_dir c = path_join (cfg_root c) ''tls''"

definition cores_dir :: "node_config \<Rightarrow> path" where
  "cores_dir c = path_of ''/var/lib/zagros/cores''"

definition validate :: "node_config \<Rightarrow> string + unit" where
  "validate c =
     (if \<not> (1 \<le> port c \<and> port c \<le> 65535)
      then Inl (''ZAGROS_NODE_PORT out of range: '' @ str_of_int (port c))
      else if \<not> (1 \<le> api_port c \<and> api_port c \<le> 65535)
      then Inl (''ZAGROS_NODE_API_PORT out of range: '' @ str_of_int (api_port c))
      else if port c = api_port c
      then Inl (''ZAGROS_NODE_PORT and ZAGROS_NODE_API_PORT must differ (both are '' @
             str_of_int (port c) @ '')'')
      else if registration_hash c \<noteq> [] \<and> length (registration_hash c) \<noteq> 64
      then Inl ''ZAGROS_NODE_REGISTRATION_HASH must be a 64-char hex sha256''
      else Inr ())"

definition tls_file :: "string \<Rightarrow> string \<Rightarrow> string" where
  "tls_file dir file = path_text (path_join (path_join (path_of dir) ''tls'') file)"

definition from_env :: "environ \<Rightarrow> string + node_config" where
  "from_env env =
     (let dir = env_get env ''ZAGROS_NODE_DATA'' ''/var/lib/zagros/node'' in
      bindR (env_int env ''ZAGROS_NODE_PORT'' default_port) (\<lambda>p.
      bindR (env_int env ''ZAGROS_NODE_API_PORT'' default_api_port) (\<lambda>ap.
      let c = \<lparr>data_dir = dir,
               host = env_get env ''ZAGROS_NODE_HOST'' ''0.0.0.0'',
               port = p, api_port = ap,
               info_bind = env_get env ''ZAGROS_NODE_INFO_BIND'' ''0.0.0.0'',
               tls_cert = env_get env ''ZAGROS_NODE_TLS_CERT'' (tls_file dir ''node.crt''),
               tls_key = env_get env ''ZAGROS_NODE_TLS_KEY'' (tls_file dir ''node.key''),
               registration_hash = py_lower (py_strip (env_get env ''ZAGROS_NODE_REGISTRATION_HASH'' [])),
               cfg_name = py_strip (env_get env ''ZAGROS_NODE_NAME'' []),
               address = py_strip (env_get env ''ZAGROS_NODE_ADDRESS'' []),
               image = env_get env ''ZAGROS_NODE_IMAGE'' ''ghcr.io/zagrosgm/zagros-node:latest'',
               allow_insecure_test = env_bool env ''ZAGROS_NODE_ALLOW_INSECURE_TEST'' False\<rparr>
      in bindR (validate c) (\<lambda>_. Inr c))))"

section \<open>Valid configurations\<close>

definition config_ok :: "node_config \<Rightarrow> bool" where
  "config_ok c \<longleftrightarrow> 1 \<le> port c \<and> port c \<le> 65535 \<and> 1 \<le> api_port c \<and> api_port c \<le> 65535 \<and>
     port c \<noteq> api_port c \<and> length (registration_hash c) \<in> {0, 64}"

lemma validate_iff: "validate c = Inr () \<longleftrightarrow> config_ok c"
  by (auto simp: validate_def config_ok_def)

lemma env_int_text: "env_int env name d = Inr i \<longleftrightarrow>
   (if env_get env name [] = [] then i = d else py_int_of_str (env_get env name []) = Some i)"
  by (auto simp: env_int_def Let_def split: option.splits)

lemma allowlist_distinct: "distinct node_core_allowlist"
  by (simp add: node_core_allowlist_def)

definition env_hash :: "environ \<Rightarrow> string" where
  "env_hash env = py_lower (py_strip (env_get env ''ZAGROS_NODE_REGISTRATION_HASH'' []))"

text \<open>
  C39: The agent starts from an environment exactly when both port variables are unset, empty or integers, the two ports
  lie in 1..65535 and differ, and the registration hash, stripped and lowercased, is empty or 64 characters long; the
  configuration then carries these ports and this hash. (Only the length of the hash is checked, not that it is hex.)
\<close>

theorem from_env_iff:
  "((\<exists>c. from_env env = Inr c) \<longleftrightarrow>
     (\<exists>p ap. env_int env ''ZAGROS_NODE_PORT'' 62050 = Inr p \<and> env_int env ''ZAGROS_NODE_API_PORT'' 62051 = Inr ap \<and>
        1 \<le> p \<and> p \<le> 65535 \<and> 1 \<le> ap \<and> ap \<le> 65535 \<and> p \<noteq> ap \<and> length (env_hash env) \<in> {0, 64})) \<and>
   (\<forall>c. from_env env = Inr c \<longrightarrow>
     env_int env ''ZAGROS_NODE_PORT'' 62050 = Inr (port c) \<and>
     env_int env ''ZAGROS_NODE_API_PORT'' 62051 = Inr (api_port c) \<and> registration_hash c = env_hash env)"
proof -
  have run: "env_int env ''ZAGROS_NODE_PORT'' 62050 = Inr (port c) \<and>
      env_int env ''ZAGROS_NODE_API_PORT'' 62051 = Inr (api_port c) \<and> registration_hash c = env_hash env \<and>
      config_ok c" if "from_env env = Inr c" for c
    using that validate_iff [of c]
    by (auto simp: from_env_def Let_def bindR_Inr_conv default_port_def default_api_port_def env_hash_def)
  have starts: "\<exists>c. from_env env = Inr c"
    if "env_int env ''ZAGROS_NODE_PORT'' 62050 = Inr p" "env_int env ''ZAGROS_NODE_API_PORT'' 62051 = Inr ap"
      "1 \<le> p" "p \<le> 65535" "1 \<le> ap" "ap \<le> 65535" "p \<noteq> ap" "length (env_hash env) \<in> {0, 64}" for p ap
    using that
    by (auto simp: from_env_def Let_def bindR_Inr_conv default_port_def default_api_port_def env_hash_def
        validate_def)
  show ?thesis
  proof (intro conjI allI impI)
    show "(\<exists>c. from_env env = Inr c) \<longleftrightarrow>
       (\<exists>p ap. env_int env ''ZAGROS_NODE_PORT'' 62050 = Inr p \<and> env_int env ''ZAGROS_NODE_API_PORT'' 62051 = Inr ap \<and>
          1 \<le> p \<and> p \<le> 65535 \<and> 1 \<le> ap \<and> ap \<le> 65535 \<and> p \<noteq> ap \<and> length (env_hash env) \<in> {0, 64})"
      (is "_ \<longleftrightarrow> ?valid")
    proof
      assume "\<exists>c. from_env env = Inr c"
      then obtain c where "from_env env = Inr c" ..
      note r = run [OF this]
      then have "length (env_hash env) \<in> {0, 64}" unfolding config_ok_def by metis
      with r show ?valid unfolding config_ok_def by iprover
    next
      assume ?valid
      then show "\<exists>c. from_env env = Inr c" using starts by iprover
    qed
  qed (use run in \<open>iprover+\<close>)
qed

definition demo_env :: environ where
  "demo_env = [(''ZAGROS_NODE_PORT'', '' 443 ''), (''ZAGROS_NODE_NAME'', ''edge-1'')]"

theorem from_env_iff_witness:
  "\<exists>c. from_env demo_env = Inr c \<and> port c = 443 \<and> api_port c = 62051"
proof -
  have ports: "env_int demo_env ''ZAGROS_NODE_PORT'' 62050 = Inr 443"
      "env_int demo_env ''ZAGROS_NODE_API_PORT'' 62051 = Inr 62051"
    by code_simp+
  have hash: "env_hash demo_env = []" by code_simp
  have "\<exists>p ap. env_int demo_env ''ZAGROS_NODE_PORT'' 62050 = Inr p \<and>
      env_int demo_env ''ZAGROS_NODE_API_PORT'' 62051 = Inr ap \<and>
      1 \<le> p \<and> p \<le> 65535 \<and> 1 \<le> ap \<and> ap \<le> 65535 \<and> p \<noteq> ap \<and> length (env_hash demo_env) \<in> {0, 64}"
    unfolding ports hash by simp
  then obtain c where c: "from_env demo_env = Inr c"
    using from_env_iff [THEN conjunct1, of demo_env, THEN iffD2] by blast
  with from_env_iff [THEN conjunct2, of demo_env] have
    "Inr 443 = (Inr (port c) :: string + int)" "Inr 62051 = (Inr (api_port c) :: string + int)"
    unfolding ports by metis+
  with c show ?thesis by simp
qed

end
