(* ===== verification/Tls.thy ===== *)
theory Tls
  imports Core_Types Config Ip_Address Sha256
begin

text \<open>
  \<^verbatim>\<open>node_agent/tls.py\<close>: the node's certificate, self-signed at the first boot. The \<^verbatim>\<open>cryptography\<close> package is a
  parameter (\<open>x509\<close>): building and printing a certificate, reading one, its fields. The disk holds the two files
  of the configured paths; file modes are not modelled.
\<close>

datatype general_name = DNSName string | IPAddress ip_addr | OtherName string

record node_certificate =
  nc_cert_path :: string
  nc_key_path :: string
  nc_fingerprint :: string
  nc_not_after :: string
  nc_sans :: "string list"

record ('c, 'k) x509 =
  x_dns_name :: "string \<Rightarrow> core_exc + unit"
  x_build :: "general_name list \<Rightarrow> 'k \<Rightarrow> int \<Rightarrow> int \<Rightarrow> 'c"
  x_pem :: "'c \<Rightarrow> string"
  x_load :: "string \<Rightarrow> core_exc + 'c"
  x_digest :: "'c \<Rightarrow> bytes"
  x_not_after :: "'c \<Rightarrow> string"
  x_sans :: "'c \<Rightarrow> general_name list option"
  x_key_pem :: "'k \<Rightarrow> string"

record tls_disk =
  cert_on_disk :: "string option"
  key_on_disk :: "string option"

definition default_validity_days :: int where
  "default_validity_days = 3650"

definition cert_fingerprint :: "('c, 'k) x509 \<Rightarrow> 'c \<Rightarrow> string" where
  "cert_fingerprint X c = to_hex (x_digest X c)"

definition fingerprint_of_pem :: "('c, 'k) x509 \<Rightarrow> string \<Rightarrow> core_exc + string" where
  "fingerprint_of_pem X pem = bindR (x_load X pem) (\<lambda>c. Inr (cert_fingerprint X c))"

definition tls_sha256_hex :: "string \<Rightarrow> string" where
  "tls_sha256_hex v = sha256_hex (utf8_encode v)"

section \<open>Subject alternative names\<close>

fun san_entries :: "('c, 'k) x509 \<Rightarrow> string list \<Rightarrow> core_exc + general_name list" where
  "san_entries X [] = Inr []"
| "san_entries X (raw # names) =
     (let v = py_strip raw in
      if v = [] then san_entries X names
      else
        bindR (case ip_address v of
                 Some a \<Rightarrow> Inr (IPAddress a)
               | None \<Rightarrow> bindR (x_dns_name X v) (\<lambda>_. Inr (DNSName v))) (\<lambda>entry.
        bindR (san_entries X names) (\<lambda>entries. Inr (entry # entries))))"

definition guaranteed_names :: "string list" where
  "guaranteed_names = [''localhost'', ''127.0.0.1'', ''::1'']"

fun add_guaranteed :: "('c, 'k) x509 \<Rightarrow> string list \<Rightarrow> general_name list \<Rightarrow> core_exc + general_name list" where
  "add_guaranteed X [] sans = Inr sans"
| "add_guaranteed X (g # gs) sans =
     bindR (san_entries X [g]) (\<lambda>entries.
     add_guaranteed X gs
       (case entries of [] \<Rightarrow> sans | entry # _ \<Rightarrow> if entry \<in> set sans then sans else entry # sans))"

definition general_name_text :: "general_name \<Rightarrow> string" where
  "general_name_text n = (case n of DNSName v \<Rightarrow> v | IPAddress a \<Rightarrow> ip_text a | OtherName v \<Rightarrow> v)"

definition describe_sans :: "('c, 'k) x509 \<Rightarrow> 'c \<Rightarrow> string list" where
  "describe_sans X c = (case x_sans X c of None \<Rightarrow> [] | Some ns \<Rightarrow> map general_name_text ns)"

section \<open>Making and keeping a certificate\<close>

definition write_key :: "('c, 'k) x509 \<Rightarrow> 'k \<Rightarrow> tls_disk \<Rightarrow> tls_disk" where
  "write_key X key d = d\<lparr>key_on_disk := Some (x_key_pem X key)\<rparr>"

definition write_cert :: "('c, 'k) x509 \<Rightarrow> 'c \<Rightarrow> tls_disk \<Rightarrow> tls_disk" where
  "write_cert X c d = d\<lparr>cert_on_disk := Some (x_pem X c)\<rparr>"

definition new_certificate ::
  "('c, 'k) x509 \<Rightarrow> string list \<Rightarrow> 'k \<Rightarrow> int \<Rightarrow> int \<Rightarrow> core_exc + general_name list \<times> 'c" where
  "new_certificate X names key now days =
     bindR (san_entries X names) (\<lambda>entries.
     bindR (add_guaranteed X guaranteed_names entries) (\<lambda>sans.
     Inr (sans, x_build X sans key (now - 300) (now + days * 86400))))"

definition generate ::
  "('c, 'k) x509 \<Rightarrow> string \<Rightarrow> string \<Rightarrow> string list \<Rightarrow> int \<Rightarrow> 'k \<Rightarrow> int \<Rightarrow>
   (tls_disk, core_exc, node_certificate) eff" where
  "generate X cert_path key_path names days key now =
     bindE (liftE (new_certificate X names key now days)) (\<lambda>(sans, c).
     seqE (modE (write_key X key))
    (seqE (modE (write_cert X c))
       (ret \<lparr>nc_cert_path = cert_path, nc_key_path = key_path, nc_fingerprint = cert_fingerprint X c,
             nc_not_after = x_not_after X c, nc_sans = map general_name_text sans\<rparr>)))"

text \<open>\<^verbatim>\<open>detect_primary_ip\<close>: what the UDP socket says, nothing when connecting raises.\<close>

definition detect_primary_ip :: "core_exc + string \<Rightarrow> string option" where
  "detect_primary_ip sock = (case sock of Inl _ \<Rightarrow> None | Inr a \<Rightarrow> Some a)"

definition san_names :: "node_config \<Rightarrow> string option \<Rightarrow> string list" where
  "san_names cfg detected =
     (if cfg_name cfg \<noteq> [] then [cfg_name cfg] else []) @
     filter (\<lambda>p. p \<noteq> []) (map py_strip (py_split CHR '','' (address cfg))) @
     (case detected of Some a \<Rightarrow> if a \<noteq> [] then [a] else [] | None \<Rightarrow> [])"

definition existing_certificate ::
  "('c, 'k) x509 \<Rightarrow> string \<Rightarrow> string \<Rightarrow> string \<Rightarrow> core_exc + node_certificate" where
  "existing_certificate X cert_path key_path pem =
     bindR (x_load X pem) (\<lambda>c.
     bindR (fingerprint_of_pem X pem) (\<lambda>fp. Inr
       \<lparr>nc_cert_path = cert_path, nc_key_path = key_path, nc_fingerprint = fp,
        nc_not_after = x_not_after X c, nc_sans = describe_sans X c\<rparr>))"

definition ensure ::
  "('c, 'k) x509 \<Rightarrow> node_config \<Rightarrow> core_exc + string \<Rightarrow> 'k \<Rightarrow> int \<Rightarrow> (tls_disk, core_exc, node_certificate) eff" where
  "ensure X cfg sock key now =
     (let cert_path = path_text (path_of (tls_cert cfg)); key_path = path_text (path_of (tls_key cfg)) in
      bindE (getE (\<lambda>d. (cert_on_disk d, key_on_disk d))) (\<lambda>files.
      case files of
        (Some pem, Some _) \<Rightarrow> liftE (existing_certificate X cert_path key_path pem)
      | _ \<Rightarrow> generate X cert_path key_path (san_names cfg (detect_primary_ip sock)) default_validity_days key now))"

section \<open>A certificate is made once\<close>

text \<open>
  What the agent relies on of the package: reading back a printed certificate gives it, a built one has the names it
  was built with, except that an IPv6 address is stored without its zone, and ASCII names are accepted.
\<close>

definition unscoped :: "general_name \<Rightarrow> general_name" where
  "unscoped n = (case n of IPAddress (V6 a _) \<Rightarrow> IPAddress (V6 a None) | _ \<Rightarrow> n)"

definition x509_ok :: "('c, 'k) x509 \<Rightarrow> bool" where
  "x509_ok X \<longleftrightarrow> (\<forall>c. x_load X (x_pem X c) = Inr c) \<and>
     (\<forall>sans key a b. x_sans X (x_build X sans key a b) = Some (map unscoped sans)) \<and>
     (\<forall>v. list_all is_ascii v \<longrightarrow> x_dns_name X v = Inr ())"

definition san_of :: "string \<Rightarrow> general_name" where
  "san_of v = (case ip_address v of Some a \<Rightarrow> IPAddress a | None \<Rightarrow> DNSName v)"

lemma unscoped_plain: "CHR 0x25 \<notin> set v \<Longrightarrow> unscoped (san_of v) = san_of v"
  by (auto simp: unscoped_def san_of_def ip_address_def parse_v6_def split_scope_def py_split_no_sep
      split: option.splits)

lemma san_entries_spec:
  "san_entries X names = Inr entries \<Longrightarrow>
   entries = map san_of (filter (\<lambda>v. v \<noteq> []) (map py_strip names))"
proof (induction names arbitrary: entries)
  case (Cons raw names)
  show ?case
  proof (cases "py_strip raw = []")
    case True
    with Cons show ?thesis by simp
  next
    case False
    with Cons.prems obtain e es where e: "entries = e # es" "san_entries X names = Inr es"
      and "(case ip_address (py_strip raw) of Some a \<Rightarrow> Inr (IPAddress a)
          | None \<Rightarrow> bindR (x_dns_name X (py_strip raw)) (\<lambda>_. Inr (DNSName (py_strip raw)))) = Inr e"
      by (auto simp: Let_def bindR_Inr_conv)
    then have "e = san_of (py_strip raw)" by (auto simp: san_of_def bindR_Inr_conv split: option.splits)
    with e Cons.IH False show ?thesis by auto
  qed
qed simp

lemma san_entries_ascii:
  "x509_ok X \<Longrightarrow> \<forall>n \<in> set names. list_all is_ascii n \<Longrightarrow> \<exists>entries. san_entries X names = Inr entries"
proof (induction names)
  case (Cons raw names)
  have "set (py_strip raw) \<subseteq> set raw"
    unfolding py_strip_def by (metis set_dropWhileD set_rev subsetI)
  with Cons.prems have "list_all is_ascii (py_strip raw)" by (auto simp: list_all_iff)
  with Cons show ?case by (auto simp: Let_def x509_ok_def split: option.splits)
qed simp

lemma add_guaranteed_set:
  "add_guaranteed X gs sans = Inr out \<Longrightarrow> \<forall>g \<in> set gs. py_strip g = g \<and> g \<noteq> [] \<Longrightarrow>
   set out = set sans \<union> san_of ` set gs"
proof (induction gs arbitrary: sans)
  case (Cons g gs)
  then obtain entries where e: "san_entries X [g] = Inr entries" by (auto simp del: san_entries.simps simp: bindR_Inr_conv)
  have "entries = [san_of g]" using san_entries_spec [OF e] Cons.prems(2) by simp
  with Cons.prems(1) e have "add_guaranteed X gs (if san_of g \<in> set sans then sans else san_of g # sans) = Inr out"
    by (simp del: san_entries.simps)
  from Cons.IH [OF this] Cons.prems(2) show ?case by (auto split: if_splits)
qed simp

lemma guaranteed_strip: "\<forall>g \<in> set guaranteed_names. py_strip g = g \<and> g \<noteq> []"
  by (simp add: guaranteed_names_def py_strip_def space_char_def)

lemma add_guaranteed_ascii:
  "x509_ok X \<Longrightarrow> \<forall>g \<in> set gs. list_all is_ascii g \<Longrightarrow> \<exists>sans'. add_guaranteed X gs sans = Inr sans'"
proof (induction gs arbitrary: sans)
  case (Cons g gs)
  then obtain entries where "san_entries X [g] = Inr entries" using san_entries_ascii [of X "[g]"] by auto
  with Cons show ?case by (simp del: san_entries.simps)
qed simp

lemma ensure_fresh:
  assumes "cert_on_disk d = None \<or> key_on_disk d = None"
  shows "ensure X cfg sock key now d =
    generate X (path_text (path_of (tls_cert cfg))) (path_text (path_of (tls_key cfg)))
      (san_names cfg (detect_primary_ip sock)) default_validity_days key now d"
  using assms by (cases "cert_on_disk d") (auto simp: ensure_def Let_def split: option.splits)

lemma generate_Inr:
  assumes "generate X cp kp names days key now d = (Inr c, d')"
  obtains sans x where "new_certificate X names key now days = Inr (sans, x)"
    "d' = write_cert X x (write_key X key d)"
    "c = \<lparr>nc_cert_path = cp, nc_key_path = kp, nc_fingerprint = cert_fingerprint X x,
          nc_not_after = x_not_after X x, nc_sans = map general_name_text sans\<rparr>"
  using assms by (auto simp: generate_def eff_simps bindE_def split: sum.splits prod.splits)

lemma first_boot_returns:
  assumes "x509_ok X" "cert_on_disk d = None \<or> key_on_disk d = None"
    and "\<forall>n \<in> set (san_names cfg (detect_primary_ip sock)). list_all is_ascii n"
  shows "\<exists>c d'. ensure X cfg sock key now d = (Inr c, d')"
proof -
  obtain entries where e: "san_entries X (san_names cfg (detect_primary_ip sock)) = Inr entries"
    using san_entries_ascii [OF assms(1,3)] by blast
  have "\<forall>g \<in> set guaranteed_names. list_all is_ascii g" by (simp add: guaranteed_names_def is_ascii_def)
  from add_guaranteed_ascii [OF assms(1) this]
  obtain sans where "add_guaranteed X guaranteed_names entries = Inr sans" by blast
  with e show ?thesis
    unfolding ensure_fresh [OF assms(2)] by (simp add: generate_def new_certificate_def ret_def)
qed

text \<open>
  C36: A node's certificate is made once: after a first boot that made one, every later boot returns the same
  certificate (path, fingerprint and expiry, and the same names, but for the zones of scoped IPv6 addresses, which a
  certificate does not store) and leaves the disk alone, so the fingerprint the panel pins does not change. Its names are
  the configured name, the configured and the detected addresses, and always the loopback names.
\<close>

theorem certificate_made_once:
  assumes "x509_ok X" "cert_on_disk d = None \<or> key_on_disk d = None"
    and "ensure X cfg sock key now d = (Inr c, d')"
  shows "set (nc_sans c) = (\<lambda>v. general_name_text (san_of v)) `
      (set (filter (\<lambda>v. v \<noteq> []) (map py_strip (san_names cfg (detect_primary_ip sock)))) \<union> set guaranteed_names) \<and>
    (\<exists>sans. nc_sans c = map general_name_text sans \<and>
       ensure X cfg sock' key' now' d' = (Inr (c\<lparr>nc_sans := map (general_name_text \<circ> unscoped) sans\<rparr>), d')) \<and>
    ((\<forall>v \<in> set (map py_strip (san_names cfg (detect_primary_ip sock))). unscoped (san_of v) = san_of v) \<longrightarrow>
       ensure X cfg sock' key' now' d' = (Inr c, d'))"
proof -
  let ?names = "set (filter (\<lambda>v. v \<noteq> []) (map py_strip (san_names cfg (detect_primary_ip sock)))) \<union> set guaranteed_names"
  from assms(3) [unfolded ensure_fresh [OF assms(2)]] obtain sans x where
    new: "new_certificate X (san_names cfg (detect_primary_ip sock)) key now default_validity_days = Inr (sans, x)"
    and d': "d' = write_cert X x (write_key X key d)"
    and c: "c = \<lparr>nc_cert_path = path_text (path_of (tls_cert cfg)), nc_key_path = path_text (path_of (tls_key cfg)),
        nc_fingerprint = cert_fingerprint X x, nc_not_after = x_not_after X x, nc_sans = map general_name_text sans\<rparr>"
    by (rule generate_Inr)
  from new obtain entries where e: "san_entries X (san_names cfg (detect_primary_ip sock)) = Inr entries"
    and g: "add_guaranteed X guaranteed_names entries = Inr sans"
    and x: "x = x_build X sans key (now - 300) (now + default_validity_days * 86400)"
    by (auto simp: new_certificate_def bindR_Inr_conv)
  have names: "set sans = san_of ` ?names"
    using add_guaranteed_set [OF g guaranteed_strip] san_entries_spec [OF e] by (simp add: image_Un)
  have "x_load X (x_pem X x) = Inr x" "x_sans X x = Some (map unscoped sans)" using assms(1) by (auto simp: x509_ok_def x)
  then have again: "ensure X cfg sock' key' now' d' = (Inr (c\<lparr>nc_sans := map (general_name_text \<circ> unscoped) sans\<rparr>), d')"
    by (simp add: ensure_def d' write_cert_def write_key_def existing_certificate_def fingerprint_of_pem_def
        describe_sans_def c Let_def liftE_def)
  have "map (general_name_text \<circ> unscoped) sans = nc_sans c"
    if "\<forall>v \<in> set (map py_strip (san_names cfg (detect_primary_ip sock))). unscoped (san_of v) = san_of v"
  proof -
    have "unscoped (san_of v) = san_of v" if "v \<in> set guaranteed_names" for v
      using that by (auto simp: guaranteed_names_def intro!: unscoped_plain)
    with that have "\<forall>n \<in> set sans. unscoped n = n" unfolding names by auto
    then show ?thesis by (simp add: c)
  qed
  then show ?thesis using again by (auto simp: names c image_image)
qed

text \<open>
  The pair is not replaced atomically: when one of the two files was missing and the process stops between the two
  writes, the next boot finds both files, accepts them without comparing, and serves the old certificate with the new
  key; no later boot repairs it.
\<close>

theorem crash_mismatches_pair:
  assumes "x509_ok X" "cert_on_disk d = Some (x_pem X old)" "key_on_disk d = None"
  shows "\<exists>c. ensure X cfg sock key' now' (write_key X key d) = (Inr c, write_key X key d) \<and>
    nc_fingerprint c = cert_fingerprint X old \<and> key_on_disk (write_key X key d) = Some (x_key_pem X key)"
  using assms by (simp add: ensure_def write_key_def existing_certificate_def fingerprint_of_pem_def Let_def liftE_def
      x509_ok_def)

section \<open>A package to test with\<close>

text \<open>A package whose certificates are texts that list the names, so that what is printed reads back.\<close>

definition name_fields :: "general_name \<Rightarrow> string list" where
  "name_fields g = (case g of DNSName v \<Rightarrow> [''D'', v, []]
     | IPAddress (V4 n) \<Rightarrow> [''4'', str_of_nat n, []]
     | IPAddress (V6 n None) \<Rightarrow> [''6'', str_of_nat n, []]
     | IPAddress (V6 n (Some z)) \<Rightarrow> [''Z'', str_of_nat n, z]
     | OtherName v \<Rightarrow> [''O'', v, []])"

definition fields_name :: "string \<Rightarrow> string \<Rightarrow> string \<Rightarrow> general_name" where
  "fields_name t a b =
     (if t = ''D'' then DNSName a else if t = ''4'' then IPAddress (V4 (nat_of_digits a))
      else if t = ''6'' then IPAddress (V6 (nat_of_digits a) None)
      else if t = ''Z'' then IPAddress (V6 (nat_of_digits a) (Some b)) else OtherName a)"

fun names_of :: "string list \<Rightarrow> general_name list" where
  "names_of (t # a # b # fs) = fields_name t a b # names_of fs"
| "names_of _ = []"

fun fields_text :: "string list \<Rightarrow> string" where
  "fields_text [] = []"
| "fields_text ([] # fs) = CHR ''.'' # fields_text fs"
| "fields_text ((c # cs) # fs) = CHR ''+'' # c # fields_text (cs # fs)"

fun text_fields :: "string \<Rightarrow> string \<Rightarrow> string list" where
  "text_fields acc (CHR ''+'' # c # s) = text_fields (acc @ [c]) s"
| "text_fields acc (d # s) = acc # text_fields [] s"
| "text_fields acc [] = []"

lemma text_fields_text: "text_fields acc (fields_text (f # fs)) = (acc @ f) # text_fields [] (fields_text fs)"
  by (induction f arbitrary: acc) simp_all

lemma names_of_text: "names_of (text_fields [] (fields_text (concat (map name_fields ns)))) = ns"
proof (induction ns)
  case (Cons n ns)
  have "\<exists>t a b. name_fields n = [t, a, b] \<and> fields_name t a b = n"
  proof (cases n)
    case (IPAddress a)
    then show ?thesis
      by (cases a; cases "case a of V4 _ \<Rightarrow> None | V6 _ z \<Rightarrow> z")
        (auto simp: name_fields_def fields_name_def nat_of_digits_str)
  qed (auto simp: name_fields_def fields_name_def)
  then obtain t a b where f: "name_fields n = [t, a, b]" "fields_name t a b = n" by blast
  then show ?case using Cons by (simp add: text_fields_text)
qed simp

definition demo_x509 :: "(string, nat) x509" where
  "demo_x509 = \<lparr>x_dns_name = (\<lambda>v. if list_all is_ascii v then Inr () else Inl (OtherError ''ValueError'' [])),
     x_build = (\<lambda>sans key a b. fields_text (concat (map (name_fields \<circ> unscoped) sans))), x_pem = (\<lambda>c. c), x_load = Inr,
     x_digest = (\<lambda>c. [1, 2]), x_not_after = (\<lambda>c. ''2036-01-01T00:00:00+00:00''),
     x_sans = (\<lambda>c. Some (names_of (text_fields [] c))), x_key_pem = str_of_nat\<rparr>"

lemma demo_x509_ok: "x509_ok demo_x509"
  using names_of_text [of "map unscoped _"] by (simp add: x509_ok_def demo_x509_def)

definition demo_cfg :: node_config where
  "demo_cfg = \<lparr>data_dir = ''/d'', host = ''0.0.0.0'', port = 62050, api_port = 62051, info_bind = ''0.0.0.0'',
     tls_cert = ''/d/tls/node.crt'', tls_key = ''/d/tls/node.key'', registration_hash = [], cfg_name = ''edge-1'',
     address = [], image = [], allow_insecure_test = False\<rparr>"

definition demo_disk :: tls_disk where
  "demo_disk = \<lparr>cert_on_disk = None, key_on_disk = None\<rparr>"

lemma demo_first_boot: "\<exists>c d. ensure demo_x509 demo_cfg (Inl (OtherError ''OSError'' [])) 7 1000 demo_disk = (Inr c, d)"
  by (rule first_boot_returns [OF demo_x509_ok])
    (simp_all add: demo_disk_def demo_cfg_def san_names_def detect_primary_ip_def is_ascii_def py_strip_def)

theorem certificate_made_once_witness:
  "\<exists>c d. ensure demo_x509 demo_cfg (Inl (OtherError ''OSError'' [])) 7 1000 demo_disk = (Inr c, d) \<and>
     ensure demo_x509 demo_cfg (Inr ''192.0.2.7'') 8 9000 d = (Inr c, d)"
proof -
  obtain c d where boot: "ensure demo_x509 demo_cfg (Inl (OtherError ''OSError'' [])) 7 1000 demo_disk = (Inr c, d)"
    using demo_first_boot by blast
  have "cert_on_disk demo_disk = None \<or> key_on_disk demo_disk = None" by (simp add: demo_disk_def)
  moreover have "unscoped (san_of ''edge-1'') = san_of ''edge-1''" by (simp add: unscoped_plain)
  ultimately show ?thesis
    using certificate_made_once [OF demo_x509_ok _ boot] boot
    by (simp add: demo_cfg_def san_names_def detect_primary_ip_def py_strip_def space_char_def)
qed

theorem crash_mismatches_pair_witness:
  "\<exists>c. ensure demo_x509 demo_cfg (Inr ''192.0.2.7'') 8 9000
     (write_key demo_x509 9 \<lparr>cert_on_disk = Some ''D'', key_on_disk = None\<rparr>) =
       (Inr c, write_key demo_x509 9 \<lparr>cert_on_disk = Some ''D'', key_on_disk = None\<rparr>) \<and>
     nc_fingerprint c = ''0102'' \<and>
     key_on_disk (write_key demo_x509 9 \<lparr>cert_on_disk = Some ''D'', key_on_disk = None\<rparr>) = Some ''9''"
proof -
  have "cert_fingerprint demo_x509 ''D'' = ''0102''"
    by (simp add: cert_fingerprint_def demo_x509_def to_hex_def hex_of_byte_def hex_digit_def char_of_eq_iff)
  moreover have "x_pem demo_x509 ''D'' = ''D''" "x_key_pem demo_x509 9 = ''9''"
    by (simp_all add: demo_x509_def str_of_nat.simps digit_char_def char_of_eq_iff)
  ultimately show ?thesis
    using crash_mismatches_pair [OF demo_x509_ok, of "\<lparr>cert_on_disk = Some ''D'', key_on_disk = None\<rparr>" "''D''"
        demo_cfg "Inr ''192.0.2.7''" 8 9000 9]
    by simp
qed

end
