(* ===== verification/Limits.thy ===== *)
theory Limits
  imports Manager Ip_Address Files Config
begin

text \<open>
  \<^verbatim>\<open>node_agent/limits.py\<close>: the panel's speed limits on this host. The limiter keeps the pushed limits (a JSON
  object) and their file, and resolves them to addresses and user ids through the drivers. What installs the rules
  (\<^verbatim>\<open>BandwidthLimiter.reconcile\<close>) is a parameter: an operation on a host state, given the resolved limits. Numbers
  with a fraction are outside the JSON model.
\<close>

record user_limit =
  ul_user_id :: int
  ul_username :: string
  ul_upload_mbps :: int
  ul_download_mbps :: int
  ul_inner_sources :: "string list"
  ul_ssh_uids :: "int list"
  ul_softether_accounts :: "string list"

datatype json_file = NoFile | Unreadable | Content string

record limiter =
  lm_interface :: string
  lm_limits :: jobj
  lm_last_error :: "string option"
  lm_file :: json_file
  lm_disk_full :: bool

section \<open>The interface of the default route\<close>

text \<open>\<^verbatim>\<open>str.splitlines\<close> on line feeds and \<^verbatim>\<open>str.split()\<close>.\<close>

definition py_lines :: "string \<Rightarrow> string list" where
  "py_lines s = (let ls = py_split CHR 0x0A s in if last ls = [] then butlast ls else ls)"

fun py_words_from :: "string \<Rightarrow> string \<Rightarrow> string list" where
  "py_words_from w [] = (if w = [] then [] else [w])"
| "py_words_from w (c # cs) =
     (if space_char c then (if w = [] then py_words_from [] cs else w # py_words_from [] cs)
      else py_words_from (w @ [c]) cs)"

definition py_words :: "string \<Rightarrow> string list" where
  "py_words s = py_words_from [] s"

definition default_interface :: "string option \<Rightarrow> string" where
  "default_interface route =
     (case route of
        None \<Rightarrow> ''eth0''
      | Some content \<Rightarrow>
          (case List.find (\<lambda>parts. 2 \<le> length parts \<and> parts ! 1 = ''00000000'')
                  (map py_words (drop 1 (py_lines content))) of
             None \<Rightarrow> ''eth0''
           | Some parts \<Rightarrow> parts ! 0))"

definition new_limiter :: "environ \<Rightarrow> string option \<Rightarrow> string option \<Rightarrow> json_file \<Rightarrow> bool \<Rightarrow> limiter" where
  "new_limiter env route interface file full =
     (let given = (case interface of None \<Rightarrow> [] | Some i \<Rightarrow> i);
          wanted = (if given \<noteq> [] then given else env_get env ''ZAGROS_BANDWIDTH_INTERFACE'' [])
      in \<lparr>lm_interface = (if wanted \<noteq> [] then wanted else default_interface route),
          lm_limits = [], lm_last_error = None, lm_file = file, lm_disk_full = full\<rparr>)"

section \<open>Persistence\<close>

definition load_limits :: "limiter \<Rightarrow> limiter" where
  "load_limits L =
     (case lm_file L of
        Content content \<Rightarrow> (case json_loads content of Some (JObj d) \<Rightarrow> L\<lparr>lm_limits := d\<rparr> | _ \<Rightarrow> L)
      | _ \<Rightarrow> L)"

definition store_limits :: "jobj \<Rightarrow> limiter \<Rightarrow> limiter" where
  "store_limits limits L =
     (if lm_disk_full L then L else L\<lparr>lm_file := Content (sorted_text (JObj limits))\<rparr>)"

section \<open>Resolving the limits\<close>

definition type_error :: core_exc where
  "type_error = OtherError ''TypeError'' []"

definition attribute_error :: core_exc where
  "attribute_error = OtherError ''AttributeError'' []"

definition conv :: "conv_error + 'a \<Rightarrow> core_exc + 'a" where
  "conv r = (case r of Inr x \<Rightarrow> Inr x | Inl ConvType \<Rightarrow> Inl type_error | Inl ConvValue \<Rightarrow> Inl (value_error []))"

text \<open>\<^verbatim>\<open>int(d.get(k) or 0)\<close>.\<close>

definition int_or_zero :: "jobj \<Rightarrow> string \<Rightarrow> core_exc + int" where
  "int_or_zero d k = conv (py_int (jor (jget d k) (JInt 0)))"

text \<open>\<^verbatim>\<open>for x in v\<close>, \<^verbatim>\<open>len(v)\<close> and \<^verbatim>\<open>v.items()\<close>.\<close>

definition py_iter :: "json \<Rightarrow> core_exc + json list" where
  "py_iter v =
     (case v of
        JList xs \<Rightarrow> Inr xs
      | JObj d \<Rightarrow> Inr (map (\<lambda>kv. JStr (fst kv)) d)
      | JStr s \<Rightarrow> Inr (map (\<lambda>c. JStr [c]) s)
      | _ \<Rightarrow> Inl type_error)"

definition py_len :: "json \<Rightarrow> core_exc + nat" where
  "py_len v = bindR (py_iter v) (\<lambda>xs. Inr (length xs))"

definition py_items :: "json \<Rightarrow> core_exc + jobj" where
  "py_items v = (case v of JObj d \<Rightarrow> Inr d | _ \<Rightarrow> Inl attribute_error)"

text \<open>\<open>ids\<close> is \<^verbatim>\<open>driver.bandwidth_identities()\<close>; a core without identities adds none.\<close>

type_synonym 'd identities = "'d driver \<Rightarrow> core_exc + json"

definition core_identities :: "'d identities \<Rightarrow> ('d, 's) mgr \<Rightarrow> string \<Rightarrow> jobj" where
  "core_identities ids m cid =
     (case dget (drivers m) cid of
        None \<Rightarrow> []
      | Some d \<Rightarrow>
          (case ids d of
             Inl _ \<Rightarrow> []
           | Inr v \<Rightarrow> (if truthy v then (case v of JObj o' \<Rightarrow> o' | _ \<Rightarrow> []) else [])))"

definition add_source :: "json \<Rightarrow> user_limit \<Rightarrow> user_limit" where
  "add_source v u =
     (case ip_interface (py_str v) of
        None \<Rightarrow> u
      | Some a \<Rightarrow> u\<lparr>ul_inner_sources := List.insert (ip_text a) (ul_inner_sources u)\<rparr>)"

definition add_uid :: "json \<Rightarrow> user_limit \<Rightarrow> user_limit" where
  "add_uid v u =
     (case py_int v of Inl _ \<Rightarrow> u | Inr n \<Rightarrow> u\<lparr>ul_ssh_uids := List.insert n (ul_ssh_uids u)\<rparr>)"

definition add_identity :: "jobj \<Rightarrow> json \<Rightarrow> user_limit \<Rightarrow> core_exc + user_limit" where
  "add_identity identities account_id u =
     bindR (py_items (jor (jget identities (py_str account_id)) (JObj []))) (\<lambda>identity.
     bindR (py_iter (jor (jget identity ''inner_sources'') (JList []))) (\<lambda>sources.
     let u1 = fold add_source sources u in
     bindR (py_iter (jor (jget identity ''uids'') (JList []))) (\<lambda>uids.
     Inr (fold add_uid uids u1))))"

fun add_identities :: "jobj \<Rightarrow> json list \<Rightarrow> user_limit \<Rightarrow> core_exc + user_limit" where
  "add_identities identities [] u = Inr u"
| "add_identities identities (a # as) u = bindR (add_identity identities a u) (add_identities identities as)"

fun add_accounts :: "(string \<Rightarrow> jobj) \<Rightarrow> jobj \<Rightarrow> user_limit \<Rightarrow> core_exc + user_limit" where
  "add_accounts ids_of [] u = Inr u"
| "add_accounts ids_of ((cid, JList account_ids) # rest) u =
     (let u1 = (if cid = ''softether''
                then u\<lparr>ul_softether_accounts := fold (\<lambda>a. List.insert (py_str a)) account_ids (ul_softether_accounts u)\<rparr>
                else u)
      in bindR (add_identities (ids_of cid) account_ids u1) (add_accounts ids_of rest))"
| "add_accounts ids_of ((cid, _) # rest) u = add_accounts ids_of rest u"

definition limit_of :: "(string \<Rightarrow> jobj) \<Rightarrow> int \<Rightarrow> string \<Rightarrow> jobj \<Rightarrow> core_exc + user_limit" where
  "limit_of ids_of user_id raw_id spec =
     bindR (int_or_zero spec ''upload_mbps'') (\<lambda>up.
     bindR (int_or_zero spec ''download_mbps'') (\<lambda>down.
     bindR (py_items (jor (jget spec ''accounts'') (JObj []))) (\<lambda>accounts.
     add_accounts ids_of accounts
       \<lparr>ul_user_id = user_id, ul_username = py_str (jor (jget spec ''username'') (JStr raw_id)),
        ul_upload_mbps = max 0 up, ul_download_mbps = max 0 down,
        ul_inner_sources = [], ul_ssh_uids = [], ul_softether_accounts = []\<rparr>)))"

fun desired_limits ::
  "(string \<Rightarrow> jobj) \<Rightarrow> jobj \<Rightarrow> (int, user_limit) dict \<Rightarrow> core_exc + (int, user_limit) dict" where
  "desired_limits ids_of [] acc = Inr acc"
| "desired_limits ids_of ((raw_id, JObj spec) # rest) acc =
     (case py_int_of_str raw_id of
        None \<Rightarrow> desired_limits ids_of rest acc
      | Some user_id \<Rightarrow>
          bindR (limit_of ids_of user_id raw_id spec) (\<lambda>u.
          desired_limits ids_of rest (dput user_id u acc)))"
| "desired_limits ids_of ((raw_id, _) # rest) acc = desired_limits ids_of rest acc"

text \<open>\<^verbatim>\<open>_identity_map\<close>: the cores that the limits name and that have identities. A set of core ids needs hashable ones.\<close>

definition hashable :: "json \<Rightarrow> bool" where
  "hashable v \<longleftrightarrow> (case v of JList _ \<Rightarrow> False | JObj _ \<Rightarrow> False | _ \<Rightarrow> True)"

fun text_items :: "json list \<Rightarrow> string list" where
  "text_items [] = []"
| "text_items (JStr s # xs) = s # text_items xs"
| "text_items (_ # xs) = text_items xs"

fun wanted_cores :: "jobj \<Rightarrow> core_exc + string list" where
  "wanted_cores [] = Inr []"
| "wanted_cores ((_, JObj spec) # rest) =
     bindR (py_iter (jor (jget spec ''accounts'') (JObj []))) (\<lambda>items.
     if list_all hashable items
     then bindR (wanted_cores rest) (\<lambda>more. Inr (text_items items @ more))
     else Inl type_error)"
| "wanted_cores ((_, _) # rest) = wanted_cores rest"

definition identity_map :: "(string \<Rightarrow> jobj) \<Rightarrow> jobj \<Rightarrow> core_exc + (string, jobj) dict" where
  "identity_map ids_of limits =
     bindR (wanted_cores limits) (\<lambda>wanted.
     Inr (filter (\<lambda>kv. snd kv \<noteq> []) (map (\<lambda>cid. (cid, ids_of cid)) (remdups wanted))))"

fun limited_count :: "jobj \<Rightarrow> core_exc + nat" where
  "limited_count [] = Inr 0"
| "limited_count ((_, JObj spec) # rest) =
     bindR (int_or_zero spec ''upload_mbps'') (\<lambda>up.
     bindR (if up \<noteq> 0 then Inr up else int_or_zero spec ''download_mbps'') (\<lambda>rate.
     bindR (limited_count rest) (\<lambda>n. Inr (if rate \<noteq> 0 then Suc n else n))))"
| "limited_count ((_, _) # rest) = limited_count rest"

fun source_count :: "json list \<Rightarrow> core_exc + nat" where
  "source_count [] = Inr 0"
| "source_count (identity # rest) =
     bindR (py_items identity) (\<lambda>d.
     bindR (py_len (jor (jget d ''inner_sources'') (JList []))) (\<lambda>n.
     bindR (source_count rest) (\<lambda>k. Inr (n + k))))"

section \<open>Applying them\<close>

text \<open>
  \<open>reconcile\<close> gets the desired limits and returns the limiter's state and its last error. It runs in the \<^verbatim>\<open>try\<close>;
  the fields of the report are computed outside.
\<close>

type_synonym 'w reconcile = "(int, user_limit) dict \<Rightarrow> ('w, core_exc, jobj \<times> string option) eff"

definition failed_report :: "core_exc \<Rightarrow> jobj \<Rightarrow> core_exc + jobj" where
  "failed_report e limits =
     bindR (limited_count limits) (\<lambda>n. Inr
       [(''ok'', JBool False), (''error'', JStr (exc_text e)), (''limited_users'', JInt (int n))])"

definition applied_report :: "(string \<Rightarrow> jobj) \<Rightarrow> string \<Rightarrow> jobj \<Rightarrow> jobj \<Rightarrow> core_exc + jobj" where
  "applied_report ids_of interface limits st =
     bindR (limited_count limits) (\<lambda>n.
     bindR (py_len (jor (jget st ''users'') (JObj []))) (\<lambda>applied.
     bindR (identity_map ids_of limits) (\<lambda>im.
     bindR (source_count (concat (map (\<lambda>(_, ids). map snd ids) im))) (\<lambda>sources. Inr
       [(''ok'', JBool True), (''interface'', JStr interface), (''limited_users'', JInt (int n)),
        (''applied_users'', JInt (int applied)),
        (''identities'', JObj (map (\<lambda>(cid, ids). (cid, JInt (int (length ids)))) im)),
        (''sources'', JInt (int sources))]))))"

definition apply_limits ::
  "'w reconcile \<Rightarrow> (string \<Rightarrow> jobj) \<Rightarrow> jobj option \<Rightarrow> (limiter \<times> 'w, core_exc, jobj) eff" where
  "apply_limits reconcile ids_of limits s =
     (let (L, w) = s;
          L1 = (case limits of None \<Rightarrow> L | Some d \<Rightarrow> store_limits d (L\<lparr>lm_limits := d\<rparr>));
          (r, w') = (case desired_limits ids_of (lm_limits L1) [] of
                       Inl e \<Rightarrow> (Inl e, w) | Inr desired \<Rightarrow> reconcile desired w)
      in case r of
           Inl e \<Rightarrow>
             if is_exception e
             then (failed_report e (lm_limits L1), (L1\<lparr>lm_last_error := Some (exc_text e)\<rparr>, w'))
             else (Inl e, (L1, w'))
         | Inr (st, err) \<Rightarrow>
             (applied_report ids_of (lm_interface L1) (lm_limits L1) st, (L1\<lparr>lm_last_error := err\<rparr>, w')))"

definition limiter_status :: "limiter \<Rightarrow> core_exc + jobj" where
  "limiter_status L =
     bindR (limited_count (lm_limits L)) (\<lambda>n. Inr
       [(''interface'', JStr (lm_interface L)), (''limited_users'', JInt (int n)),
        (''known_users'', JInt (int (length (lm_limits L)))),
        (''last_error'', (case lm_last_error L of None \<Rightarrow> JNull | Some e \<Rightarrow> JStr e))])"

section \<open>What is resolved\<close>

text \<open>The inner sources, and the user ids, that an account of a core has among the identities.\<close>

definition account_field :: "string \<Rightarrow> jobj \<Rightarrow> json \<Rightarrow> json list" where
  "account_field k identities account_id =
     (case py_items (jor (jget identities (py_str account_id)) (JObj [])) of
        Inl _ \<Rightarrow> []
      | Inr identity \<Rightarrow>
          (case py_iter (jor (jget identity k) (JList [])) of Inl _ \<Rightarrow> [] | Inr xs \<Rightarrow> xs))"

definition source_texts :: "json list \<Rightarrow> string set" where
  "source_texts vs = {ip_text a |a v. v \<in> set vs \<and> ip_interface (py_str v) = Some a}"

lemma fold_add_source:
  "set (ul_inner_sources (fold add_source vs u)) = set (ul_inner_sources u) \<union> source_texts vs \<and>
   ul_ssh_uids (fold add_source vs u) = ul_ssh_uids u"
proof (induction vs arbitrary: u)
  case (Cons v vs)
  show ?case
    using Cons.IH [of "add_source v u"]
    by (auto simp: add_source_def source_texts_def split: option.splits)
qed (simp add: source_texts_def)

lemma fold_add_uid:
  "ul_inner_sources (fold add_uid vs u) = ul_inner_sources u \<and>
   set (ul_ssh_uids (fold add_uid vs u)) = set (ul_ssh_uids u) \<union> {n. \<exists>v \<in> set vs. py_int v = Inr n}"
proof (induction vs arbitrary: u)
  case (Cons v vs)
  show ?case using Cons.IH [of "add_uid v u"] by (auto simp: add_uid_def split: sum.splits)
qed simp

definition same_rates :: "user_limit \<Rightarrow> user_limit \<Rightarrow> bool" where
  "same_rates u v \<longleftrightarrow> ul_user_id u = ul_user_id v \<and> ul_username u = ul_username v \<and>
     ul_upload_mbps u = ul_upload_mbps v \<and> ul_download_mbps u = ul_download_mbps v"

lemma same_rates_folds: "same_rates (fold add_uid ws u) u" "same_rates (fold add_source vs u) u"
proof -
  show "same_rates (fold add_uid ws u) u"
  proof (induction ws arbitrary: u)
    case (Cons v vs)
    show ?case using Cons.IH [of "add_uid v u"] by (auto simp: add_uid_def same_rates_def split: sum.splits)
  qed (simp add: same_rates_def)
  show "same_rates (fold add_source vs u) u"
  proof (induction vs arbitrary: u)
    case (Cons v vs)
    show ?case using Cons.IH [of "add_source v u"] by (auto simp: add_source_def same_rates_def split: option.splits)
  qed (simp add: same_rates_def)
qed

lemma add_identity_spec:
  assumes "add_identity identities a u = Inr u'"
  shows "set (ul_inner_sources u') = set (ul_inner_sources u) \<union> source_texts (account_field ''inner_sources'' identities a)"
    and "set (ul_ssh_uids u') = set (ul_ssh_uids u) \<union> {n. \<exists>v \<in> set (account_field ''uids'' identities a). py_int v = Inr n}"
    and "same_rates u' u"
proof -
  from assms obtain d vs ws where d: "py_items (jor (jget identities (py_str a)) (JObj [])) = Inr d"
    and vs: "py_iter (jor (jget d ''inner_sources'') (JList [])) = Inr vs"
    and ws: "py_iter (jor (jget d ''uids'') (JList [])) = Inr ws"
    and u': "u' = fold add_uid ws (fold add_source vs u)"
    by (auto simp: add_identity_def bindR_Inr_conv Let_def)
  have f: "account_field ''inner_sources'' identities a = vs" "account_field ''uids'' identities a = ws"
    using d vs ws by (simp_all add: account_field_def)
  show "set (ul_inner_sources u') = set (ul_inner_sources u) \<union> source_texts (account_field ''inner_sources'' identities a)"
    "set (ul_ssh_uids u') = set (ul_ssh_uids u) \<union> {n. \<exists>v \<in> set (account_field ''uids'' identities a). py_int v = Inr n}"
    using fold_add_uid [of ws "fold add_source vs u"] fold_add_source [of vs u] by (simp_all add: u' f)
  show "same_rates u' u"
    using same_rates_folds(1) [of ws "fold add_source vs u"] same_rates_folds(2) [of vs u]
    by (simp add: u' same_rates_def)
qed

lemma add_identities_spec:
  assumes "add_identities identities as u = Inr u'"
  shows "set (ul_inner_sources u') = set (ul_inner_sources u) \<union>
      (\<Union>a \<in> set as. source_texts (account_field ''inner_sources'' identities a)) \<and>
    set (ul_ssh_uids u') = set (ul_ssh_uids u) \<union>
      {n. \<exists>a \<in> set as. \<exists>v \<in> set (account_field ''uids'' identities a). py_int v = Inr n} \<and> same_rates u' u"
  using assms
proof (induction as arbitrary: u)
  case Nil
  then show ?case by (simp add: same_rates_def)
next
  case (Cons a as)
  then obtain u1 where u1: "add_identity identities a u = Inr u1" "add_identities identities as u1 = Inr u'"
    by (auto simp: bindR_Inr_conv)
  from Cons.IH [OF u1(2)] add_identity_spec [OF u1(1)] show ?case
    by (auto simp: same_rates_def)
qed

definition resolved_by :: "(string \<Rightarrow> jobj) \<Rightarrow> jobj \<Rightarrow> string \<Rightarrow> json set" where
  "resolved_by ids_of accounts k =
     {v. \<exists>cid as a. (cid, JList as) \<in> set accounts \<and> a \<in> set as \<and> v \<in> set (account_field k (ids_of cid) a)}"

lemma add_accounts_spec:
  "add_accounts ids_of accounts u = Inr u' \<Longrightarrow>
   set (ul_inner_sources u') = set (ul_inner_sources u) \<union>
      {ip_text a |a v. v \<in> resolved_by ids_of accounts ''inner_sources'' \<and> ip_interface (py_str v) = Some a} \<and>
   set (ul_ssh_uids u') = set (ul_ssh_uids u) \<union>
      {n. \<exists>v \<in> resolved_by ids_of accounts ''uids''. py_int v = Inr n} \<and> same_rates u' u"
proof (induction ids_of accounts u rule: add_accounts.induct)
  case (1 ids_of u)
  then show ?case by (simp add: resolved_by_def same_rates_def)
next
  case (2 ids_of cid as rest u)
  let ?u1 = "if cid = ''softether''
    then u\<lparr>ul_softether_accounts := fold (\<lambda>a. List.insert (py_str a)) as (ul_softether_accounts u)\<rparr> else u"
  from "2.prems" obtain u2 where u2: "add_identities (ids_of cid) as ?u1 = Inr u2"
    and rest: "add_accounts ids_of rest u2 = Inr u'"
    by (auto simp: bindR_Inr_conv Let_def simp del: add_identities.simps)
  have "set (ul_inner_sources ?u1) = set (ul_inner_sources u)" "set (ul_ssh_uids ?u1) = set (ul_ssh_uids u)"
    "same_rates ?u1 u" by (simp_all add: same_rates_def)
  moreover have "resolved_by ids_of ((cid, JList as) # rest) k =
      {v. \<exists>a \<in> set as. v \<in> set (account_field k (ids_of cid) a)} \<union> resolved_by ids_of rest k" for k
    by (auto simp: resolved_by_def)
  ultimately show ?case
    using "2.IH" [OF refl rest] add_identities_spec [OF u2]
    by (auto simp: source_texts_def same_rates_def)
qed (simp_all add: resolved_by_def)

text \<open>
  C35: A pushed limit is resolved exactly: its rates are the given ones cut off at zero; the addresses to shape are those
  inner sources of the listed accounts that are valid interfaces, each in its normal form and without its prefix length;
  the user ids are the numbers that the accounts' identities give. Nothing else is shaped.
\<close>

theorem limit_resolved_exactly:
  assumes "limit_of ids_of user_id raw_id spec = Inr u"
  shows "\<exists>up down accounts.
    int_or_zero spec ''upload_mbps'' = Inr up \<and> int_or_zero spec ''download_mbps'' = Inr down \<and>
    py_items (jor (jget spec ''accounts'') (JObj [])) = Inr accounts \<and>
    ul_user_id u = user_id \<and> ul_upload_mbps u = max 0 up \<and> ul_download_mbps u = max 0 down \<and>
    set (ul_inner_sources u) =
      {ip_text a |a v. v \<in> resolved_by ids_of accounts ''inner_sources'' \<and> ip_interface (py_str v) = Some a} \<and>
    set (ul_ssh_uids u) = {n. \<exists>v \<in> resolved_by ids_of accounts ''uids''. py_int v = Inr n}"
proof -
  from assms obtain up down accounts where i: "int_or_zero spec ''upload_mbps'' = Inr up"
      "int_or_zero spec ''download_mbps'' = Inr down" "py_items (jor (jget spec ''accounts'') (JObj [])) = Inr accounts"
    and run: "add_accounts ids_of accounts
       \<lparr>ul_user_id = user_id, ul_username = py_str (jor (jget spec ''username'') (JStr raw_id)),
        ul_upload_mbps = max 0 up, ul_download_mbps = max 0 down,
        ul_inner_sources = [], ul_ssh_uids = [], ul_softether_accounts = []\<rparr> = Inr u"
    by (auto simp: limit_of_def bindR_Inr_conv)
  from add_accounts_spec [OF run] i show ?thesis by (auto simp: same_rates_def)
qed

definition demo_ids :: "string \<Rightarrow> jobj" where
  "demo_ids cid =
     (if cid = ''wireguard''
      then [(''u1'', JObj [(''inner_sources'', JList [JStr ''10.8.0.2/32'', JStr ''nonsense'']),
                          (''uids'', JList [JStr ''1001'', JStr ''x''])])]
      else [])"

definition demo_spec :: jobj where
  "demo_spec = [(''username'', JStr ''ann''), (''upload_mbps'', JInt 5), (''download_mbps'', JInt (-3)),
     (''accounts'', JObj [(''wireguard'', JList [JStr ''u1''])])]"

lemma demo_interfaces: "ip_interface ''10.8.0.2/32'' = Some (V4 0x0A080002)" "ip_interface ''nonsense'' = None"
  by (simp_all add: ip_interface_def drop_scope_def parse_prefix_def ip_address_def parse_v4_def parse_v6_def
      split_scope_def parse_v6_number_def parse_octet_def is_digit_def nat_of_digits_def digit_val_def)

lemma demo_limit: "\<exists>u. limit_of demo_ids 7 ''7'' demo_spec = Inr u"
  by (simp add: limit_of_def demo_spec_def demo_ids_def int_or_zero_def conv_def jget_def jor_def py_items_def
      py_iter_def add_identity_def Let_def)

theorem limit_resolved_exactly_witness:
  "\<exists>u. limit_of demo_ids 7 ''7'' demo_spec = Inr u \<and> ul_upload_mbps u = 5 \<and> ul_download_mbps u = 0 \<and>
     ip_text (V4 0x0A080002) \<in> set (ul_inner_sources u)"
proof -
  from demo_limit obtain u where u: "limit_of demo_ids 7 ''7'' demo_spec = Inr u" ..
  from limit_resolved_exactly [OF u] obtain up down accounts where
    i: "int_or_zero demo_spec ''upload_mbps'' = Inr up" "int_or_zero demo_spec ''download_mbps'' = Inr down"
      "py_items (jor (jget demo_spec ''accounts'') (JObj [])) = Inr accounts"
    and r: "ul_upload_mbps u = max 0 up" "ul_download_mbps u = max 0 down" "set (ul_inner_sources u) =
      {ip_text a |a v. v \<in> resolved_by demo_ids accounts ''inner_sources'' \<and> ip_interface (py_str v) = Some a}"
    by blast
  have "up = 5" "down = -3" "accounts = [(''wireguard'', JList [JStr ''u1''])]"
    using i by (simp_all add: demo_spec_def int_or_zero_def conv_def jget_def jor_def py_items_def)
  moreover from this have "JStr ''10.8.0.2/32'' \<in> resolved_by demo_ids accounts ''inner_sources''"
    by (simp add: resolved_by_def account_field_def demo_ids_def jget_def jor_def py_items_def py_iter_def)
  moreover have "ip_interface (py_str (JStr ''10.8.0.2/32'')) = Some (V4 0x0A080002)" by (simp add: demo_interfaces)
  ultimately have "ip_text (V4 0x0A080002) \<in> set (ul_inner_sources u)" unfolding r(3) by blast
  then show ?thesis using u r(1,2) \<open>up = 5\<close> \<open>down = -3\<close> by auto
qed

section \<open>Reports\<close>

lemma store_limits_simps [simp]: "lm_limits (store_limits d L) = lm_limits L"
  "lm_interface (store_limits d L) = lm_interface L"
  by (simp_all add: store_limits_def)

lemma apply_limits_cases:
  "apply_limits R ids_of (Some limits) (L, w) = (r, (L', w')) \<Longrightarrow>
   lm_limits L' = limits \<and> lm_file L' = lm_file (store_limits limits L) \<and>
   ((\<exists>e. (desired_limits ids_of limits [] = Inl e \<or>
          (\<exists>d. desired_limits ids_of limits [] = Inr d \<and> R d w = (Inl e, w'))) \<and>
       r = (if is_exception e then failed_report e limits else Inl e)) \<or>
    (\<exists>d st err. desired_limits ids_of limits [] = Inr d \<and> R d w = (Inr (st, err), w') \<and>
       r = applied_report ids_of (lm_interface L) limits st))"
  by (auto simp: apply_limits_def Let_def store_limits_def split: sum.splits prod.splits if_splits)

text \<open>
  Pushing limits to a running node always yields a report when the rates are numbers and applying fails: the report
  says so and counts the limited users. But a rate that is no number escapes the handler that is to report every error:
  the fallback report converts the rates once more, so the call raises, whatever else happens.
\<close>

theorem bad_rate_escapes_report:
  assumes "apply_limits R ids_of (Some limits) (L, w) = (r, (L', w'))"
  shows "(\<forall>e. limited_count limits = Inl e \<longrightarrow> (\<exists>e'. r = Inl e')) \<and>
    (\<forall>n e. limited_count limits = Inr n \<and> is_exception e \<and>
       (desired_limits ids_of limits [] = Inl e \<or>
        (\<exists>d. desired_limits ids_of limits [] = Inr d \<and> fst (R d w) = Inl e)) \<longrightarrow>
       r = Inr [(''ok'', JBool False), (''error'', JStr (exc_text e)), (''limited_users'', JInt (int n))])"
proof -
  note c = apply_limits_cases [OF assms]
  show ?thesis
  proof (intro conjI allI impI)
    fix e assume "limited_count limits = Inl e"
    then have "failed_report e' limits = Inl e" "applied_report ids_of i limits st = Inl e" for e' i st
      by (simp_all add: failed_report_def applied_report_def)
    then show "\<exists>e'. r = Inl e'" using c by auto
  next
    fix n e
    assume a: "limited_count limits = Inr n \<and> is_exception e \<and>
       (desired_limits ids_of limits [] = Inl e \<or>
        (\<exists>d. desired_limits ids_of limits [] = Inr d \<and> fst (R d w) = Inl e))"
    then have "r = failed_report e limits" using c by auto
    with a show "r = Inr [(''ok'', JBool False), (''error'', JStr (exc_text e)), (''limited_users'', JInt (int n))]"
      by (simp add: failed_report_def)
  qed
qed

definition demo_limiter :: limiter where
  "demo_limiter = \<lparr>lm_interface = ''eth0'', lm_limits = [], lm_last_error = None, lm_file = NoFile, lm_disk_full = False\<rparr>"

theorem bad_rate_escapes_report_witness:
  "\<exists>e. fst (apply_limits (\<lambda>d. ret ([], None)) demo_ids
     (Some [(''7'', JObj [(''upload_mbps'', JStr ''fast'')])]) (demo_limiter, ())) = Inl e"
proof -
  have c: "limited_count [(''7'', JObj [(''upload_mbps'', JStr ''fast'')])] = Inl (value_error [])"
    by (simp add: int_or_zero_def jget_def jor_def conv_def py_int_of_str_def py_strip_def space_char_def is_digit_def)
  obtain r L' w' where run: "apply_limits (\<lambda>d. ret ([], None)) demo_ids
     (Some [(''7'', JObj [(''upload_mbps'', JStr ''fast'')])]) (demo_limiter, ()) = (r, (L', w'))"
    by (metis prod.exhaust)
  from bad_rate_escapes_report [OF run] c run show ?thesis by simp
qed

text \<open>
  Limits survive a restart of the agent: once the panel has pushed a set, a new limiter that loads the file holds
  the same set, sorted by user, whether or not installing it succeeded. When the disk is full it keeps the set pushed
  before.
\<close>

theorem limits_survive_restart:
  assumes "apply_limits R ids_of (Some limits) (L, w) = (r, (L', w'))" "json_ok (JObj limits)"
  shows "lm_limits L' = limits \<and>
    lm_limits (load_limits (new_limiter env route interface (lm_file L') full)) =
      (if lm_disk_full L then lm_limits (load_limits (new_limiter env route interface (lm_file L) full))
       else sort_obj limits)"
proof -
  have "json_loads (sorted_text (JObj limits)) = Some (JObj (sort_obj limits))"
    using sorted_text_loads [OF assms(2)] by (simp add: sort_obj_def)
  then show ?thesis
    using apply_limits_cases [OF assms(1)]
    by (auto simp: store_limits_def load_limits_def new_limiter_def Let_def)
qed

theorem limits_survive_restart_witness:
  "lm_limits (load_limits (new_limiter [] None None
     (lm_file (fst (snd (apply_limits (\<lambda>d. ret ([], None)) demo_ids (Some [(''7'', JObj demo_spec)]) (demo_limiter, ()))))) False)) =
   sort_obj [(''7'', JObj demo_spec)]"
proof -
  obtain r L' w' where run: "apply_limits (\<lambda>d. ret ([], None)) demo_ids (Some [(''7'', JObj demo_spec)])
     (demo_limiter, ()) = (r, (L', w'))"
    by (metis prod.exhaust)
  have "json_ok (JObj [(''7'', JObj demo_spec)])" by (simp add: demo_spec_def)
  from limits_survive_restart [OF run this] run show ?thesis by (simp add: demo_limiter_def)
qed

end
