(* ===== verification/Node_Policy.thy ===== *)
theory Node_Policy
  imports Manager Limits
begin

text \<open>
  The pure helpers of \<^verbatim>\<open>node_agent/app.py\<close>: the settings a driver is built with, what settings a signed command may
  set, the masking of secrets, the validation of an account, the catalog. A request that fails ends in a \<open>fault\<close>:
  an \<^verbatim>\<open>HTTPException\<close> with its status and text, or any other exception, which the server answers with 500. The dashes in
  three of the texts, which are outside Latin-1, are hyphens here.
\<close>

datatype fault = Http nat string | Crash core_exc

definition core_root_default :: string where
  "core_root_default = ''/var/lib/zagros''"

definition rstrip_char :: "char \<Rightarrow> string \<Rightarrow> string" where
  "rstrip_char c s = rev (dropWhile (\<lambda>x. x = c) (rev s))"

definition core_root_of :: "environ \<Rightarrow> string" where
  "core_root_of env =
     (let r = rstrip_char CHR ''/'' (py_strip (env_get env ''ZAGROS_CORE_ROOT'' []))
      in if r \<noteq> [] then r else core_root_default)"

section \<open>The settings of a driver\<close>

definition relocate_default :: "string \<Rightarrow> string \<times> json \<Rightarrow> jobj \<Rightarrow> jobj" where
  "relocate_default root kv merged =
     (if fst kv \<in> set (dkeys merged) then merged
      else (case snd kv of
              JStr d \<Rightarrow>
                if starts_with d (core_root_default @ ''/'')
                then dput (fst kv) (JStr (root @ drop (length core_root_default) d)) merged
                else merged
            | _ \<Rightarrow> merged))"

definition default_settings_of :: "'c registry \<Rightarrow> string \<Rightarrow> jobj option" where
  "default_settings_of reg cid =
     (case get_driver_class reg cid of
        Inl _ \<Rightarrow> None
      | Inr cls \<Rightarrow> map_option md_default_settings (dd_metadata cls))"

definition node_driver_settings :: "'c registry \<Rightarrow> string \<Rightarrow> string \<Rightarrow> jobj \<Rightarrow> jobj" where
  "node_driver_settings reg root cid settings =
     (let merged = dput ''_runtime_mode'' (JStr ''node'') settings in
      if root = core_root_default then merged
      else (case default_settings_of reg cid of
              None \<Rightarrow> merged
            | Some defaults \<Rightarrow> fold (relocate_default root) defaults merged))"

section \<open>Secrets\<close>

definition secret_markers :: "string list" where
  "secret_markers = [''secret'', ''password'', ''passwd'', ''token'', ''key'', ''psk'', ''pass'']"

definition is_secret :: "string \<Rightarrow> bool" where
  "is_secret key \<longleftrightarrow> list_ex (\<lambda>marker. contains (py_lower key) marker) secret_markers"

definition mask_value :: "string \<Rightarrow> json \<Rightarrow> json" where
  "mask_value key v =
     (if is_secret key \<and> truthy v
      then JStr (''set ('' @ str_of_nat (length (py_str v)) @ '' chars)'') else v)"

definition mask_settings :: "jobj \<Rightarrow> jobj" where
  "mask_settings settings = map (\<lambda>(k, v). (k, mask_value k v)) settings"

section \<open>What a signed command may set\<close>

definition dict_keys :: "json \<Rightarrow> fault + string list" where
  "dict_keys v = (case v of JObj d \<Rightarrow> Inr (dkeys d) | _ \<Rightarrow> Inl (Crash attribute_error))"

definition allowed_settings :: "core_metadata \<Rightarrow> fault + string list" where
  "allowed_settings md =
     bindR (dict_keys (jor (jget (md_config_schema md) ''properties'') (JObj []))) (\<lambda>ks. Inr
       (ks @ dkeys (md_default_settings md) @ [''release_version'']))"

definition path_marked :: "string \<Rightarrow> bool" where
  "path_marked key \<longleftrightarrow> list_ex (\<lambda>marker. contains (py_lower key) marker) [''path'', ''root'', ''dir'']"

definition confined :: "(path \<Rightarrow> path) \<Rightarrow> string \<Rightarrow> string \<times> json \<Rightarrow> bool" where
  "confined resolve root kv \<longleftrightarrow>
     (case snd kv of
        JStr v \<Rightarrow> path_marked (fst kv) \<longrightarrow> is_absolute (path_of v) \<longrightarrow>
          within (resolve (path_of root)) (resolve (path_of v))
      | _ \<Rightarrow> True)"

definition authorize_core ::
  "'c registry \<Rightarrow> string \<Rightarrow> (path \<Rightarrow> path) \<Rightarrow> string \<Rightarrow> jobj \<Rightarrow> fault + unit" where
  "authorize_core reg root resolve cid settings =
     (if cid \<notin> set node_core_allowlist
      then Inl (Http 403 (''core '' @ quoted cid @ '' is not in the node allowlist''))
      else (case dget (available_drivers reg) cid of
              None \<Rightarrow> Inl (Http 404 (''core '' @ quoted cid @ '' has no driver in this image''))
            | Some None \<Rightarrow> if settings = [] then Inr () else Inl (Crash attribute_error)
            | Some (Some md) \<Rightarrow>
                if settings = [] then Inr ()
                else
                  bindR (allowed_settings md) (\<lambda>allowed.
                  let unknown = sort (filter (\<lambda>k. k \<notin> set allowed) (dkeys settings)) in
                  if unknown \<noteq> []
                  then Inl (Http 422 (''settings are not allowlisted for '' @ cid @ '': '' @
                         py_repr (JList (map JStr unknown))))
                  else (case List.find (\<lambda>kv. \<not> confined resolve root kv) settings of
                          Some kv \<Rightarrow> Inl (Http 422 (''setting '' @ quoted (fst kv) @ '' must remain under '' @ root))
                        | None \<Rightarrow> Inr ()))))"

section \<open>Accounts\<close>

text \<open>\<open>coerce\<close>: what \<^verbatim>\<open>pydantic\<close> makes of the values of \<^verbatim>\<open>expire_at\<close> and \<^verbatim>\<open>data_limit_bytes\<close>, or its \<^verbatim>\<open>ValidationError\<close>.\<close>

record coercions =
  co_expire_at :: "json \<Rightarrow> core_exc + int option"
  co_data_limit :: "json \<Rightarrow> core_exc + int option"

definition crash :: "core_exc + 'a \<Rightarrow> fault + 'a" where
  "crash r = (case r of Inl e \<Rightarrow> Inl (Crash e) | Inr x \<Rightarrow> Inr x)"

definition account_user_id :: "jobj \<Rightarrow> fault + int" where
  "account_user_id raw =
     (case dget raw ''user_id'' of
        None \<Rightarrow> Inl (Http 422 (''account is missing a numeric '' @ quoted ''user_id''))
      | Some v \<Rightarrow>
          (case py_int v of
             Inl _ \<Rightarrow> Inl (Http 422 (''account is missing a numeric '' @ quoted ''user_id''))
           | Inr n \<Rightarrow> Inr n))"

definition text_field :: "jobj \<Rightarrow> string \<Rightarrow> string" where
  "text_field raw k = py_str (jor (jget raw k) (JStr []))"

definition length_checked :: "jobj \<Rightarrow> string \<Rightarrow> nat \<Rightarrow> fault + string" where
  "length_checked raw k bound =
     (let v = text_field raw k in
      if 1 \<le> length v \<and> length v \<le> bound then Inr v
      else Inl (Http 422 (''account '' @ quoted k @ '' must be 1-'' @ str_of_nat bound @ '' characters'')))"

definition account_settings :: "jobj \<Rightarrow> fault + jobj" where
  "account_settings raw =
     (case jor (jget raw ''settings'') (JObj []) of
        JObj d \<Rightarrow>
          (case json_loads (json_dumps default_style (JObj d)) of
             Some (JObj d') \<Rightarrow> Inr d'
           | _ \<Rightarrow> Inl (Http 422 ''account settings must be plain JSON data''))
      | _ \<Rightarrow> Inl (Http 422 (''account '' @ quoted ''settings'' @ '' must be an object'')))"

definition to_user_account :: "coercions \<Rightarrow> jobj \<Rightarrow> fault + user_account" where
  "to_user_account K raw =
     bindR (account_user_id raw) (\<lambda>user_id.
     bindR (length_checked raw ''username'' 128) (\<lambda>username.
     bindR (length_checked raw ''account_id'' 256) (\<lambda>account_id.
     bindR (length_checked raw ''protocol'' 64) (\<lambda>protocol.
     bindR (account_settings raw) (\<lambda>settings.
     bindR (crash (co_expire_at K (jget raw ''expire_at''))) (\<lambda>expire_at.
     bindR (crash (co_data_limit K (jget raw ''data_limit_bytes''))) (\<lambda>data_limit. Inr
       \<lparr>ua_user_id = user_id, ua_username = username, ua_account_id = account_id, ua_protocol = protocol,
        ua_enabled = truthy (jget_default raw ''enabled'' (JBool True)), ua_expire_at = expire_at,
        ua_data_limit_bytes = data_limit, ua_settings = settings\<rparr>)))))))"

section \<open>The catalog\<close>

definition texts :: "string list \<Rightarrow> json" where
  "texts xs = JList (map JStr xs)"

definition opt_text :: "string option \<Rightarrow> json" where
  "opt_text x = (case x of None \<Rightarrow> JNull | Some s \<Rightarrow> JStr s)"

definition catalog_entry :: "'c registry \<Rightarrow> string \<Rightarrow> fault + jobj" where
  "catalog_entry reg cid =
     bindR (crash (get_driver_class reg cid)) (\<lambda>cls.
     case dd_metadata cls of
       None \<Rightarrow> Inl (Crash attribute_error)
     | Some md \<Rightarrow> Inr
         [(''id'', JStr (md_id md)), (''name'', JStr (md_name md)), (''description'', JStr (md_description md)),
          (''protocols'', texts (md_protocols md)),
          (''capabilities'', texts (map capability_value (md_capabilities md))),
          (''config_schema'', JObj (md_config_schema md)), (''default_settings'', JObj (md_default_settings md)),
          (''security_class'', opt_text (md_security_class md)), (''homepage'', opt_text (md_homepage md)),
          (''installed'', JBool False)])"

text \<open>The cores this image can install and has not.\<close>

definition installable :: "'c registry \<Rightarrow> string list \<Rightarrow> string list" where
  "installable reg installed =
     sort (filter (\<lambda>cid. cid \<in> set (dkeys (available_drivers reg)) \<and> cid \<notin> set installed) node_core_allowlist)"

section \<open>What the checks guarantee\<close>

lemma dget_available: "dget (available_drivers reg) cid = map_option dd_metadata (dget reg cid)"
  by (induction reg) (auto simp: available_drivers_def)

lemma registry_metadata:
  assumes "registry_ok reg" "dget reg cid = Some cls"
  obtains md where "dd_metadata cls = Some md" "md_id md = cid"
  using assms by (auto simp: registry_ok_def)

lemma none_found: "(case List.find (\<lambda>x. \<not> P x) xs of None \<Rightarrow> Inr () | Some x \<Rightarrow> Inl (f x)) = Inr () \<longleftrightarrow>
  (\<forall>x \<in> set xs. P x)"
  by (induction xs) auto

definition schema_allows :: "core_metadata \<Rightarrow> string set \<Rightarrow> bool" where
  "schema_allows md ks \<longleftrightarrow> (\<exists>allowed. allowed_settings md = Inr allowed \<and> ks \<subseteq> set allowed)"

lemma authorize_core_known:
  assumes "cid \<in> set node_core_allowlist" "dget reg cid = Some cls" "dd_metadata cls = Some md"
  shows "authorize_core reg root resolve cid settings = Inr () \<longleftrightarrow>
    settings = [] \<or> schema_allows md (set (dkeys settings)) \<and> (\<forall>kv \<in> set settings. confined resolve root kv)"
proof (cases "allowed_settings md")
  case Inl
  with assms show ?thesis by (auto simp: authorize_core_def dget_available schema_allows_def)
next
  case (Inr allowed)
  have "sort (filter (\<lambda>k. k \<notin> set allowed) (dkeys settings)) = [] \<longleftrightarrow> set (dkeys settings) \<subseteq> set allowed"
    by (metis (no_types, lifting) filter_empty_conv set_empty set_sort subset_iff)
  with assms Inr show ?thesis
    by (auto simp: authorize_core_def dget_available schema_allows_def Let_def none_found
        simp del: split_paired_All)
qed

text \<open>
  C5: The node takes a command for a core exactly when the core is on its allowlist, the image has a driver for it, every
  setting is a property, a default or the release version, and every absolute value of a setting named like a path
  resolves to the core root or below.
\<close>

theorem authorize_core_iff:
  assumes "registry_ok reg"
  shows "authorize_core reg root resolve cid settings = Inr () \<longleftrightarrow>
    cid \<in> set node_core_allowlist \<and>
    (\<exists>cls md. dget reg cid = Some cls \<and> dd_metadata cls = Some md \<and>
      (settings = [] \<or> schema_allows md (set (dkeys settings)) \<and>
        (\<forall>k v. (k, JStr v) \<in> set settings \<and> path_marked k \<and> is_absolute (path_of v) \<longrightarrow>
           within (resolve (path_of root)) (resolve (path_of v)))))"
proof (cases "cid \<in> set node_core_allowlist \<and> dget reg cid \<noteq> None")
  case True
  then obtain cls where cls: "dget reg cid = Some cls" by blast
  obtain md where md: "dd_metadata cls = Some md" using registry_metadata [OF assms cls] by blast
  have "(\<forall>kv \<in> set settings. confined resolve root kv) \<longleftrightarrow>
      (\<forall>k v. (k, JStr v) \<in> set settings \<and> path_marked k \<and> is_absolute (path_of v) \<longrightarrow>
         within (resolve (path_of root)) (resolve (path_of v)))"
    by (fastforce simp: confined_def split: json.splits)
  with True cls md authorize_core_known [OF _ cls md] show ?thesis by auto
next
  case False
  then show ?thesis by (auto simp: authorize_core_def dget_available)
qed

text \<open>
  A relative value is not looked at: a schema setting named like a path passes with any relative value, \<^verbatim>\<open>..\<close>
  segments included, wherever it resolves to.
\<close>

theorem relative_paths_unconfined:
  assumes "cid \<in> set node_core_allowlist" "dget reg cid = Some cls" "dd_metadata cls = Some md"
    and "schema_allows md {k}" "\<not> is_absolute (path_of v)"
  shows "authorize_core reg root resolve cid [(k, JStr v)] = Inr ()"
  using authorize_core_known [OF assms(1-3)] assms(4,5) by (simp add: confined_def)

text \<open>
  The settings that an answer shows hide the secrets: two settings that differ only in secret values of the same
  length give the same answer. What has no secret name is shown as it is.
\<close>

theorem mask_hides_secrets:
  assumes "list_all2 (\<lambda>(k, v) (l, w). k = l \<and>
      (v = w \<or> is_secret k \<and> truthy v \<and> truthy w \<and> length (py_str v) = length (py_str w))) s t"
  shows "mask_settings s = mask_settings t \<and>
    (\<forall>(k, v) \<in> set s. \<not> is_secret k \<longrightarrow> (k, v) \<in> set (mask_settings s))"
proof
  show "mask_settings s = mask_settings t"
    using assms by (induction rule: list_all2_induct) (auto simp: mask_settings_def mask_value_def)
  show "\<forall>(k, v) \<in> set s. \<not> is_secret k \<longrightarrow> (k, v) \<in> set (mask_settings s)"
    by (force simp: mask_settings_def mask_value_def)
qed

section \<open>Accounts that are taken\<close>

lemma json_ok_dget: "json_ok (JObj d) \<Longrightarrow> dget d k = Some v \<Longrightarrow> json_ok v"
  by (auto dest: map_of_SomeD)

lemma json_ok_jget: "json_ok (JObj d) \<Longrightarrow> json_ok (jget d k)"
  by (simp add: jget_def json_ok_dget split: option.split)

definition field_ok :: "jobj \<Rightarrow> string \<Rightarrow> nat \<Rightarrow> bool" where
  "field_ok raw k bound \<longleftrightarrow> 1 \<le> length (text_field raw k) \<and> length (text_field raw k) \<le> bound"

lemma length_checked_Inr: "length_checked raw k n = Inr v \<longleftrightarrow> field_ok raw k n \<and> v = text_field raw k"
  by (auto simp: length_checked_def field_ok_def Let_def)

lemma length_checked_Inl: "length_checked raw k n = Inl e \<Longrightarrow> \<exists>m. e = Http 422 m"
  by (auto simp: length_checked_def Let_def split: if_splits)

lemma crash_Inr: "crash r = Inr x \<longleftrightarrow> r = Inr x"
  by (cases r) (simp_all add: crash_def)

lemma account_settings_json:
  assumes "json_ok (jor (jget raw ''settings'') (JObj []))"
  shows "account_settings raw = Inr d \<longleftrightarrow> jor (jget raw ''settings'') (JObj []) = JObj d"
  using assms json_loads_dumps [OF style_ok_default, of "jor (jget raw ''settings'') (JObj [])"]
  by (cases "jor (jget raw ''settings'') (JObj [])") (simp_all add: account_settings_def)

lemma to_user_account_Inr:
  assumes "json_ok (JObj raw)"
  shows "to_user_account K raw = Inr u \<longleftrightarrow>
      (\<exists>v. dget raw ''user_id'' = Some v \<and> py_int v = Inr (ua_user_id u)) \<and>
      field_ok raw ''username'' 128 \<and> ua_username u = text_field raw ''username'' \<and>
      field_ok raw ''account_id'' 256 \<and> ua_account_id u = text_field raw ''account_id'' \<and>
      field_ok raw ''protocol'' 64 \<and> ua_protocol u = text_field raw ''protocol'' \<and>
      jor (jget raw ''settings'') (JObj []) = JObj (ua_settings u) \<and>
      ua_enabled u = truthy (jget_default raw ''enabled'' (JBool True)) \<and>
      co_expire_at K (jget raw ''expire_at'') = Inr (ua_expire_at u) \<and>
      co_data_limit K (jget raw ''data_limit_bytes'') = Inr (ua_data_limit_bytes u)"
proof -
  have "json_ok (jor (jget raw ''settings'') (JObj []))"
    using assms json_ok_jget [OF assms] by (simp add: jor_def)
  note settings = account_settings_json [OF this]
  have uid: "account_user_id raw = Inr n \<longleftrightarrow> (\<exists>v. dget raw ''user_id'' = Some v \<and> py_int v = Inr n)" for n
    by (auto simp: account_user_id_def split: option.splits sum.splits)
  show ?thesis
    unfolding to_user_account_def by (cases u) (auto simp: bindR_Inr_conv length_checked_Inr crash_Inr settings uid)
qed

lemma to_user_account_Inl:
  assumes "to_user_account K raw = Inl e"
  shows "(\<exists>m. e = Http 422 m) \<or>
    (\<exists>x. e = Crash x \<and> (co_expire_at K (jget raw ''expire_at'') = Inl x \<or>
                           co_data_limit K (jget raw ''data_limit_bytes'') = Inl x))"
proof -
  have "account_user_id raw = Inl e \<Longrightarrow> \<exists>m. e = Http 422 m" for e
    by (auto simp: account_user_id_def split: option.splits sum.splits)
  moreover have "account_settings raw = Inl e \<Longrightarrow> \<exists>m. e = Http 422 m" for e
    by (auto simp: account_settings_def split: option.splits json.splits)
  moreover have "crash r = Inl e \<Longrightarrow> \<exists>x. e = Crash x \<and> r = Inl x" for r :: "core_exc + int option" and e
    by (cases r) (simp_all add: crash_def)
  ultimately show ?thesis
    using assms length_checked_Inl by (fastforce simp: to_user_account_def bindR_Inl_conv)
qed

text \<open>
  C33: An account is taken exactly when its user id is an integer, its three names are within their bounds, its settings
  are an object and the two limits are valid; the driver then sees these very values. The only refusal that is not a 422
  is that of an invalid expiry or data limit, which no handler catches.
\<close>

theorem to_user_account_iff:
  assumes "json_ok (JObj raw)"
  shows "(to_user_account K raw = Inr u \<longleftrightarrow>
      (\<exists>v. dget raw ''user_id'' = Some v \<and> py_int v = Inr (ua_user_id u)) \<and>
      field_ok raw ''username'' 128 \<and> ua_username u = text_field raw ''username'' \<and>
      field_ok raw ''account_id'' 256 \<and> ua_account_id u = text_field raw ''account_id'' \<and>
      field_ok raw ''protocol'' 64 \<and> ua_protocol u = text_field raw ''protocol'' \<and>
      jor (jget raw ''settings'') (JObj []) = JObj (ua_settings u) \<and>
      ua_enabled u = truthy (jget_default raw ''enabled'' (JBool True)) \<and>
      co_expire_at K (jget raw ''expire_at'') = Inr (ua_expire_at u) \<and>
      co_data_limit K (jget raw ''data_limit_bytes'') = Inr (ua_data_limit_bytes u))
    \<and> (\<forall>e. to_user_account K raw = Inl e \<longrightarrow> (\<exists>m. e = Http 422 m) \<or>
        (\<exists>x. e = Crash x \<and> (co_expire_at K (jget raw ''expire_at'') = Inl x \<or>
                               co_data_limit K (jget raw ''data_limit_bytes'') = Inl x)))"
  using to_user_account_Inr [OF assms] to_user_account_Inl by blast

text \<open>
  Accounts are stored with sorted keys. What is read back is the same account, its settings in key order, provided
  \<^verbatim>\<open>pydantic\<close> does not look at the order of keys and the names are no containers.
\<close>

definition order_blind :: "coercions \<Rightarrow> bool" where
  "order_blind K \<longleftrightarrow> (\<forall>v. co_expire_at K (jsort v) = co_expire_at K v \<and> co_data_limit K (jsort v) = co_data_limit K v)"

definition plain_account :: "jobj \<Rightarrow> bool" where
  "plain_account raw \<longleftrightarrow> json_ok (JObj raw) \<and>
     (\<forall>k \<in> {''user_id'', ''username'', ''account_id'', ''protocol''}. jsort (jget raw k) = jget raw k)"

definition sorted_account :: "user_account \<Rightarrow> user_account" where
  "sorted_account u = u\<lparr>ua_settings := sort_obj (ua_settings u)\<rparr>"

lemma jget_sort_obj: "json_ok (JObj d) \<Longrightarrow> jget (sort_obj d) k = jsort (jget d k)"
  by (simp add: jget_def dget_sort_obj split: option.split)

lemma jsort_jor: "jsort (jor v w) = jor (jsort v) (jsort w)"
  by (simp add: jor_def)

lemma to_user_account_sorted:
  assumes "plain_account raw" "order_blind K" "to_user_account K raw = Inr u"
  shows "to_user_account K (sort_obj raw) = Inr (sorted_account u)"
proof -
  have ok: "json_ok (JObj raw)" using assms(1) by (simp add: plain_account_def)
  then have ok': "json_ok (JObj (sort_obj raw))" using json_ok_jsort by (metis jsort_JObj)
  have plain: "jget (sort_obj raw) k = jget raw k"
    if "k \<in> {''user_id'', ''username'', ''account_id'', ''protocol''}" for k
    using assms(1) that jget_sort_obj [OF ok] by (auto simp: plain_account_def)
  have names: "text_field (sort_obj raw) k = text_field raw k" "field_ok (sort_obj raw) k n = field_ok raw k n"
    if "k \<in> {''username'', ''account_id'', ''protocol''}" for k n
    using plain that by (auto simp: text_field_def field_ok_def)
  have uid: "dget (sort_obj raw) ''user_id'' = dget raw ''user_id''"
    using plain [of "''user_id''"] dget_sort_obj [of raw "''user_id''"] ok
    by (cases "dget raw ''user_id''") (simp_all add: jget_def)
  have enabled: "truthy (jget_default (sort_obj raw) ''enabled'' (JBool True)) = truthy (jget_default raw ''enabled'' (JBool True))"
    using dget_sort_obj [of raw "''enabled''"] ok by (simp add: jget_default_def split: option.split)
  have "jor (jget (sort_obj raw) ''settings'') (JObj []) = jsort (jor (jget raw ''settings'') (JObj []))"
    by (simp add: jget_sort_obj [OF ok] jsort_jor)
  with assms(2,3) ok names uid enabled show ?thesis
    unfolding to_user_account_Inr [OF ok] to_user_account_Inr [OF ok']
    by (simp add: sorted_account_def order_blind_def jget_sort_obj jsort_JObj del: jsort.simps)
qed

section \<open>The checks at work\<close>

definition xray_metadata :: core_metadata where
  "xray_metadata = \<lparr>md_id = ''xray'', md_name = ''Xray'', md_description = [], md_protocols = [''vless''],
     md_capabilities = [USER_MANAGEMENT, USAGE_ACCOUNTING],
     md_config_schema = [(''properties'', JObj [(''cert_dir'', JObj [])])],
     md_default_settings = [(''log_path'', JStr ''/var/lib/zagros/logs/xray.log'')],
     md_feature_capabilities = [], md_driver_version = ''1.0.0'', md_homepage = None, md_release_repo = None,
     md_provides = [], md_requires = [], md_studio_inbounds_path = None, md_studio_max_inbounds = None,
     md_security_class = None, md_stop_when_no_inbounds = False\<rparr>"

definition xray_registry :: "unit registry" where
  "xray_registry = [(''xray'', \<lparr>dd_module = ''app.cores.drivers.xray'', dd_name = ''XrayDriver'',
     dd_metadata = Some xray_metadata, dd_class = ()\<rparr>)]"

lemma xray_registry_ok: "registry_ok xray_registry"
  by (simp add: registry_ok_def dict_ok_def xray_registry_def xray_metadata_def)

lemma xray_allows: "schema_allows xray_metadata {''cert_dir''}"
  by (simp add: schema_allows_def allowed_settings_def dict_keys_def jor_def jget_def xray_metadata_def)

lemmas path_eval = path_marked_def path_of_def path_root_def is_absolute_def py_lower_def lower_char_def
  is_upper_ascii_def within_iff core_root_default_def

theorem authorize_core_iff_witness:
  "authorize_core xray_registry core_root_default id ''xray'' [(''cert_dir'', JStr ''/var/lib/zagros/certs'')] = Inr () \<and>
   authorize_core xray_registry core_root_default id ''xray'' [(''cert_dir'', JStr ''/etc'')] \<noteq> Inr ()"
proof -
  have root: "within (path_of core_root_default) (path_of ''/var/lib/zagros/certs'')"
      "\<not> within (path_of core_root_default) (path_of ''/etc'')"
      "path_marked ''cert_dir''" "is_absolute (path_of ''/var/lib/zagros/certs'')" "is_absolute (path_of ''/etc'')"
    by (simp_all add: path_eval)
  have reg: "dget xray_registry ''xray'' = Some \<lparr>dd_module = ''app.cores.drivers.xray'', dd_name = ''XrayDriver'',
      dd_metadata = Some xray_metadata, dd_class = ()\<rparr>" "''xray'' \<in> set node_core_allowlist"
    by (simp_all add: xray_registry_def node_core_allowlist_def)
  show ?thesis
    unfolding authorize_core_iff [OF xray_registry_ok] using reg root xray_allows by simp
qed

theorem relative_paths_unconfined_witness:
  "authorize_core xray_registry core_root_default (\<lambda>p. if is_absolute p then p else path_of ''/etc/cron.d'') ''xray''
     [(''cert_dir'', JStr ''../../../etc/cron.d'')] = Inr ()"
proof -
  have reg: "dget xray_registry ''xray'' = Some \<lparr>dd_module = ''app.cores.drivers.xray'', dd_name = ''XrayDriver'',
      dd_metadata = Some xray_metadata, dd_class = ()\<rparr>" "''xray'' \<in> set node_core_allowlist"
    by (simp_all add: xray_registry_def node_core_allowlist_def)
  show ?thesis
    by (rule relative_paths_unconfined [OF reg(2,1) _ xray_allows]) (simp_all add: path_eval)
qed

theorem mask_hides_secrets_witness:
  "mask_settings [(''psk'', JStr ''one''), (''port'', JInt 1)] = mask_settings [(''psk'', JStr ''two''), (''port'', JInt 1)] \<and>
   (''port'', JInt 1) \<in> set (mask_settings [(''psk'', JStr ''one''), (''port'', JInt 1)])"
proof -
  have psk: "is_secret ''psk''" "\<not> is_secret ''port''"
    by (simp_all add: is_secret_def secret_markers_def py_lower_def lower_char_def is_upper_ascii_def)
  show ?thesis
    using mask_hides_secrets [of "[(''psk'', JStr ''one''), (''port'', JInt 1)]"
        "[(''psk'', JStr ''two''), (''port'', JInt 1)]"] psk
    by (simp del: One_nat_def) fastforce
qed

definition plain_coercions :: coercions where
  "plain_coercions = \<lparr>co_expire_at = (\<lambda>v. case v of JNull \<Rightarrow> Inr None | JInt n \<Rightarrow> Inr (Some n)
       | _ \<Rightarrow> Inl (OtherError ''ValidationError'' [])),
     co_data_limit = (\<lambda>v. case v of JNull \<Rightarrow> Inr None | JInt n \<Rightarrow> Inr (Some n)
       | _ \<Rightarrow> Inl (OtherError ''ValidationError'' []))\<rparr>"

definition raw_account :: jobj where
  "raw_account = [(''user_id'', JStr ''7''), (''username'', JStr ''ann''), (''account_id'', JStr ''7.ann''),
     (''protocol'', JStr ''vless'')]"

theorem to_user_account_iff_witness:
  "to_user_account plain_coercions raw_account = Inr \<lparr>ua_user_id = 7, ua_username = ''ann'', ua_account_id = ''7.ann'',
     ua_protocol = ''vless'', ua_enabled = True, ua_expire_at = None, ua_data_limit_bytes = None, ua_settings = []\<rparr>"
proof -
  have "json_ok (JObj raw_account)" by (simp add: raw_account_def)
  moreover have "str_of_int 7 = ''7''"
    by (simp add: str_of_int_def str_of_nat.simps digit_char_def char_of_eq_iff)
  then have "py_int_of_str ''7'' = Some 7" by (metis py_int_str_of_int)
  ultimately show ?thesis
    using to_user_account_iff [of raw_account plain_coercions "\<lparr>ua_user_id = 7, ua_username = ''ann'',
        ua_account_id = ''7.ann'', ua_protocol = ''vless'', ua_enabled = True, ua_expire_at = None,
        ua_data_limit_bytes = None, ua_settings = []\<rparr>"]
    by (simp add: raw_account_def field_ok_def text_field_def jor_def jget_def jget_default_def plain_coercions_def)
qed

end
