(* ===== verification/Xray_Material.thy ===== *)
theory Xray_Material
  imports Node_Policy
begin

text \<open>
  \<^verbatim>\<open>_materialize_xray_tls\<close> of \<^verbatim>\<open>node_agent/app.py\<close> with \<^verbatim>\<open>validate_pem_pair\<close> of the panel's \<^verbatim>\<open>studio/certs.py\<close>: the PEM
  pairs that come with an Xray document are written below the core root and the document refers to the files. The
  \<^verbatim>\<open>cryptography\<close> package is the parameter \<open>pem_lib\<close>; file modes are not modelled.
\<close>

record ('c, 'k) pem_lib =
  pl_cert :: "string \<Rightarrow> core_exc + 'c"
  pl_key :: "string \<Rightarrow> core_exc + 'k"
  pl_cert_numbers :: "'c \<Rightarrow> core_exc + string"
  pl_key_numbers :: "'k \<Rightarrow> core_exc + string"
  pl_days_left :: "'c \<Rightarrow> int"

text \<open>\<^verbatim>\<open>CertificateError\<close> is a \<^verbatim>\<open>ValueError\<close>.\<close>

definition is_value_exc :: "core_exc \<Rightarrow> bool" where
  "is_value_exc e \<longleftrightarrow> exc_type e \<in> {''ValueError'', ''CertificateError''}"

definition certificate_error :: "string \<Rightarrow> core_exc" where
  "certificate_error m = OtherError ''CertificateError'' m"

definition as_certificate_error :: "string \<Rightarrow> core_exc + 'a \<Rightarrow> core_exc + 'a" where
  "as_certificate_error m r =
     (case r of
        Inl e \<Rightarrow> if is_value_exc e then Inl (certificate_error (m @ '' ('' @ exc_text e @ '')'')) else Inl e
      | Inr x \<Rightarrow> Inr x)"

definition validate_pem_pair :: "('c, 'k) pem_lib \<Rightarrow> string \<Rightarrow> string \<Rightarrow> string \<Rightarrow> core_exc + 'c" where
  "validate_pem_pair L cert_pem key_pem context =
     bindR (as_certificate_error (context @ '': certificate is not a valid PEM'') (pl_cert L cert_pem)) (\<lambda>c.
     bindR (as_certificate_error (context @ '': private key is not a valid unencrypted PEM'') (pl_key L key_pem)) (\<lambda>k.
     bindR (pl_cert_numbers L c) (\<lambda>a.
     bindR (pl_key_numbers L k) (\<lambda>b.
     if a \<noteq> b then Inl (certificate_error (context @ '': certificate and private key do NOT match''))
     else if pl_days_left L c \<le> 0 then Inl (certificate_error (context @ '': certificate is EXPIRED''))
     else Inr c))))"

section \<open>The uploaded material\<close>

type_synonym material = "(string, string) dict"

definition material_prefix :: string where
  "material_prefix = ''zagros-material://''"

definition name_char :: "char \<Rightarrow> bool" where
  "name_char c \<longleftrightarrow> alnum_char c \<and> is_ascii c \<or> c \<in> set ''_.-''"

definition material_name :: "string \<Rightarrow> bool" where
  "material_name s \<longleftrightarrow>
     (case s of
        [] \<Rightarrow> False
      | c # cs \<Rightarrow> alnum_char c \<and> is_ascii c \<and> length cs \<le> 95 \<and> list_all name_char cs)"

definition tls_file_limit :: nat where
  "tls_file_limit = 32"

definition tls_item_bytes :: nat where
  "tls_item_bytes = 128 * 1024"

definition tls_total_bytes :: nat where
  "tls_total_bytes = 2 * 1024 * 1024"

fun check_items :: "material \<Rightarrow> nat \<Rightarrow> core_exc + nat" where
  "check_items [] total_size = Inr total_size"
| "check_items ((name, value) # rest) total_size =
     (if \<not> material_name name
      then Inl (value_error (''invalid Xray TLS material name: '' @ py_repr_str name))
      else
        let size = length (utf8_encode value) in
        if tls_item_bytes < size
        then Inl (value_error (''Xray TLS material '' @ quoted name @ '' is too large''))
        else check_items rest (total_size + size))"

definition check_material :: "material \<Rightarrow> core_exc + unit" where
  "check_material M =
     (if tls_file_limit < length M then Inl (value_error ''too many Xray TLS material files'')
      else bindR (check_items M 0) (\<lambda>total_size.
        if tls_total_bytes < total_size then Inl (value_error ''Xray TLS material exceeds 2 MiB'') else Inr ()))"

section \<open>Writing the pairs\<close>

record tls_files =
  tf_files :: "(string, string) dict"
  tf_used :: "string list"

definition write_part :: "path \<Rightarrow> string \<Rightarrow> tls_files \<Rightarrow> tls_files" where
  "write_part p content s = s\<lparr>tf_files := dput (path_text p) content (tf_files s)\<rparr>"

definition paired_names :: "string \<Rightarrow> string \<Rightarrow> bool" where
  "paired_names c k \<longleftrightarrow> material_name c \<and> material_name k \<and> ends_with c ''.crt'' \<and> ends_with k ''.key'' \<and>
     take (length c - 4) c = take (length k - 4) k"

definition material_item :: "material \<Rightarrow> string \<Rightarrow> core_exc + string" where
  "material_item M name =
     (case dget M name of
        None \<Rightarrow> Inl (value_error (''missing Xray TLS material '' @ quoted name))
      | Some v \<Rightarrow> Inr v)"

definition pair_context :: "jobj \<Rightarrow> string" where
  "pair_context inbound = ''Xray TLS inbound '' @ quoted (py_str (jor (jget inbound ''tag'') (JStr ''?'')))"

definition materialize_names ::
  "('c, 'k) pem_lib \<Rightarrow> material \<Rightarrow> path \<Rightarrow> string \<Rightarrow> string \<Rightarrow> string \<Rightarrow> jobj \<Rightarrow> (tls_files, core_exc, jobj) eff" where
  "materialize_names L M dir context cert_name key_name pair =
     (if \<not> paired_names cert_name key_name
      then fail (value_error ''invalid paired Xray TLS material references'')
      else
        bindE (liftE (material_item M cert_name)) (\<lambda>cert_pem.
        bindE (liftE (material_item M key_name)) (\<lambda>key_pem.
        bindE (liftE (validate_pem_pair L cert_pem key_pem context)) (\<lambda>_.
        let cert_path = path_join dir cert_name; key_path = path_join dir key_name in
        seqE (modE (write_part cert_path cert_pem))
       (seqE (modE (write_part key_path key_pem))
       (seqE (modE (\<lambda>s. s\<lparr>tf_used := tf_used s @ [cert_name, key_name]\<rparr>))
          (ret (dput ''keyFile'' (JStr (path_text key_path))
               (dput ''certificateFile'' (JStr (path_text cert_path)) pair)))))))))"

definition materialize_pair ::
  "('c, 'k) pem_lib \<Rightarrow> material \<Rightarrow> path \<Rightarrow> string \<Rightarrow> json \<Rightarrow> (tls_files, core_exc, json) eff" where
  "materialize_pair L M dir context v =
     (case v of
        JObj pair \<Rightarrow>
          (let cert_ref = py_str (jor (jget pair ''certificateFile'') (JStr []));
               key_ref = py_str (jor (jget pair ''keyFile'') (JStr []));
               cert_remote = starts_with cert_ref material_prefix;
               key_remote = starts_with key_ref material_prefix
           in if \<not> cert_remote \<and> \<not> key_remote then ret v
              else if \<not> cert_remote \<or> \<not> key_remote
              then fail (value_error ''Xray TLS material references must be a complete pair'')
              else
                bindE (materialize_names L M dir context (drop (length material_prefix) cert_ref)
                        (drop (length material_prefix) key_ref) pair)
                  (\<lambda>d. ret (JObj d)))
      | _ \<Rightarrow> ret v)"

text \<open>\<^verbatim>\<open>x.get(k) or {}\<close> and what is then asked of it; a truthy value that is no object has no \<^verbatim>\<open>get\<close>.\<close>

definition sub_object :: "jobj \<Rightarrow> string \<Rightarrow> core_exc + jobj" where
  "sub_object d k = py_items (jor (jget d k) (JObj []))"

definition materialize_inbound ::
  "('c, 'k) pem_lib \<Rightarrow> material \<Rightarrow> path \<Rightarrow> json \<Rightarrow> (tls_files, core_exc, json) eff" where
  "materialize_inbound L M dir v =
     (case v of
        JObj inbound \<Rightarrow>
          bindE (liftE (sub_object inbound ''streamSettings'')) (\<lambda>stream.
          bindE (liftE (sub_object stream ''tlsSettings'')) (\<lambda>tls.
          case jget tls ''certificates'' of
            JList certificates \<Rightarrow>
              if certificates = [] then ret v
              else
                bindE (mapE (materialize_pair L M dir (pair_context inbound)) certificates) (\<lambda>prepared.
                ret (JObj (dput ''streamSettings'' (JObj (dput ''tlsSettings''
                       (JObj (dput ''certificates'' (JList prepared) tls)) stream)) inbound)))
          | _ \<Rightarrow> ret v))
      | _ \<Rightarrow> ret v)"

definition materialize_document ::
  "('c, 'k) pem_lib \<Rightarrow> material \<Rightarrow> path \<Rightarrow> jobj \<Rightarrow> (tls_files, core_exc, jobj) eff" where
  "materialize_document L M dir document =
     (case jor (jget document ''inbounds'') (JList []) of
        JList inbounds \<Rightarrow>
          if inbounds = [] then ret document
          else bindE (mapE (materialize_inbound L M dir) inbounds) (\<lambda>prepared.
               ret (dput ''inbounds'' (JList prepared) document))
      | v \<Rightarrow> bindE (liftE (py_iter v)) (\<lambda>_. ret document))"

definition certificate_dir :: "(path \<Rightarrow> path) \<Rightarrow> string \<Rightarrow> jobj \<Rightarrow> path" where
  "certificate_dir resolve root settings =
     resolve (path_of (py_str (jor (jget settings ''cert_dir'') (JStr (root @ ''/cores/xray/certs'')))))"

definition materialize_xray_tls ::
  "('c, 'k) pem_lib \<Rightarrow> (path \<Rightarrow> path) \<Rightarrow> string \<Rightarrow> jobj \<Rightarrow> jobj \<Rightarrow> material \<Rightarrow> (tls_files, core_exc, jobj) eff" where
  "materialize_xray_tls L resolve root settings document M =
     seqE (liftE (check_material M))
       (let dir = certificate_dir resolve root settings in
        if \<not> within (resolve (path_of root)) dir
        then fail (value_error ''the Xray certificate directory escapes the node core root'')
        else
          seqE (modE (\<lambda>s. s\<lparr>tf_used := []\<rparr>))
         (bindE (materialize_document L M dir document) (\<lambda>prepared.
          bindE (getE tf_used) (\<lambda>used.
          let unused = sort (filter (\<lambda>n. n \<notin> set used) (dkeys M)) in
          if unused \<noteq> []
          then fail (value_error (''unused Xray TLS material: '' @ py_repr (JList (map JStr unused))))
          else ret prepared))))"

section \<open>Where uploads go\<close>

lemma material_name_part:
  assumes "material_name n"
  shows "path_of n = ([], [n])"
proof -
  obtain c cs where n: "n = c # cs" "alnum_char c" "is_ascii c" "list_all name_char cs"
    using assms by (auto simp: material_name_def split: list.splits)
  have "\<not> name_char CHR ''/''" "\<not> alnum_char CHR ''/''" "\<not> alnum_char CHR ''.''"
    by (simp_all add: name_char_def alnum_char_def is_upper_ascii_def is_lower_ascii_def is_digit_def)
  with n have slash: "CHR ''/'' \<notin> set n" "c \<noteq> CHR ''.''" "c \<noteq> CHR ''/''" by (auto simp: list_all_iff)
  then have "py_split CHR ''/'' n = [n]" by (simp add: py_split_no_sep)
  with n slash show ?thesis by (simp add: path_of_def path_root_def)
qed

lemma upload_path: "material_name n \<Longrightarrow> path_join dir n = (fst dir, snd dir @ [n])"
  by (simp add: path_join_def material_name_part)

lemma py_join_snoc: "py_join sep (xs @ [x]) = (if xs = [] then x else py_join sep xs @ sep @ x)"
proof (induction xs)
  case (Cons y ys)
  then show ?case by (cases ys) auto
qed simp

lemma upload_path_inject:
  assumes "material_name m" "material_name n" "path_text (path_join dir m) = path_text (path_join dir n)"
  shows "m = n"
  using assms by (auto simp: upload_path path_text_def py_join_snoc split: if_splits)

text \<open>
  What the node promises of an item that it writes: it is the certificate or the key of a pair of uploaded items with
  one stem, whose certificate and key both load, belong to each other and have not expired.
\<close>

definition valid_pair :: "('c, 'k) pem_lib \<Rightarrow> material \<Rightarrow> string \<Rightarrow> bool" where
  "valid_pair L M base \<longleftrightarrow> material_name (base @ ''.crt'') \<and> material_name (base @ ''.key'') \<and>
     (\<exists>cert_pem key_pem c k numbers.
        dget M (base @ ''.crt'') = Some cert_pem \<and> dget M (base @ ''.key'') = Some key_pem \<and>
        pl_cert L cert_pem = Inr c \<and> pl_key L key_pem = Inr k \<and>
        pl_cert_numbers L c = Inr numbers \<and> pl_key_numbers L k = Inr numbers \<and> 0 < pl_days_left L c)"

definition valid_item :: "('c, 'k) pem_lib \<Rightarrow> material \<Rightarrow> string \<Rightarrow> bool" where
  "valid_item L M n \<longleftrightarrow> (\<exists>base. valid_pair L M base \<and> n \<in> {base @ ''.crt'', base @ ''.key''})"

lemma valid_item_name: "valid_item L M n \<Longrightarrow> material_name n"
  by (auto simp: valid_item_def valid_pair_def)

lemma validate_pem_pair_Inr:
  "validate_pem_pair L cert_pem key_pem context = Inr c \<longleftrightarrow> pl_cert L cert_pem = Inr c \<and> 0 < pl_days_left L c \<and>
     (\<exists>k a. pl_key L key_pem = Inr k \<and> pl_cert_numbers L c = Inr a \<and> pl_key_numbers L k = Inr a)"
proof -
  have certificate: "as_certificate_error m r = Inr x \<longleftrightarrow> r = Inr x" for m x and r :: "core_exc + 'x"
    by (auto simp: as_certificate_error_def split: sum.splits)
  show ?thesis by (auto simp: validate_pem_pair_def bindR_Inr_conv certificate not_le split: if_splits)
qed

lemma paired_names_stem:
  assumes "paired_names c k"
  obtains base where "c = base @ ''.crt''" "k = base @ ''.key''"
  using that assms by (auto simp: paired_names_def ends_with_iff)

lemma validated_items:
  assumes "paired_names c k" "dget M c = Some cert_pem" "dget M k = Some key_pem"
    and "validate_pem_pair L cert_pem key_pem context = Inr x"
  shows "valid_item L M c" "valid_item L M k"
proof -
  obtain base where base: "c = base @ ''.crt''" "k = base @ ''.key''" using assms(1) by (rule paired_names_stem)
  with assms have "valid_pair L M base" by (auto simp: valid_pair_def validate_pem_pair_Inr paired_names_def)
  with base show "valid_item L M c" "valid_item L M k" by (auto simp: valid_item_def)
qed

text \<open>From \<open>s0\<close> on, only valid items of the material were written, and those recorded as used are there.\<close>

definition uploaded :: "('c, 'k) pem_lib \<Rightarrow> material \<Rightarrow> path \<Rightarrow> tls_files \<Rightarrow> tls_files \<Rightarrow> bool" where
  "uploaded L M dir s0 s \<longleftrightarrow>
     (\<forall>p. dget (tf_files s) p = dget (tf_files s0) p \<or>
        (\<exists>n v. dget M n = Some v \<and> valid_item L M n \<and> p = path_text (path_join dir n) \<and>
               dget (tf_files s) p = Some v)) \<and>
     (\<forall>n \<in> set (tf_used s). \<exists>v. dget M n = Some v \<and> valid_item L M n \<and>
        dget (tf_files s) (path_text (path_join dir n)) = Some v)"

lemma uploaded_write:
  assumes "uploaded L M dir s0 s" "dget M n = Some v" "valid_item L M n"
  shows "uploaded L M dir s0 (write_part (path_join dir n) v s)"
proof -
  have "dget (tf_files (write_part (path_join dir n) v s)) (path_text (path_join dir m)) = Some w"
    if "dget (tf_files s) (path_text (path_join dir m)) = Some w" "dget M m = Some w" "valid_item L M m" for m w
  proof (cases "path_text (path_join dir m) = path_text (path_join dir n)")
    case True
    with upload_path_inject [OF valid_item_name [OF that(3)] assms(3) [THEN valid_item_name]] have "m = n" by simp
    with that assms(2) show ?thesis by (simp add: write_part_def)
  qed (use that in \<open>simp add: write_part_def\<close>)
  moreover have "\<forall>p. dget (tf_files (write_part (path_join dir n) v s)) p = dget (tf_files s0) p \<or>
      (\<exists>m w. dget M m = Some w \<and> valid_item L M m \<and> p = path_text (path_join dir m) \<and>
        dget (tf_files (write_part (path_join dir n) v s)) p = Some w)"
    using assms unfolding uploaded_def by (auto simp: write_part_def)
  ultimately show ?thesis
    using assms(1) unfolding uploaded_def by (fastforce simp: write_part_def)
qed

lemma keeps_lifted: "(\<And>x. r = Inr x \<Longrightarrow> keeps P (f x)) \<Longrightarrow> keeps P (bindE (liftE r) f)"
  by (cases r) (auto intro: keeps_intros)

lemma keeps_names: "keeps (uploaded L M dir s0) (materialize_names L M dir context c k pair)"
proof (cases "paired_names c k")
  case False
  then show ?thesis by (simp add: materialize_names_def keeps_basic)
next
  case True
  then have names: "material_name c" "material_name k" by (auto simp: paired_names_def)
  have "uploaded L M dir s0 (t\<lparr>tf_used := tf_used t @ [c, k]\<rparr>)"
    if "uploaded L M dir s0 s" "dget M c = Some cp" "dget M k = Some kp" "validate_pem_pair L cp kp context = Inr x"
      "t = write_part (path_join dir k) kp (write_part (path_join dir c) cp s)" for s t cp kp x
  proof -
    note valid = validated_items [OF True that(2-4)]
    have t: "uploaded L M dir s0 t" using that valid by (simp add: uploaded_write)
    have "dget (tf_files t) (path_text (path_join dir k)) = Some kp" by (simp add: that(5) write_part_def)
    moreover have "dget (tf_files t) (path_text (path_join dir c)) = Some cp"
      using upload_path_inject [OF names, of dir] that(2,3)
      by (cases "path_text (path_join dir c) = path_text (path_join dir k)") (simp_all add: that(5) write_part_def)
    ultimately show ?thesis using t that(2,3) valid by (auto simp: uploaded_def)
  qed
  then show ?thesis
    unfolding materialize_names_def material_item_def keeps_def
    using True by (auto simp: eff_simps bindE_def Let_def split: sum.splits option.splits)
qed

lemma keeps_pair: "keeps (uploaded L M dir s0) (materialize_pair L M dir context v)"
  unfolding materialize_pair_def
  by (cases v) (auto simp: Let_def intro!: keeps_basic keeps_bindE keeps_names)

lemma keeps_inbound: "keeps (uploaded L M dir s0) (materialize_inbound L M dir v)"
  unfolding materialize_inbound_def
  by (auto split: json.split intro!: keeps_basic keeps_bindE keeps_mapE keeps_pair)

lemma keeps_document: "keeps (uploaded L M dir s0) (materialize_document L M dir d)"
  unfolding materialize_document_def
  by (auto split: json.split intro!: keeps_basic keeps_bindE keeps_mapE keeps_inbound)

lemma materialize_ran:
  assumes "materialize_xray_tls L resolve root settings document M s = (r, s')"
  obtains "s' = s" "\<exists>e. r = Inl e"
  | "within (resolve (path_of root)) (certificate_dir resolve root settings)"
    "uploaded L M (certificate_dir resolve root settings) s s'"
    "\<forall>d. r = Inr d \<longrightarrow> set (dkeys M) \<subseteq> set (tf_used s')"
proof (cases "check_material M = Inr () \<and> within (resolve (path_of root)) (certificate_dir resolve root settings)")
  case False
  with assms have "s' = s \<and> (\<exists>e. r = Inl e)"
    by (cases "check_material M")
      (auto simp: materialize_xray_tls_def eff_simps bindE_def Let_def split: if_splits)
  with that(1) show thesis by blast
next
  case True
  let ?dir = "certificate_dir resolve root settings"
  let ?s = "s\<lparr>tf_used := []\<rparr>"
  obtain r1 s1 where doc: "materialize_document L M ?dir document ?s = (r1, s1)" by fastforce
  have "uploaded L M ?dir s ?s" by (simp add: uploaded_def)
  from keepsD [OF keeps_document this] doc have up: "uploaded L M ?dir s s1" by (metis snd_conv)
  have run: "materialize_xray_tls L resolve root settings document M s =
      (case r1 of Inl e \<Rightarrow> (Inl e, s1)
       | Inr d \<Rightarrow>
           let unused = sort (filter (\<lambda>n. n \<notin> set (tf_used s1)) (dkeys M)) in
           if unused \<noteq> []
           then (Inl (value_error (''unused Xray TLS material: '' @ py_repr (JList (map JStr unused)))), s1)
           else (Inr d, s1))"
    using True doc by (cases r1) (simp_all add: materialize_xray_tls_def eff_simps bindE_def Let_def)
  have "s' = s1" using run assms by (auto simp: Let_def split: sum.splits if_splits)
  moreover have "set (dkeys M) \<subseteq> set (tf_used s1)" if "r = Inr d" for d
  proof -
    have "sort (filter (\<lambda>n. n \<notin> set (tf_used s1)) (dkeys M)) = []"
      using run assms that by (auto simp: Let_def split: sum.splits if_splits)
    then show ?thesis by (metis (no_types, lifting) filter_empty_conv set_empty set_sort subsetI)
  qed
  ultimately show thesis using that(2) True up by blast
qed

text \<open>
  C16: Whatever an Xray document and its material are, and whether they are accepted or refused, every file that they
  change is an uploaded item, under its own plain name, directly in the certificate directory, which is in the core root,
  and the item is half of a validated pair: \<^verbatim>\<open>x.crt\<close> and \<^verbatim>\<open>x.key\<close> are both uploaded, the certificate and the private key
  load, belong to each other and the certificate has not expired. When they are accepted, every uploaded item is half of
  such a pair, and is there.
\<close>

theorem uploads_confined:
  assumes "materialize_xray_tls L resolve root settings document M s = (r, s')"
  shows "(\<forall>p. dget (tf_files s') p \<noteq> dget (tf_files s) p \<longrightarrow>
      (\<exists>n v. dget M n = Some v \<and> material_name n \<and> valid_item L M n \<and> dget (tf_files s') p = Some v \<and>
        p = path_text (fst (certificate_dir resolve root settings), snd (certificate_dir resolve root settings) @ [n]) \<and>
        within (resolve (path_of root)) (certificate_dir resolve root settings))) \<and>
    (\<forall>d n v. r = Inr d \<longrightarrow> dget M n = Some v \<longrightarrow> valid_item L M n \<and>
      dget (tf_files s') (path_text (path_join (certificate_dir resolve root settings) n)) = Some v)"
  using assms
proof (cases rule: materialize_ran)
  case 2
  let ?dir = "certificate_dir resolve root settings"
  from 2(2) have files: "\<forall>p. dget (tf_files s') p = dget (tf_files s) p \<or>
      (\<exists>n v. dget M n = Some v \<and> valid_item L M n \<and> p = path_text (path_join ?dir n) \<and> dget (tf_files s') p = Some v)"
    by (simp add: uploaded_def)
  from 2(2) have used: "\<forall>n \<in> set (tf_used s'). \<exists>v. dget M n = Some v \<and> valid_item L M n \<and>
      dget (tf_files s') (path_text (path_join ?dir n)) = Some v"
    by (auto simp: uploaded_def)
  have "n \<in> set (tf_used s')" if "r = Inr d" "dget M n = Some v" for d n v
    using 2(3) that map_of_SomeD [OF that(2)] by force
  with used have "valid_item L M n \<and> dget (tf_files s') (path_text (path_join ?dir n)) = Some v"
    if "r = Inr d" "dget M n = Some v" for d n v
    using that by (metis option.inject)
  moreover have "\<exists>n v. dget M n = Some v \<and> material_name n \<and> valid_item L M n \<and> dget (tf_files s') p = Some v \<and>
      p = path_text (fst ?dir, snd ?dir @ [n]) \<and> within (resolve (path_of root)) ?dir"
    if "dget (tf_files s') p \<noteq> dget (tf_files s) p" for p
    using files that 2(1) upload_path valid_item_name by metis
  ultimately show ?thesis by blast
qed auto

section \<open>A refused upload\<close>

definition any_pem :: "(unit, unit) pem_lib" where
  "any_pem = \<lparr>pl_cert = (\<lambda>_. Inr ()), pl_key = (\<lambda>_. Inr ()), pl_cert_numbers = (\<lambda>_. Inr ''p''),
     pl_key_numbers = (\<lambda>_. Inr ''p''), pl_days_left = (\<lambda>_. 90)\<rparr>"

definition demo_material :: material where
  "demo_material = [(''a.crt'', ''CERT''), (''a.key'', ''KEY''), (''b.crt'', ''X'')]"

definition demo_pair :: jobj where
  "demo_pair = [(''certificateFile'', JStr ''zagros-material://a.crt''),
     (''keyFile'', JStr ''zagros-material://a.key'')]"

definition demo_document :: jobj where
  "demo_document = [(''inbounds'', JList [JObj [(''tag'', JStr ''in''), (''streamSettings'', JObj
     [(''tlsSettings'', JObj [(''certificates'', JList [JObj demo_pair])])])]])]"

lemmas name_eval = material_name_def name_char_def alnum_char_def is_upper_ascii_def is_lower_ascii_def is_digit_def
  is_ascii_def

lemma demo_names: "material_name ''a.crt''" "material_name ''a.key''" "material_name ''b.crt''"
  by (simp_all add: name_eval)

lemma demo_pair_written:
  "materialize_pair any_pem demo_material (''/'', [''r'', ''c'']) context (JObj demo_pair) s =
   (Inr (JObj [(''certificateFile'', JStr ''/r/c/a.crt''), (''keyFile'', JStr ''/r/c/a.key'')]),
    s\<lparr>tf_files := dput ''/r/c/a.key'' ''KEY'' (dput ''/r/c/a.crt'' ''CERT'' (tf_files s)),
      tf_used := tf_used s @ [''a.crt'', ''a.key'']\<rparr>)"
proof -
  have refs: "py_str (jor (jget demo_pair ''certificateFile'') (JStr [])) = ''zagros-material://a.crt''"
    "py_str (jor (jget demo_pair ''keyFile'') (JStr [])) = ''zagros-material://a.key''"
    by (simp_all add: demo_pair_def jor_def jget_def)
  have drops: "starts_with ''zagros-material://a.crt'' material_prefix" "starts_with ''zagros-material://a.key'' material_prefix"
    "drop (length material_prefix) ''zagros-material://a.crt'' = ''a.crt''"
    "drop (length material_prefix) ''zagros-material://a.key'' = ''a.key''"
    by (simp_all add: material_prefix_def)
  have paired: "paired_names ''a.crt'' ''a.key''" by (simp add: paired_names_def demo_names ends_with_def)
  have paths: "path_text (path_join (''/'', [''r'', ''c'']) ''a.crt'') = ''/r/c/a.crt''"
    "path_text (path_join (''/'', [''r'', ''c'']) ''a.key'') = ''/r/c/a.key''"
    by (simp_all add: upload_path demo_names path_text_def)
  have items: "material_item demo_material ''a.crt'' = Inr ''CERT''" "material_item demo_material ''a.key'' = Inr ''KEY''"
    by (simp_all add: material_item_def demo_material_def)
  have valid: "validate_pem_pair any_pem ''CERT'' ''KEY'' context = Inr ()"
    by (simp add: validate_pem_pair_def any_pem_def as_certificate_error_def)
  have out: "dput ''keyFile'' (JStr ''/r/c/a.key'') (dput ''certificateFile'' (JStr ''/r/c/a.crt'') demo_pair) =
      [(''certificateFile'', JStr ''/r/c/a.crt''), (''keyFile'', JStr ''/r/c/a.key'')]"
    by (simp add: demo_pair_def)
  show ?thesis
    by (simp add: materialize_pair_def materialize_names_def refs drops paired items valid paths out Let_def
        write_part_def eff_simps bindE_def)
qed

lemma demo_inbound_written:
  "\<exists>v. materialize_inbound any_pem demo_material (''/'', [''r'', ''c''])
     (JObj [(''tag'', JStr ''in''), (''streamSettings'', JObj [(''tlsSettings'',
       JObj [(''certificates'', JList [JObj demo_pair])])])]) \<lparr>tf_files = [], tf_used = []\<rparr> =
   (Inr v, \<lparr>tf_files = [(''/r/c/a.crt'', ''CERT''), (''/r/c/a.key'', ''KEY'')], tf_used = [''a.crt'', ''a.key'']\<rparr>)"
  by (simp add: materialize_inbound_def sub_object_def py_items_def jor_def jget_def demo_pair_written
      eff_simps bindE_def)

lemma demo_document_written:
  "\<exists>d. materialize_document any_pem demo_material (''/'', [''r'', ''c'']) demo_document
     \<lparr>tf_files = [], tf_used = []\<rparr> =
   (Inr d, \<lparr>tf_files = [(''/r/c/a.crt'', ''CERT''), (''/r/c/a.key'', ''KEY'')], tf_used = [''a.crt'', ''a.key'']\<rparr>)"
proof -
  let ?inbound = "JObj [(''tag'', JStr ''in''), (''streamSettings'', JObj [(''tlsSettings'',
       JObj [(''certificates'', JList [JObj demo_pair])])])]"
  obtain v where v: "materialize_inbound any_pem demo_material (''/'', [''r'', ''c'']) ?inbound
      \<lparr>tf_files = [], tf_used = []\<rparr> = (Inr v,
      \<lparr>tf_files = [(''/r/c/a.crt'', ''CERT''), (''/r/c/a.key'', ''KEY'')], tf_used = [''a.crt'', ''a.key'']\<rparr>)"
    using demo_inbound_written by blast
  have "jor (jget demo_document ''inbounds'') (JList []) = JList [?inbound]"
    by (simp add: demo_document_def jor_def jget_def)
  with v show ?thesis by (simp add: materialize_document_def eff_simps bindE_def)
qed

lemma demo_refused:
  "\<exists>e. materialize_xray_tls any_pem id ''/r'' [(''cert_dir'', JStr ''/r/c'')] demo_document demo_material
     \<lparr>tf_files = [], tf_used = []\<rparr> =
   (Inl e, \<lparr>tf_files = [(''/r/c/a.crt'', ''CERT''), (''/r/c/a.key'', ''KEY'')], tf_used = [''a.crt'', ''a.key'']\<rparr>)"
proof -
  obtain d where d: "materialize_document any_pem demo_material (''/'', [''r'', ''c'']) demo_document
      \<lparr>tf_files = [], tf_used = []\<rparr> = (Inr d,
      \<lparr>tf_files = [(''/r/c/a.crt'', ''CERT''), (''/r/c/a.key'', ''KEY'')], tf_used = [''a.crt'', ''a.key'']\<rparr>)"
    using demo_document_written by blast
  have check: "check_material demo_material = Inr ()"
    by (simp add: check_material_def demo_material_def demo_names utf8_encode_def utf8_char_def tls_item_bytes_def
        tls_total_bytes_def tls_file_limit_def Let_def)
  have dir: "certificate_dir id ''/r'' [(''cert_dir'', JStr ''/r/c'')] = (''/'', [''r'', ''c''])"
    "within (id (path_of ''/r'')) (''/'', [''r'', ''c''])"
    by (simp_all add: certificate_dir_def jor_def jget_def path_eval)
  have unused: "sort (filter (\<lambda>n. n \<notin> set [''a.crt'', ''a.key'']) (dkeys demo_material)) \<noteq> []"
    by (simp add: demo_material_def)
  show ?thesis
    unfolding materialize_xray_tls_def check dir Let_def
    using d dir unused by (simp add: eff_simps bindE_def Let_def)
qed

theorem uploads_confined_witness:
  "\<exists>e s. materialize_xray_tls any_pem id ''/r'' [(''cert_dir'', JStr ''/r/c'')] demo_document demo_material
     \<lparr>tf_files = [], tf_used = []\<rparr> = (Inl e, s) \<and> dget (tf_files s) ''/r/c/a.crt'' = Some ''CERT'' \<and>
     (\<exists>n v. dget demo_material n = Some v \<and> valid_item any_pem demo_material n \<and>
        dget (tf_files s) ''/r/c/a.crt'' = Some v)"
proof -
  obtain e where run: "materialize_xray_tls any_pem id ''/r'' [(''cert_dir'', JStr ''/r/c'')] demo_document demo_material
     \<lparr>tf_files = [], tf_used = []\<rparr> =
   (Inl e, \<lparr>tf_files = [(''/r/c/a.crt'', ''CERT''), (''/r/c/a.key'', ''KEY'')], tf_used = [''a.crt'', ''a.key'']\<rparr>)"
    using demo_refused by blast
  have "dget (tf_files \<lparr>tf_files = [(''/r/c/a.crt'', ''CERT''), (''/r/c/a.key'', ''KEY'')],
      tf_used = [''a.crt'', ''a.key'']\<rparr>) ''/r/c/a.crt'' = Some ''CERT''" by simp
  with uploads_confined [OF run, THEN conjunct1, rule_format, of "''/r/c/a.crt''"] run show ?thesis by force
qed

end
