(* ===== verification/App.thy ===== *)
theory App
  imports Security Jobs Accounts Ip_Limits Tls Xray_Material
begin

text \<open>
  \<^verbatim>\<open>node_agent/app.py\<close>: the control plane. Its state is the record \<open>node\<close>, the objects that the module builds once; what it
  is built from and what it calls outside the agent is the record \<open>env\<close>; what one request draws from the system is a
  \<open>moment\<close>. A handler is one step and reads the clock once. A call that the code bounds by \<^verbatim>\<open>wait_for\<close> is cancelled at its
  deadline: the driver raises \<^verbatim>\<open>CancelledError\<close>, and \<open>wait_for\<close> makes a \<^verbatim>\<open>TimeoutError\<close> of it where the moment says that the
  deadline did it. Routing and the conversion of a body to its declared types are FastAPI's: a request carries the
  \<open>endpoint\<close> that they make of it.
\<close>

section \<open>The node\<close>

record ('d, 's, 'w) node =
  nd_identity :: id_store
  nd_replays :: replay_guard
  nd_jobs :: job_manager
  nd_mgr :: "('d, 's) mgr"
  nd_limiter :: limiter
  nd_accounts :: account_dir
  nd_baselines :: json_file
  nd_certs :: "(string, string) dict"
  nd_host :: 'w

text \<open>The methods of a driver that only the agent calls; \<open>None\<close> where the code looks for the method first.\<close>

record 'd hooks =
  hk_set_settings :: "'d driver_class \<Rightarrow> jobj \<Rightarrow> 'd \<Rightarrow> 'd"
  hk_identities :: "'d driver \<Rightarrow> core_exc + json"
  hk_claims :: "'d driver_class \<Rightarrow> ('d, core_exc, listener_claim list) eff"
  hk_terminate :: "'d driver_class \<Rightarrow> (string \<Rightarrow> ('d, core_exc, json) eff) option"
  hk_import :: "'d driver_class \<Rightarrow> (material \<Rightarrow> ('d, core_exc, string list) eff) option"
  hk_version :: "'d driver_class \<Rightarrow> ('d, core_exc, jobj) eff"
  hk_online :: "'d driver_class \<Rightarrow> ('d, core_exc, device_session list) eff"
  hk_usage :: "'d driver_class \<Rightarrow> ('d, core_exc, usage_record list) eff"
  hk_snapshot :: "'d driver_class \<Rightarrow> ('d, core_exc, (string, int \<times> int) dict) eff"
  hk_restore :: "'d driver_class \<Rightarrow> (string, int \<times> int) dict \<Rightarrow> ('d, core_exc, unit) eff"

text \<open>\<^verbatim>\<open>model_dump(mode="json")\<close> of the transfer objects.\<close>

record dumps =
  dump_status :: "core_status \<Rightarrow> jobj"
  dump_session :: "device_session \<Rightarrow> jobj"
  dump_usage :: "usage_record \<Rightarrow> jobj"

record ('d, 's, 'w, 'c, 'k) env =
  e_cfg :: node_config
  e_root :: string
  e_aead :: aead
  e_wiring :: "('d, 's) wiring"
  e_certificate :: node_certificate
  e_cert_pem :: string
  e_tools :: "'w tools"
  e_reconcile :: "'w reconcile"
  e_resolve :: "path \<Rightarrow> path"
  e_pem :: "('c, 'k) pem_lib"
  e_coerce :: coercions
  e_hooks :: "'d hooks"
  e_dumps :: dumps
  e_info_server :: "core_exc + unit"

datatype write_result = Write_Ok | Write_Refused | Write_Torn

record moment =
  mo_now :: int
  mo_utc :: datetime
  mo_uptime :: json
  mo_resources :: jobj
  mo_key :: bytes
  mo_nonce :: bytes
  mo_job :: string
  mo_write :: write_result
  mo_expired :: bool

type_synonym ('d, 's, 'w, 'a) app = "(('d, 's, 'w) node, fault, 'a) eff"

abbreviation (input) e_registry :: "('d, 's, 'w, 'c, 'k) env \<Rightarrow> 'd driver_class registry" where
  "e_registry E \<equiv> w_registry (e_wiring E)"

definition on_mgr :: "('d, 's, 'a) op \<Rightarrow> ('d, 's, 'w, 'a) app" where
  "on_mgr f st = (let (r, m) = f (nd_mgr st) in (crash r, st\<lparr>nd_mgr := m\<rparr>))"

definition on_host :: "('w, core_exc, 'a) eff \<Rightarrow> ('d, 's, 'w, 'a) app" where
  "on_host f st = (let (r, w) = f (nd_host st) in (crash r, st\<lparr>nd_host := w\<rparr>))"

definition on_limiter :: "(limiter \<times> 'w, core_exc, 'a) eff \<Rightarrow> ('d, 's, 'w, 'a) app" where
  "on_limiter f st =
     (let (r, L, w) = f (nd_limiter st, nd_host st) in (crash r, st\<lparr>nd_limiter := L, nd_host := w\<rparr>))"

definition log_audit :: "moment \<Rightarrow> string \<Rightarrow> jobj \<Rightarrow> ('d, 's, 'w, unit) app" where
  "log_audit M action detail =
     modE (\<lambda>st. st\<lparr>nd_identity := audit (mo_now M) action detail (nd_identity st)\<rparr>)"

text \<open>\<^verbatim>\<open>except Exception\<close>: any exception but a cancellation, the \<^verbatim>\<open>HTTPException\<close>s included.\<close>

definition is_caught :: "fault \<Rightarrow> bool" where
  "is_caught f \<longleftrightarrow> (case f of Http _ _ \<Rightarrow> True | Crash e \<Rightarrow> is_exception e)"

definition fault_text :: "fault \<Rightarrow> string" where
  "fault_text f = (case f of Http n m \<Rightarrow> str_of_nat n @ '': '' @ m | Crash e \<Rightarrow> exc_text e)"

definition fault_type :: "fault \<Rightarrow> string" where
  "fault_type f = (case f of Http _ _ \<Rightarrow> ''HTTPException'' | Crash e \<Rightarrow> exc_type e)"

text \<open>
  The three \<^verbatim>\<open>except\<close> clauses that the handlers share: a time-out is a 504, a missing method a 409, any other exception is
  recorded in the audit log and a 409.
\<close>

definition failing_as ::
  "moment \<Rightarrow> string option \<Rightarrow> string option \<Rightarrow> string \<Rightarrow> string \<Rightarrow> string \<Rightarrow>
   ('d, 's, 'w, 'a) app \<Rightarrow> ('d, 's, 'w, 'a) app" where
  "failing_as M timed_out unsupported action cid prefix f =
     catchE f is_caught (\<lambda>e.
       if fault_type e = ''TimeoutError'' \<and> timed_out \<noteq> None then fail (Http 504 (the timed_out))
       else if fault_type e = ''NotImplementedError'' \<and> unsupported \<noteq> None
       then fail (Http 409 (''core '' @ quoted cid @ '' '' @ the unsupported @ '' ('' @ fault_text e @ '')''))
       else
         seqE (log_audit M action [(''core_id'', JStr cid), (''error_type'', JStr (fault_type e))])
           (fail (Http 409 (prefix @ fault_text e))))"

text \<open>\<^verbatim>\<open>asyncio.wait_for\<close>; a cancellation from outside goes through.\<close>

definition timeout_error :: core_exc where
  "timeout_error = OtherError ''TimeoutError'' []"

definition wait_for :: "moment \<Rightarrow> ('d, 's, 'w, 'a) app \<Rightarrow> ('d, 's, 'w, 'a) app" where
  "wait_for M f = catchE f (\<lambda>e. mo_expired M \<and> e = Crash CancelledError) (\<lambda>_. fail (Crash timeout_error))"

section \<open>Registration and signed requests\<close>

definition sec_exc :: "exc \<Rightarrow> core_exc" where
  "sec_exc e =
     (case e of
        NodeSecurityError m \<Rightarrow> OtherError ''NodeSecurityError'' m
      | ValueError \<Rightarrow> OtherError ''ValueError'' []
      | TypeError \<Rightarrow> type_error
      | AttributeError \<Rightarrow> attribute_error)"

definition sec_crash :: "exc + 'a \<Rightarrow> fault + 'a" where
  "sec_crash r = (case r of Inl e \<Rightarrow> Inl (Crash (sec_exc e)) | Inr x \<Rightarrow> Inr x)"

definition body_char :: "char \<Rightarrow> bool" where
  "body_char c \<longleftrightarrow> alnum_char c \<and> is_ascii c \<or> c \<in> set ''._-''"

definition register_body_ok :: "string \<Rightarrow> string \<Rightarrow> bool" where
  "register_body_ok panel_id registration_token \<longleftrightarrow>
     8 \<le> length panel_id \<and> length panel_id \<le> 128 \<and> list_all body_char panel_id \<and>
     16 \<le> length registration_token \<and> length registration_token \<le> 512"

definition register_node ::
  "('d, 's, 'w, 'c, 'k) env \<Rightarrow> moment \<Rightarrow> string \<Rightarrow> string \<Rightarrow> string \<Rightarrow> ('d, 's, 'w, jobj) app" where
  "register_node E M scheme panel_id registration_token st =
     (if \<not> register_body_ok panel_id registration_token then (Inl (Http 422 []), st)
      else if scheme \<noteq> ''https'' \<and> \<not> allow_insecure_test (e_cfg E)
      then (Inl (Http 400 ''node registration requires HTTPS''), st)
      else
        let (r, ids) = register (e_aead E) (nd_identity st) registration_token panel_id (mo_key M) (mo_nonce M) (mo_now M);
            st' = st\<lparr>nd_identity := ids\<rparr>
        in case r of
             Inl (NodeSecurityError m) \<Rightarrow> (Inl (Http 401 m), st')
           | Inl e \<Rightarrow> (Inl (Crash (sec_exc e)), st')
           | Inr key \<Rightarrow>
               (Inr [(''node_id'', JStr (node_id (ident ids))),
                     (''signing_key'', JStr (b64_encode b64_std key)), (''agent'', JStr agent_name),
                     (''agent_version'', JStr agent_version), (''api_version'', JInt api_version)], st'))"

record signed =
  rq_method :: string
  rq_path :: string
  rq_node :: "string option"
  rq_timestamp :: "string option"
  rq_nonce :: "string option"
  rq_signature :: "string option"
  rq_body :: bytes

definition header_text :: "string option \<Rightarrow> string" where
  "header_text h = (case h of None \<Rightarrow> [] | Some v \<Rightarrow> v)"

definition missing_header :: "signed \<Rightarrow> bool" where
  "missing_header rq \<longleftrightarrow>
     [] \<in> set [header_text (rq_node rq), header_text (rq_timestamp rq), header_text (rq_nonce rq),
               header_text (rq_signature rq)]"

text \<open>\<^verbatim>\<open>except (ValueError, NodeSecurityError)\<close>: 401; anything else goes through.\<close>

definition refused :: "exc \<Rightarrow> fault" where
  "refused e = (if is_value_error e then Http 401 (exc_text (sec_exc e)) else Crash (sec_exc e))"

definition verified ::
  "bytes \<Rightarrow> signed \<Rightarrow> fault + int" where
  "verified key rq =
     (case py_int_of_str (header_text (rq_timestamp rq)) of
        None \<Rightarrow> Inl (Http 401 (''invalid literal for int() with base 10: '' @ py_repr_str (header_text (rq_timestamp rq))))
      | Some ts \<Rightarrow>
          (case verify_signature key (header_text (rq_signature rq)) (rq_method rq) (rq_path rq)
                  (header_text (rq_timestamp rq)) (header_text (rq_nonce rq)) (rq_body rq) of
             Inl e \<Rightarrow> Inl (refused e)
           | Inr _ \<Rightarrow> Inr ts))"

definition accept_nonce :: "moment \<Rightarrow> string \<Rightarrow> int \<Rightarrow> ('d, 's, 'w, unit) app" where
  "accept_nonce M nonce ts st =
     (let (r, g) = accept (nd_replays st) nonce ts (mo_now M)
      in ((case r of Inl e \<Rightarrow> Inl (refused e) | Inr _ \<Rightarrow> Inr ()), st\<lparr>nd_replays := g\<rparr>))"

definition signed_request ::
  "('d, 's, 'w, 'c, 'k) env \<Rightarrow> moment \<Rightarrow> signed \<Rightarrow> ('d, 's, 'w, string) app" where
  "signed_request E M rq =
     (if missing_header rq then fail (Http 401 ''missing signature headers'')
      else
        bindE (getE (\<lambda>st. sec_crash (signing_key (e_aead E) (nd_identity st)))) (\<lambda>r.
        bindE (liftE r) (\<lambda>key.
        bindE (getE (\<lambda>st. node_id (ident (nd_identity st)))) (\<lambda>nid.
        case key of
          None \<Rightarrow> fail (Http 401 ''node is not registered for this signer'')
        | Some k \<Rightarrow>
            if header_text (rq_node rq) \<noteq> nid
            then fail (Http 401 ''node is not registered for this signer'')
            else
              bindE (liftE (verified k rq)) (\<lambda>ts.
              seqE (accept_nonce M (header_text (rq_nonce rq)) ts) (ret nid))))))"

section \<open>The node's own endpoints\<close>

definition ok_core :: "string \<Rightarrow> (string \<times> json) list" where
  "ok_core cid = [(''ok'', JBool True), (''core_id'', JStr cid)]"

definition heartbeat :: "moment \<Rightarrow> ('d, 's, 'w, jobj) app" where
  "heartbeat M =
     getE (\<lambda>st. [(''node_id'', JStr (node_id (ident (nd_identity st)))), (''ts'', JInt (mo_now M)),
       (''agent'', JStr agent_name), (''agent_version'', JStr agent_version), (''api_version'', JInt api_version)])"

definition revoke_node :: "moment \<Rightarrow> ('d, 's, 'w, jobj) app" where
  "revoke_node M =
     seqE (modE (\<lambda>st. st\<lparr>nd_identity := revoke (nd_identity st) (mo_now M)\<rparr>)) (ret [(''revoked'', JBool True)])"

definition cores_summary :: "('d, 's) mgr \<Rightarrow> jobj" where
  "cores_summary m =
     [(''installed'', texts (list_cores m)),
      (''running'', texts (sort (filter (\<lambda>cid. dget (states m) cid = Some RUNNING) (list_cores m))))]"

definition node_info :: "('d, 's, 'w, 'c, 'k) env \<Rightarrow> moment \<Rightarrow> bool \<Rightarrow> ('d, 's, 'w, jobj) app" where
  "node_info E M detailed =
     bindE (getE (\<lambda>st. sec_crash (signing_key (e_aead E) (nd_identity st)))) (\<lambda>r.
     bindE (liftE r) (\<lambda>key.
     getE (\<lambda>st.
       [(''node_id'', JStr (node_id (ident (nd_identity st)))),
        (''name'', if cfg_name (e_cfg E) = [] then JNull else JStr (cfg_name (e_cfg E))),
        (''agent'', JStr agent_name), (''agent_version'', JStr agent_version), (''api_version'', JInt api_version),
        (''control_plane_port'', JInt (port (e_cfg E))), (''info_port'', JInt (api_port (e_cfg E))),
        (''registered'', JBool (key \<noteq> None)),
        (''registered_panel'', opt_text (registered_panel (ident (nd_identity st)))),
        (''uptime_seconds'', mo_uptime M),
        (''certificate_sha256'', JStr (nc_fingerprint (e_certificate E))), (''certificate_pem'', JStr (e_cert_pem E)),
        (''certificate_not_after'', JStr (nc_not_after (e_certificate E)))] @
       (if detailed
        then [(''image'', JStr (image (e_cfg E))), (''allowlist'', texts (sort node_core_allowlist)),
              (''cores'', JObj (cores_summary (nd_mgr st))), (''resources'', JObj (mo_resources M))]
        else []))))"

definition health_of :: "moment \<Rightarrow> ('d, 's, 'w, jobj) app" where
  "health_of M =
     getE (\<lambda>st. [(''node_id'', JStr (node_id (ident (nd_identity st)))), (''healthy'', JBool True),
       (''uptime_seconds'', mo_uptime M), (''resources'', JObj (mo_resources M)),
       (''cores'', JObj (cores_summary (nd_mgr st)))])"

definition audit_row_json :: "audit_row \<Rightarrow> json" where
  "audit_row_json r = jsort (JObj [(''action'', JStr (row_action r)), (''detail'', JObj (row_detail r)),
     (''ts'', JInt (row_ts r))])"

definition audit_entries :: "int \<Rightarrow> ('d, 's, 'w, jobj) app" where
  "audit_entries limit =
     getE (\<lambda>st. [(''entries'', JList (map audit_row_json (audit_tail (nd_identity st) (max 1 (min limit 500)))))])"

definition list_jobs :: "moment \<Rightarrow> int \<Rightarrow> ('d, 's, 'w, jobj) app" where
  "list_jobs M limit = getE (\<lambda>st. [(''jobs'', JList (map JObj (recent (nd_jobs st) limit (mo_now M))))])"

definition job_status :: "moment \<Rightarrow> string \<Rightarrow> ('d, 's, 'w, jobj) app" where
  "job_status M jid =
     bindE (getE (\<lambda>st. get_job (nd_jobs st) jid)) (\<lambda>j.
     case j of
       None \<Rightarrow> fail (Http 404 (''job '' @ quoted jid @ '' not found''))
     | Some j \<Rightarrow> ret (job_to_dict (mo_now M) j))"

section \<open>Cores: inventory, logs, settings\<close>

definition authorized :: "('d, 's, 'w, 'c, 'k) env \<Rightarrow> string \<Rightarrow> jobj \<Rightarrow> ('d, 's, 'w, unit) app" where
  "authorized E cid settings = liftE (authorize_core (e_registry E) (e_root E) (e_resolve E) cid settings)"

text \<open>The guard of every route of an installed core.\<close>

definition installed_only ::
  "('d, 's, 'w, 'c, 'k) env \<Rightarrow> string \<Rightarrow> jobj \<Rightarrow> ('d, 's, 'w, 'a) app \<Rightarrow> ('d, 's, 'w, 'a) app" where
  "installed_only E cid settings f =
     seqE (authorized E cid settings)
       (bindE (getE (\<lambda>st. cid \<in> set (list_cores (nd_mgr st)))) (\<lambda>here.
        if here then f else fail (Http 404 (''core '' @ quoted cid @ '' is not installed''))))"

definition cores_view :: "('d, 's, 'w, 'c, 'k) env \<Rightarrow> ('d, 's, 'w, jobj) app" where
  "cores_view E =
     bindE (on_mgr status_all) (\<lambda>statuses.
     bindE (getE (\<lambda>st. installable (e_registry E) (list_cores (nd_mgr st)))) (\<lambda>free.
     bindE (mapE (\<lambda>cid. liftE (catalog_entry (e_registry E) cid)) free) (\<lambda>entries.
     ret [(''installed'', JObj (fold (\<lambda>c. dput (cs_core_id c) (JObj (dump_status (e_dumps E) c))) statuses [])),
          (''features'', JObj [(''xray_tls_material'', JInt 1)]),
          (''available'', texts free),
          (''preview'', JObj (map (\<lambda>(cid, e). (cid, JObj e)) (zip free entries)))])))"

definition core_status_view :: "('d, 's, 'w, 'c, 'k) env \<Rightarrow> string \<Rightarrow> ('d, 's, 'w, jobj) app" where
  "core_status_view E cid =
     installed_only E cid [] (bindE (on_mgr (status_of cid)) (\<lambda>c. ret (dump_status (e_dumps E) c)))"

definition core_version_view :: "('d, 's, 'w, 'c, 'k) env \<Rightarrow> string \<Rightarrow> ('d, 's, 'w, jobj) app" where
  "core_version_view E cid = installed_only E cid [] (on_mgr (call_driver cid (hk_version (e_hooks E))))"

definition core_logs :: "('d, 's, 'w, 'c, 'k) env \<Rightarrow> moment \<Rightarrow> string \<Rightarrow> int \<Rightarrow> ('d, 's, 'w, jobj) app" where
  "core_logs E M cid tail_lines =
     installed_only E cid []
       (bindE (wait_for M (on_mgr (get_logs cid (max 1 (min tail_lines 2000))))) (\<lambda>lines.
        ret [(''core_id'', JStr cid), (''lines'', texts lines)]))"

definition core_settings :: "('d, 's, 'w, 'c, 'k) env \<Rightarrow> string \<Rightarrow> ('d, 's, 'w, jobj) app" where
  "core_settings E cid =
     installed_only E cid []
       (bindE (on_mgr (driver_settings cid)) (\<lambda>settings.
        ret [(''core_id'', JStr cid), (''settings'', JObj (mask_settings settings))]))"

definition core_settings_update ::
  "('d, 's, 'w, 'c, 'k) env \<Rightarrow> moment \<Rightarrow> string \<Rightarrow> jobj \<Rightarrow> ('d, 's, 'w, jobj) app" where
  "core_settings_update E M cid patch =
     installed_only E cid patch
       (bindE (on_mgr (driver_settings cid)) (\<lambda>settings.
        let merged = dmerge settings patch in
        seqE (on_mgr (call_driver cid (\<lambda>c. modE (hk_set_settings (e_hooks E) c merged))))
       (bindE (on_mgr (state_at cid)) (\<lambda>cst.
        bindE (getE (\<lambda>st. is_enabled (nd_mgr st) cid)) (\<lambda>en.
        seqE (on_mgr (save_row (e_wiring E) cid cst en (Some merged)))
       (seqE (log_audit M ''core.settings'' [(''core_id'', JStr cid), (''keys'', texts (sort (dkeys patch)))])
          (ret (ok_core cid @ [(''settings'', JObj (mask_settings merged)), (''restart_required'', JBool True)]))))))))"

section \<open>Server identity and accounts\<close>

definition restart_after_identity ::
  "('d, 's, 'w, 'c, 'k) env \<Rightarrow> moment \<Rightarrow> string \<Rightarrow> ('d, 's, 'w, bool) app" where
  "restart_after_identity E M cid =
     bindE (getE (\<lambda>st. dget (states (nd_mgr st)) cid = Some RUNNING)) (\<lambda>was_running.
     failing_as M (Some ''identity apply timed out on restart'') None ''identity.restart_failed'' cid
       ''identity applied but restart failed: ''
       (if was_running
        then bindE (wait_for M (on_mgr (stop_core (e_wiring E) cid))) (\<lambda>_.
             bindE (wait_for M (on_mgr (start_core (e_wiring E) cid))) (\<lambda>_. ret True))
        else ret False))"

definition identity_answer :: "string \<Rightarrow> string list \<Rightarrow> bool \<Rightarrow> jobj" where
  "identity_answer cid applied restarted =
     ok_core cid @ [(''applied'', texts (sort applied)), (''restarted'', JBool restarted)]"

definition core_identity ::
  "('d, 's, 'w, 'c, 'k) env \<Rightarrow> moment \<Rightarrow> string \<Rightarrow> material \<Rightarrow> ('d, 's, 'w, jobj) app" where
  "core_identity E M cid items =
     installed_only E cid []
       (bindE (on_mgr (get_core cid)) (\<lambda>d.
        case hk_import (e_hooks E) (drv_class d) of
          None \<Rightarrow> fail (Http 409 (''core '' @ quoted cid @ '' has no server identity to adopt''))
        | Some importer \<Rightarrow>
            bindE (failing_as M None (Some ''cannot adopt an identity'') ''identity.failed'' cid []
                     (on_mgr (call_driver cid (\<lambda>_. importer items)))) (\<lambda>applied.
            if applied = [] then ret (identity_answer cid [] False)
            else
              seqE (catchE (on_mgr (persist_settings (e_wiring E) cid)) is_caught (\<lambda>_. ret ()))
             (bindE (restart_after_identity E M cid) (\<lambda>restarted.
              seqE (log_audit M ''identity.apply''
                     [(''core_id'', JStr cid), (''applied'', texts (sort applied)), (''restarted'', JBool restarted)])
                (ret (identity_answer cid applied restarted)))))))"

definition keep_accounts :: "string \<Rightarrow> jobj list \<Rightarrow> bool \<Rightarrow> ('d, 's, 'w, unit) app" where
  "keep_accounts cid raws replace =
     modE (\<lambda>st. st\<lparr>nd_accounts := snd (store_accounts cid (map JObj raws) replace (nd_accounts st))\<rparr>)"

definition core_accounts ::
  "('d, 's, 'w, 'c, 'k) env \<Rightarrow> moment \<Rightarrow> string \<Rightarrow> jobj list \<Rightarrow> bool \<Rightarrow> ('d, 's, 'w, jobj) app" where
  "core_accounts E M cid raws replace =
     installed_only E cid []
       (bindE (mapE (\<lambda>raw. liftE (to_user_account (e_coerce E) raw)) raws) (\<lambda>accounts.
        seqE (failing_as M (Some ''account sync timed out'') (Some ''cannot manage accounts'') ''accounts.failed'' cid []
                (wait_for M (on_mgr (call_driver cid (\<lambda>c. cls_sync_accounts c accounts)))))
       (seqE (keep_accounts cid raws replace)
       (seqE (log_audit M ''accounts.sync''
                [(''core_id'', JStr cid), (''count'', JInt (int (length accounts))), (''replace'', JBool replace)])
          (ret (ok_core cid @ [(''count'', JInt (int (length accounts))), (''replace'', JBool replace)]))))))"

section \<open>Bans and speed limits\<close>

definition ban_ips :: "jobj list \<Rightarrow> string list" where
  "ban_ips bans = remdups (map (\<lambda>row. py_str (jget row ''ip'')) (filter (\<lambda>row. truthy (jget row ''ip'')) bans))"

definition apply_ip_bans ::
  "('d, 's, 'w, 'c, 'k) env \<Rightarrow> moment \<Rightarrow> jobj list \<Rightarrow> ('d, 's, 'w, jobj) app" where
  "apply_ip_bans E M bans =
     bindE (on_mgr (managed_ports (hk_claims (e_hooks E)))) (\<lambda>(tcp, udp).
     bindE (on_host (apply_bans (e_tools E) (mo_utc M) bans tcp udp)) (\<lambda>report.
     case report of
       BansFailed m \<Rightarrow> fail (Http 409 (if m = [] then ''IP ban apply failed'' else m))
     | BansApplied n \<Rightarrow>
         bindE (on_mgr (terminate_bans (hk_terminate (e_hooks E)) (ban_ips bans))) (\<lambda>sessions.
         bindE (on_host (drop_conntrack (e_tools E) (ban_ips bans) tcp udp)) (\<lambda>flows.
         seqE (log_audit M ''ip_bans.apply''
                [(''active'', JInt (int n)), (''connections_closed'', JInt (sessions + flows))])
           (ret [(''ok'', JBool True), (''active'', JInt (int n)),
                 (''connections_closed'', JInt (sessions + flows))])))))"

definition limit_identities :: "('d, 's, 'w, 'c, 'k) env \<Rightarrow> ('d, 's, 'w) node \<Rightarrow> string \<Rightarrow> jobj" where
  "limit_identities E st = core_identities (hk_identities (e_hooks E)) (nd_mgr st)"

definition limiter_apply ::
  "('d, 's, 'w, 'c, 'k) env \<Rightarrow> jobj option \<Rightarrow> ('d, 's, 'w, jobj) app" where
  "limiter_apply E limits =
     bindE (getE (limit_identities E)) (\<lambda>ids. on_limiter (apply_limits (e_reconcile E) ids limits))"

definition bandwidth_limits ::
  "('d, 's, 'w, 'c, 'k) env \<Rightarrow> moment \<Rightarrow> jobj \<Rightarrow> ('d, 's, 'w, jobj) app" where
  "bandwidth_limits E M limits =
     bindE (limiter_apply E (Some limits)) (\<lambda>result.
     seqE (log_audit M ''bandwidth.apply''
            [(''limited_users'', jget result ''limited_users''), (''ok'', jget result ''ok'')])
       (if \<not> truthy (jget result ''ok'')
        then fail (Http 409 (py_str (jor (jget result ''error'') (JStr ''bandwidth apply failed''))))
        else ret (dmerge [(''ok'', JBool True)] result)))"

definition bandwidth_status :: "('d, 's, 'w, jobj) app" where
  "bandwidth_status = bindE (getE (\<lambda>st. crash (limiter_status (nd_limiter st)))) liftE"

section \<open>Telemetry\<close>

definition capable_drivers :: "('d, 's) mgr \<Rightarrow> capability \<Rightarrow> string list" where
  "capable_drivers m cap =
     filter (\<lambda>cid. is_enabled m cid \<and> (case dget (drivers m) cid of None \<Rightarrow> False | Some d \<Rightarrow> supports d cap))
       (list_cores m)"

text \<open>\<^verbatim>\<open>payload.setdefault("core_id", core_id)\<close>.\<close>

definition set_core :: "string \<Rightarrow> jobj \<Rightarrow> jobj" where
  "set_core cid d = (if dget d ''core_id'' = None then dput ''core_id'' (JStr cid) d else d)"

definition read_devices ::
  "('d, 's, 'w, 'c, 'k) env \<Rightarrow> moment \<Rightarrow> string \<Rightarrow> ('d, 's, 'w, jobj list \<times> string list) app" where
  "read_devices E M cid =
     catchE
       (bindE (wait_for M (on_mgr (call_driver cid (hk_online (e_hooks E))))) (\<lambda>found.
        ret (map (\<lambda>x. set_core cid (dump_session (e_dumps E) x)) found, [])))
       is_caught (\<lambda>_. ret ([], [cid]))"

definition runtime_devices :: "('d, 's, 'w, 'c, 'k) env \<Rightarrow> moment \<Rightarrow> ('d, 's, 'w, jobj) app" where
  "runtime_devices E M =
     bindE (getE (\<lambda>st. capable_drivers (nd_mgr st) ONLINE_TRACKING)) (\<lambda>cids.
     bindE (mapE (read_devices E M) cids) (\<lambda>parts.
     ret [(''devices'', JList (map JObj (concat (map fst parts)))), (''failed_cores'', texts (concat (map snd parts)))]))"

definition baseline_key :: "string \<Rightarrow> string \<Rightarrow> string" where
  "baseline_key cid account_id = cid @ '':'' @ account_id"

definition baseline_value :: "int \<times> int \<Rightarrow> json" where
  "baseline_value t = JList [JInt (fst t), JInt (snd t)]"

definition snapshot_items :: "string \<Rightarrow> (string, int \<times> int) dict \<Rightarrow> jobj" where
  "snapshot_items cid snapshot = map (\<lambda>(a, t). (baseline_key cid a, baseline_value t)) snapshot"

definition read_usage ::
  "('d, 's, 'w, 'c, 'k) env \<Rightarrow> moment \<Rightarrow> string \<Rightarrow> ('d, 's, 'w, jobj list \<times> jobj) app" where
  "read_usage E M cid =
     bindE (catchE (bindE (wait_for M (on_mgr (call_driver cid (hk_usage (e_hooks E))))) (\<lambda>found. ret (Some found)))
              is_caught (\<lambda>_. ret None)) (\<lambda>found.
     case found of
       None \<Rightarrow> ret ([], [])
     | Some usage_rows \<Rightarrow>
         bindE (catchE (on_mgr (call_driver cid (hk_snapshot (e_hooks E)))) is_caught (\<lambda>_. ret [])) (\<lambda>snapshot.
         ret (map (\<lambda>r. set_core cid (dump_usage (e_dumps E) r))
                (filter (\<lambda>r. ur_uplink_bytes r \<noteq> 0 \<or> ur_downlink_bytes r \<noteq> 0) usage_rows),
              snapshot_items cid snapshot)))"

text \<open>\<^verbatim>\<open>json.loads(...) or {}\<close> of the baselines file; \<open>None\<close> when it cannot be read.\<close>

definition stored_baselines :: "json_file \<Rightarrow> json option" where
  "stored_baselines f =
     (case f of Content c \<Rightarrow> map_option (\<lambda>v. jor v (JObj [])) (json_loads c) | _ \<Rightarrow> None)"

text \<open>\<^verbatim>\<open>write_text\<close> is no atomic replacement: a write that fails half-way leaves an empty file.\<close>

definition save_usage_baselines :: "moment \<Rightarrow> jobj \<Rightarrow> json_file \<Rightarrow> core_exc + json_file" where
  "save_usage_baselines M baselines f =
     bindR (case stored_baselines f of
              None \<Rightarrow> Inr []
            | Some (JObj d) \<Rightarrow> Inr d
            | Some _ \<Rightarrow> Inl attribute_error) (\<lambda>old.
     Inr (case mo_write M of
            Write_Ok \<Rightarrow> Content (sorted_text (JObj (dmerge old baselines)))
          | Write_Refused \<Rightarrow> f
          | Write_Torn \<Rightarrow> Content []))"

definition keep_baselines :: "moment \<Rightarrow> jobj \<Rightarrow> ('d, 's, 'w, unit) app" where
  "keep_baselines M baselines st =
     (case save_usage_baselines M baselines (nd_baselines st) of
        Inl e \<Rightarrow> (Inl (Crash e), st)
      | Inr f \<Rightarrow> (Inr (), st\<lparr>nd_baselines := f\<rparr>))"

definition runtime_usage :: "('d, 's, 'w, 'c, 'k) env \<Rightarrow> moment \<Rightarrow> ('d, 's, 'w, jobj) app" where
  "runtime_usage E M =
     bindE (getE (\<lambda>st. capable_drivers (nd_mgr st) USAGE_ACCOUNTING)) (\<lambda>cids.
     bindE (mapE (read_usage E M) cids) (\<lambda>parts.
     let baselines = dmerge [] (concat (map snd parts)) in
     seqE (whenE (baselines \<noteq> []) (keep_baselines M baselines))
       (ret [(''usage'', JList (map JObj (concat (map fst parts))))])))"

section \<open>What a boot restores\<close>

text \<open>\<^verbatim>\<open>key.partition(":")\<close>.\<close>

definition split_key :: "string \<Rightarrow> string \<times> string" where
  "split_key k = (takeWhile (\<lambda>c. c \<noteq> CHR '':'') k, drop (Suc (length (takeWhile (\<lambda>c. c \<noteq> CHR '':'') k))) k)"

type_synonym core_baselines = "(string, (string, int \<times> int) dict) dict"

definition put_baseline :: "string \<Rightarrow> string \<Rightarrow> int \<times> int \<Rightarrow> core_baselines \<Rightarrow> core_baselines" where
  "put_baseline cid a t by_core =
     dput cid (dput a t (case dget by_core cid of None \<Rightarrow> [] | Some d \<Rightarrow> d)) by_core"

fun baselines_by_core :: "jobj \<Rightarrow> core_baselines \<Rightarrow> core_exc + core_baselines" where
  "baselines_by_core [] by_core = Inr by_core"
| "baselines_by_core ((key, totals) # rest) by_core =
     (let (cid, account_id) = split_key key in
      case totals of
        JList [up, down] \<Rightarrow>
          if cid = [] then baselines_by_core rest by_core
          else
            bindR (conv (py_int up)) (\<lambda>u.
            bindR (conv (py_int down)) (\<lambda>d.
            baselines_by_core rest (put_baseline cid account_id (u, d) by_core)))
      | _ \<Rightarrow> baselines_by_core rest by_core)"

definition restore_core_baselines ::
  "('d, 's, 'w, 'c, 'k) env \<Rightarrow> string \<times> (string, int \<times> int) dict \<Rightarrow> ('d, 's, 'w, unit) app" where
  "restore_core_baselines E entry =
     bindE (getE (\<lambda>st. fst entry \<in> set (list_cores (nd_mgr st)))) (\<lambda>here.
     if here
     then catchE (on_mgr (call_driver (fst entry) (\<lambda>c. hk_restore (e_hooks E) c (snd entry)))) is_caught (\<lambda>_. ret ())
     else ret ())"

definition restore_usage_baselines :: "('d, 's, 'w, 'c, 'k) env \<Rightarrow> ('d, 's, 'w, unit) app" where
  "restore_usage_baselines E =
     bindE (getE (\<lambda>st. stored_baselines (nd_baselines st))) (\<lambda>stored.
     case stored of
       None \<Rightarrow> ret ()
     | Some v \<Rightarrow>
         bindE (liftE (crash (bindR (py_items v) (\<lambda>d. baselines_by_core d [])))) (\<lambda>by_core.
         forE (restore_core_baselines E) by_core))"

text \<open>A stored account that is no longer valid is skipped; any other exception of its validation goes through.\<close>

fun valid_accounts :: "coercions \<Rightarrow> jobj list \<Rightarrow> fault + user_account list" where
  "valid_accounts K [] = Inr []"
| "valid_accounts K (raw # raws) =
     (case to_user_account K raw of
        Inl (Http n m) \<Rightarrow> valid_accounts K raws
      | Inl (Crash e) \<Rightarrow> Inl (Crash e)
      | Inr a \<Rightarrow> bindR (valid_accounts K raws) (\<lambda>rest. Inr (a # rest)))"

definition restore_core_accounts ::
  "('d, 's, 'w, 'c, 'k) env \<Rightarrow> moment \<Rightarrow> string \<times> jobj list \<Rightarrow> ('d, 's, 'w, unit) app" where
  "restore_core_accounts E M entry =
     bindE (getE (\<lambda>st. fst entry \<in> set (list_cores (nd_mgr st)))) (\<lambda>here.
     if snd entry = [] \<or> \<not> here then ret ()
     else
       bindE (liftE (valid_accounts (e_coerce E) (snd entry))) (\<lambda>accounts.
       if accounts = [] then ret ()
       else catchE (wait_for M (on_mgr (call_driver (fst entry) (\<lambda>c. cls_sync_accounts c accounts)))) is_caught (\<lambda>_. ret ())))"

definition restore_accounts :: "('d, 's, 'w, 'c, 'k) env \<Rightarrow> moment \<Rightarrow> ('d, 's, 'w, unit) app" where
  "restore_accounts E M =
     bindE (getE (\<lambda>st. all_accounts (nd_accounts st))) (forE (restore_core_accounts E M))"

text \<open>\<^verbatim>\<open>lifespan\<close> up to its \<^verbatim>\<open>yield\<close>, and after it; \<open>e_info_server\<close> is what starting the info server ends in.\<close>

definition finally_stop :: "('d, 's, 'w, 'c, 'k) env \<Rightarrow> ('d, 's, 'w, unit) app \<Rightarrow> ('d, 's, 'w, unit) app" where
  "finally_stop E f = catchE f (\<lambda>_. True) (\<lambda>e. seqE (on_mgr (stop_all (e_wiring E))) (fail e))"

definition lifespan_start :: "('d, 's, 'w, 'c, 'k) env \<Rightarrow> moment \<Rightarrow> ('d, 's, 'w, unit) app" where
  "lifespan_start E M =
     seqE (on_mgr (boot (e_wiring E)))
    (seqE (liftE (crash (e_info_server E)))
       (finally_stop E
          (seqE (on_mgr (start_enabled (e_wiring E)))
          (seqE (restore_usage_baselines E)
          (seqE (restore_accounts E M)
          (seqE (modE (\<lambda>st. st\<lparr>nd_limiter := load_limits (nd_limiter st)\<rparr>))
             (bindE (limiter_apply E None) (\<lambda>_. ret ()))))))))"

definition lifespan_stop :: "('d, 's, 'w, 'c, 'k) env \<Rightarrow> ('d, 's, 'w, unit) app" where
  "lifespan_stop E = on_mgr (stop_all (e_wiring E))"

section \<open>Lifecycle jobs\<close>

datatype lifecycle_action = Install | Uninstall | Start | Stop | Restart | Update

primrec action_text :: "lifecycle_action \<Rightarrow> string" where
  "action_text Install = ''install''"
| "action_text Uninstall = ''uninstall''"
| "action_text Start = ''start''"
| "action_text Stop = ''stop''"
| "action_text Restart = ''restart''"
| "action_text Update = ''update''"

definition job_timeout :: "lifecycle_action \<Rightarrow> nat" where
  "job_timeout a = (case a of Install \<Rightarrow> 1200 | Uninstall \<Rightarrow> 600 | Update \<Rightarrow> 1200 | _ \<Rightarrow> 120)"

record core_action =
  ca_core :: string
  ca_action :: lifecycle_action
  ca_settings :: jobj
  ca_purge :: bool
  ca_force :: bool

text \<open>A release version that is no string goes to the driver as its text.\<close>

definition release_version :: "jobj \<Rightarrow> string option" where
  "release_version settings =
     (case jget settings ''release_version'' of JNull \<Rightarrow> None | v \<Rightarrow> Some (py_str v))"

definition forget_core :: "string \<Rightarrow> ('d, 's, 'w, unit) app" where
  "forget_core cid = modE (\<lambda>st. st\<lparr>nd_accounts := forget_accounts cid (nd_accounts st)\<rparr>)"

definition status_answer :: "('d, 's, 'w, 'c, 'k) env \<Rightarrow> string \<Rightarrow> ('d, 's, 'w, jobj) app" where
  "status_answer E cid = bindE (on_mgr (status_of cid)) (\<lambda>c. ret (dump_status (e_dumps E) c))"

text \<open>The coroutine of the job.\<close>

definition execute :: "('d, 's, 'w, 'c, 'k) env \<Rightarrow> core_action \<Rightarrow> ('d, 's, 'w, jobj) app" where
  "execute E a =
     (let W = e_wiring E; cid = ca_core a in
      case ca_action a of
        Install \<Rightarrow> bindE (on_mgr (install_core W cid (Some (ca_settings a)) True)) (\<lambda>_. status_answer E cid)
      | Uninstall \<Rightarrow>
          seqE (on_mgr (uninstall_core W cid (ca_purge a) (ca_force a)))
         (seqE (whenE (ca_purge a) (forget_core cid))
            (ret [(''core_id'', JStr cid), (''state'', JStr ''uninstalled'')]))
      | Start \<Rightarrow> bindE (on_mgr (start_core W cid)) (\<lambda>_. status_answer E cid)
      | Stop \<Rightarrow> bindE (on_mgr (stop_core W cid)) (\<lambda>_. status_answer E cid)
      | Restart \<Rightarrow> bindE (on_mgr (restart_core W cid)) (\<lambda>_. status_answer E cid)
      | Update \<Rightarrow>
          bindE (on_mgr (update_core cid (release_version (ca_settings a)))) (\<lambda>version.
          ret [(''core_id'', JStr cid), (''version'', JStr version)]))"

definition outcome_of :: "fault + jobj \<Rightarrow> outcome" where
  "outcome_of r =
     (case r of
        Inr d \<Rightarrow> Done d
      | Inl f \<Rightarrow>
          if f = Crash CancelledError then WasCancelled
          else if fault_type f = ''TimeoutError'' then TimedOut
          else Raised (fault_type f) (fault_text f))"

definition run_job ::
  "('d, 's, 'w, 'c, 'k) env \<Rightarrow> moment \<Rightarrow> string \<Rightarrow> core_action \<Rightarrow> ('d, 's, 'w, unit) app" where
  "run_job E M jid a st =
     (let (r, st') = wait_for M (execute E a) (st\<lparr>nd_jobs := begin_run jid (mo_now M) (nd_jobs st)\<rparr>)
      in (Inr (), st'\<lparr>nd_jobs := finish_run jid (job_timeout (ca_action a)) (outcome_of r) (mo_now M) (nd_jobs st')\<rparr>))"

definition submit_action :: "moment \<Rightarrow> core_action \<Rightarrow> ('d, 's, 'w, job) app" where
  "submit_action M a st =
     (let (r, js) = submit (ca_core a) (action_text (ca_action a)) (mo_job M) (mo_now M) (nd_jobs st);
          st' = st\<lparr>nd_jobs := js\<rparr>
      in case r of
           Inl (JobConflictError m) \<Rightarrow> (Inl (Http 409 m), st')
         | Inl (JobKeyError k) \<Rightarrow> (Inl (Crash (key_error k)), st')
         | Inr j \<Rightarrow> (Inr j, st'))"

text \<open>What the job is when the wait is over.\<close>

definition lifecycle_answer :: "moment \<Rightarrow> core_action \<Rightarrow> job \<Rightarrow> ('d, 's, 'w, jobj) app" where
  "lifecycle_answer M a j0 =
     bindE (getE (\<lambda>st. case dget (heap (nd_jobs st)) (job_id j0) of None \<Rightarrow> j0 | Some j \<Rightarrow> j)) (\<lambda>j.
     if job_state j = Failed
     then
       seqE (log_audit M ''core.failed'' [(''core_id'', JStr (ca_core a)),
               (''action'', JStr (action_text (ca_action a))), (''error_type'', opt_text (job_error_type j))])
         (fail (Http 409 (case job_error j of
            Some (c # cs) \<Rightarrow> c # cs | _ \<Rightarrow> action_text (ca_action a) @ '' failed'')))
     else
       seqE (whenE (job_state j = Succeeded)
               (log_audit M ''core.lifecycle'' [(''core_id'', JStr (ca_core a)),
                  (''action'', JStr (action_text (ca_action a)))]))
         (ret (job_to_dict (mo_now M) j)))"

text \<open>
  \<open>in_time\<close>: whether the task of a new job is done before the handler stops waiting. Otherwise \<open>run_job\<close> is a later step.
\<close>

definition core_lifecycle ::
  "('d, 's, 'w, 'c, 'k) env \<Rightarrow> moment \<Rightarrow> core_action \<Rightarrow> int \<Rightarrow> bool \<Rightarrow> ('d, 's, 'w, jobj) app" where
  "core_lifecycle E M a wait in_time =
     seqE (authorized E (ca_core a) (ca_settings a))
       (bindE (submit_action M a) (\<lambda>j.
        seqE (log_audit M ''core.lifecycle.submit'' [(''core_id'', JStr (ca_core a)),
                (''action'', JStr (action_text (ca_action a)))])
       (seqE (whenE (0 < wait \<and> in_time \<and> job_id j = mo_job M) (run_job E M (job_id j) a))
          (lifecycle_answer M a j))))"

section \<open>Inbounds\<close>

definition on_certs :: "(tls_files, core_exc, 'a) eff \<Rightarrow> ('d, 's, 'w, 'a) app" where
  "on_certs f st =
     (let (r, files) = f \<lparr>tf_files = nd_certs st, tf_used = []\<rparr>
      in ((case r of Inl e \<Rightarrow> Inl (if is_value_exc e then Http 422 (exc_text e) else Crash e) | Inr x \<Rightarrow> Inr x),
          st\<lparr>nd_certs := tf_files files\<rparr>))"

definition materialized ::
  "('d, 's, 'w, 'c, 'k) env \<Rightarrow> string \<Rightarrow> jobj \<Rightarrow> material \<Rightarrow> ('d, 's, 'w, jobj) app" where
  "materialized E cid document items =
     (if cid = ''xray''
      then bindE (on_mgr (driver_settings cid)) (\<lambda>settings.
           on_certs (materialize_xray_tls (e_pem E) (e_resolve E) (e_root E) settings document items))
      else ret document)"

definition core_inbounds ::
  "('d, 's, 'w, 'c, 'k) env \<Rightarrow> moment \<Rightarrow> string \<Rightarrow> jobj \<Rightarrow> material \<Rightarrow> ('d, 's, 'w, jobj) app" where
  "core_inbounds E M cid document items =
     installed_only E cid []
       (if items \<noteq> [] \<and> cid \<noteq> ''xray''
        then fail (Http 422 ''file material is supported only for Xray TLS sync'')
        else
          bindE (materialized E cid document items) (\<lambda>prepared.
          seqE (failing_as M (Some ''inbound apply timed out'') None ''inbounds.failed'' cid []
                  (wait_for M (on_mgr (apply_studio_document (e_wiring E) cid prepared))))
         (bindE (liftE (crash (py_len (jor (jget document ''inbounds'') (JList []))))) (\<lambda>n.
          seqE (log_audit M ''inbounds.apply'' [(''core_id'', JStr cid), (''inbound_count'', JInt (int n))])
            (ret (ok_core cid @ [(''inbound_count'', JInt (int n))]))))))"

section \<open>Requests\<close>

datatype endpoint =
    Heartbeat | Revoke | Info | Health | Audit int | List_Jobs int | Job_Status string
  | Cores | Core_Status string | Core_Version string | Core_Logs string int | Core_Settings string
  | Put_Settings string jobj | Put_Identity string material | Put_Accounts string "jobj list" bool
  | Put_Bans "jobj list" | Put_Limits jobj | Bandwidth_Status | Devices | Usage_Deltas
  | Lifecycle core_action int bool | Put_Inbounds string jobj material

primrec handle :: "('d, 's, 'w, 'c, 'k) env \<Rightarrow> moment \<Rightarrow> endpoint \<Rightarrow> ('d, 's, 'w, jobj) app" where
  "handle E M Heartbeat = heartbeat M"
| "handle E M Revoke = revoke_node M"
| "handle E M Info = node_info E M True"
| "handle E M Health = health_of M"
| "handle E M (Audit limit) = audit_entries limit"
| "handle E M (List_Jobs limit) = list_jobs M limit"
| "handle E M (Job_Status jid) = job_status M jid"
| "handle E M Cores = cores_view E"
| "handle E M (Core_Status cid) = core_status_view E cid"
| "handle E M (Core_Version cid) = core_version_view E cid"
| "handle E M (Core_Logs cid n) = core_logs E M cid n"
| "handle E M (Core_Settings cid) = core_settings E cid"
| "handle E M (Put_Settings cid patch) = core_settings_update E M cid patch"
| "handle E M (Put_Identity cid items) = core_identity E M cid items"
| "handle E M (Put_Accounts cid raws replace) = core_accounts E M cid raws replace"
| "handle E M (Put_Bans bans) = apply_ip_bans E M bans"
| "handle E M (Put_Limits limits) = bandwidth_limits E M limits"
| "handle E M Bandwidth_Status = bandwidth_status"
| "handle E M Devices = runtime_devices E M"
| "handle E M Usage_Deltas = runtime_usage E M"
| "handle E M (Lifecycle a wait in_time) = core_lifecycle E M a wait in_time"
| "handle E M (Put_Inbounds cid document items) = core_inbounds E M cid document items"

datatype request = Register string string string | Signed signed endpoint

definition respond :: "('d, 's, 'w, 'c, 'k) env \<Rightarrow> moment \<Rightarrow> request \<Rightarrow> ('d, 's, 'w, jobj) app" where
  "respond E M req =
     (case req of
        Register scheme panel_id token \<Rightarrow> register_node E M scheme panel_id token
      | Signed rq ep \<Rightarrow> bindE (signed_request E M rq) (\<lambda>_. handle E M ep))"

end
