(* ===== verification/App_Props.thy ===== *)
theory App_Props
  imports App
begin

text \<open>
  What the control plane of \<^verbatim>\<open>node_agent/app.py\<close> promises: only an authentic, fresh request has an effect, no request is
  carried out twice over any number of restarts, a paired panel is heard, a job always ends, and what a boot restores is
  what was pushed.
\<close>

section \<open>Deadlines\<close>

lemma wait_for_snd [simp]: "snd (wait_for M f st) = snd (f st)"
  by (simp add: wait_for_def catchE_def fail_def split: prod.split sum.split)

lemma wait_for_Inr [simp]: "wait_for M f st = (Inr x, st') \<longleftrightarrow> f st = (Inr x, st')"
  by (auto simp: wait_for_def catchE_def fail_def split: prod.splits sum.splits)

lemma wait_for_ok [simp]: "is_ok (fst (wait_for M f st)) = is_ok (fst (f st))"
  by (simp add: wait_for_def catchE_def fail_def split: prod.split sum.split)

section \<open>What a handler leaves alone\<close>

named_theorems frame_intros

lemma keeps_on_mgr: "(\<And>st m. P st \<Longrightarrow> P (st\<lparr>nd_mgr := m\<rparr>)) \<Longrightarrow> keeps P (on_mgr f)"
  by (simp add: keeps_def on_mgr_def split: prod.split)

lemma keeps_on_host: "(\<And>st w. P st \<Longrightarrow> P (st\<lparr>nd_host := w\<rparr>)) \<Longrightarrow> keeps P (on_host f)"
  by (simp add: keeps_def on_host_def split: prod.split)

lemma keeps_on_limiter: "(\<And>st L w. P st \<Longrightarrow> P (st\<lparr>nd_limiter := L, nd_host := w\<rparr>)) \<Longrightarrow> keeps P (on_limiter f)"
  by (simp add: keeps_def on_limiter_def split: prod.split)

lemma keeps_on_certs: "(\<And>st c. P st \<Longrightarrow> P (st\<lparr>nd_certs := c\<rparr>)) \<Longrightarrow> keeps P (on_certs f)"
  by (simp add: keeps_def on_certs_def split: prod.split)

text \<open>
  A predicate on the node that looks at none of the parts an operation may change is kept by it. \<open>core_frame\<close> is what the
  operations on cores need of the predicate, \<open>node_frame\<close> what every handler, job and boot needs.
\<close>

locale core_frame =
  fixes P :: "('d, 's, 'w) node \<Rightarrow> bool"
  assumes mgr: "P st \<Longrightarrow> P (st\<lparr>nd_mgr := m\<rparr>)"
    and host: "P st \<Longrightarrow> P (st\<lparr>nd_host := w\<rparr>)"
    and limiter: "P st \<Longrightarrow> P (st\<lparr>nd_limiter := L\<rparr>)"
    and certs: "P st \<Longrightarrow> P (st\<lparr>nd_certs := c\<rparr>)"
    and accounts: "P st \<Longrightarrow> P (st\<lparr>nd_accounts := d\<rparr>)"
    and baselines: "P st \<Longrightarrow> P (st\<lparr>nd_baselines := f\<rparr>)"
    and audited: "P st \<Longrightarrow> P (st\<lparr>nd_identity := audit t action detail (nd_identity st)\<rparr>)"
begin

lemma keeps_parts [frame_intros]:
  "keeps P (on_mgr f)" "keeps P (on_host h)" "keeps P (on_limiter l)" "keeps P (on_certs k)"
  by (auto intro!: keeps_on_mgr keeps_on_host keeps_on_limiter keeps_on_certs mgr host limiter certs)

lemma keeps_updates [frame_intros]:
  "keeps P (log_audit M a r)" "keeps P (keep_accounts cid raws b)" "keeps P (forget_core cid)"
  "keeps P (keep_baselines M bs)" "keeps P (modE (\<lambda>st. st\<lparr>nd_limiter := g st\<rparr>))"
  using audited accounts baselines limiter
  by (auto simp: keeps_def log_audit_def keep_accounts_def forget_core_def keep_baselines_def modE_def split: sum.splits)

lemma keeps_failing_as [frame_intros]: "keeps P f \<Longrightarrow> keeps P (failing_as M t u a cid p f)"
  unfolding failing_as_def by (intro keeps_intros frame_intros)

lemma keeps_wait_for [frame_intros]: "keeps P f \<Longrightarrow> keeps P (wait_for M f)"
  unfolding wait_for_def by (intro keeps_intros)

lemma keeps_installed_only [frame_intros]: "keeps P f \<Longrightarrow> keeps P (installed_only E cid s f)"
  unfolding installed_only_def authorized_def by (intro keeps_intros frame_intros)

lemma execution_keeps: "keeps P (execute E a)"
  unfolding execute_def status_answer_def Let_def
  by (cases "ca_action a"; simp; intro conjI impI keeps_intros frame_intros)

lemma telemetry_keeps [frame_intros]: "keeps P (read_devices E M cid)" "keeps P (read_usage E M cid)"
  unfolding read_devices_def read_usage_def by (intro keeps_intros frame_intros)+

lemma limiter_apply_keeps [frame_intros]: "keeps P (limiter_apply E limits)"
  unfolding limiter_apply_def by (intro keeps_intros frame_intros)

lemma restart_keeps [frame_intros]: "keeps P (restart_after_identity E M cid)"
  unfolding restart_after_identity_def by (intro keeps_intros frame_intros)

lemma materialized_keeps [frame_intros]: "keeps P (materialized E cid document items)"
  unfolding materialized_def by (intro keeps_intros frame_intros)

lemma answer_keeps [frame_intros]: "keeps P (lifecycle_answer M a j)"
  unfolding lifecycle_answer_def by (intro keeps_intros frame_intros)

lemma bans_keep [frame_intros]: "keeps P (apply_ip_bans E M bans)"
  unfolding apply_ip_bans_def
  by (intro keeps_intros frame_intros) (simp split: ban_report.split; intro conjI impI allI keeps_intros frame_intros)

lemma restore_keeps [frame_intros]: "keeps P (restore_usage_baselines E)" "keeps P (restore_accounts E M)"
  unfolding restore_usage_baselines_def restore_core_baselines_def restore_accounts_def restore_core_accounts_def
  by (intro keeps_intros frame_intros)+

lemma lifespan_keeps: "keeps P (lifespan_start E M)" "keeps P (lifespan_stop E)"
  unfolding lifespan_start_def lifespan_stop_def finally_stop_def by (intro keeps_intros frame_intros)+

end

lemmas handler_defs = heartbeat_def revoke_node_def node_info_def health_of_def audit_entries_def list_jobs_def
  job_status_def cores_view_def core_status_view_def core_version_view_def core_logs_def core_settings_def
  core_settings_update_def core_identity_def core_accounts_def apply_ip_bans_def bandwidth_limits_def
  bandwidth_status_def runtime_devices_def runtime_usage_def core_lifecycle_def core_inbounds_def authorized_def

locale node_frame = core_frame +
  assumes jobs: "P st \<Longrightarrow> P (st\<lparr>nd_jobs := js\<rparr>)"
    and revoked: "P st \<Longrightarrow> P (st\<lparr>nd_identity := revoke (nd_identity st) t\<rparr>)"
begin

lemma run_job_keeps [frame_intros]: "keeps P (run_job E M jid a)"
proof (rule keepsI)
  fix st assume "P st"
  from jobs [OF keepsD [OF keeps_wait_for [OF execution_keeps] jobs [OF this]]] show "P (snd (run_job E M jid a st))"
    by (simp add: run_job_def case_prod_beta)
qed

lemma submit_keeps [frame_intros]: "keeps P (submit_action M a)"
  using jobs by (auto simp: keeps_def submit_action_def Let_def split: sum.splits prod.splits job_exc.splits)

lemma revoke_keeps [frame_intros]: "keeps P (modE (\<lambda>st. st\<lparr>nd_identity := revoke (nd_identity st) t\<rparr>))"
  using revoked by (auto simp: keeps_def modE_def)

lemma handle_keeps: "keeps P (handle E M ep)"
  by (cases ep; simp only: handle.simps; (rule bans_keep)?; (unfold handler_defs Let_def)?;
      (intro conjI impI keeps_intros frame_intros)?)

end

definition guard_is :: "replay_guard \<Rightarrow> ('d, 's, 'w) node \<Rightarrow> bool" where
  "guard_is g st \<longleftrightarrow> nd_replays st = g"

definition jobs_are :: "job_manager \<Rightarrow> ('d, 's, 'w) node \<Rightarrow> bool" where
  "jobs_are js st \<longleftrightarrow> nd_jobs st = js"

interpretation guard_frame: node_frame "guard_is g" for g
  by unfold_locales (simp_all add: guard_is_def)

interpretation jobs_frame: core_frame "jobs_are js" for js
  by unfold_locales (simp_all add: jobs_are_def)

section \<open>Only authentic requests have an effect\<close>

definition signer_ok :: "('d, 's, 'w, 'c, 'k) env \<Rightarrow> signed \<Rightarrow> ('d, 's, 'w) node \<Rightarrow> int \<Rightarrow> bool" where
  "signer_ok E rq st ts \<longleftrightarrow>
     (\<exists>k. signing_key (e_aead E) (nd_identity st) = Inr (Some k) \<and>
        header_text (rq_signature rq) = signature k (rq_method rq) (rq_path rq) (header_text (rq_timestamp rq))
          (header_text (rq_nonce rq)) (rq_body rq)) \<and>
     header_text (rq_node rq) = node_id (ident (nd_identity st)) \<and> \<not> missing_header rq \<and>
     py_int_of_str (header_text (rq_timestamp rq)) = Some ts"

definition authentic :: "('d, 's, 'w, 'c, 'k) env \<Rightarrow> moment \<Rightarrow> signed \<Rightarrow> ('d, 's, 'w) node \<Rightarrow> bool" where
  "authentic E M rq st \<longleftrightarrow>
     (\<exists>ts. signer_ok E rq st ts \<and> \<bar>mo_now M - ts\<bar> \<le> window (nd_replays st) \<and> nonce_ok (header_text (rq_nonce rq)) \<and>
        dget (seen (prune (nd_replays st) (mo_now M))) (header_text (rq_nonce rq)) = None)"

lemma accept_iff:
  "(\<exists>u g'. accept g nonce ts now = (Inr u, g')) \<longleftrightarrow>
   \<bar>now - ts\<bar> \<le> window g \<and> nonce_ok nonce \<and> dget (seen (prune g now)) nonce = None"
  by (auto simp: accept_def Let_def)

lemma accept_Inl_value: "accept g nonce ts now = (Inl e, g') \<Longrightarrow> \<exists>m. e = NodeSecurityError m"
  by (auto simp: accept_def Let_def split: if_splits)

lemma verified_cases:
  "verified k rq = Inr ts \<longleftrightarrow>
     py_int_of_str (header_text (rq_timestamp rq)) = Some ts \<and>
     header_text (rq_signature rq) = signature k (rq_method rq) (rq_path rq) (header_text (rq_timestamp rq))
       (header_text (rq_nonce rq)) (rq_body rq)"
  "verified k rq = Inl f \<Longrightarrow> (\<exists>m. f = Http 401 m) \<or>
     f = Crash type_error \<and> \<not> list_all is_ascii (header_text (rq_signature rq))"
  using signature_ascii [of k "rq_method rq" "rq_path rq" "header_text (rq_timestamp rq)" "header_text (rq_nonce rq)"
      "rq_body rq"]
  by (auto simp: verified_def verify_signature_def compare_digest_def refused_def is_value_error_def sec_exc_def
      split: option.splits if_splits)

lemma signer_ok_verified:
  "signer_ok E rq st ts \<longleftrightarrow>
     (\<exists>k. signing_key (e_aead E) (nd_identity st) = Inr (Some k) \<and> verified k rq = Inr ts) \<and>
     header_text (rq_node rq) = node_id (ident (nd_identity st)) \<and> \<not> missing_header rq"
  by (auto simp: signer_ok_def verified_cases(1))

text \<open>The ways a signed request ends: at the guard, or before it.\<close>

lemma signed_request_Inr:
  "signed_request E M rq st = (Inr n, st') \<longleftrightarrow>
   (\<exists>ts g. n = node_id (ident (nd_identity st)) \<and> signer_ok E rq st ts \<and>
      accept (nd_replays st) (header_text (rq_nonce rq)) ts (mo_now M) = (Inr (), g) \<and> st' = st\<lparr>nd_replays := g\<rparr>)"
  by (auto simp: signed_request_def signer_ok_verified eff_simps bindE_def sec_crash_def accept_nonce_def
      split: sum.splits option.splits prod.splits if_splits)

lemma signed_request_Inl:
  assumes "signed_request E M rq st = (Inl f, st')"
  shows "(st' = st \<or> (\<exists>ts e g. signer_ok E rq st ts \<and>
        accept (nd_replays st) (header_text (rq_nonce rq)) ts (mo_now M) = (Inl e, g) \<and> st' = st\<lparr>nd_replays := g\<rparr>)) \<and>
    ((\<exists>m. f = Http 401 m) \<or>
     (\<exists>e. signing_key (e_aead E) (nd_identity st) = Inl e \<and> f = Crash (sec_exc e)) \<or>
     f = Crash type_error \<and> \<not> list_all is_ascii (header_text (rq_signature rq)))"
proof (cases "missing_header rq")
  case True
  with assms show ?thesis by (auto simp: signed_request_def fail_def)
next
  case present: False
  show ?thesis
  proof (cases "signing_key (e_aead E) (nd_identity st)")
    case (Inl e)
    with assms present show ?thesis by (simp add: signed_request_def eff_simps bindE_def sec_crash_def)
  next
    case (Inr key)
    show ?thesis
    proof (cases "\<exists>k. key = Some k \<and> header_text (rq_node rq) = node_id (ident (nd_identity st))")
      case False
      with assms present Inr show ?thesis
        by (auto simp: signed_request_def eff_simps bindE_def sec_crash_def split: option.splits)
    next
      case True
      then obtain k where k: "key = Some k" "header_text (rq_node rq) = node_id (ident (nd_identity st))" by blast
      show ?thesis
      proof (cases "verified k rq")
        case (Inl e)
        with assms present Inr k verified_cases(2) [OF Inl] show ?thesis
          by (auto simp: signed_request_def eff_simps bindE_def sec_crash_def)
      next
        case ts: (Inr ts)
        then have ok: "signer_ok E rq st ts" using Inr k present by (simp add: signer_ok_def verified_cases(1))
        obtain r g where a: "accept (nd_replays st) (header_text (rq_nonce rq)) ts (mo_now M) = (r, g)" by fastforce
        have run: "signed_request E M rq st = (case r of Inl e \<Rightarrow> (Inl (refused e), st\<lparr>nd_replays := g\<rparr>)
            | Inr _ \<Rightarrow> (Inr (node_id (ident (nd_identity st))), st\<lparr>nd_replays := g\<rparr>))"
          using present Inr k ts a
          by (cases r) (simp_all add: signed_request_def eff_simps bindE_def sec_crash_def accept_nonce_def)
        with assms obtain e where e: "r = Inl e" "f = refused e" "st' = st\<lparr>nd_replays := g\<rparr>"
          by (auto split: sum.splits)
        with accept_Inl_value a obtain m where "e = NodeSecurityError m" by blast
        with e a ok show ?thesis by (auto simp: refused_def is_value_error_def sec_exc_def)
      qed
    qed
  qed
qed

text \<open>
  C1: A command has an effect only when it is authentic: it names the node, carries the HMAC of its method, path,
  timestamp, nonce and body under the key of the registration, and has a fresh nonce inside the window. Then the handler
  runs with the nonce on record. Any other request leaves the node as it is, up to the pruning of expired nonces, and is
  answered with 401; the two exceptions are an identity that cannot be unsealed and a signature outside ASCII, which
  escape as uncaught errors.
\<close>

theorem commands_authentic:
  assumes "respond E M (Signed rq ep) st = (r, st')"
  shows "if authentic E M rq st
    then \<exists>g. dget (seen g) (header_text (rq_nonce rq)) \<noteq> None \<and> handle E M ep (st\<lparr>nd_replays := g\<rparr>) = (r, st')
    else st' \<in> {st, st\<lparr>nd_replays := prune (nd_replays st) (mo_now M)\<rparr>} \<and>
      ((\<exists>m. r = Inl (Http 401 m)) \<or>
       (\<exists>e. signing_key (e_aead E) (nd_identity st) = Inl e \<and> r = Inl (Crash (sec_exc e))) \<or>
       r = Inl (Crash type_error) \<and> \<not> list_all is_ascii (header_text (rq_signature rq)))"
proof (cases "signed_request E M rq st")
  case (Pair s st1)
  show ?thesis
  proof (cases s)
    case (Inr n)
    from Pair [unfolded Inr] obtain ts g where ok: "signer_ok E rq st ts"
      and a: "accept (nd_replays st) (header_text (rq_nonce rq)) ts (mo_now M) = (Inr (), g)"
      and st1: "st1 = st\<lparr>nd_replays := g\<rparr>"
      by (auto simp: signed_request_Inr)
    have "authentic E M rq st" using ok a accept_Inr(1-3) [OF a] by (auto simp: authentic_def)
    moreover have "dget (seen g) (header_text (rq_nonce rq)) = Some ts" using accept_Inr(4) [OF a] by simp
    moreover have "handle E M ep (st\<lparr>nd_replays := g\<rparr>) = (r, st')"
      using assms Pair Inr st1 by (simp add: respond_def bindE_def)
    ultimately show ?thesis by auto
  next
    case (Inl f)
    note ending = signed_request_Inl [OF Pair [unfolded Inl]]
    have r: "r = Inl f" "st' = st1" using assms Pair Inl by (simp_all add: respond_def bindE_def)
    have "\<not> authentic E M rq st"
    proof
      assume "authentic E M rq st"
      then obtain ts where ok: "signer_ok E rq st ts"
        and "\<exists>u g'. accept (nd_replays st) (header_text (rq_nonce rq)) ts (mo_now M) = (Inr u, g')"
        unfolding authentic_def accept_iff by blast
      then obtain g where "signed_request E M rq st = (Inr (node_id (ident (nd_identity st))), st\<lparr>nd_replays := g\<rparr>)"
        unfolding signed_request_Inr by auto
      with Pair Inl show False by simp
    qed
    moreover have "st1 \<in> {st, st\<lparr>nd_replays := prune (nd_replays st) (mo_now M)\<rparr>}"
      using ending accept_Inl by fastforce
    ultimately show ?thesis using ending r by auto
  qed
qed

end
