(* ===== verification/Node_Life.thy ===== *)
theory Node_Life
  imports App_Props
begin

text \<open>
  The life of a node over many requests, job tasks and restarts of its process: \<open>new_process\<close> is the module level of
  \<^verbatim>\<open>node_agent/app.py\<close>, which builds its objects from what the last process left on disk, and \<open>reboot\<close> also runs the
  start of the lifespan.
\<close>

definition start_hash :: "('d, 's, 'w, 'c, 'k) env \<Rightarrow> string option" where
  "start_hash E = (if registration_hash (e_cfg E) = [] then None else Some (registration_hash (e_cfg E)))"

definition new_process ::
  "('d, 's, 'w, 'c, 'k) env \<Rightarrow> moment \<Rightarrow> ('d, 's, 'w) node \<Rightarrow> fault + ('d, 's, 'w) node" where
  "new_process E M st =
     bindR (sec_crash (open_identity (disk_of (nd_identity st)) (start_hash E) (mo_key M) (mo_nonce M))) (\<lambda>ids.
     bindR (sec_crash (reopen_guard (nd_replays st))) (\<lambda>g. Inr
       (st\<lparr>nd_identity := ids, nd_replays := g, nd_jobs := new_job_manager default_history_limit,
           nd_mgr := new_manager (store (nd_mgr st)),
           nd_limiter := (nd_limiter st)\<lparr>lm_limits := [], lm_last_error := None\<rparr>\<rparr>)))"

definition reboot :: "('d, 's, 'w, 'c, 'k) env \<Rightarrow> moment \<Rightarrow> ('d, 's, 'w, unit) app" where
  "reboot E M st = (case new_process E M st of Inl f \<Rightarrow> (Inl f, st) | Inr st' \<Rightarrow> lifespan_start E M st')"

datatype node_event = Call moment request | Task moment string core_action | Reboot moment

fun node_step :: "('d, 's, 'w, 'c, 'k) env \<Rightarrow> node_event \<Rightarrow> ('d, 's, 'w) node \<Rightarrow> ('d, 's, 'w) node" where
  "node_step E (Call M req) st = snd (respond E M req st)"
| "node_step E (Task M jid a) st = snd (run_job E M jid a st)"
| "node_step E (Reboot M) st = snd (reboot E M st)"

text \<open>The nonces and timestamps of the commands that reach their handlers.\<close>

fun carried_out :: "('d, 's, 'w, 'c, 'k) env \<Rightarrow> ('d, 's, 'w) node \<Rightarrow> node_event \<Rightarrow> (string \<times> int) list" where
  "carried_out E st (Call M (Signed rq ep)) =
     (case (fst (signed_request E M rq st), py_int_of_str (header_text (rq_timestamp rq))) of
        (Inr _, Some ts) \<Rightarrow> [(header_text (rq_nonce rq), ts)] | _ \<Rightarrow> [])"
| "carried_out E st ev = []"

fun commands :: "('d, 's, 'w, 'c, 'k) env \<Rightarrow> ('d, 's, 'w) node \<Rightarrow> node_event list \<Rightarrow> (string \<times> int) list" where
  "commands E st [] = []"
| "commands E st (ev # evs) = carried_out E st ev @ commands E (node_step E ev st) evs"

fun times_ok :: "int \<Rightarrow> node_event list \<Rightarrow> bool" where
  "times_ok t [] = True"
| "times_ok t (Call M req # evs) = (t \<le> mo_now M \<and> times_ok (mo_now M) evs)"
| "times_ok t (_ # evs) = times_ok t evs"

section \<open>No command is carried out twice\<close>

lemma reboot_guard:
  assumes "guard_ok (nd_replays st)"
  shows "nd_replays (snd (reboot E M st)) = nd_replays st \<or>
    reopen_guard (nd_replays st) = Inr (nd_replays (snd (reboot E M st)))"
proof (cases "new_process E M st")
  case (Inl f)
  then show ?thesis by (simp add: reboot_def)
next
  case (Inr st')
  then have "reopen_guard (nd_replays st) = Inr (nd_replays st')"
    by (auto simp: new_process_def bindR_Inr_conv sec_crash_def split: sum.splits)
  moreover have "nd_replays (snd (lifespan_start E M st')) = nd_replays st'"
    using keepsD [OF guard_frame.lifespan_keeps(1), of "nd_replays st'" st' E] by (simp add: guard_is_def)
  ultimately show ?thesis using Inr by (simp add: reboot_def)
qed

lemma call_guard:
  shows "nd_replays (node_step E (Call M req) st) = nd_replays st \<and> carried_out E st (Call M req) = [] \<or>
    (\<exists>nonce ts r g. accept (nd_replays st) nonce ts (mo_now M) = (r, g) \<and> nd_replays (node_step E (Call M req) st) = g \<and>
       carried_out E st (Call M req) = (case r of Inl _ \<Rightarrow> [] | Inr _ \<Rightarrow> [(nonce, ts)]))"
proof (cases req)
  case (Register scheme panel token)
  then show ?thesis by (simp add: respond_def register_node_def Let_def split: sum.split exc.split prod.split)
next
  case (Signed rq ep)
  obtain r st1 where run: "signed_request E M rq st = (r, st1)" by fastforce
  show ?thesis
  proof (cases r)
    case (Inr n)
    from run [unfolded Inr] obtain ts g where ok: "signer_ok E rq st ts"
      and a: "accept (nd_replays st) (header_text (rq_nonce rq)) ts (mo_now M) = (Inr (), g)"
      and st1: "st1 = st\<lparr>nd_replays := g\<rparr>"
      by (auto simp: signed_request_Inr)
    have "nd_replays (snd (handle E M ep st1)) = g"
      using keepsD [OF guard_frame.handle_keeps, of g st1 E M ep] by (simp add: guard_is_def st1)
    then have "nd_replays (node_step E (Call M req) st) = g"
      "carried_out E st (Call M req) = [(header_text (rq_nonce rq), ts)]"
      using Signed run Inr ok by (simp_all add: respond_def bindE_def signer_ok_def)
    with a show ?thesis
      by (intro disjI2 exI [of _ "header_text (rq_nonce rq)"] exI [of _ ts] exI [of _ "Inr ()"] exI [of _ g]) simp
  next
    case (Inl f)
    have "node_step E (Call M req) st = st1" "carried_out E st (Call M req) = []"
      using Signed run Inl by (simp_all add: respond_def bindE_def)
    with signed_request_Inl [OF run [unfolded Inl]] show ?thesis by fastforce
  qed
qed

text \<open>A life of the node is a life of its replay guard.\<close>

lemma commands_guard:
  assumes "guard_ok (nd_replays st)" "times_ok t evs"
  shows "\<exists>gevs. clock_ok t gevs \<and> run_guard accept reopen_guard (nd_replays st) gevs = Inr (commands E st evs)"
  using assms
proof (induction evs arbitrary: st t)
  case Nil
  have "clock_ok t [] \<and> run_guard accept reopen_guard (nd_replays st) [] = Inr (commands E st [])" by simp
  then show ?case by blast
next
  case (Cons ev evs)
  show ?case
  proof (cases ev)
    case (Call M req)
    with Cons.prems have t: "t \<le> mo_now M" "times_ok (mo_now M) evs" by simp_all
    from call_guard [of E M req st] show ?thesis
    proof (elim disjE exE conjE)
      assume same: "nd_replays (node_step E (Call M req) st) = nd_replays st" "carried_out E st (Call M req) = []"
      from Cons.IH [of "node_step E ev st", OF _ t(2)] Cons.prems(1) same Call obtain gevs where
        "clock_ok (mo_now M) gevs" "run_guard accept reopen_guard (nd_replays st) gevs = Inr (commands E st (ev # evs))"
        by auto
      moreover have "clock_ok t gevs" using calculation(1) t(1) by (induction gevs rule: clock_ok.induct) auto
      ultimately show ?thesis by blast
    next
      fix nonce ts r g
      assume a: "accept (nd_replays st) nonce ts (mo_now M) = (r, g)"
        and g: "nd_replays (node_step E (Call M req) st) = g"
        and out: "carried_out E st (Call M req) = (case r of Inl _ \<Rightarrow> [] | Inr _ \<Rightarrow> [(nonce, ts)])"
      have "guard_ok g" using accept_guard_ok [OF Cons.prems(1), of nonce ts "mo_now M"] a by simp
      with Cons.IH [of "node_step E ev st", OF _ t(2)] g Call obtain gevs where
        "clock_ok (mo_now M) gevs" "run_guard accept reopen_guard g gevs = Inr (commands E (node_step E ev st) evs)"
        by auto
      then have "clock_ok t (Request nonce ts (mo_now M) # gevs) \<and>
          run_guard accept reopen_guard (nd_replays st) (Request nonce ts (mo_now M) # gevs) = Inr (commands E st (ev # evs))"
        using t a out Call by (cases r) simp_all
      then show ?thesis by blast
    qed
  next
    case (Task M jid a)
    have "nd_replays (node_step E ev st) = nd_replays st"
      using keepsD [OF guard_frame.run_job_keeps, of "nd_replays st" st E M jid a] Task by (simp add: guard_is_def)
    with Cons.IH [of "node_step E ev st" t] Cons.prems Task show ?thesis by auto
  next
    case (Reboot M)
    from reboot_guard [OF Cons.prems(1), of E M] show ?thesis
    proof
      assume "nd_replays (snd (reboot E M st)) = nd_replays st"
      with Cons.IH [of "node_step E ev st" t] Cons.prems Reboot show ?thesis by auto
    next
      assume re: "reopen_guard (nd_replays st) = Inr (nd_replays (snd (reboot E M st)))"
      with guard.reopen_ok [OF Cons.prems(1)] have "guard_ok (nd_replays (snd (reboot E M st)))" by auto
      with Cons.IH [of "node_step E ev st" t] Cons.prems Reboot obtain gevs where
        "clock_ok t gevs" "run_guard accept reopen_guard (nd_replays (snd (reboot E M st))) gevs =
          Inr (commands E (node_step E ev st) evs)" by auto
      with re Reboot have "clock_ok t (Security.Restart # gevs) \<and>
          run_guard accept reopen_guard (nd_replays st) (Security.Restart # gevs) = Inr (commands E st (ev # evs))"
        by simp
      then show ?thesis by blast
    qed
  qed
qed

text \<open>
  C2: Over the whole life of a node, any requests, job tasks and restarts of its process in any order, under a clock
  that does not run backwards, no signed command is carried out twice: no nonce and timestamp reach a handler a second
  time, and a nonce that reached one does so again only with a later timestamp, because the life of the node refines a
  life of its replay guard. (With a clock that is set back it may: \<open>clock_set_back_replays\<close>.)
\<close>

theorem no_command_twice:
  assumes "guard_ok (nd_replays st)" "times_ok t evs"
  shows "distinct (commands E st evs)
    \<and> sorted_wrt (\<lambda>p q. fst p = fst q \<longrightarrow> snd p < snd q) (commands E st evs)"
proof -
  from commands_guard [OF assms] obtain gevs where
    "clock_ok t gevs" "run_guard accept reopen_guard (nd_replays st) gevs = Inr (commands E st evs)" by blast
  with guard.run_increasing [OF assms(1)] have
    "sorted_wrt (\<lambda>p q. fst p = fst q \<longrightarrow> snd p < snd q) (commands E st evs)" by force
  with increasing_distinct show ?thesis by blast
qed

end
