(* ===== verification/Usage.thy ===== *)
theory Usage
  imports Core_Types
begin

text \<open>
  \<^verbatim>\<open>cores/stats.py\<close> and \<^verbatim>\<open>cores/quota.py\<close>: the trackers that turn cumulative counters into deltas, the
  store of per-user totals with its contract (locale \<open>quota_store\<close>) and the service that folds usage
  records into one quota per user. Counters are unbounded integers, as in the code.
\<close>

section \<open>Delta tracker\<close>

type_synonym 'k delta_tracker = "('k, int \<times> int) dict"

definition counter_delta :: "int \<Rightarrow> int \<Rightarrow> int" where
  "counter_delta current previous =
     (let c = max 0 current; p = max 0 previous in if p \<le> c then c - p else c)"

definition baseline_of :: "'k delta_tracker \<Rightarrow> 'k \<Rightarrow> int \<times> int" where
  "baseline_of t k = (case dget t k of None \<Rightarrow> (0, 0) | Some b \<Rightarrow> b)"

definition observe :: "'k \<Rightarrow> int \<Rightarrow> int \<Rightarrow> 'k delta_tracker \<Rightarrow> (int \<times> int) \<times> 'k delta_tracker" where
  "observe k uplink downlink t =
     (let (base_up, base_down) = baseline_of t k;
          up = max 0 uplink; down = max 0 downlink
      in ((counter_delta up base_up, counter_delta down base_down), dput k (up, down) t))"

definition forget :: "'k \<Rightarrow> 'k delta_tracker \<Rightarrow> 'k delta_tracker" where
  "forget k t = dpop k t"

definition baseline_snapshot :: "'k delta_tracker \<Rightarrow> 'k list option \<Rightarrow> ('k, int \<times> int) dict" where
  "baseline_snapshot t keys =
     (case keys of None \<Rightarrow> t | Some ks \<Rightarrow> filter (\<lambda>(k, v). k \<in> set ks) t)"

definition restore_baseline :: "('k, int \<times> int) dict \<Rightarrow> 'k delta_tracker \<Rightarrow> 'k delta_tracker" where
  "restore_baseline baseline t = dmerge t baseline"

section \<open>Session tracker\<close>

type_synonym 'k session_tracker = "('k, int \<times> int) dict"

definition poll_session ::
  "'k \<Rightarrow> int \<Rightarrow> int \<Rightarrow> 'k session_tracker \<Rightarrow> (int \<times> int) \<times> 'k session_tracker" where
  "poll_session k uplink downlink t =
     (let (last_up, last_down) = baseline_of t k;
          up = max 0 uplink; down = max 0 downlink
      in ((counter_delta up last_up, counter_delta down last_down), dput k (up, down) t))"

definition session_snapshot :: "'k session_tracker \<Rightarrow> ('k, int \<times> int) dict" where
  "session_snapshot t = t"

definition restore_sessions :: "('k, int \<times> int) dict \<Rightarrow> 'k session_tracker \<Rightarrow> 'k session_tracker" where
  "restore_sessions snapshot t = dmerge t snapshot"

definition close_session ::
  "'k \<Rightarrow> int \<Rightarrow> int \<Rightarrow> 'k session_tracker \<Rightarrow> (int \<times> int) \<times> 'k session_tracker" where
  "close_session k final_up final_down t =
     (let (last_up, last_down) = baseline_of t k
      in ((counter_delta final_up last_up, counter_delta final_down last_down), dpop k t))"

definition active_sessions :: "'k session_tracker \<Rightarrow> 'k list" where
  "active_sessions t = dkeys t"

lemma counter_delta_nonneg: "0 \<le> counter_delta c p"
  by (simp add: counter_delta_def Let_def)

lemma counter_delta_simps:
  "0 \<le> c \<Longrightarrow> 0 \<le> p \<Longrightarrow> counter_delta c p = (if p \<le> c then c - p else c)"
  by (simp add: counter_delta_def Let_def)

lemma baseline_of_dput [simp]:
  "baseline_of (dput k v t) k' = (if k' = k then v else baseline_of t k')"
  by (simp add: baseline_of_def)

section \<open>Against the traffic that really passed\<close>

text \<open>
  A provider's counter as it grows, is reset by a restart of the provider, and is polled.
  \<open>passed\<close> is the traffic since the tracker first read the counter, \<open>reported\<close> the sum of the
  deltas.
\<close>

datatype traffic = Grow nat nat | Reset | Poll

record meter =
  tracker :: "string delta_tracker"
  count_up :: int
  count_down :: int
  passed :: "int \<times> int"
  reported :: "int \<times> int"

definition meter_step :: "string \<Rightarrow> traffic \<Rightarrow> meter \<Rightarrow> meter" where
  "meter_step k ev m =
     (case ev of
        Grow u d \<Rightarrow> m\<lparr>count_up := count_up m + int u, count_down := count_down m + int d,
          passed := (fst (passed m) + int u, snd (passed m) + int d)\<rparr>
      | Reset \<Rightarrow> m\<lparr>count_up := 0, count_down := 0\<rparr>
      | Poll \<Rightarrow>
          (let ((du, dd), t) = observe k (count_up m) (count_down m) (tracker m)
           in m\<lparr>tracker := t, reported := (fst (reported m) + du, snd (reported m) + dd)\<rparr>))"

definition new_meter :: meter where
  "new_meter = \<lparr>tracker = [], count_up = 0, count_down = 0, passed = (0, 0), reported = (0, 0)\<rparr>"

text \<open>Reported and not yet reported traffic never exceed what passed.\<close>

definition meter_ok :: "string \<Rightarrow> meter \<Rightarrow> bool" where
  "meter_ok k m \<longleftrightarrow> 0 \<le> count_up m \<and> 0 \<le> count_down m \<and>
     0 \<le> fst (baseline_of (tracker m) k) \<and> 0 \<le> snd (baseline_of (tracker m) k) \<and>
     fst (reported m) + counter_delta (count_up m) (fst (baseline_of (tracker m) k)) \<le> fst (passed m) \<and>
     snd (reported m) + counter_delta (count_down m) (snd (baseline_of (tracker m) k)) \<le> snd (passed m)"

definition meter_exact :: "string \<Rightarrow> meter \<Rightarrow> bool" where
  "meter_exact k m \<longleftrightarrow>
     0 \<le> fst (baseline_of (tracker m) k) \<and> fst (baseline_of (tracker m) k) \<le> count_up m \<and>
     0 \<le> snd (baseline_of (tracker m) k) \<and> snd (baseline_of (tracker m) k) \<le> count_down m \<and>
     fst (reported m) + (count_up m - fst (baseline_of (tracker m) k)) = fst (passed m) \<and>
     snd (reported m) + (count_down m - snd (baseline_of (tracker m) k)) = snd (passed m)"

lemma meter_step_ok: "meter_ok k m \<Longrightarrow> meter_ok k (meter_step k ev m)"
  by (cases "baseline_of (tracker m) k")
    (auto simp: meter_ok_def meter_step_def observe_def counter_delta_simps Let_def
      split: traffic.splits if_splits)

lemma meter_step_exact: "meter_exact k m \<Longrightarrow> ev \<noteq> Reset \<Longrightarrow> meter_exact k (meter_step k ev m)"
  by (cases "baseline_of (tracker m) k")
    (auto simp: meter_exact_def meter_step_def observe_def counter_delta_simps Let_def
      split: traffic.splits if_splits)

definition run_meter :: "string \<Rightarrow> traffic list \<Rightarrow> meter" where
  "run_meter k evs = fold (meter_step k) evs new_meter"

lemma new_meter_ok: "meter_ok k new_meter" "meter_exact k new_meter"
  by (simp_all add: meter_ok_def meter_exact_def new_meter_def baseline_of_def counter_delta_def Let_def)

lemma run_meter_ok: "meter_ok k (run_meter k evs)"
proof -
  have "meter_ok k m \<Longrightarrow> meter_ok k (fold (meter_step k) evs m)" for m
    by (induction evs arbitrary: m) (auto intro: meter_step_ok)
  then show ?thesis by (simp add: run_meter_def new_meter_ok)
qed

lemma run_meter_exact:
  assumes "Reset \<notin> set evs"
  shows "meter_exact k (run_meter k evs)"
proof -
  have "meter_exact k m \<Longrightarrow> Reset \<notin> set evs \<Longrightarrow> meter_exact k (fold (meter_step k) evs m)" for m
    by (induction evs arbitrary: m) (auto intro: meter_step_exact dest: not_sym)
  then show ?thesis using assms by (simp add: run_meter_def new_meter_ok)
qed

text \<open>
  C32: however a provider's counters grow, reset and are polled, the deltas the tracker emits
  add up to no more than the traffic that passed; and when the provider never resets, a poll
  leaves exactly the traffic that passed reported.
\<close>

theorem deltas_never_overcount:
  "fst (reported (run_meter k evs)) \<le> fst (passed (run_meter k evs)) \<and>
   snd (reported (run_meter k evs)) \<le> snd (passed (run_meter k evs)) \<and>
   (Reset \<notin> set evs \<longrightarrow> reported (run_meter k (evs @ [Poll])) = passed (run_meter k (evs @ [Poll])))"
proof (intro conjI impI)
  note ok = run_meter_ok [of k evs]
  have "0 \<le> counter_delta c p" for c p by (rule counter_delta_nonneg)
  with ok show "fst (reported (run_meter k evs)) \<le> fst (passed (run_meter k evs))"
    "snd (reported (run_meter k evs)) \<le> snd (passed (run_meter k evs))"
    unfolding meter_ok_def by (smt (verit))+
next
  assume "Reset \<notin> set evs"
  then have ex: "meter_exact k (run_meter k evs)" by (rule run_meter_exact)
  have "run_meter k (evs @ [Poll]) = meter_step k Poll (run_meter k evs)"
    by (simp add: run_meter_def)
  with ex show "reported (run_meter k (evs @ [Poll])) = passed (run_meter k (evs @ [Poll]))"
    by (cases "baseline_of (tracker (run_meter k evs)) k")
      (auto simp: meter_exact_def meter_step_def observe_def counter_delta_simps Let_def
        intro: prod_eqI)
qed

theorem deltas_never_overcount_witness:
  "reported (run_meter ''k'' ([Grow 5 7, Poll, Grow 1 1] @ [Poll])) =
   passed (run_meter ''k'' ([Grow 5 7, Poll, Grow 1 1] @ [Poll]))"
  using deltas_never_overcount [of "''k''" "[Grow 5 7, Poll, Grow 1 1]"] by simp

fun poll_all :: "'k \<Rightarrow> (int \<times> int) list \<Rightarrow> 'k session_tracker \<Rightarrow> (int \<times> int) \<times> 'k session_tracker" where
  "poll_all k [] t = ((0, 0), t)"
| "poll_all k ((u, d) # rs) t =
     (let ((du, dd), t1) = poll_session k u d t; ((su, sd), t2) = poll_all k rs t1
      in ((du + su, dd + sd), t2))"

fun rising :: "int \<times> int \<Rightarrow> (int \<times> int) list \<Rightarrow> bool" where
  "rising p [] = True"
| "rising p (r # rs) = (fst p \<le> fst r \<and> snd p \<le> snd r \<and> rising r rs)"

lemma poll_all_rising:
  assumes "rising (baseline_of t k) rs" "0 \<le> fst (baseline_of t k)" "0 \<le> snd (baseline_of t k)"
  shows "poll_all k rs t = ((fst (last (baseline_of t k # rs)) - fst (baseline_of t k),
      snd (last (baseline_of t k # rs)) - snd (baseline_of t k)), snd (poll_all k rs t)) \<and>
    baseline_of (snd (poll_all k rs t)) k = last (baseline_of t k # rs)"
  using assms
proof (induction rs arbitrary: t)
  case (Cons r rs)
  obtain u d where r: "r = (u, d)" by fastforce
  let ?t1 = "dput k (u, d) t"
  have step: "poll_session k u d t = ((u - fst (baseline_of t k), d - snd (baseline_of t k)), ?t1)"
    using Cons.prems r
    by (cases "baseline_of t k") (simp add: poll_session_def counter_delta_simps)
  have "rising (baseline_of ?t1 k) rs" "0 \<le> fst (baseline_of ?t1 k)" "0 \<le> snd (baseline_of ?t1 k)"
    using Cons.prems r by auto
  from Cons.IH [OF this] step r show ?case
    by (auto simp: Let_def split: prod.splits)
qed (simp add: prod_eq_iff)

lemma rising_snoc:
  "rising p (rs @ [x]) \<Longrightarrow> rising p rs \<and> fst (last (p # rs)) \<le> fst x \<and> snd (last (p # rs)) \<le> snd x \<and>
     fst p \<le> fst (last (p # rs)) \<and> snd p \<le> snd (last (p # rs))"
  by (induction p rs rule: rising.induct) fastforce+

text \<open>
  A session's interim deltas and the final delta at its disconnect add up to the final
  counter, whatever was polled before, as long as the counters do not decrease; the session
  is forgotten, so that a reconnection starts from zero.
\<close>

theorem session_counts_once:
  assumes "rising (0, 0) (rs @ [(u, d)])" "dget t k = None"
  shows "let ((pu, pd), t1) = poll_all k rs t; ((cu, cd), t2) = close_session k u d t1
    in pu + cu = u \<and> pd + cd = d \<and> dget t2 k = None"
proof -
  have b: "baseline_of t k = (0, 0)" using assms(2) by (simp add: baseline_of_def)
  have r: "rising (0, 0) rs" "fst (last ((0, 0) # rs)) \<le> u" "snd (last ((0, 0) # rs)) \<le> d"
    "0 \<le> fst (last ((0, 0) # rs))" "0 \<le> snd (last ((0, 0) # rs))"
    using rising_snoc [OF assms(1)] by simp_all
  from poll_all_rising [of t k rs] b r(1) have p:
    "poll_all k rs t = ((fst (last ((0, 0) # rs)), snd (last ((0, 0) # rs))), snd (poll_all k rs t))"
    "baseline_of (snd (poll_all k rs t)) k = last ((0, 0) # rs)"
    by simp_all
  obtain t1 where t1: "poll_all k rs t = ((fst (last ((0, 0) # rs)), snd (last ((0, 0) # rs))), t1)"
    "baseline_of t1 k = last ((0, 0) # rs)"
    using p by metis
  then show ?thesis
    using r by (cases "last ((0, 0) # rs)")
      (simp add: close_session_def counter_delta_simps)
qed

theorem session_counts_once_witness:
  "let ((pu, pd), t1) = poll_all ''s'' [(5, 6), (9, 8)] []; ((cu, cd), t2) = close_session ''s'' 10 12 t1
    in pu + cu = 10 \<and> pd + cd = 12 \<and> dget t2 ''s'' = None"
  by (rule session_counts_once) simp_all

section \<open>Per-user totals\<close>

record quota_entry =
  qe_user_id :: int
  qe_uplink_bytes :: int
  qe_downlink_bytes :: int

definition empty_entry :: "int \<Rightarrow> quota_entry" where
  "empty_entry uid = \<lparr>qe_user_id = uid, qe_uplink_bytes = 0, qe_downlink_bytes = 0\<rparr>"

definition total_bytes :: "quota_entry \<Rightarrow> int" where
  "total_bytes e = qe_uplink_bytes e + qe_downlink_bytes e"

definition bump_entry :: "int \<Rightarrow> int \<Rightarrow> quota_entry \<Rightarrow> quota_entry" where
  "bump_entry up down e =
     e\<lparr>qe_uplink_bytes := qe_uplink_bytes e + up, qe_downlink_bytes := qe_downlink_bytes e + down\<rparr>"

type_synonym quota_memory = "(int, quota_entry) dict"

definition quota_get :: "quota_memory \<Rightarrow> int \<Rightarrow> quota_entry option" where
  "quota_get s uid = dget s uid"

definition quota_add :: "int \<Rightarrow> int \<Rightarrow> int \<Rightarrow> quota_memory \<Rightarrow> quota_entry \<times> quota_memory" where
  "quota_add uid up down s =
     (let e = bump_entry up down (case dget s uid of None \<Rightarrow> empty_entry uid | Some e \<Rightarrow> e)
      in (e, dput uid e s))"

definition quota_all :: "quota_memory \<Rightarrow> quota_entry list" where
  "quota_all s = map snd s"

definition quota_reset :: "int \<Rightarrow> quota_memory \<Rightarrow> quota_memory" where
  "quota_reset uid s = dput uid (empty_entry uid) s"

text \<open>The port \<^verbatim>\<open>QuotaStore\<close>: the operations the service calls, on a store \<open>'s\<close>.\<close>

record 's quota_ops =
  qo_get :: "'s \<Rightarrow> int \<Rightarrow> quota_entry option"
  qo_add :: "int \<Rightarrow> int \<Rightarrow> int \<Rightarrow> 's \<Rightarrow> quota_entry \<times> 's"
  qo_reset :: "int \<Rightarrow> 's \<Rightarrow> 's"

definition memory_quota :: "quota_memory quota_ops" where
  "memory_quota = \<lparr>qo_get = quota_get, qo_add = quota_add, qo_reset = quota_reset\<rparr>"

section \<open>The quota service\<close>

record quota_view =
  qv_user_id :: int
  qv_uplink_bytes :: int
  qv_downlink_bytes :: int
  qv_total_bytes :: int
  qv_limit_bytes :: "int option"
  qv_remaining_bytes :: "int option"
  qv_exceeded :: bool

record applied_usage =
  au_user_id :: int
  au_applied_bytes :: int
  au_new_total_bytes :: int
  au_limit_bytes :: "int option"
  au_exceeded :: bool
  au_cores :: "string list"

record dropped_record =
  dr_record :: usage_record
  dr_reason :: string

type_synonym owners = "(string \<times> string, int) dict"
type_synonym limits = "(int, int) dict"

definition set_limit :: "int \<Rightarrow> int option \<Rightarrow> limits \<Rightarrow> limits" where
  "set_limit uid limit ls = (case limit of None \<Rightarrow> dpop uid ls | Some n \<Rightarrow> dput uid n ls)"

definition owner_of :: "owners \<Rightarrow> usage_record \<Rightarrow> int option" where
  "owner_of owners r = dget owners (ur_core_id r, ur_account_id r)"

definition exceeded :: "int option \<Rightarrow> int \<Rightarrow> bool" where
  "exceeded limit used = (case limit of None \<Rightarrow> False | Some n \<Rightarrow> n \<le> used)"

type_synonym delta_map = "(int, int \<times> int \<times> string list) dict"

text \<open>The first loop: the batch's deltas per owner, and the records nobody owns.\<close>

definition add_delta :: "int \<Rightarrow> usage_record \<Rightarrow> delta_map \<Rightarrow> delta_map" where
  "add_delta uid r deltas =
     (let (up, down, cores) = (case dget deltas uid of None \<Rightarrow> (0, 0, []) | Some d \<Rightarrow> d)
      in dput uid (up + ur_uplink_bytes r, down + ur_downlink_bytes r,
           List.insert (ur_core_id r) cores) deltas)"

fun collect_deltas ::
  "owners \<Rightarrow> usage_record list \<Rightarrow> delta_map \<Rightarrow> delta_map \<times> dropped_record list" where
  "collect_deltas owners [] deltas = (deltas, [])"
| "collect_deltas owners (r # rs) deltas =
     (case owner_of owners r of
        None \<Rightarrow>
          (let (ds, dropped) = collect_deltas owners rs deltas
           in (ds, \<lparr>dr_record = r, dr_reason = ''no panel user owns '' @ ur_core_id r @ '':'' @
                 ur_account_id r\<rparr> # dropped))
      | Some uid \<Rightarrow> collect_deltas owners rs (add_delta uid r deltas))"

text \<open>The second loop, over the sorted deltas.\<close>

fun apply_deltas ::
  "'s quota_ops \<Rightarrow> limits \<Rightarrow> (int \<times> int \<times> int \<times> string list) list \<Rightarrow> 's \<Rightarrow> applied_usage list \<times> 's" where
  "apply_deltas Q limits [] s = ([], s)"
| "apply_deltas Q limits ((uid, up, down, cores) # rest) s =
     (if up = 0 \<and> down = 0 then apply_deltas Q limits rest s
      else
        (let (e, s1) = qo_add Q uid up down s;
             limit = dget limits uid;
             (applied, s2) = apply_deltas Q limits rest s1
         in (\<lparr>au_user_id = uid, au_applied_bytes = up + down, au_new_total_bytes = total_bytes e,
              au_limit_bytes = limit, au_exceeded = exceeded limit (total_bytes e),
              au_cores = cores\<rparr> # applied, s2)))"

definition apply_usage ::
  "'s quota_ops \<Rightarrow> limits \<Rightarrow> usage_record list \<Rightarrow> owners \<Rightarrow> 's \<Rightarrow>
   (applied_usage list \<times> dropped_record list) \<times> 's" where
  "apply_usage Q limits records owners s =
     (let (deltas, dropped) = collect_deltas owners records [];
          (applied, s') = apply_deltas Q limits (sort_key fst deltas) s
      in ((applied, dropped), s'))"

definition entry_of :: "'s quota_ops \<Rightarrow> 's \<Rightarrow> int \<Rightarrow> quota_entry" where
  "entry_of Q s uid = (case qo_get Q s uid of None \<Rightarrow> empty_entry uid | Some e \<Rightarrow> e)"

definition get_view :: "'s quota_ops \<Rightarrow> limits \<Rightarrow> 's \<Rightarrow> int \<Rightarrow> int option \<Rightarrow> quota_view" where
  "get_view Q limits s uid limit_bytes =
     (let e = entry_of Q s uid;
          limit = (case limit_bytes of None \<Rightarrow> dget limits uid | Some n \<Rightarrow> Some n)
      in \<lparr>qv_user_id = uid, qv_uplink_bytes = qe_uplink_bytes e,
          qv_downlink_bytes = qe_downlink_bytes e, qv_total_bytes = total_bytes e,
          qv_limit_bytes = limit,
          qv_remaining_bytes = map_option (\<lambda>n. max 0 (n - total_bytes e)) limit,
          qv_exceeded = exceeded limit (total_bytes e)\<rparr>)"

definition reset_quota :: "'s quota_ops \<Rightarrow> int \<Rightarrow> 's \<Rightarrow> quota_entry \<times> 's" where
  "reset_quota Q uid s = (let s' = qo_reset Q uid s in (entry_of Q s' uid, s'))"

section \<open>The contract of a quota store, and what the service does over it\<close>

definition entry_usage :: "quota_entry \<Rightarrow> int \<times> int" where
  "entry_usage e = (qe_uplink_bytes e, qe_downlink_bytes e)"

definition pair_add :: "int \<times> int \<Rightarrow> int \<times> int \<Rightarrow> int \<times> int" where
  "pair_add a b = (fst a + fst b, snd a + snd b)"

definition usage_of :: "'s quota_ops \<Rightarrow> 's \<Rightarrow> int \<Rightarrow> int \<times> int" where
  "usage_of Q s uid = entry_usage (entry_of Q s uid)"

text \<open>What a batch holds for a user.\<close>

definition owned_up :: "owners \<Rightarrow> usage_record list \<Rightarrow> int \<Rightarrow> int" where
  "owned_up owners rs uid = (\<Sum>r\<leftarrow>filter (\<lambda>r. owner_of owners r = Some uid) rs. ur_uplink_bytes r)"

definition owned_down :: "owners \<Rightarrow> usage_record list \<Rightarrow> int \<Rightarrow> int" where
  "owned_down owners rs uid = (\<Sum>r\<leftarrow>filter (\<lambda>r. owner_of owners r = Some uid) rs. ur_downlink_bytes r)"

definition delta_for :: "(int \<times> int \<times> int \<times> string list) list \<Rightarrow> int \<Rightarrow> int \<times> int" where
  "delta_for ds u = (case dget ds u of None \<Rightarrow> (0, 0) | Some (up, down, _) \<Rightarrow> (up, down))"

lemma delta_for_fresh: "uid \<notin> fst ` set ds \<Longrightarrow> delta_for ds uid = (0, 0)"
  by (simp add: delta_for_def map_of_eq_None_iff [THEN iffD2])

locale quota_store =
  fixes Q :: "'s quota_ops"
  assumes add_law: "qo_add Q uid up down s = (e, s') \<Longrightarrow>
      e = bump_entry up down (entry_of Q s uid) \<and> qo_get Q s' = (qo_get Q s)(uid \<mapsto> e)"
    and reset_law: "qo_get Q (qo_reset Q uid s) = (qo_get Q s)(uid \<mapsto> empty_entry uid)"
begin

lemma usage_add:
  assumes "qo_add Q uid up down s = (e, s')"
  shows "usage_of Q s' u = (if u = uid then pair_add (usage_of Q s uid) (up, down) else usage_of Q s u)"
    and "entry_usage e = pair_add (usage_of Q s uid) (up, down)"
  using add_law [OF assms]
  by (auto simp: usage_of_def entry_usage_def bump_entry_def pair_add_def entry_of_def)

lemma usage_reset: "usage_of Q (qo_reset Q uid s) u = (if u = uid then (0, 0) else usage_of Q s u)"
  using reset_law [of uid s]
  by (simp add: usage_of_def entry_usage_def entry_of_def empty_entry_def)

lemma apply_deltas_usage:
  "distinct (map fst ds) \<Longrightarrow>
   usage_of Q (snd (apply_deltas Q limits ds s)) u = pair_add (usage_of Q s u) (delta_for ds u)"
proof (induction ds arbitrary: s)
  case Nil
  then show ?case by (simp add: delta_for_def pair_add_def)
next
  case (Cons x ds)
  obtain uid up down cores where x: "x = (uid, up, down, cores)" by (cases x) auto
  have skip: "delta_for ds uid = (0, 0)"
    using Cons.prems x by (intro delta_for_fresh) simp
  have tail: "delta_for (x # ds) u = (if u = uid then (up, down) else delta_for ds u)"
    by (simp add: delta_for_def x)
  obtain e s1 where s1: "qo_add Q uid up down s = (e, s1)" by fastforce
  obtain as s2 where s2: "apply_deltas Q limits ds s1 = (as, s2)" by fastforce
  have d: "distinct (map fst ds)" using Cons.prems by simp
  show ?case
  proof (cases "up = 0 \<and> down = 0")
    case True
    then have "apply_deltas Q limits (x # ds) s = apply_deltas Q limits ds s" by (simp add: x)
    then show ?thesis
      using Cons.IH [OF d, of s] tail skip True by auto
  next
    case False
    then have "snd (apply_deltas Q limits (x # ds) s) = s2"
      unfolding x apply_deltas.simps(2) if_not_P [OF False] by (simp add: s1 s2 Let_def)
    then show ?thesis
      using Cons.IH [OF d, of s1] s2 tail skip usage_add(1) [OF s1, of u]
      by (auto simp: pair_add_def)
  qed
qed

text \<open>Each line of the result shows the total that the store has at the end.\<close>

lemma apply_deltas_applied:
  "distinct (map fst ds) \<Longrightarrow> apply_deltas Q limits ds s = (as, s') \<Longrightarrow> a \<in> set as \<Longrightarrow>
   au_new_total_bytes a = fst (usage_of Q s' (au_user_id a)) + snd (usage_of Q s' (au_user_id a)) \<and>
   au_applied_bytes a = fst (delta_for ds (au_user_id a)) + snd (delta_for ds (au_user_id a)) \<and>
   au_limit_bytes a = dget limits (au_user_id a) \<and>
   au_exceeded a = exceeded (au_limit_bytes a) (au_new_total_bytes a) \<and>
   au_user_id a \<in> fst ` set ds"
proof (induction ds arbitrary: s as)
  case (Cons x ds)
  obtain uid up down cores where x: "x = (uid, up, down, cores)" by (cases x) auto
  obtain e s1 where s1: "qo_add Q uid up down s = (e, s1)" by fastforce
  obtain bs s2 where s2: "apply_deltas Q limits ds s1 = (bs, s2)" by fastforce
  have d: "distinct (map fst ds)" "uid \<notin> fst ` set ds" using Cons.prems x by auto
  have rest: "delta_for (x # ds) u = delta_for ds u" if "u \<in> fst ` set ds" for u
    using that d x by (auto simp: delta_for_def)
  show ?case
  proof (cases "up = 0 \<and> down = 0")
    case True
    then have "apply_deltas Q limits ds s = (as, s')" using Cons.prems(2) by (simp add: x)
    from Cons.IH [OF d(1) this Cons.prems(3)] rest show ?thesis by auto
  next
    case False
    then have as: "s' = s2" "as = \<lparr>au_user_id = uid, au_applied_bytes = up + down,
        au_new_total_bytes = total_bytes e, au_limit_bytes = dget limits uid,
        au_exceeded = exceeded (dget limits uid) (total_bytes e), au_cores = cores\<rparr> # bs"
      using Cons.prems(2) unfolding x apply_deltas.simps(2) if_not_P [OF False]
      by (simp_all add: s1 s2 Let_def)
    have "delta_for ds uid = (0, 0)"
      using d(2) by (rule delta_for_fresh)
    then have end_usage: "usage_of Q s2 uid = usage_of Q s1 uid"
      using apply_deltas_usage [OF d(1), of limits s1 uid] s2 by (simp add: pair_add_def)
    have now: "usage_of Q s1 uid = entry_usage e"
      using usage_add [OF s1] by simp
    show ?thesis
    proof (cases "a \<in> set bs")
      case True
      from Cons.IH [OF d(1) s2 [folded as(1)] True] rest show ?thesis by auto
    next
      case False
      with Cons.prems(3) as(2) have a: "a = hd as" by auto
      show ?thesis
        unfolding a as using end_usage now
        by (simp add: delta_for_def x entry_usage_def total_bytes_def)
    qed
  qed
qed simp

end

section \<open>The deltas of a batch\<close>

lemma delta_for_add:
  "delta_for (add_delta uid r ds) u =
     (if u = uid then pair_add (delta_for ds uid) (ur_uplink_bytes r, ur_downlink_bytes r)
      else delta_for ds u)"
  by (auto simp: delta_for_def add_delta_def pair_add_def Let_def split: option.splits prod.splits)

lemma collect_deltas_spec:
  "collect_deltas owners rs ds = (ds', dropped) \<Longrightarrow>
   delta_for ds' u = pair_add (delta_for ds u) (owned_up owners rs u, owned_down owners rs u) \<and>
   map dr_record dropped = filter (\<lambda>r. owner_of owners r = None) rs \<and>
   (dict_ok ds \<longrightarrow> dict_ok ds')"
proof (induction owners rs ds arbitrary: ds' dropped rule: collect_deltas.induct)
  case (1 owners ds)
  then show ?case by (simp add: owned_up_def owned_down_def pair_add_def)
next
  case (2 owners r rs ds)
  show ?case
  proof (cases "owner_of owners r")
    case None
    obtain es ps where rest: "collect_deltas owners rs ds = (es, ps)" by fastforce
    with 2(1) [OF None rest] None 2(3) show ?thesis
      by (auto simp: owned_up_def owned_down_def Let_def)
  next
    case (Some uid)
    have ok: "dict_ok ds \<Longrightarrow> dict_ok (add_delta uid r ds)"
      by (simp add: add_delta_def Let_def split: option.split prod.split)
    from 2(2) [OF Some] 2(3) Some ok show ?thesis
      by (auto simp: delta_for_add owned_up_def owned_down_def pair_add_def)
  qed
qed

interpretation memory: quota_store memory_quota
  by unfold_locales
    (auto simp: memory_quota_def quota_add_def quota_get_def quota_reset_def entry_of_def Let_def)

text \<open>
  Applying a batch adds to every user's totals exactly the bytes of the records that the
  user owns, over all cores; it drops exactly the records nobody owns; and each reported line
  shows the batch's bytes, the user's total after the batch, and whether it reaches the limit.
\<close>

theorem quota_batch:
  "let ((applied, dropped), s') = apply_usage memory_quota limits records owners s
   in (\<forall>u. usage_of memory_quota s' u =
        pair_add (usage_of memory_quota s u) (owned_up owners records u, owned_down owners records u)) \<and>
      map dr_record dropped = filter (\<lambda>r. owner_of owners r = None) records \<and>
      list_all (\<lambda>a. au_applied_bytes a = owned_up owners records (au_user_id a) +
            owned_down owners records (au_user_id a) \<and>
          au_new_total_bytes a = fst (usage_of memory_quota s' (au_user_id a)) +
            snd (usage_of memory_quota s' (au_user_id a)) \<and>
          au_exceeded a = exceeded (dget limits (au_user_id a)) (au_new_total_bytes a)) applied"
proof -
  obtain ds dropped where ds: "collect_deltas owners records [] = (ds, dropped)" by fastforce
  note c = collect_deltas_spec [OF ds]
  then have ok: "distinct (map fst (sort_key fst ds))"
    by (simp add: dict_ok_def distinct_sort_key)
  have "dict_ok ds" using c by simp
  then have sorted: "delta_for (sort_key fst ds) u = delta_for ds u" for u
    by (simp add: delta_for_def dget_sort_key dict_ok_def)
  have delta: "delta_for ds u = (owned_up owners records u, owned_down owners records u)" for u
    using collect_deltas_spec [OF ds, of u] by (simp add: delta_for_def pair_add_def)
  obtain applied s' where s': "apply_deltas memory_quota limits (sort_key fst ds) s = (applied, s')"
    by fastforce
  have "usage_of memory_quota s' u = pair_add (usage_of memory_quota s u)
      (owned_up owners records u, owned_down owners records u)" for u
    using memory.apply_deltas_usage [OF ok, of limits s u] s' sorted delta by simp
  with memory.apply_deltas_applied [OF ok s'] sorted delta ds s' c show ?thesis
    by (simp add: apply_usage_def list_all_iff)
qed

theorem quota_batch_witness:
  "usage_of memory_quota (snd (apply_usage memory_quota [] [\<lparr>ur_core_id = ''a'', ur_account_id = ''x'',
      ur_uplink_bytes = 3, ur_downlink_bytes = 4\<rparr>] [((''a'', ''x''), 7)] [])) 7 = (3, 4)"
  using quota_batch [of "[]" "[\<lparr>ur_core_id = ''a'', ur_account_id = ''x'', ur_uplink_bytes = 3,
      ur_downlink_bytes = 4\<rparr>]" "[((''a'', ''x''), 7)]" "[]"]
  by (auto simp: owned_up_def owned_down_def owner_of_def pair_add_def usage_of_def entry_of_def
      memory_quota_def quota_get_def entry_usage_def empty_entry_def split: prod.splits)

end
