(* ===== verification/Guarantees.thy ===== *)
theory Guarantees
  imports Node_Life Usage
begin

text \<open>
  The node's end-to-end guarantees: a paired panel is heard, a job always ends, and a boot restores the accounts and the
  usage baselines.
\<close>

section \<open>A paired panel is heard\<close>

lemma signature_not_Nil: "signature key m p t n b \<noteq> []"
proof
  assume "signature key m p t n b = []"
  then have "length (hmac_sha256 key (canonical_request m p t n b)) = 0"
    using length_to_hex [of "hmac_sha256 key (canonical_request m p t n b)"] by (simp add: signature_def)
  then show False by (simp add: hmac_sha256_def)
qed

text \<open>What a registration leaves behind: a node that takes a command signed with the key it returned.\<close>

lemma registered_key_signs:
  assumes "e_aead E = pure_aead" "store_ready (nd_identity st)"
    and "length (mo_key M) = 32" "length (mo_nonce M) = 12"
    and reg: "register_node E M scheme panel_id token st = (Inr answer, st1)"
    and "node_id (ident (nd_identity st)) \<noteq> []"
    and "py_int_of_str t = Some ts" "\<bar>mo_now M' - ts\<bar> \<le> window (nd_replays st)" "nonce_ok nonce"
    and "dget (seen (prune (nd_replays st) (mo_now M'))) nonce = None"
  shows "dget answer ''signing_key'' = Some (JStr (b64_encode b64_std (mo_key M)))"
    "\<exists>g. signed_request E M' \<lparr>rq_method = meth, rq_path = p, rq_node = Some (node_id (ident (nd_identity st))),
        rq_timestamp = Some t, rq_nonce = Some nonce,
        rq_signature = Some (signature (mo_key M) meth p t nonce body), rq_body = body\<rparr> st1 =
      (Inr (node_id (ident (nd_identity st))), st1\<lparr>nd_replays := g\<rparr>)"
proof -
  obtain r ids where call: "register pure_aead (nd_identity st) token panel_id (mo_key M) (mo_nonce M) (mo_now M) = (r, ids)"
    by fastforce
  with reg assms(1) obtain key where r: "r = Inr key" and st1: "st1 = st\<lparr>nd_identity := ids\<rparr>"
    and answer: "dget answer ''signing_key'' = Some (JStr (b64_encode b64_std key))"
    by (auto simp: register_node_def Let_def split: if_splits sum.splits exc.splits)
  note keep = register_accepts_only [OF call [unfolded r]]
  from answer keep(2) show "dget answer ''signing_key'' = Some (JStr (b64_encode b64_std (mo_key M)))" by simp
  have key: "signing_key (e_aead E) (nd_identity st1) = Inr (Some (mo_key M))"
    using pure_gcm.signing_key_after_register [OF assms(2,4,3)] call r assms(1) by (simp add: st1)
  let ?rq = "\<lparr>rq_method = meth, rq_path = p, rq_node = Some (node_id (ident (nd_identity st))),
        rq_timestamp = Some t, rq_nonce = Some nonce,
        rq_signature = Some (signature (mo_key M) meth p t nonce body), rq_body = body\<rparr>"
  have "t \<noteq> []" using assms(7) by (auto simp: py_int_of_str_def py_strip_def)
  moreover have "nonce \<noteq> []" using assms(9) by (auto simp: nonce_ok_def)
  ultimately have ok: "signer_ok E ?rq st1 ts"
    using key assms(6,7) keep(6) signature_not_Nil [of "mo_key M" meth p t nonce body]
    by (simp add: signer_ok_def header_text_def missing_header_def st1)
  have "nd_replays st1 = nd_replays st" by (simp add: st1)
  with assms(8-10) have "\<exists>u g'. accept (nd_replays st1) nonce ts (mo_now M') = (Inr u, g')"
    unfolding accept_iff by simp
  then obtain g where "accept (nd_replays st1) nonce ts (mo_now M') = (Inr (), g)" by auto
  with ok have "signed_request E M' ?rq st1 = (Inr (node_id (ident (nd_identity st1))), st1\<lparr>nd_replays := g\<rparr>)"
    unfolding signed_request_Inr by (intro exI [of _ ts] exI [of _ g]) (simp add: header_text_def)
  then show "\<exists>g. signed_request E M' ?rq st1 =
      (Inr (node_id (ident (nd_identity st))), st1\<lparr>nd_replays := g\<rparr>)"
    using keep(6) by (auto simp: st1)
qed

text \<open>
  C4: Pairing works: the key that a registration returns is the one under which the node then hears its panel: a command
  that names the node, has its timestamp in the window and a fresh nonce, and is signed with that key reaches its handler.
\<close>

theorem paired_panel_is_heard:
  assumes "e_aead E = pure_aead" "store_ready (nd_identity st)"
    and "length (mo_key M) = 32" "length (mo_nonce M) = 12"
    and reg: "register_node E M scheme panel_id token st = (Inr answer, st1)"
    and "node_id (ident (nd_identity st)) \<noteq> []"
    and "py_int_of_str t = Some ts" "\<bar>mo_now M' - ts\<bar> \<le> window (nd_replays st)" "nonce_ok nonce"
    and "dget (seen (prune (nd_replays st) (mo_now M'))) nonce = None"
  shows "dget answer ''signing_key'' = Some (JStr (b64_encode b64_std (mo_key M))) \<and>
    (\<exists>g. respond E M' (Signed \<lparr>rq_method = meth, rq_path = p, rq_node = Some (node_id (ident (nd_identity st))),
        rq_timestamp = Some t, rq_nonce = Some nonce,
        rq_signature = Some (signature (mo_key M) meth p t nonce body), rq_body = body\<rparr> ep) st1 =
      handle E M' ep (st1\<lparr>nd_replays := g\<rparr>))"
proof -
  from registered_key_signs(2) [OF assms, of meth p body] show ?thesis
    using registered_key_signs(1) [OF assms] by (auto simp: respond_def bindE_def)
qed

section \<open>A job ends\<close>

text \<open>
  C11: A lifecycle job ends whatever the driver does: running its task never raises, leaves the job in a final state,
  succeeded exactly when the action returned and failed when its deadline cancelled it, frees its core for the next job,
  and touches no other job.
\<close>

theorem job_always_ends:
  assumes "dget (heap (nd_jobs st)) jid = Some j"
  shows "\<exists>st' j'. run_job E M jid a st = (Inr (), st') \<and> dget (heap (nd_jobs st')) jid = Some j' \<and>
    terminal (job_state j') \<and> dget (active (nd_jobs st')) (job_core j) = None \<and>
    (job_state j' = Succeeded \<longleftrightarrow>
       is_ok (fst (execute E a (st\<lparr>nd_jobs := begin_run jid (mo_now M) (nd_jobs st)\<rparr>)))) \<and>
    (fst (execute E a (st\<lparr>nd_jobs := begin_run jid (mo_now M) (nd_jobs st)\<rparr>)) = Inl (Crash CancelledError) \<longrightarrow>
       job_state j' = (if mo_expired M then Failed else Cancelled)) \<and>
    (\<forall>other. other \<noteq> jid \<longrightarrow> dget (heap (nd_jobs st')) other = dget (heap (nd_jobs st)) other)"
proof -
  let ?js = "begin_run jid (mo_now M) (nd_jobs st)"
  let ?j = "j\<lparr>job_state := Running, started_at := Some (mo_now M)\<rparr>"
  obtain r st1 where ex: "wait_for M (execute E a) (st\<lparr>nd_jobs := ?js\<rparr>) = (r, st1)" by fastforce
  have "jobs_are ?js (st\<lparr>nd_jobs := ?js\<rparr>)" by (simp add: jobs_are_def)
  from keepsD [OF jobs_frame.keeps_wait_for [OF jobs_frame.execution_keeps] this, of M E a] ex have js: "nd_jobs st1 = ?js" by (simp add: jobs_are_def)
  have begun: "?js = (nd_jobs st)\<lparr>heap := dput jid ?j (heap (nd_jobs st))\<rparr>"
    using assms(1) by (simp add: begin_run_def update_job_def)
  let ?out = "outcome_of r" and ?t = "job_timeout (ca_action a)"
  let ?j' = "(settle ?t ?out ?j)\<lparr>finished_at := Some (mo_now M)\<rparr>"
  have done_jobs: "finish_run jid ?t ?out (mo_now M) ?js =
      ?js\<lparr>heap := dput jid ?j' (heap ?js), active := dpop (job_core j) (active ?js)\<rparr>"
    by (simp add: finish_run_def begun update_job_def Let_def)
  have run: "run_job E M jid a st = (Inr (), st1\<lparr>nd_jobs := finish_run jid ?t ?out (mo_now M) ?js\<rparr>)"
    by (simp add: run_job_def ex js)
  have "job_state ?j' = Succeeded \<longleftrightarrow> is_ok (fst (execute E a (st\<lparr>nd_jobs := ?js\<rparr>)))"
    using wait_for_ok [of M "execute E a" "st\<lparr>nd_jobs := ?js\<rparr>"] ex by (cases r) (auto simp: outcome_of_def settle_def)
  moreover have "fst (execute E a (st\<lparr>nd_jobs := ?js\<rparr>)) = Inl (Crash CancelledError) \<longrightarrow>
      job_state ?j' = (if mo_expired M then Failed else Cancelled)"
    using ex by (auto simp: wait_for_def catchE_def fail_def timeout_error_def outcome_of_def settle_def fault_type_def
        split: prod.splits)
  moreover have "dget (heap (finish_run jid ?t ?out (mo_now M) ?js)) jid = Some ?j'"
    "dget (active (finish_run jid ?t ?out (mo_now M) ?js)) (job_core j) = None"
    "\<forall>other. other \<noteq> jid \<longrightarrow>
      dget (heap (finish_run jid ?t ?out (mo_now M) ?js)) other = dget (heap (nd_jobs st)) other"
    unfolding done_jobs by (simp_all add: begun)
  moreover have "terminal (job_state ?j')" by simp
  ultimately show ?thesis
    using run ex by (intro exI [of _ "st1\<lparr>nd_jobs := finish_run jid ?t ?out (mo_now M) ?js\<rparr>"] exI [of _ ?j']) simp
qed

section \<open>Accounts survive a restart\<close>

lemma mapE_liftE_Inr:
  "mapE (\<lambda>x. liftE (f x)) xs st = (Inr ys, st') \<Longrightarrow> st' = st \<and> map f xs = map Inr ys"
proof (induction xs arbitrary: ys st)
  case (Cons x xs)
  from Cons.prems obtain y zs where "f x = Inr y" "ys = y # zs" "mapE (\<lambda>x. liftE (f x)) xs st = (Inr zs, st')"
    by (cases "f x") (auto simp: ret_def fail_def elim!: bindE_Inr split: if_splits)
  with Cons.IH show ?case by fastforce
qed (simp add: ret_def)

lemma failing_as_Inr: "failing_as M t u a cid p f st = (Inr x, st') \<Longrightarrow> f st = (Inr x, st')"
  by (auto simp: failing_as_def catchE_def fail_def bindE_def log_audit_def modE_def
      split: prod.splits sum.splits if_splits)

lemma installed_only_Inr:
  assumes "installed_only E cid s f st = (Inr x, st')"
  shows "authorize_core (e_registry E) (e_root E) (e_resolve E) cid s = Inr ()" "cid \<in> set (list_cores (nd_mgr st))"
    "f st = (Inr x, st')"
  using assms by (auto simp: installed_only_def authorized_def bindE_def liftE_def getE_def fail_def
      split: sum.splits if_splits)

lemma on_mgr_Inr: "on_mgr f st = (Inr x, st') \<Longrightarrow> fst (f (nd_mgr st)) = Inr x \<and> st' = st\<lparr>nd_mgr := snd (f (nd_mgr st))\<rparr>"
  by (auto simp: on_mgr_def crash_Inr split: prod.splits)

lemma allowlist_safe: "cid \<in> set node_core_allowlist \<Longrightarrow> list_all safe_char cid \<and> cid \<noteq> []"
  by (auto simp: node_core_allowlist_def safe_char_def is_upper_ascii_def is_lower_ascii_def is_digit_def)

lemma authorize_allowlist: "authorize_core reg root resolve cid s = Inr () \<Longrightarrow> cid \<in> set node_core_allowlist"
  by (auto simp: authorize_core_def split: if_splits)

lemma valid_accounts_all: "map (to_user_account K) raws = map Inr us \<Longrightarrow> valid_accounts K raws = Inr us"
proof (induction raws arbitrary: us)
  case (Cons raw raws)
  then show ?case by (cases us) auto
qed simp

lemma core_accounts_Inr:
  assumes "core_accounts E M cid raws replace st = (Inr answer, st')"
  obtains accounts where "map (to_user_account (e_coerce E)) raws = map Inr accounts"
    "fst (call_driver cid (\<lambda>c. cls_sync_accounts c accounts) (nd_mgr st)) = Inr ()"
    "nd_accounts st' = snd (store_accounts cid (map JObj raws) replace (nd_accounts st))"
    "cid \<in> set node_core_allowlist"
proof -
  note inst = installed_only_Inr [OF assms [unfolded core_accounts_def]]
  from inst(3) obtain accounts st1 where
    m: "mapE (\<lambda>raw. liftE (to_user_account (e_coerce E) raw)) raws st = (Inr accounts, st1)"
    and rest: "seqE (failing_as M (Some ''account sync timed out'') (Some ''cannot manage accounts'') ''accounts.failed'' cid []
                (wait_for M (on_mgr (call_driver cid (\<lambda>c. cls_sync_accounts c accounts)))))
       (seqE (keep_accounts cid raws replace)
       (seqE (log_audit M ''accounts.sync''
                [(''core_id'', JStr cid), (''count'', JInt (int (length accounts))), (''replace'', JBool replace)])
          (ret (ok_core cid @ [(''count'', JInt (int (length accounts))), (''replace'', JBool replace)])))) st1 =
      (Inr answer, st')"
    by (rule bindE_Inr)
  note conv = mapE_liftE_Inr [OF m]
  from rest obtain u st2 where
    "failing_as M (Some ''account sync timed out'') (Some ''cannot manage accounts'') ''accounts.failed'' cid []
       (wait_for M (on_mgr (call_driver cid (\<lambda>c. cls_sync_accounts c accounts)))) st1 = (Inr u, st2)"
    and keep: "nd_accounts st' = snd (store_accounts cid (map JObj raws) replace (nd_accounts st2))"
    by (elim bindE_Inr) (auto simp: keep_accounts_def log_audit_def modE_def ret_def)
  with on_mgr_Inr [OF failing_as_Inr [THEN iffD1 [OF wait_for_Inr]]] have
    "fst (call_driver cid (\<lambda>c. cls_sync_accounts c accounts) (nd_mgr st1)) = Inr ()" "nd_accounts st2 = nd_accounts st1"
    by force+
  with conv keep that authorize_allowlist [OF inst(1)] show thesis by auto
qed

text \<open>
  C14: Accounts survive a restart: when a full account sync succeeds, every pushed account was valid and the driver took
  them all; and a later boot, which finds the core installed, lists the core's snapshot and hands the driver the same
  accounts again, in their order, with the keys of their settings sorted.
\<close>

theorem accounts_survive_restart:
  assumes "core_accounts E M cid raws True st = (Inr answer, st')"
    and "\<forall>raw \<in> set raws. plain_account raw" "order_blind (e_coerce E)"
    and "\<not> acct_full (nd_accounts st)" "acct_unreadable (nd_accounts st) = []" "raws \<noteq> []"
  shows "\<exists>accounts. map (to_user_account (e_coerce E)) raws = map Inr accounts \<and>
    fst (call_driver cid (\<lambda>c. cls_sync_accounts c accounts) (nd_mgr st)) = Inr () \<and>
    (cid, map sort_obj raws) \<in> set (all_accounts (nd_accounts st')) \<and>
    (\<forall>M2 st2. cid \<in> set (list_cores (nd_mgr st2)) \<longrightarrow>
       restore_core_accounts E M2 (cid, map sort_obj raws) st2 =
       catchE (wait_for M2 (on_mgr (call_driver cid (\<lambda>c. cls_sync_accounts c (map sorted_account accounts))))) is_caught
         (\<lambda>_. ret ()) st2)"
proof -
  from assms(1) obtain accounts where acc: "map (to_user_account (e_coerce E)) raws = map Inr accounts"
    and sync: "fst (call_driver cid (\<lambda>c. cls_sync_accounts c accounts) (nd_mgr st)) = Inr ()"
    and kept: "nd_accounts st' = snd (store_accounts cid (map JObj raws) True (nd_accounts st))"
    and cid: "cid \<in> set node_core_allowlist"
    by (rule core_accounts_Inr)
  have ok: "accounts_ok raws" using assms(2) by (auto simp: accounts_ok_def plain_account_def)
  have stored: "store_accounts cid (map JObj raws) True (nd_accounts st) = (raws, nd_accounts st')"
    using kept by (simp add: store_accounts_def Let_def)
  have "(cid, map sort_obj raws) \<in> set (all_accounts (nd_accounts st'))"
    using snapshot_read_back [OF assms(4) _ stored ok] allowlist_safe [OF cid] assms(5) by simp
  moreover have "map (to_user_account (e_coerce E)) (map sort_obj raws) = map Inr (map sorted_account accounts)"
    using acc assms(2)
  proof (induction raws arbitrary: accounts)
    case (Cons raw raws)
    then show ?case using to_user_account_sorted [OF _ assms(3)] by (cases accounts) auto
  qed simp
  then have "valid_accounts (e_coerce E) (map sort_obj raws) = Inr (map sorted_account accounts)"
    by (rule valid_accounts_all)
  moreover have "accounts \<noteq> []" using acc assms(6) by auto
  ultimately show ?thesis
    using acc sync assms(6) by (intro exI [of _ accounts]) (simp add: restore_core_accounts_def)
qed

section \<open>Usage baselines survive a restart\<close>

text \<open>What the agent writes: keys with a colon, pairs of counters.\<close>

definition baselines_ok :: "jobj \<Rightarrow> bool" where
  "baselines_ok d \<longleftrightarrow> distinct (map fst d) \<and> (\<forall>(k, v) \<in> set d. CHR '':'' \<in> set k \<and> (\<exists>t. v = baseline_value t))"

definition baseline_in :: "core_baselines \<Rightarrow> string \<Rightarrow> string \<Rightarrow> (int \<times> int) option" where
  "baseline_in by_core cid a = (case dget by_core cid of None \<Rightarrow> None | Some d \<Rightarrow> dget d a)"

lemma baseline_in_put:
  "baseline_in (put_baseline cid a t by_core) cid' a' =
     (if cid' = cid \<and> a' = a then Some t else baseline_in by_core cid' a')"
  by (auto simp: baseline_in_def put_baseline_def split: option.splits)

lemma split_baseline_key: "CHR '':'' \<notin> set cid \<Longrightarrow> split_key (baseline_key cid a) = (cid, a)"
proof -
  assume "CHR '':'' \<notin> set cid"
  then have "takeWhile (\<lambda>c. c \<noteq> CHR '':'') (cid @ CHR '':'' # a) = cid" by (induction cid) auto
  then show ?thesis by (simp add: split_key_def baseline_key_def)
qed

lemma split_key_colon:
  assumes "CHR '':'' \<in> set k" "split_key k = (cid, a)"
  shows "k = baseline_key cid a" "CHR '':'' \<notin> set cid"
proof -
  obtain xs ys where k: "k = xs @ CHR '':'' # ys" "CHR '':'' \<notin> set xs"
    using assms(1) by (meson split_list_first)
  then have "split_key k = (xs, ys)" using split_baseline_key [of xs ys] by (simp add: baseline_key_def)
  with assms(2) k show "k = baseline_key cid a" "CHR '':'' \<notin> set cid" by (auto simp: baseline_key_def)
qed

lemma baselines_by_core_spec:
  assumes "baselines_ok d"
  shows "\<exists>by_core. baselines_by_core d start_map = Inr by_core \<and>
    (\<forall>cid a. cid \<noteq> [] \<longrightarrow> CHR '':'' \<notin> set cid \<longrightarrow>
       (case dget d (baseline_key cid a) of
          None \<Rightarrow> baseline_in by_core cid a = baseline_in start_map cid a
        | Some v \<Rightarrow> \<exists>t. v = baseline_value t \<and> baseline_in by_core cid a = Some t))"
  using assms
proof (induction d arbitrary: start_map)
  case (Cons kv d)
  obtain k v where kv: "kv = (k, v)" by fastforce
  obtain c b where key: "split_key k = (c, b)" by fastforce
  from Cons.prems kv obtain t where v: "v = baseline_value t" and colon: "CHR '':'' \<in> set k" "k \<notin> fst ` set d"
    by (auto simp: baselines_ok_def)
  note parts = split_key_colon [OF colon(1) key]
  let ?start = "if c = [] then start_map else put_baseline c b t start_map"
  have "baselines_ok d" using Cons.prems by (auto simp: baselines_ok_def)
  from Cons.IH [OF this, of ?start] obtain by_core where
    run: "baselines_by_core d ?start = Inr by_core" and
    rest: "\<And>cid a. cid \<noteq> [] \<Longrightarrow> CHR '':'' \<notin> set cid \<Longrightarrow>
       (case dget d (baseline_key cid a) of
          None \<Rightarrow> baseline_in by_core cid a = baseline_in ?start cid a
        | Some v \<Rightarrow> \<exists>t. v = baseline_value t \<and> baseline_in by_core cid a = Some t)" by blast
  have "baselines_by_core (kv # d) start_map = Inr by_core"
    using run by (cases t) (simp add: kv key v baseline_value_def conv_def split: if_splits)
  moreover have "case dget (kv # d) (baseline_key cid a) of
        None \<Rightarrow> baseline_in by_core cid a = baseline_in start_map cid a
      | Some w \<Rightarrow> \<exists>t. w = baseline_value t \<and> baseline_in by_core cid a = Some t"
    if cid: "cid \<noteq> []" "CHR '':'' \<notin> set cid" for cid a
  proof (cases "k = baseline_key cid a")
    case True
    then have "c = cid" "b = a" using key split_baseline_key [OF cid(2)] by simp_all
    moreover have "dget d (baseline_key cid a) = None"
      using colon(2) True by (metis map_of_eq_None_iff)
    ultimately have "baseline_in by_core cid a = Some t"
      using rest [OF cid, of a] cid by (simp add: baseline_in_put)
    with True show ?thesis by (simp add: kv v) (metis surj_pair)
  next
    case False
    then have "\<not> (cid = c \<and> a = b)" using parts by auto
    then have "baseline_in ?start cid a = baseline_in start_map cid a" by (auto simp: baseline_in_put)
    with False rest [OF cid, of a] show ?thesis
      by (cases "dget d (baseline_key cid a)") (simp_all add: kv)
  qed
  ultimately show ?case by blast
qed simp

definition inner_ok :: "core_baselines \<Rightarrow> bool" where
  "inner_ok by_core \<longleftrightarrow> (\<forall>cid m. dget by_core cid = Some m \<longrightarrow> dict_ok m)"

lemma inner_ok_put: "inner_ok s \<Longrightarrow> inner_ok (put_baseline cid a t s)"
  by (auto simp: inner_ok_def put_baseline_def dict_ok_def split: option.splits)
    (metis dict_ok_def dict_ok_dput)

lemma baselines_by_core_step:
  assumes "baselines_by_core (kv # d) s = Inr by_core"
  obtains "baselines_by_core d s = Inr by_core"
  | cid a t where "baselines_by_core d (put_baseline cid a t s) = Inr by_core"
proof -
  obtain k v cid a where kv: "kv = (k, v)" "split_key k = (cid, a)" by (metis surj_pair)
  show thesis
    using assms that by (auto simp: kv bindR_Inr_conv split: json.splits list.splits if_splits)
qed

lemma baselines_by_core_dicts: "baselines_by_core d s = Inr by_core \<Longrightarrow> inner_ok s \<Longrightarrow> inner_ok by_core"
proof (induction d arbitrary: s)
  case (Cons kv d)
  then show ?case using inner_ok_put by (metis baselines_by_core_step)
qed simp

lemma dget_rev: "dict_ok m \<Longrightarrow> dget (rev m) = dget m"
  unfolding dict_ok_def by (subst map_of_inject_set) (simp_all add: rev_map [symmetric])

lemma baselines_ok_sort: "baselines_ok d \<Longrightarrow> json_ok (JObj d) \<and> baselines_ok (sort_obj d) \<and> dget (sort_obj d) = dget d"
proof -
  assume ok: "baselines_ok d"
  have same: "jsort (baseline_value t) = baseline_value t" for t by (simp add: baseline_value_def)
  have vals: "map (\<lambda>kv. (fst kv, jsort (snd kv))) d = d"
    using ok same by (intro map_idI) (auto simp: baselines_ok_def)
  have "json_ok (JObj d)" using ok by (fastforce simp: baselines_ok_def baseline_value_def)
  moreover have "distinct (map fst (sort_key fst d))"
    using ok by (simp add: baselines_ok_def distinct_sort_key)
  ultimately show ?thesis
    using ok by (simp add: sort_obj_def vals baselines_ok_def dget_sort_key)
qed

lemma baselines_ok_dmerge: "baselines_ok d \<Longrightarrow> baselines_ok e \<Longrightarrow> baselines_ok (dmerge d e)"
proof (induction d e rule: dmerge.induct)
  case (2 d k v e)
  have "baselines_ok (dput k v d)"
  proof -
    have "dict_ok d" using 2(2) by (simp add: baselines_ok_def dict_ok_def)
    then have "dict_ok (dput k v d)" by simp
    moreover have "CHR '':'' \<in> set k' \<and> (\<exists>t. v' = baseline_value t)" if "(k', v') \<in> set (dput k v d)" for k' v'
    proof -
      from dget_iff_in_set [OF \<open>dict_ok (dput k v d)\<close>] that have "dget (dput k v d) k' = Some v'" by blast
      then show ?thesis using 2(2,3) by (auto simp: baselines_ok_def split: if_splits dest: map_of_SomeD)
    qed
    ultimately show ?thesis by (auto simp: baselines_ok_def dict_ok_def)
  qed
  moreover have "baselines_ok e" using 2(3) by (auto simp: baselines_ok_def)
  ultimately show ?case using "2.IH" by simp
qed simp

text \<open>
  C15: Usage baselines survive a restart, so no byte is reported twice: once the baselines of a reading are written, the
  next boot reads for every core and account exactly the last counters that were written for it, by this reading or
  an earlier one; and a driver whose tracker is restored with them reports of the next counters only what lies beyond.
\<close>

theorem usage_baselines_survive:
  assumes "save_usage_baselines M baselines f = Inr f'" "mo_write M = Write_Ok" "baselines_ok baselines"
    and "stored_baselines f = Some (JObj old) \<and> baselines_ok old \<or> stored_baselines f = None \<and> old = []"
  shows "\<exists>d by_core. stored_baselines f' = Some (JObj d) \<and> baselines_ok d \<and> baselines_by_core d [] = Inr by_core \<and>
    (\<forall>cid a t. cid \<noteq> [] \<longrightarrow> CHR '':'' \<notin> set cid \<longrightarrow>
       dget (dmerge old baselines) (baseline_key cid a) = Some (baseline_value t) \<longrightarrow>
       (\<exists>m. dget by_core cid = Some m \<and> dget m a = Some t \<and>
          (\<forall>up down. fst (observe a up down (restore_baseline m [])) =
             (counter_delta up (fst t), counter_delta down (snd t)))))"
proof -
  let ?all = "dmerge old baselines"
  have "baselines_ok old" using assms(4) by (auto simp: baselines_ok_def)
  then have all: "baselines_ok ?all" using assms(3) by (rule baselines_ok_dmerge)
  note sorted = baselines_ok_sort [OF all]
  have "f' = Content (sorted_text (JObj ?all))"
    using assms(1,2,4) by (auto simp: save_usage_baselines_def)
  then have stored: "stored_baselines f' = Some (JObj (sort_obj ?all))"
    using sorted_text_loads [of "JObj ?all"] sorted
    by (cases "sort_obj ?all") (auto simp: stored_baselines_def jsort_JObj jor_def simp del: jsort.simps)
  from baselines_by_core_spec [of "sort_obj ?all" "[]"] sorted obtain by_core where
    run: "baselines_by_core (sort_obj ?all) [] = Inr by_core" and
    get: "\<And>cid a. cid \<noteq> [] \<Longrightarrow> CHR '':'' \<notin> set cid \<Longrightarrow>
       (case dget ?all (baseline_key cid a) of
          None \<Rightarrow> baseline_in by_core cid a = baseline_in [] cid a
        | Some v \<Rightarrow> \<exists>t. v = baseline_value t \<and> baseline_in by_core cid a = Some t)" by auto
  have "\<exists>m. dget by_core cid = Some m \<and> dget m a = Some t \<and>
      (\<forall>up down. fst (observe a up down (restore_baseline m [])) = (counter_delta up (fst t), counter_delta down (snd t)))"
    if "cid \<noteq> []" "CHR '':'' \<notin> set cid" "dget ?all (baseline_key cid a) = Some (baseline_value t)" for cid a t
  proof -
    have "baseline_in by_core cid a = Some t"
      using get [OF that(1,2), of a] that(3) by (auto simp: baseline_value_def prod_eq_iff)
    then obtain m where m: "dget by_core cid = Some m" "dget m a = Some t"
      by (auto simp: baseline_in_def split: option.splits)
    have "dict_ok m" using baselines_by_core_dicts [OF run] m(1) by (simp add: inner_ok_def)
    then have "dget (dmerge [] m) a = Some t"
      using m(2) by (simp add: dget_dmerge dget_rev)
    then show ?thesis
      using m by (cases t) (simp add: observe_def restore_baseline_def baseline_of_def counter_delta_def Let_def)
  qed
  with stored sorted run show ?thesis by blast
qed

end
