(* ===== verification/Demo_Node.thy ===== *)
theory Demo_Node
  imports Guarantees
begin

text \<open>A small node with one installed core, on which the guarantees of \<open>App_Props\<close>, \<open>Node_Life\<close> and \<open>Guarantees\<close> are applied.\<close>

definition calm_status :: core_status where
  "calm_status = \<lparr>cs_core_id = ''xray'', cs_state = STOPPED, cs_health = HEALTHY, cs_enabled = True,
     cs_version = None, cs_version_reason = None, cs_message = None\<rparr>"

definition calm_class :: "unit driver_class" where
  "calm_class =
     \<lparr>cls_metadata = xray_metadata, cls_new = (\<lambda>_. Inr ()), cls_settings = (\<lambda>_. []),
      cls_install = ret (), cls_uninstall = (\<lambda>_. ret ()), cls_update = (\<lambda>_. ret ''2''),
      cls_start = ret (), cls_stop = ret (), cls_status = ret calm_status,
      cls_health_check = ret calm_status, cls_logs = (\<lambda>_. ret []), cls_studio = None,
      cls_create_hub = None, cls_delete_hub = None, cls_create_account = (\<lambda>_. ret ()),
      cls_update_account = (\<lambda>_. ret ()), cls_delete_account = (\<lambda>_. ret ()),
      cls_suspend_account = (\<lambda>_. ret ()), cls_resume_account = (\<lambda>_. ret ()),
      cls_sync_accounts = (\<lambda>_. ret ()), cls_usage = (\<lambda>_. ret []), cls_online = (\<lambda>_. ret [])\<rparr>"

definition calm_registry :: "unit driver_class registry" where
  "calm_registry = [(''xray'', \<lparr>dd_module = ''app.cores.drivers.xray'', dd_name = ''XrayDriver'',
     dd_metadata = Some xray_metadata, dd_class = calm_class\<rparr>)]"

definition calm_hooks :: "unit hooks" where
  "calm_hooks =
     \<lparr>hk_set_settings = (\<lambda>_ _ d. d), hk_identities = (\<lambda>_. Inr (JObj [])), hk_claims = (\<lambda>_. ret []),
      hk_terminate = (\<lambda>_. None), hk_import = (\<lambda>_. None), hk_version = (\<lambda>_. ret []), hk_online = (\<lambda>_. ret []),
      hk_usage = (\<lambda>_. ret []), hk_snapshot = (\<lambda>_. ret []), hk_restore = (\<lambda>_ _. ret ())\<rparr>"

definition calm_env :: "(unit, node_store, string option, unit, unit) env" where
  "calm_env =
     \<lparr>e_cfg = demo_cfg, e_root = core_root_default, e_aead = pure_aead,
      e_wiring = \<lparr>w_store = node_ops pure_aead, w_registry = calm_registry, w_builtin = [], w_provider = None,
        w_transform = Some (\<lambda>cid s. Inr (node_driver_settings calm_registry core_root_default cid s))\<rparr>,
      e_certificate = \<lparr>nc_cert_path = [], nc_key_path = [], nc_fingerprint = ''0102'', nc_not_after = [], nc_sans = []\<rparr>,
      e_cert_pem = ''PEM'', e_tools = demo_tools, e_reconcile = (\<lambda>_. ret ([], None)), e_resolve = id, e_pem = any_pem,
      e_coerce = plain_coercions, e_hooks = calm_hooks,
      e_dumps = \<lparr>dump_status = (\<lambda>c. [(''core_id'', JStr (cs_core_id c))]), dump_session = (\<lambda>_. []), dump_usage = (\<lambda>_. [])\<rparr>,
      e_info_server = Inr ()\<rparr>"

definition moment_at :: "int \<Rightarrow> moment" where
  "moment_at t = \<lparr>mo_now = t, mo_utc = demo_time, mo_uptime = JInt 0, mo_resources = [], mo_key = replicate 32 1,
     mo_nonce = replicate 12 2, mo_job = ''j1'', mo_write = Write_Ok, mo_expired = False\<rparr>"

definition install_job :: core_action where
  "install_job = \<lparr>ca_core = ''xray'', ca_action = Start, ca_settings = [], ca_purge = False, ca_force = False\<rparr>"

definition one_job :: job_manager where
  "one_job = \<lparr>history_limit = 200, heap = [(''j1'', new_job ''j1'' ''xray'' ''start'' 5)], known = [''j1''],
     order = [''j1''], active = [(''xray'', ''j1'')]\<rparr>"

definition demo_node :: "(unit, node_store, string option) node" where
  "demo_node =
     \<lparr>nd_identity = \<lparr>id_cipher = \<lparr>cipher_key = replicate 32 7\<rparr>,
        ident = fresh_identity ''n1'' (Some (sha256_hex (utf8_encode ''one-time-token-1''))), audit_log = []\<rparr>,
      nd_replays = fresh_guard 300, nd_jobs = one_job,
      nd_mgr = \<lparr>drivers = [(''xray'', \<lparr>drv_class = calm_class, drv_state = ()\<rparr>)], states = [(''xray'', INSTALLED)],
        enabled = [(''xray'', True)], store = demo_node_store, emitted = []\<rparr>,
      nd_limiter = demo_limiter, nd_accounts = demo_accounts_dir, nd_baselines = NoFile, nd_certs = [], nd_host = None\<rparr>"

definition unsigned :: signed where
  "unsigned = \<lparr>rq_method = ''GET'', rq_path = ''/v1/heartbeat'', rq_node = Some ''n1'', rq_timestamp = Some ''1000'',
     rq_nonce = Some ''0123456789abcdef'', rq_signature = None, rq_body = []\<rparr>"

theorem commands_authentic_witness:
  "respond calm_env (moment_at 1000) (Signed unsigned Heartbeat) demo_node =
     (Inl (Http 401 ''missing signature headers''), demo_node) \<and>
   \<not> authentic calm_env (moment_at 1000) unsigned demo_node"
proof -
  have run: "respond calm_env (moment_at 1000) (Signed unsigned Heartbeat) demo_node =
      (Inl (Http 401 ''missing signature headers''), demo_node)"
    by (simp add: respond_def signed_request_def missing_header_def header_text_def unsigned_def bindE_def fail_def)
  have "fst (handle E M Heartbeat st) \<noteq> Inl f" for E :: "(unit, node_store, string option, unit, unit) env"
      and M f and st :: "(unit, node_store, string option) node"
    by (simp add: heartbeat_def getE_def)
  with commands_authentic [OF run] run show ?thesis by (metis fst_conv)
qed

theorem job_always_ends_witness:
  "\<exists>st' j'. run_job calm_env (moment_at 9) ''j1'' install_job demo_node = (Inr (), st') \<and>
     dget (heap (nd_jobs st')) ''j1'' = Some j' \<and> terminal (job_state j') \<and>
     dget (active (nd_jobs st')) ''xray'' = None"
proof -
  have "dget (heap (nd_jobs demo_node)) ''j1'' = Some (new_job ''j1'' ''xray'' ''start'' 5)"
    by (simp add: demo_node_def one_job_def)
  from job_always_ends [OF this, of calm_env "moment_at 9" install_job] show ?thesis by auto
qed

theorem usage_baselines_survive_witness:
  "\<exists>f' d by_core m. save_usage_baselines (moment_at 9) [(''xray:7.ann'', baseline_value (10, 20))] NoFile = Inr f' \<and>
     stored_baselines f' = Some (JObj d) \<and> baselines_by_core d [] = Inr by_core \<and>
     dget by_core ''xray'' = Some m \<and> fst (observe ''7.ann'' 15 20 (restore_baseline m [])) = (5, 0)"
proof -
  have run: "save_usage_baselines (moment_at 9) [(''xray:7.ann'', baseline_value (10, 20))] NoFile =
      Inr (Content (sorted_text (JObj [(''xray:7.ann'', baseline_value (10, 20))])))"
    by (simp add: save_usage_baselines_def stored_baselines_def moment_at_def)
  have ok: "mo_write (moment_at 9) = Write_Ok" "baselines_ok [(''xray:7.ann'', baseline_value (10, 20))]"
    by (auto simp: moment_at_def baselines_ok_def)
  have none: "stored_baselines NoFile = Some (JObj []) \<and> baselines_ok [] \<or> stored_baselines NoFile = None \<and> [] = []"
    by (simp add: stored_baselines_def)
  have key: "dget (dmerge [] [(''xray:7.ann'', baseline_value (10, 20))]) (baseline_key ''xray'' ''7.ann'') =
      Some (baseline_value (10, 20))" "''xray'' \<noteq> []" "CHR '':'' \<notin> set ''xray''"
    by (simp_all add: baseline_key_def)
  have delta: "counter_delta 15 10 = 5" "counter_delta 20 20 = 0" by (simp_all add: counter_delta_def)
  from usage_baselines_survive [OF run ok none] obtain d by_core where
    "stored_baselines (Content (sorted_text (JObj [(''xray:7.ann'', baseline_value (10, 20))]))) = Some (JObj d)"
    "baselines_by_core d [] = Inr by_core"
    "\<And>cid a t. cid \<noteq> [] \<Longrightarrow> CHR '':'' \<notin> set cid \<Longrightarrow>
       dget (dmerge [] [(''xray:7.ann'', baseline_value (10, 20))]) (baseline_key cid a) = Some (baseline_value t) \<Longrightarrow>
       \<exists>m. dget by_core cid = Some m \<and> dget m a = Some t \<and>
          (\<forall>up down. fst (observe a up down (restore_baseline m [])) =
             (counter_delta up (fst t), counter_delta down (snd t)))" by blast
  with this(3) [OF key(2,3,1)] delta run show ?thesis by fastforce
qed

lemma demo_registers:
  "\<exists>answer st1. register_node calm_env (moment_at 1000) ''https'' ''panel-001'' ''one-time-token-1'' demo_node = (Inr answer, st1)"
proof -
  have ready: "store_ready (nd_identity demo_node)" by (simp add: demo_node_def store_ready_def cipher_ready_def)
  have n: "length (mo_nonce (moment_at 1000)) = 12" by (simp add: moment_at_def)
  have tok: "registration_token_hash (ident (nd_identity demo_node)) = sha256_hex (utf8_encode ''one-time-token-1'')"
    by (simp add: demo_node_def fresh_identity_def)
  obtain s' where reg: "register pure_aead (nd_identity demo_node) ''one-time-token-1'' ''panel-001'' (mo_key (moment_at 1000))
      (mo_nonce (moment_at 1000)) (mo_now (moment_at 1000)) = (Inr (mo_key (moment_at 1000)), s')"
    using pure_gcm.register_total [OF ready n tok] by blast
  have body: "register_body_ok ''panel-001'' ''one-time-token-1''"
    by (simp add: register_body_ok_def body_char_def alnum_char_def is_upper_ascii_def is_lower_ascii_def is_digit_def
        is_ascii_def)
  have aead: "e_aead calm_env = pure_aead" by (simp add: calm_env_def)
  show ?thesis
    unfolding register_node_def aead reg Let_def by (simp add: body)
qed

text \<open>A heartbeat that the paired panel signs at 1005, and that the node hears at 1010.\<close>

definition signed_heartbeat :: signed where
  "signed_heartbeat = \<lparr>rq_method = ''GET'', rq_path = ''/v1/heartbeat'',
     rq_node = Some (node_id (ident (nd_identity demo_node))), rq_timestamp = Some (str_of_int 1005),
     rq_nonce = Some ''0123456789abcdef'',
     rq_signature = Some (signature (mo_key (moment_at 1000)) ''GET'' ''/v1/heartbeat'' (str_of_int 1005)
       ''0123456789abcdef'' []), rq_body = []\<rparr>"

lemma demo_heartbeat_due:
  "e_aead calm_env = pure_aead" "store_ready (nd_identity demo_node)" "length (mo_key (moment_at 1000)) = 32"
  "length (mo_nonce (moment_at 1000)) = 12" "node_id (ident (nd_identity demo_node)) \<noteq> []"
  "\<bar>mo_now (moment_at 1010) - 1005\<bar> \<le> window (nd_replays demo_node)" "nonce_ok ''0123456789abcdef''"
  "dget (seen (prune (nd_replays demo_node) (mo_now (moment_at 1010)))) ''0123456789abcdef'' = None"
  by (simp_all add: calm_env_def demo_node_def moment_at_def store_ready_def cipher_ready_def fresh_identity_def
      fresh_guard_def short_nonce_ok prune_def)

theorem paired_panel_is_heard_witness:
  "\<exists>answer st1 g.
     register_node calm_env (moment_at 1000) ''https'' ''panel-001'' ''one-time-token-1'' demo_node = (Inr answer, st1) \<and>
     respond calm_env (moment_at 1010) (Signed signed_heartbeat Heartbeat) st1 =
       handle calm_env (moment_at 1010) Heartbeat (st1\<lparr>nd_replays := g\<rparr>)"
proof -
  obtain answer st1 where reg: "register_node calm_env (moment_at 1000) ''https'' ''panel-001'' ''one-time-token-1'' demo_node =
      (Inr answer, st1)"
    using demo_registers by blast
  note due = demo_heartbeat_due
  from paired_panel_is_heard [OF due(1-4) reg due(5) py_int_str_of_int due(6-8), of "''GET''" "''/v1/heartbeat''" "[]"
      Heartbeat] reg show ?thesis unfolding signed_heartbeat_def by blast
qed

text \<open>The heartbeat is carried out when it is first sent, and not when it is replayed to the restarted node.\<close>

theorem no_command_twice_witness:
  "commands calm_env demo_node
     [Call (moment_at 1000) (Register ''https'' ''panel-001'' ''one-time-token-1''),
      Call (moment_at 1010) (Signed signed_heartbeat Heartbeat), Reboot (moment_at 1011),
      Call (moment_at 1012) (Signed signed_heartbeat Heartbeat)] =
   [(''0123456789abcdef'', 1005)]" (is "commands _ _ ?life = _")
proof -
  obtain answer st1 where reg: "register_node calm_env (moment_at 1000) ''https'' ''panel-001'' ''one-time-token-1'' demo_node =
      (Inr answer, st1)"
    using demo_registers by blast
  note due = demo_heartbeat_due
  from registered_key_signs(2) [OF due(1-4) reg due(5) py_int_str_of_int due(6-8), of "''GET''" "''/v1/heartbeat''" "[]"]
  obtain g where "signed_request calm_env (moment_at 1010) signed_heartbeat st1 =
      (Inr (node_id (ident (nd_identity demo_node))), st1\<lparr>nd_replays := g\<rparr>)" unfolding signed_heartbeat_def by blast
  moreover have head: "header_text (rq_nonce signed_heartbeat) = ''0123456789abcdef''"
    "py_int_of_str (header_text (rq_timestamp signed_heartbeat)) = Some 1005"
    by (simp_all add: signed_heartbeat_def header_text_def py_int_str_of_int)
  ultimately have first: "carried_out calm_env st1 (Call (moment_at 1010) (Signed signed_heartbeat Heartbeat)) =
      [(''0123456789abcdef'', 1005)]" by simp
  have again: "carried_out calm_env st2 (Call (moment_at 1012) (Signed signed_heartbeat Heartbeat)) \<in>
      {[], [(''0123456789abcdef'', 1005)]}" for st2 by (auto simp: head split: sum.split)
  have "node_step calm_env (Call (moment_at 1000) (Register ''https'' ''panel-001'' ''one-time-token-1'')) demo_node = st1"
    by (simp add: respond_def reg)
  with first again obtain rest where rest: "commands calm_env demo_node ?life = (''0123456789abcdef'', 1005) # rest"
    "rest \<in> {[], [(''0123456789abcdef'', 1005)]}" by (auto simp del: node_step.simps carried_out.simps(1))
  from no_command_twice [where st = demo_node and t = 0 and evs = ?life and E = calm_env] have
    "distinct (commands calm_env demo_node ?life)"
    by (simp add: demo_node_def fresh_guard_ok moment_at_def)
  with rest show ?thesis by auto
qed

lemma raw_account_taken:
  "to_user_account plain_coercions raw_account = Inr \<lparr>ua_user_id = 7, ua_username = ''ann'', ua_account_id = ''7.ann'',
     ua_protocol = ''vless'', ua_enabled = True, ua_expire_at = None, ua_data_limit_bytes = None, ua_settings = []\<rparr>"
proof -
  have "json_ok (JObj raw_account)" by (simp add: raw_account_def)
  moreover have "str_of_int 7 = ''7''"
    by (simp add: str_of_int_def str_of_nat.simps digit_char_def char_of_eq_iff)
  then have "py_int_of_str ''7'' = Some 7" by (metis py_int_str_of_int)
  ultimately show ?thesis
    by (simp add: to_user_account_Inr raw_account_def field_ok_def text_field_def jor_def jget_def jget_default_def
        plain_coercions_def)
qed

lemma demo_installed: "installed_only calm_env ''xray'' [] f demo_node = f demo_node"
proof -
  have "authorize_core calm_registry core_root_default id ''xray'' [] = Inr ()"
    by (simp add: authorize_core_def node_core_allowlist_def dget_available calm_registry_def)
  then show ?thesis
    by (simp add: installed_only_def authorized_def calm_env_def bindE_def liftE_def getE_def list_cores_def demo_node_def)
qed

lemma demo_synced: "\<exists>answer st'. core_accounts calm_env (moment_at 9) ''xray'' [raw_account] True demo_node = (Inr answer, st')"
proof -
  have coerce: "e_coerce calm_env = plain_coercions" by (simp add: calm_env_def)
  have sync: "wait_for M (on_mgr (call_driver ''xray'' (\<lambda>c. cls_sync_accounts c us))) demo_node = (Inr (), demo_node)"
    for M us by (simp add: on_mgr_def call_driver_def demo_node_def calm_class_def ret_def crash_def)
  show ?thesis
    unfolding core_accounts_def demo_installed coerce
    by (simp add: raw_account_taken bindE_def mapE.simps liftE_def ret_def failing_as_def catchE_def sync
        keep_accounts_def log_audit_def modE_def del: bindE_ret)
qed

theorem accounts_survive_restart_witness:
  "\<exists>answer st' accounts.
     core_accounts calm_env (moment_at 9) ''xray'' [raw_account] True demo_node = (Inr answer, st') \<and>
     map (to_user_account plain_coercions) [raw_account] = map Inr accounts \<and>
     (''xray'', [sort_obj raw_account]) \<in> set (all_accounts (nd_accounts st'))"
proof -
  obtain answer st' where run: "core_accounts calm_env (moment_at 9) ''xray'' [raw_account] True demo_node = (Inr answer, st')"
    using demo_synced by blast
  have "jsort v = JNull \<longleftrightarrow> v = JNull" for v by (cases v) simp_all
  then have blind: "order_blind (e_coerce calm_env)"
    by (auto simp: order_blind_def calm_env_def plain_coercions_def split: json.split)
  have rest: "\<not> acct_full (nd_accounts demo_node)" "acct_unreadable (nd_accounts demo_node) = []" "[raw_account] \<noteq> []"
    by (simp_all add: demo_node_def demo_accounts_dir_def)
  have coerce: "e_coerce calm_env = plain_coercions" by (simp add: calm_env_def)
  have all: "\<forall>raw \<in> set [raw_account]. plain_account raw" by (simp add: plain_account_def raw_account_def jget_def)
  obtain accounts where "map (to_user_account plain_coercions) [raw_account] = map Inr accounts"
    "(''xray'', map sort_obj [raw_account]) \<in> set (all_accounts (nd_accounts st'))"
    using accounts_survive_restart [OF run all blind rest] unfolding coerce by blast
  then have "map (to_user_account plain_coercions) [raw_account] = map Inr accounts \<and>
      (''xray'', [sort_obj raw_account]) \<in> set (all_accounts (nd_accounts st'))" by simp
  with run show ?thesis by blast
qed

end
