(* ===== verification/Node_History.thy ===== *)
theory Node_History
  imports Demo_Node
begin

text \<open>
  What holds over the life of a node and on every route at once: the audit log only grows, no route reaches beyond the
  installed cores of the allowlist, and a settings update is in the store when it is answered.
\<close>

section \<open>The audit log only grows\<close>

definition history_is :: "audit_row list \<Rightarrow> string \<Rightarrow> secrets_cipher \<Rightarrow> ('d, 's, 'w) node \<Rightarrow> bool" where
  "history_is rows nid C st \<longleftrightarrow> (\<exists>new. audit_log (nd_identity st) = rows @ new) \<and>
     node_id (ident (nd_identity st)) = nid \<and> id_cipher (nd_identity st) = C"

lemma revoke_simps:
  "audit_log (revoke s t) = audit_log s @ [\<lparr>row_ts = t, row_action = ''node.revoke'', row_detail = []\<rparr>]"
  "node_id (ident (revoke s t)) = node_id (ident s)" "id_cipher (revoke s t) = id_cipher s"
  by (simp_all add: revoke_def unpaired_def)

interpretation history_frame: node_frame "history_is rows nid C" for rows nid C
  by unfold_locales (auto simp: history_is_def revoke_simps)

lemma register_history:
  "history_is rows nid C st \<Longrightarrow> history_is rows nid C (snd (register_node E M scheme panel_id token st))"
  by (auto simp: history_is_def register_node_def register_def Let_def split: sum.splits exc.splits bool.splits)

lemma signed_history:
  assumes h: "history_is rows nid C st"
  shows "history_is rows nid C (snd (signed_request E M rq st))"
proof -
  obtain r st' where run: "signed_request E M rq st = (r, st')" by fastforce
  show "history_is rows nid C (snd (signed_request E M rq st))"
  proof (cases r)
    case (Inl f)
    from signed_request_Inl [OF run [unfolded Inl]] h run show ?thesis by (auto simp: history_is_def)
  next
    case (Inr n)
    with run have "\<exists>g. st' = st\<lparr>nd_replays := g\<rparr>" by (auto simp: signed_request_Inr)
    with h run show ?thesis by (auto simp: history_is_def)
  qed
qed

lemma respond_history: "history_is rows nid C st \<Longrightarrow> history_is rows nid C (snd (respond E M req st))"
proof (cases req)
  case (Signed rq ep)
  have "keeps (history_is rows nid C) (signed_request E M rq)" by (intro keepsI signed_history)
  moreover assume "history_is rows nid C st"
  ultimately show ?thesis
    using keepsD [OF keeps_bindE [OF _ history_frame.handle_keeps]] Signed by (simp add: respond_def)
qed (simp add: respond_def register_history)

lemma reboot_history:
  assumes "history_is rows nid C st" "cipher_ready C"
  shows "history_is rows nid C (snd (reboot E M st))"
proof (cases "new_process E M st")
  case (Inr st')
  with assms have "history_is rows nid C st'"
    by (auto simp: new_process_def bindR_Inr_conv sec_crash_def history_is_def open_identity_def disk_of_def
        cipher_ready_def Let_def split: sum.splits if_splits option.splits)
  with keepsD [OF history_frame.lifespan_keeps(1)] Inr show ?thesis by (simp add: reboot_def)
qed (use assms in \<open>simp add: reboot_def\<close>)

lemma node_step_history:
  "history_is rows nid C st \<Longrightarrow> cipher_ready C \<Longrightarrow> history_is rows nid C (node_step E ev st)"
  using respond_history reboot_history keepsD [OF history_frame.run_job_keeps] by (cases ev) auto

lemma life_history:
  "history_is rows nid C st \<Longrightarrow> cipher_ready C \<Longrightarrow> history_is rows nid C (fold (node_step E) evs st)"
  by (induction evs arbitrary: st) (simp_all add: node_step_history)

text \<open>
  C9: Whatever requests, job tasks and restarts a node goes through, nothing is ever removed from its audit log, which only
  grows at its end, and its id and its local key stay the same.
\<close>

theorem audit_log_only_grows:
  assumes "store_ready (nd_identity st)"
  shows "(\<exists>rows. audit_log (nd_identity (fold (node_step E) evs st)) = audit_log (nd_identity st) @ rows) \<and>
    node_id (ident (nd_identity (fold (node_step E) evs st))) = node_id (ident (nd_identity st)) \<and>
    id_cipher (nd_identity (fold (node_step E) evs st)) = id_cipher (nd_identity st)"
proof -
  have "history_is (audit_log (nd_identity st)) (node_id (ident (nd_identity st))) (id_cipher (nd_identity st)) st"
    by (simp add: history_is_def)
  from life_history [OF this] assms show ?thesis by (simp add: history_is_def store_ready_def)
qed

theorem audit_log_only_grows_witness:
  "\<exists>rows. audit_log (nd_identity (fold (node_step calm_env) [Call (moment_at 5) (Register ''https'' ''panel-01'' ''one-time-token-1''),
      Reboot (moment_at 9)] demo_node)) = audit_log (nd_identity demo_node) @ rows"
proof -
  have "store_ready (nd_identity demo_node)" by (simp add: demo_node_def store_ready_def cipher_ready_def)
  from audit_log_only_grows [OF this] show ?thesis by blast
qed

section \<open>No route reaches beyond the installed cores\<close>

primrec core_named :: "endpoint \<Rightarrow> string option" where
  "core_named Heartbeat = None"
| "core_named Revoke = None"
| "core_named Info = None"
| "core_named Health = None"
| "core_named (Audit limit) = None"
| "core_named (List_Jobs limit) = None"
| "core_named (Job_Status jid) = None"
| "core_named Cores = None"
| "core_named (Core_Status cid) = Some cid"
| "core_named (Core_Version cid) = Some cid"
| "core_named (Core_Logs cid n) = Some cid"
| "core_named (Core_Settings cid) = Some cid"
| "core_named (Put_Settings cid patch) = Some cid"
| "core_named (Put_Identity cid items) = Some cid"
| "core_named (Put_Accounts cid raws replace) = Some cid"
| "core_named (Put_Bans bans) = None"
| "core_named (Put_Limits limits) = None"
| "core_named Bandwidth_Status = None"
| "core_named Devices = None"
| "core_named Usage_Deltas = None"
| "core_named (Lifecycle a wait in_time) = Some (ca_core a)"
| "core_named (Put_Inbounds cid document items) = Some cid"

lemma unlisted_refused:
  assumes "cid \<notin> set node_core_allowlist"
  shows "authorized E cid settings st = (Inl (Http 403 (''core '' @ quoted cid @ '' is not in the node allowlist'')), st)"
  using assms by (simp add: authorized_def authorize_core_def liftE_def)

lemma absent_refused:
  assumes "cid \<notin> set (list_cores (nd_mgr st))"
  shows "\<exists>e. installed_only E cid settings f st = (Inl e, st)"
proof (cases "authorize_core (e_registry E) (e_root E) (e_resolve E) cid settings")
  case (Inl e)
  then show ?thesis by (simp add: installed_only_def authorized_def eff_simps)
next
  case (Inr u)
  with assms show ?thesis by (simp add: installed_only_def authorized_def eff_simps)
qed

text \<open>
  C6: Every route that names a core refuses one that is not in the node's allowlist with 403, and every route but the
  lifecycle route, which can install it, refuses one that is not installed; nothing at all has changed then.
\<close>

theorem routes_stay_on_installed_cores:
  assumes "core_named ep = Some cid"
  shows "(cid \<notin> set node_core_allowlist \<longrightarrow>
      handle E M ep st = (Inl (Http 403 (''core '' @ quoted cid @ '' is not in the node allowlist'')), st)) \<and>
    (cid \<notin> set (list_cores (nd_mgr st)) \<longrightarrow> (\<exists>a w t. ep = Lifecycle a w t) \<or> (\<exists>e. handle E M ep st = (Inl e, st)))"
proof
  show "cid \<notin> set node_core_allowlist \<longrightarrow>
      handle E M ep st = (Inl (Http 403 (''core '' @ quoted cid @ '' is not in the node allowlist'')), st)"
    using assms by (cases ep) (simp_all add: core_status_view_def core_version_view_def core_logs_def core_settings_def
        core_settings_update_def core_identity_def core_accounts_def core_lifecycle_def core_inbounds_def
        installed_only_def bindE_def unlisted_refused)
  show "cid \<notin> set (list_cores (nd_mgr st)) \<longrightarrow> (\<exists>a w t. ep = Lifecycle a w t) \<or> (\<exists>e. handle E M ep st = (Inl e, st))"
    using assms by (cases ep) (simp_all add: core_status_view_def core_version_view_def core_logs_def core_settings_def
        core_settings_update_def core_identity_def core_accounts_def core_inbounds_def absent_refused)
qed

theorem routes_stay_on_installed_cores_witness:
  "handle calm_env (moment_at 5) (Core_Logs ''hysteria2'' 10) demo_node =
     (Inl (Http 403 (''core '' @ quoted ''hysteria2'' @ '' is not in the node allowlist'')), demo_node)"
proof -
  have "core_named (Core_Logs ''hysteria2'' 10) = Some ''hysteria2''" by simp
  moreover have "''hysteria2'' \<notin> set node_core_allowlist" by (simp add: node_core_allowlist_def)
  ultimately show ?thesis using routes_stay_on_installed_cores by blast
qed

section \<open>A settings update is durable\<close>

lemma settings_update_ran:
  assumes "core_settings_update E M cid patch st = (Inr answer, st')" "dget (drivers (nd_mgr st)) cid = Some d"
    and "merged = dmerge (cls_settings (drv_class d) (drv_state d)) patch"
  obtains cst where "dget (states (nd_mgr st)) cid = Some cst"
    "op_save (w_store (e_wiring E)) cid cst (is_enabled (nd_mgr st) cid) (Some merged) (store (nd_mgr st)) =
       (Inr (), store (nd_mgr st'))"
    "dget answer ''settings'' = Some (JObj (mask_settings merged))"
proof -
  let ?W = "e_wiring E" and ?en = "is_enabled (nd_mgr st) cid"
  have ok: "authorize_core (e_registry E) (e_root E) (e_resolve E) cid patch = Inr ()" "cid \<in> set (list_cores (nd_mgr st))"
    using assms(1) by (auto simp: core_settings_update_def installed_only_def authorized_def eff_simps
        split: if_splits elim!: bindE_Inr)
  let ?d = "d\<lparr>drv_state := hk_set_settings (e_hooks E) (drv_class d) merged (drv_state d)\<rparr>"
  let ?m = "(nd_mgr st)\<lparr>drivers := dput cid ?d (dput cid d (drivers (nd_mgr st)))\<rparr>"
  have settings: "on_mgr (driver_settings cid) st =
      (Inr (cls_settings (drv_class d) (drv_state d)), st\<lparr>nd_mgr := (nd_mgr st)\<lparr>drivers := dput cid d (drivers (nd_mgr st))\<rparr>\<rparr>)"
    using assms(2) by (simp add: on_mgr_def driver_settings_def call_driver_def getE_def crash_def)
  have set: "on_mgr (call_driver cid (\<lambda>c. modE (hk_set_settings (e_hooks E) c merged)))
      (st\<lparr>nd_mgr := (nd_mgr st)\<lparr>drivers := dput cid d (drivers (nd_mgr st))\<rparr>\<rparr>) = (Inr (), st\<lparr>nd_mgr := ?m\<rparr>)"
    by (simp add: on_mgr_def call_driver_def modE_def crash_def)
  let ?rest = "bindE (on_mgr (state_at cid)) (\<lambda>cst. bindE (getE (\<lambda>st. is_enabled (nd_mgr st) cid)) (\<lambda>en.
        seqE (on_mgr (save_row ?W cid cst en (Some merged)))
       (seqE (log_audit M ''core.settings'' [(''core_id'', JStr cid), (''keys'', texts (sort (dkeys patch)))])
          (ret (ok_core cid @ [(''settings'', JObj (mask_settings merged)), (''restart_required'', JBool True)])))))"
  have "core_settings_update E M cid patch st = ?rest (st\<lparr>nd_mgr := ?m\<rparr>)"
    using ok set unfolding assms(3)
    by (simp add: core_settings_update_def installed_only_def authorized_def Let_def
        bindE_simps(2) [where m = "on_mgr (driver_settings cid)" and s = st, OF settings]
        bindE_simps(2) [where m = "on_mgr (call_driver cid _)"])
  with assms(1) have rest: "?rest (st\<lparr>nd_mgr := ?m\<rparr>) = (Inr answer, st')" by simp
  then obtain cst where cst: "dget (states (nd_mgr st)) cid = Some cst"
    by (cases "dget (states (nd_mgr st)) cid") (auto simp: bindE_def on_mgr_def state_at_def crash_def)
  obtain r s where save: "op_save (w_store ?W) cid cst ?en (Some merged) (store (nd_mgr st)) = (r, s)" by fastforce
  from rest cst save have "r = Inr ()" "store (nd_mgr st') = s" "dget answer ''settings'' = Some (JObj (mask_settings merged))"
    by (cases r; auto simp: bindE_def on_mgr_def state_at_def crash_def save_row_def on_store_def getE_def is_enabled_def
        log_audit_def modE_def ret_def ok_core_def)+
  with cst save that show thesis by blast
qed

text \<open>
  C13: When a settings update is answered, the store holds the driver's settings merged with the patch, under the core's
  state and its switch, beside the unchanged records of all other cores, sealed so that the next boot loads them; and the
  answer shows the same settings with the secrets masked.
\<close>

theorem settings_update_is_durable:
  assumes "core_settings_update E M cid patch st = (Inr answer, st')" "dget (drivers (nd_mgr st)) cid = Some d"
    and "w_store (e_wiring E) = node_ops pure_aead" "node_store_ok pure_aead (store (nd_mgr st))"
    and "settings_ok (dmerge (cls_settings (drv_class d) (drv_state d)) patch)"
  shows "\<exists>cst merged. dget (states (nd_mgr st)) cid = Some cst \<and>
    merged = dmerge (cls_settings (drv_class d) (drv_state d)) patch \<and>
    node_view pure_aead (store (nd_mgr st')) = (node_view pure_aead (store (nd_mgr st)))(cid \<mapsto>
      \<lparr>rec_state = JStr (state_value cst), rec_enabled = is_enabled (nd_mgr st) cid, rec_settings = merged\<rparr>) \<and>
    node_store_ok pure_aead (store (nd_mgr st')) \<and>
    dget answer ''settings'' = Some (JObj (mask_settings merged))"
proof -
  obtain cst where cst: "dget (states (nd_mgr st)) cid = Some cst"
    and save: "op_save (node_ops pure_aead) cid cst (is_enabled (nd_mgr st) cid)
      (Some (dmerge (cls_settings (drv_class d) (drv_state d)) patch)) (store (nd_mgr st)) = (Inr (), store (nd_mgr st'))"
    and answer: "dget answer ''settings'' = Some (JObj (mask_settings (dmerge (cls_settings (drv_class d) (drv_state d)) patch)))"
    using settings_update_ran [OF assms(1,2) refl] assms(3) by metis
  have "opt_settings_ok (Some (dmerge (cls_settings (drv_class d) (drv_state d)) patch))" using assms(5) by simp
  from node_state.save_law [OF assms(4) this, of cid cst "is_enabled (nd_mgr st) cid"] save cst answer show ?thesis
    by (auto simp: saved_record_def)
qed

lemma demo_patch_allowed:
  "authorize_core calm_registry core_root_default id ''xray'' [(''release_version'', JStr ''v1'')] = Inr ()"
proof -
  have "\<not> path_marked ''release_version''" by (simp add: path_eval)
  moreover obtain allowed where "allowed_settings xray_metadata = Inr allowed" "''release_version'' \<in> set allowed"
    by (auto simp: allowed_settings_def xray_metadata_def jget_def jor_def dict_keys_def)
  ultimately show ?thesis
    using authorize_core_known [of "''xray''" calm_registry _ xray_metadata core_root_default id "[(''release_version'', JStr ''v1'')]"]
    by (simp add: calm_registry_def node_core_allowlist_def schema_allows_def confined_def)
qed

theorem settings_update_is_durable_witness:
  "\<exists>answer st'. core_settings_update calm_env (moment_at 5) ''xray'' [(''release_version'', JStr ''v1'')] demo_node =
       (Inr answer, st') \<and>
     node_view pure_aead (store (nd_mgr st')) ''xray'' =
       Some \<lparr>rec_state = JStr ''installed'', rec_enabled = True, rec_settings = [(''release_version'', JStr ''v1'')]\<rparr>"
proof -
  let ?patch = "[(''release_version'', JStr ''v1'')]"
  have ok: "settings_ok ?patch" by (simp add: settings_ok_def)
  obtain s where save: "op_save (node_ops pure_aead) ''xray'' INSTALLED True (Some ?patch) demo_node_store = (Inr (), s)"
    using node_state.save_law [OF demo_node_store_ok, of "Some ?patch" "''xray''" INSTALLED True] ok by auto
  have "\<exists>answer st'. core_settings_update calm_env (moment_at 5) ''xray'' ?patch demo_node = (Inr answer, st')"
    using save demo_patch_allowed
    by (simp add: core_settings_update_def installed_only_def authorized_def eff_simps calm_env_def demo_node_def
        list_cores_def on_mgr_def driver_settings_def call_driver_def calm_class_def crash_def state_at_def save_row_def
        on_store_def is_enabled_def Let_def bindE_def log_audit_def calm_hooks_def)
  then obtain answer st' where run: "core_settings_update calm_env (moment_at 5) ''xray'' ?patch demo_node = (Inr answer, st')"
    by blast
  have d: "dget (drivers (nd_mgr demo_node)) ''xray'' = Some \<lparr>drv_class = calm_class, drv_state = ()\<rparr>"
    and W: "w_store (e_wiring calm_env) = node_ops pure_aead" "node_store_ok pure_aead (store (nd_mgr demo_node))"
    using demo_node_store_ok by (simp_all add: demo_node_def calm_env_def)
  have "settings_ok (dmerge (cls_settings (drv_class \<lparr>drv_class = calm_class, drv_state = ()\<rparr>) (drv_state \<lparr>drv_class = calm_class, drv_state = ()\<rparr>)) ?patch)"
    using ok by (simp add: calm_class_def)
  from settings_update_is_durable [OF run d W this] run show ?thesis
    by (auto simp: demo_node_def calm_class_def is_enabled_def)
qed

end
