(* ===== verification/Info_Api.thy ===== *)
theory Info_Api
  imports App_Props
begin

text \<open>
  \<^verbatim>\<open>node_agent/info_api.py\<close>: the unauthenticated front door. Its three pages are functions of the identity store, the
  certificate and the installed cores; starting it polls the server of \<^verbatim>\<open>uvicorn\<close>, whose socket and task are what each
  poll sees of them.
\<close>

section \<open>The pages\<close>

definition detailed :: "environ \<Rightarrow> bool" where
  "detailed env \<longleftrightarrow>
     py_lower (py_strip (env_get env ''ZAGROS_NODE_INFO_DETAIL'' ''0'')) \<in> {''1'', ''true'', ''yes'', ''on''}"

text \<open>\<^verbatim>\<open>sorted\<close> of a set.\<close>

definition sorted_set :: "string list \<Rightarrow> json" where
  "sorted_set xs = texts (sort (remdups xs))"

definition info_cores :: "string list \<Rightarrow> jobj" where
  "info_cores cores =
     [(''installed'', sorted_set cores),
      (''available'', sorted_set (filter (\<lambda>cid. cid \<notin> set cores) node_core_allowlist))]"

record page_env =
  pg_environ :: environ
  pg_aead :: aead
  pg_cfg :: node_config
  pg_certificate :: node_certificate
  pg_cert_pem :: string
  pg_uptime :: json

definition info_page :: "page_env \<Rightarrow> id_store \<Rightarrow> string list \<Rightarrow> exc + jobj" where
  "info_page P s cores =
     bindR (signing_key (pg_aead P) s) (\<lambda>key. Inr
       ([(''node_id'', JStr (node_id (ident s))),
         (''name'', if cfg_name (pg_cfg P) = [] then JNull else JStr (cfg_name (pg_cfg P))),
         (''agent'', JStr agent_name), (''agent_version'', JStr agent_version), (''api_version'', JInt api_version),
         (''control_plane_port'', JInt (port (pg_cfg P))), (''info_port'', JInt (api_port (pg_cfg P))),
         (''registered'', JBool (key \<noteq> None)), (''pending_token'', JBool (has_pending_token s)),
         (''certificate_sha256'', JStr (nc_fingerprint (pg_certificate P))),
         (''certificate_pem'', JStr (pg_cert_pem P)),
         (''certificate_not_after'', JStr (nc_not_after (pg_certificate P))),
         (''uptime_seconds'', pg_uptime P)] @
        (if detailed (pg_environ P) then [(''cores'', JObj (info_cores cores))] else [])))"

definition healthz :: "page_env \<Rightarrow> id_store \<Rightarrow> exc + jobj" where
  "healthz P s =
     bindR (signing_key (pg_aead P) s) (\<lambda>key. Inr [(''ok'', JBool True), (''registered'', JBool (key \<noteq> None))])"

definition fingerprint_page :: "page_env \<Rightarrow> id_store \<Rightarrow> exc + jobj" where
  "fingerprint_page P s =
     Inr [(''node_id'', JStr (node_id (ident s))), (''certificate_sha256'', JStr (nc_fingerprint (pg_certificate P)))]"

datatype info_route = Info_Page | Healthz | Fingerprint_Page

primrec info_answer :: "page_env \<Rightarrow> id_store \<Rightarrow> string list \<Rightarrow> info_route \<Rightarrow> exc + jobj" where
  "info_answer P s cores Info_Page = info_page P s cores"
| "info_answer P s cores Healthz = healthz P s"
| "info_answer P s cores Fingerprint_Page = fingerprint_page P s"

section \<open>Starting and stopping the server\<close>

datatype server_task = Serving | Served | Bind_Failed core_exc

record poll =
  bound :: bool
  serve_task :: server_task

definition info_polls :: nat where
  "info_polls = 200"

definition not_bound :: "int \<Rightarrow> core_exc" where
  "not_bound p =
     OtherError ''RuntimeError'' (''info port '' @ str_of_int p @
       '' did not bind within 10s (is it already in use? see ZAGROS_NODE_API_PORT)'')"

text \<open>
  The loop with \<open>n\<close> polls left: awaiting a task that is done raises its exception; a task that has ended without one
  changes nothing. The value is the number of the poll that saw the socket.
\<close>

fun await_bound :: "int \<Rightarrow> nat \<Rightarrow> (nat \<Rightarrow> poll) \<Rightarrow> nat \<Rightarrow> core_exc + nat" where
  "await_bound p 0 polls i = Inl (not_bound p)"
| "await_bound p (Suc n) polls i =
     (if bound (polls i) then Inr i
      else (case serve_task (polls i) of
              Bind_Failed e \<Rightarrow> Inl e
            | _ \<Rightarrow> await_bound p n polls (Suc i)))"

definition start_info_server :: "node_config \<Rightarrow> (nat \<Rightarrow> poll) \<Rightarrow> core_exc + nat" where
  "start_info_server cfg polls = await_bound (api_port cfg) info_polls polls 0"

text \<open>\<^verbatim>\<open>stop\<close> awaits the task and drops what it raises.\<close>

definition stop_info :: "core_exc + unit \<Rightarrow> core_exc + unit" where
  "stop_info r = (case r of Inl e \<Rightarrow> if e = CancelledError \<or> is_exception e then Inr () else Inl e | Inr _ \<Rightarrow> Inr ())"

section \<open>What the front door shows\<close>

lemma sorted_set_cong: "set xs = set ys \<Longrightarrow> sorted_set xs = sorted_set ys"
proof -
  assume "set xs = set ys"
  then have "sort (remdups xs) = sort (remdups ys)"
    by (metis sorted_list_of_set_sort_remdups)
  then show ?thesis by (simp add: sorted_set_def)
qed

lemma info_cores_cong: "set xs = set ys \<Longrightarrow> info_cores xs = info_cores ys"
  using sorted_set_cong [of xs ys] by (simp add: info_cores_def)

text \<open>
  C19: The unauthenticated pages reveal nothing but what is public: two nodes whose keys unseal, that agree on their node
  id, on whether they are paired and on whether a token is pending, and when the operator asked for detail on their
  installed cores, give the same answer on every page, whatever their signing keys, token hashes, panels and audit logs
  are. Without the detail switch the cores do not matter either.
\<close>

theorem info_shows_only_public:
  assumes "signing_key (pg_aead P) s = Inr k" "signing_key (pg_aead P) s' = Inr k'" "k = None \<longleftrightarrow> k' = None"
    and "node_id (ident s) = node_id (ident s')" "has_pending_token s = has_pending_token s'"
    and "detailed (pg_environ P) \<longrightarrow> set cores = set cores'"
  shows "info_answer P s cores route = info_answer P s' cores' route"
proof (cases route)
  case Info_Page
  with assms info_cores_cong [of cores cores'] show ?thesis by (auto simp: info_page_def)
next
  case Healthz
  with assms show ?thesis by (auto simp: healthz_def)
next
  case Fingerprint_Page
  with assms show ?thesis by (simp add: fingerprint_page_def)
qed

definition demo_page :: page_env where
  "demo_page = \<lparr>pg_environ = [], pg_aead = pure_aead, pg_cfg = demo_cfg,
     pg_certificate = \<lparr>nc_cert_path = [], nc_key_path = [], nc_fingerprint = ''0102'', nc_not_after = [], nc_sans = []\<rparr>,
     pg_cert_pem = ''PEM'', pg_uptime = JInt 1\<rparr>"

theorem info_shows_only_public_witness:
  "\<exists>s s'. register pure_aead demo_store ''token'' ''panel'' (replicate 32 1) (replicate 12 2) 99 = (Inr (replicate 32 1), s) \<and>
     register pure_aead demo_store ''token'' ''other'' (replicate 32 9) (replicate 12 2) 77 = (Inr (replicate 32 9), s') \<and>
     signing_key pure_aead s \<noteq> signing_key pure_aead s' \<and>
     info_answer demo_page s [''xray''] Info_Page = info_answer demo_page s' [] Info_Page"
proof -
  have ready: "store_ready demo_store" by (simp add: demo_store_def store_ready_def cipher_ready_def)
  have n: "length (replicate 12 2 :: bytes) = 12" by simp
  have h: "registration_token_hash (ident demo_store) = sha256_hex (utf8_encode ''token'')"
    by (simp add: demo_store_def fresh_identity_def)
  obtain s where r: "register pure_aead demo_store ''token'' ''panel'' (replicate 32 1) (replicate 12 2) 99 =
      (Inr (replicate 32 1), s)" using pure_gcm.register_total [OF ready n h] by blast
  obtain s' where r': "register pure_aead demo_store ''token'' ''other'' (replicate 32 9) (replicate 12 2) 77 =
      (Inr (replicate 32 9), s')" using pure_gcm.register_total [OF ready n h] by blast
  have k: "signing_key pure_aead s = Inr (Some (replicate 32 1))" "signing_key pure_aead s' = Inr (Some (replicate 32 9))"
    using pure_gcm.signing_key_after_register [OF ready n _ r] pure_gcm.signing_key_after_register [OF ready n _ r'] by simp_all
  have same: "node_id (ident s) = node_id (ident s')" "has_pending_token s = has_pending_token s'"
    using register_accepts_only [OF r] register_accepts_only [OF r'] by (simp_all add: has_pending_token_def)
  have off: "detailed (pg_environ demo_page) \<longrightarrow> set [''xray''] = set []"
    by (simp add: demo_page_def detailed_def env_get_def py_strip_def space_char_def py_lower_def lower_char_def
        is_upper_ascii_def)
  have A: "pg_aead demo_page = pure_aead" by (simp add: demo_page_def)
  note pages = info_shows_only_public [where P = demo_page, unfolded A, OF k _ same off]
  have "info_answer demo_page s [''xray''] Info_Page = info_answer demo_page s' [] Info_Page"
    by (rule pages) simp
  moreover have "signing_key pure_aead s \<noteq> signing_key pure_aead s'" unfolding k by simp
  ultimately show ?thesis using r r' by blast
qed

section \<open>The server is up, or the boot fails, within ten seconds\<close>

definition quiet :: "poll \<Rightarrow> bool" where
  "quiet q \<longleftrightarrow> \<not> bound q \<and> (\<forall>e. serve_task q \<noteq> Bind_Failed e)"

lemma await_bound_cases:
  "case await_bound p n polls i of
     Inr k \<Rightarrow> i \<le> k \<and> k < i + n \<and> bound (polls k) \<and> (\<forall>j. i \<le> j \<and> j < k \<longrightarrow> quiet (polls j))
   | Inl e \<Rightarrow> (\<exists>k. i \<le> k \<and> k < i + n \<and> \<not> bound (polls k) \<and> serve_task (polls k) = Bind_Failed e \<and>
         (\<forall>j. i \<le> j \<and> j < k \<longrightarrow> quiet (polls j))) \<or>
       e = not_bound p \<and> (\<forall>j. i \<le> j \<and> j < i + n \<longrightarrow> quiet (polls j))"
proof (induction n arbitrary: i)
  case 0
  show ?case by auto
next
  case (Suc n)
  show ?case
  proof (cases "quiet (polls i)")
    case True
    have here: "quiet (polls j)" if "i \<le> j" "j < k" "\<forall>j. Suc i \<le> j \<and> j < k \<longrightarrow> quiet (polls j)" for j k
      using that True by (cases "j = i") auto
    from True have run: "await_bound p (Suc n) polls i = await_bound p n polls (Suc i)"
      by (auto simp: quiet_def split: server_task.split)
    show ?thesis
    proof (cases "await_bound p n polls (Suc i)")
      case (Inr k)
      with Suc.IH [of "Suc i"] have k: "Suc i \<le> k" "k < Suc i + n" "bound (polls k)"
        "\<forall>j. Suc i \<le> j \<and> j < k \<longrightarrow> quiet (polls j)" by simp_all
      then show ?thesis unfolding run Inr using here [OF _ _ k(4)] by simp
    next
      case (Inl e)
      with Suc.IH [of "Suc i"] consider
        k where "Suc i \<le> k" "k < Suc i + n" "\<not> bound (polls k)" "serve_task (polls k) = Bind_Failed e"
          "\<forall>j. Suc i \<le> j \<and> j < k \<longrightarrow> quiet (polls j)"
        | "e = not_bound p" "\<forall>j. Suc i \<le> j \<and> j < Suc i + n \<longrightarrow> quiet (polls j)" by auto
      then show ?thesis
      proof cases
        case 1
        then show ?thesis unfolding run Inl using here [OF _ _ 1(5)]
          by (auto intro!: disjI1 exI [of _ k])
      next
        case 2
        then show ?thesis unfolding run Inl using here [OF _ _ 2(2)] by simp
      qed
    qed
  next
    case False
    then show ?thesis by (auto simp: quiet_def split: server_task.split)
  qed
qed

text \<open>
  C40: Starting the info server always ends, within 200 polls: with the first poll that finds the socket bound; with the
  exception of the server's task when that fails first; and with the \<^verbatim>\<open>RuntimeError\<close> that names the port exactly
  when 200 polls have seen neither.
\<close>

theorem info_server_starts_or_fails:
  "case start_info_server cfg polls of
     Inr k \<Rightarrow> k < 200 \<and> bound (polls k) \<and> (\<forall>j. j < k \<longrightarrow> quiet (polls j))
   | Inl e \<Rightarrow> (\<exists>k. k < 200 \<and> \<not> bound (polls k) \<and> serve_task (polls k) = Bind_Failed e \<and>
         (\<forall>j. j < k \<longrightarrow> quiet (polls j))) \<or>
       e = not_bound (api_port cfg) \<and> (\<forall>j. j < 200 \<longrightarrow> quiet (polls j))"
  using await_bound_cases [where p = "api_port cfg" and n = info_polls and polls = polls and i = 0]
  by (simp add: start_info_server_def info_polls_def split: sum.splits)

theorem info_server_starts_or_fails_witness:
  "case start_info_server demo_cfg (\<lambda>i. \<lparr>bound = i = 3, serve_task = Serving\<rparr>) of
     Inr k \<Rightarrow> k < 200 \<and> k = 3 | Inl e \<Rightarrow> False"
proof -
  let ?polls = "\<lambda>i :: nat. \<lparr>bound = i = 3, serve_task = Serving\<rparr>"
  have never: "\<not> (\<forall>j. j < (200 :: nat) \<longrightarrow> quiet (?polls j))"
    by (auto intro!: exI [of _ 3] simp: quiet_def)
  show ?thesis
  proof (cases "start_info_server demo_cfg ?polls")
    case (Inl e)
    with info_server_starts_or_fails [where cfg = demo_cfg and polls = ?polls] never show ?thesis
      by (simp add: quiet_def)
  next
    case (Inr k)
    with info_server_starts_or_fails [where cfg = demo_cfg and polls = ?polls] show ?thesis by simp
  qed
qed

end
