(* ===== verification/Cli.thy ===== *)
theory Cli
  imports Info_Api
begin

text \<open>
  \<^verbatim>\<open>node_agent/cli.py\<close> and \<^verbatim>\<open>node_agent/__main__.py\<close>: the commands an operator runs beside the agent, each in a process of
  its own over the same files. Their state is those files and what they have printed; the value of a command is its exit
  status, and an exception that no command catches is the error. \<^verbatim>\<open>argparse\<close> makes a \<open>command\<close> of the arguments. The
  dashes in three of the texts, which are outside Latin-1, are hyphens here.
\<close>

section \<open>Printing\<close>

definition spaces :: "nat \<Rightarrow> string" where
  "spaces n = replicate n CHR '' ''"

text \<open>\<^verbatim>\<open>json.dumps(value, indent=2)\<close> at nesting depth \<open>k\<close>.\<close>

fun json_indent :: "nat \<Rightarrow> json \<Rightarrow> string" where
  "json_indent k (JList (x # xs)) =
     ''['' @ newline @
       py_join ('','' @ newline) (map (\<lambda>v. spaces (2 * Suc k) @ json_indent (Suc k) v) (x # xs)) @
       newline @ spaces (2 * k) @ '']''"
| "json_indent k (JObj (m # d)) =
     ''{'' @ newline @
       py_join ('','' @ newline)
         (map (\<lambda>kv. spaces (2 * Suc k) @ jquote True (fst kv) @ '': '' @ json_indent (Suc k) (snd kv)) (m # d)) @
       newline @ spaces (2 * k) @ ''}''"
| "json_indent k v = json_dumps default_style v"

text \<open>\<^verbatim>\<open>f"{text:<n}"\<close>.\<close>

definition pad :: "nat \<Rightarrow> string \<Rightarrow> string" where
  "pad n s = s @ spaces (n - length s)"

text \<open>A value under the format \<^verbatim>\<open><12\<close>: a string or a number is padded (a Boolean as a number), anything else has no such format.\<close>

definition pad_value :: "nat \<Rightarrow> json \<Rightarrow> core_exc + string" where
  "pad_value n v =
     (case v of
        JStr s \<Rightarrow> Inr (pad n s)
      | JInt i \<Rightarrow> Inr (pad n (str_of_int i))
      | JBool b \<Rightarrow> Inr (pad n (if b then ''1'' else ''0''))
      | _ \<Rightarrow> Inl type_error)"

section \<open>The files and the process\<close>

record files =
  fl_identity :: id_disk
  fl_replays :: "string option"
  fl_tls :: tls_disk
  fl_state_key :: "bytes option"
  fl_cores :: "string option"
  fl_out :: "string list"
  fl_err :: "string list"

text \<open>What the module level of \<^verbatim>\<open>app.py\<close> opens for the server: the identity, the replay guard and the cores' state.\<close>

record served =
  sv_identity :: id_store
  sv_replays :: replay_guard
  sv_store :: node_store

text \<open>
  \<open>pr_serve\<close> is what \<^verbatim>\<open>uvicorn\<close> does with the imported application until it returns: it answers the requests of \<open>App\<close> and
  may change every file. The draws are the random bytes that the process makes.
\<close>

record ('c, 'k) process =
  pr_environ :: environ
  pr_aead :: aead
  pr_x509 :: "('c, 'k) x509"
  pr_socket :: "core_exc + string"
  pr_tls_key :: 'k
  pr_now :: int
  pr_key_draw :: bytes
  pr_id_draw :: bytes
  pr_state_draw :: bytes
  pr_rng :: "nat \<Rightarrow> bytes"
  pr_serve :: "served \<Rightarrow> (files, core_exc, unit) eff"

type_synonym 'a cli = "(files, core_exc, 'a) eff"

definition print_out :: "string \<Rightarrow> unit cli" where
  "print_out line = modE (\<lambda>f. f\<lparr>fl_out := fl_out f @ [line]\<rparr>)"

definition print_err :: "string \<Rightarrow> unit cli" where
  "print_err line = modE (\<lambda>f. f\<lparr>fl_err := fl_err f @ [line]\<rparr>)"

definition load_config :: "('c, 'k) process \<Rightarrow> core_exc + node_config" where
  "load_config P = (case from_env (pr_environ P) of Inl m \<Rightarrow> Inl (value_error m) | Inr c \<Rightarrow> Inr c)"

definition sec_error :: "exc + 'a \<Rightarrow> core_exc + 'a" where
  "sec_error r = (case r of Inl e \<Rightarrow> Inl (sec_exc e) | Inr x \<Rightarrow> Inr x)"

definition ensure_files :: "('c, 'k) process \<Rightarrow> node_config \<Rightarrow> node_certificate cli" where
  "ensure_files P cfg f =
     (let (r, d) = ensure (pr_x509 P) cfg (pr_socket P) (pr_tls_key P) (pr_now P) (fl_tls f)
      in (r, f\<lparr>fl_tls := d\<rparr>))"

text \<open>\<^verbatim>\<open>NodeIdentityStore(cfg.data_dir, hash)\<close>: opening the store writes what it makes or changes.\<close>

definition open_files :: "('c, 'k) process \<Rightarrow> string option \<Rightarrow> id_store cli" where
  "open_files P hash f =
     (case open_identity (fl_identity f) hash (pr_key_draw P) (pr_id_draw P) of
        Inl e \<Rightarrow> (Inl (sec_exc e), f)
      | Inr s \<Rightarrow> (Inr s, f\<lparr>fl_identity := disk_of s\<rparr>))"

definition or_none :: "string \<Rightarrow> string option" where
  "or_none s = (if s = [] then None else Some s)"

section \<open>The commands\<close>

definition banner :: "node_config \<Rightarrow> node_certificate \<Rightarrow> string list" where
  "banner cfg c =
     [agent_name @ '' '' @ agent_version @ '' (api v'' @ str_of_int api_version @ '')'',
      ''  data dir       : '' @ data_dir cfg,
      ''  control plane  : https://'' @ host cfg @ '':'' @ str_of_int (port cfg) @ ''  (signed)'',
      ''  info port      : http://'' @ info_bind cfg @ '':'' @ str_of_int (api_port cfg) @ ''  (read-only)'',
      ''  certificate    : '' @ nc_cert_path c,
      ''  SHA-256 pin    : '' @ nc_fingerprint c] @
     (if cfg_name cfg \<noteq> [] then [''  node name      : '' @ cfg_name cfg] else [])"

definition print_banner :: "node_config \<Rightarrow> node_certificate \<Rightarrow> unit cli" where
  "print_banner cfg c = forE print_out (banner cfg c)"

definition name_or_null :: "node_config \<Rightarrow> json" where
  "name_or_null cfg = (if cfg_name cfg = [] then JNull else JStr (cfg_name cfg))"

definition cmd_cert :: "('c, 'k) process \<Rightarrow> int cli" where
  "cmd_cert P =
     bindE (liftE (load_config P)) (\<lambda>cfg.
     bindE (ensure_files P cfg) (\<lambda>c.
     seqE (print_out (json_indent 0 (JObj
       [(''node_name'', name_or_null cfg), (''certificate_path'', JStr (nc_cert_path c)),
        (''key_path'', JStr (nc_key_path c)), (''certificate_sha256'', JStr (nc_fingerprint c)),
        (''not_after'', JStr (nc_not_after c)), (''sans'', texts (nc_sans c))])))
       (ret 0)))"

definition core_summary :: "jobj \<Rightarrow> json" where
  "core_summary record = JObj [(''state'', jget record ''state''), (''enabled'', jget record ''enabled'')]"

definition cores_state :: "string option \<Rightarrow> core_exc + jobj" where
  "cores_state file =
     (case file of
        None \<Rightarrow> Inr []
      | Some text \<Rightarrow>
          (case json_loads text of
             None \<Rightarrow> Inr []
           | Some (JObj raw) \<Rightarrow>
               Inr (List.map_filter (\<lambda>(cid, record). case record of JObj d \<Rightarrow> Some (cid, core_summary d) | _ \<Rightarrow> None) raw)
           | Some _ \<Rightarrow> Inl attribute_error))"

definition read_cores :: "jobj cli" where
  "read_cores = bindE (getE (\<lambda>f. cores_state (fl_cores f))) liftE"

definition cmd_info :: "('c, 'k) process \<Rightarrow> int cli" where
  "cmd_info P =
     bindE (liftE (load_config P)) (\<lambda>cfg.
     bindE (ensure_files P cfg) (\<lambda>c.
     bindE (open_files P (or_none (registration_hash cfg))) (\<lambda>s.
     bindE (liftE (sec_error (signing_key (pr_aead P) s))) (\<lambda>key.
     bindE read_cores (\<lambda>cores.
     seqE (print_out (json_indent 0 (JObj
       [(''node_id'', JStr (node_id (ident s))), (''node_name'', name_or_null cfg), (''agent'', JStr agent_name),
        (''agent_version'', JStr agent_version), (''api_version'', JInt api_version),
        (''control_plane_port'', JInt (port cfg)), (''info_port'', JInt (api_port cfg)), (''image'', JStr (image cfg)),
        (''registered'', JBool (key \<noteq> None)), (''registered_panel'', opt_text (registered_panel (ident s))),
        (''pending_token'', JBool (has_pending_token s)), (''certificate_sha256'', JStr (nc_fingerprint c)),
        (''certificate_not_after'', JStr (nc_not_after c)), (''cores'', JObj cores)])))
       (ret 0))))))"

definition status_line :: "nat \<Rightarrow> string \<times> json \<Rightarrow> core_exc + string" where
  "status_line width entry =
     (case snd entry of
        JObj record \<Rightarrow>
          bindR (pad_value 12 (jget_default record ''state'' (JStr ''?''))) (\<lambda>state. Inr
            (pad width (fst entry) @ ''  '' @ state @ ''  enabled='' @
             (if truthy (jget record ''enabled'') then ''yes'' else ''no'')))
      | _ \<Rightarrow> Inl attribute_error)"

definition widest :: "jobj \<Rightarrow> nat" where
  "widest cores = foldr (\<lambda>cid. max (length cid)) (dkeys cores) 0"

definition cmd_status :: "('c, 'k) process \<Rightarrow> int cli" where
  "cmd_status P =
     bindE (liftE (load_config P)) (\<lambda>cfg.
     bindE read_cores (\<lambda>cores.
     if cores = []
     then seqE (print_out (''no cores installed - install one from the panel'' @ [CHR 0x27] @ ''s node catalog'')) (ret 0)
     else
       seqE (forE (\<lambda>entry. bindE (liftE (status_line (widest cores) entry)) print_out) (sort_key fst cores))
         (ret 0)))"

definition rearmed_text :: "string \<Rightarrow> string" where
  "rearmed_text token_hash =
     (if token_hash \<noteq> [] then ''node is unpaired; it will accept the next one-time token issued by a panel''
      else ''node is unpaired; no token installed - the panel cannot claim it until one is set'')"

definition cmd_reset_registration :: "('c, 'k) process \<Rightarrow> string option \<Rightarrow> int cli" where
  "cmd_reset_registration P arg =
     bindE (liftE (load_config P)) (\<lambda>cfg.
     let token_hash = py_lower (py_strip (header_text arg)) in
     if token_hash \<noteq> [] \<and> length token_hash \<noteq> 64
     then seqE (print_err ''error: token hash must be the 64-char hex sha256 of the new token'') (ret 2)
     else
       bindE (open_files P (or_none token_hash)) (\<lambda>s.
       let s' = reset_registration s token_hash (pr_now P) in
       seqE (modE (\<lambda>f. f\<lparr>fl_identity := disk_of s'\<rparr>))
      (seqE (print_out (json_indent 0 (JObj
         [(''node_id'', JStr (node_id (ident s'))), (''registration_rearmed'', JBool (token_hash \<noteq> [])),
          (''message'', JStr (rearmed_text token_hash))])))
         (ret 0))))"

definition cmd_audit :: "('c, 'k) process \<Rightarrow> int \<Rightarrow> int cli" where
  "cmd_audit P limit =
     bindE (liftE (load_config P)) (\<lambda>cfg.
     bindE (open_files P None) (\<lambda>s.
     seqE (forE (\<lambda>row. print_out (json_dumps default_style (audit_row_json row))) (audit_tail s limit))
       (ret 0)))"

definition cmd_version :: "int cli" where
  "cmd_version =
     seqE (print_out (agent_name @ '' '' @ agent_version @ '' (api v'' @ str_of_int api_version @ '')'')) (ret 0)"

section \<open>Running the agent\<close>

definition unclaimable :: string where
  "unclaimable =
     ''zagros-node: WARNING - no registration token is configured '' @
     ''(ZAGROS_NODE_REGISTRATION_HASH is empty) and this node is not paired yet.'' @ newline @
     ''             The panel cannot claim it until a token is installed or the state is reset:'' @ newline @
     ''               zagros-node reset-registration <sha256-of-new-token>''"

definition identity_registered :: "('c, 'k) process \<Rightarrow> bool cli" where
  "identity_registered P =
     bindE (open_files P None) (\<lambda>s.
     bindE (liftE (sec_error (signing_key (pr_aead P) s))) (\<lambda>key. ret (key \<noteq> None)))"

definition warn_unclaimable :: "('c, 'k) process \<Rightarrow> node_config \<Rightarrow> unit cli" where
  "warn_unclaimable P cfg =
     (if registration_hash cfg \<noteq> [] then ret ()
      else bindE (identity_registered P) (\<lambda>paired. whenE (\<not> paired) (print_err unclaimable)))"

text \<open>\<^verbatim>\<open>ReplayGuard(cfg.data_dir)\<close> and \<^verbatim>\<open>NodeCoreStateStore(cfg.data_dir)\<close>; the second makes its missing key file.\<close>

definition replay_window :: int where
  "replay_window = 300"

definition open_replays :: "replay_guard cli" where
  "open_replays = bindE (getE (\<lambda>f. sec_error (open_replay (fl_replays f) replay_window))) liftE"

definition open_cores :: "('c, 'k) process \<Rightarrow> node_store cli" where
  "open_cores P f =
     (case open_store (fl_state_key f) (fl_cores f) (pr_state_draw P) (pr_rng P) of
        Inl e \<Rightarrow> (Inl e, f)
      | Inr st \<Rightarrow> (Inr st, f\<lparr>fl_state_key := Some (cipher_key (ns_cipher st))\<rparr>))"

text \<open>
  The module level of \<^verbatim>\<open>node_agent/app.py\<close>, which runs when \<^verbatim>\<open>uvicorn\<close> imports \<^verbatim>\<open>node_agent.app:app\<close>: it reads the
  configuration again and opens the identity with the configured registration hash. Its other objects (the jobs, the
  discovered drivers, the limiter, the accounts' directory) touch none of these files.
\<close>

definition import_app :: "('c, 'k) process \<Rightarrow> served cli" where
  "import_app P =
     bindE (liftE (load_config P)) (\<lambda>cfg.
     bindE (open_files P (or_none (registration_hash cfg))) (\<lambda>s.
     bindE open_replays (\<lambda>g.
     bindE (ensure_files P cfg) (\<lambda>_.
     bindE (open_cores P) (\<lambda>st.
     ret \<lparr>sv_identity = s, sv_replays = g, sv_store = st\<rparr>)))))"

definition run_agent :: "('c, 'k) process \<Rightarrow> int cli" where
  "run_agent P =
     (case load_config P of
        Inl e \<Rightarrow> seqE (print_err (''zagros-node: invalid configuration: '' @ exc_text e)) (ret 2)
      | Inr cfg \<Rightarrow>
          bindE (ensure_files P cfg) (\<lambda>c.
          seqE (print_banner cfg c)
         (seqE (warn_unclaimable P cfg)
         (seqE (bindE (import_app P) (pr_serve P)) (ret 0)))))"

datatype cli_command = Serve | Cert | Info_Command | Status | Reset_Registration "string option" | Audit_Command int | Version

primrec run_command :: "('c, 'k) process \<Rightarrow> cli_command \<Rightarrow> int cli" where
  "run_command P Serve = run_agent P"
| "run_command P Cert = cmd_cert P"
| "run_command P Info_Command = cmd_info P"
| "run_command P Status = cmd_status P"
| "run_command P (Reset_Registration arg) = cmd_reset_registration P arg"
| "run_command P (Audit_Command limit) = cmd_audit P limit"
| "run_command P Version = cmd_version"

definition cli_main :: "('c, 'k) process \<Rightarrow> cli_command option \<Rightarrow> int cli" where
  "cli_main P c = run_command P (case c of None \<Rightarrow> Serve | Some c \<Rightarrow> c)"

end
