(* ===== verification/Cli_Props.thy ===== *)
theory Cli_Props
  imports Cli Demo_Node
begin

text \<open>
  What the operator's commands of \<open>Cli\<close> do to the identity that the running agent reads from the same files. \<open>returns\<close> is
  a partial-correctness triple on operations; it composes like \<open>keeps\<close>.
\<close>

section \<open>What the commands do to the node's identity\<close>

definition identity_is :: "identity option \<Rightarrow> files \<Rightarrow> bool" where
  "identity_is x f \<longleftrightarrow> identity_file (fl_identity f) = x"

lemma open_identity_existing:
  assumes "open_identity d h kd idd = Inr s" "identity_file d = Some i"
  shows "ident s = (case h of None \<Rightarrow> i | Some x \<Rightarrow> if x = [] then i else i\<lparr>registration_token_hash := x\<rparr>)"
  using assms by (auto simp: open_identity_def Let_def split: if_splits option.splits)

lemma open_files_Inr:
  assumes "open_files P h f = (Inr s, f')"
  shows "open_identity (fl_identity f) h (pr_key_draw P) (pr_id_draw P) = Inr s" "f' = f\<lparr>fl_identity := disk_of s\<rparr>"
  using assms by (auto simp: open_files_def split: sum.splits)

lemma printing_keeps [frame_intros]:
  "keeps (identity_is x) (print_out line)" "keeps (identity_is x) (print_err line)"
  "keeps (identity_is x) (ensure_files P cfg)" "keeps (identity_is x) read_cores"
  "keeps (identity_is x) open_replays" "keeps (identity_is x) (open_cores P)"
  unfolding print_out_def print_err_def read_cores_def open_replays_def
  by (auto simp: keeps_def identity_is_def eff_simps bindE_def ensure_files_def open_cores_def split: prod.split sum.split)

lemma open_keeps [frame_intros]: "keeps (identity_is (Some i)) (open_files P None)"
proof (rule keepsI)
  fix f assume "identity_is (Some i) f"
  then show "identity_is (Some i) (snd (open_files P None f))"
    using open_identity_existing [of "fl_identity f" None "pr_key_draw P" "pr_id_draw P"]
    by (auto simp: open_files_def identity_is_def disk_of_def split: sum.splits)
qed

lemma quiet_commands_keep:
  assumes "c \<notin> {Serve, Info_Command} \<union> range Reset_Registration"
  shows "keeps (identity_is (Some i)) (run_command P c)"
proof (cases c)
  case Cert
  show ?thesis unfolding Cert run_command.simps cmd_cert_def by (intro keeps_intros frame_intros)
next
  case Status
  show ?thesis unfolding Status run_command.simps cmd_status_def by (intro keeps_intros frame_intros)
next
  case (Audit_Command n)
  show ?thesis unfolding Audit_Command run_command.simps cmd_audit_def by (intro keeps_intros frame_intros)
next
  case Version
  show ?thesis unfolding Version run_command.simps cmd_version_def by (intro keeps_intros frame_intros)
qed (use assms in auto)

text \<open>
  The identity that a command which exits with \<open>n\<close> makes of \<open>i\<close>. Serving opens it as \<^verbatim>\<open>info\<close> does, before the first request.
\<close>

definition rearmed :: "('c, 'k) process \<Rightarrow> identity \<Rightarrow> identity" where
  "rearmed P i =
     (case from_env (pr_environ P) of
        Inr cfg \<Rightarrow> if registration_hash cfg = [] then i else i\<lparr>registration_token_hash := registration_hash cfg\<rparr>
      | Inl _ \<Rightarrow> i)"

definition identity_after :: "('c, 'k) process \<Rightarrow> cli_command \<Rightarrow> int \<Rightarrow> identity \<Rightarrow> identity" where
  "identity_after P c n i =
     (case c of
        Serve \<Rightarrow> rearmed P i
      | Info_Command \<Rightarrow> rearmed P i
      | Reset_Registration arg \<Rightarrow>
          if n = 0 then (unpaired i)\<lparr>registration_token_hash := py_lower (py_strip (header_text arg))\<rparr> else i
      | _ \<Rightarrow> i)"

lemma load_config_Inr: "load_config P = Inr cfg \<longleftrightarrow> from_env (pr_environ P) = Inr cfg"
  by (simp add: load_config_def split: sum.split)

text \<open>\<open>returns P m Q\<close>: from \<open>P\<close>, if the operation returns, its value and state satisfy \<open>Q\<close>.\<close>

definition returns :: "('s \<Rightarrow> bool) \<Rightarrow> ('s, 'e, 'a) eff \<Rightarrow> ('a \<Rightarrow> 's \<Rightarrow> bool) \<Rightarrow> bool" where
  "returns P m Q \<longleftrightarrow> (\<forall>s x s'. P s \<longrightarrow> m s = (Inr x, s') \<longrightarrow> Q x s')"

lemma returnsD: "returns P m Q \<Longrightarrow> P s \<Longrightarrow> m s = (Inr x, s') \<Longrightarrow> Q x s'"
  by (auto simp: returns_def)

lemma returns_keeps: "keeps P m \<Longrightarrow> returns P m (\<lambda>_. P)"
  unfolding returns_def keeps_def by (metis snd_conv)

lemma returns_bindE:
  assumes "returns P m Q" "\<And>x. returns (Q x) (f x) R"
  shows "returns P (bindE m f) R"
  unfolding returns_def
proof (intro allI impI)
  fix s y s' assume "P s" "bindE m f s = (Inr y, s')"
  then obtain x s1 where "m s = (Inr x, s1)" "f x s1 = (Inr y, s')" by (auto elim: bindE_Inr)
  with returnsD [OF assms(1) \<open>P s\<close>] returnsD [OF assms(2)] show "R y s'" by blast
qed

lemma returns_then:
  assumes "keeps P m" "\<And>x. returns P (f x) R"
  shows "returns P (bindE m f) R"
  using returns_bindE [OF returns_keeps] assms by blast

lemma returns_last:
  assumes "returns P m (\<lambda>_. Q)" "\<And>x. keeps Q (f x)"
  shows "returns P (bindE m f) (\<lambda>_. Q)"
  using returns_bindE [OF assms(1)] returns_keeps [OF assms(2)] by blast

lemma open_returns:
  "returns (identity_is (Some i)) (open_files P h) (\<lambda>s f.
     ident s = (case h of None \<Rightarrow> i | Some x \<Rightarrow> if x = [] then i else i\<lparr>registration_token_hash := x\<rparr>) \<and>
     store_ready s \<and> fl_identity f = disk_of s)"
  unfolding returns_def identity_is_def
  using open_files_Inr open_identity_existing open_identity_ready by fastforce

lemma opened_is: "fl_identity f = disk_of s \<Longrightarrow> identity_is (Some (ident s)) f"
  by (simp add: identity_is_def disk_of_def)

lemma open_rearms:
  assumes "load_config P = Inr cfg"
  shows "returns (identity_is (Some i)) (open_files P (or_none (registration_hash cfg)))
    (\<lambda>s f. ident s = rearmed P i \<and> identity_is (Some (rearmed P i)) f)"
  unfolding returns_def
proof (intro allI impI)
  fix f s f' assume "identity_is (Some i) f" "open_files P (or_none (registration_hash cfg)) f = (Inr s, f')"
  from returnsD [OF open_returns this] opened_is [of f' s] assms
  show "ident s = rearmed P i \<and> identity_is (Some (rearmed P i)) f'"
    by (auto simp: or_none_def rearmed_def load_config_Inr)
qed

lemma info_identity:
  assumes "load_config P = Inr cfg"
  shows "returns (identity_is (Some i)) (cmd_info P) (\<lambda>_. identity_is (Some (rearmed P i)))"
proof -
  have opened: "returns (identity_is (Some i)) (open_files P (or_none (registration_hash cfg)))
      (\<lambda>_. identity_is (Some (rearmed P i)))"
    using open_rearms [OF assms] unfolding returns_def by blast
  have rest: "keeps (identity_is x) (bindE (liftE r) (\<lambda>key. bindE read_cores (\<lambda>cores.
      seqE (print_out (X key cores)) (ret 0))))" for x r and X :: "bytes option \<Rightarrow> jobj \<Rightarrow> string"
    by (intro keeps_bindE keeps_basic printing_keeps)
  show ?thesis
    unfolding cmd_info_def assms bindE_ret
    by (rule returns_then [OF printing_keeps(3)], rule returns_last [OF opened], rule rest)
qed

lemma import_rearms:
  "returns (identity_is (Some i)) (import_app P)
     (\<lambda>sv f. ident (sv_identity sv) = rearmed P i \<and> identity_is (Some (rearmed P i)) f)"
  unfolding returns_def
proof (intro allI impI)
  fix f sv f' assume i: "identity_is (Some i) f" and run: "import_app P f = (Inr sv, f')"
  from run obtain cfg where cfg: "load_config P = Inr cfg"
    by (cases "load_config P") (auto simp: import_app_def eff_simps)
  from run obtain s f1 g f2 c f3 st where s: "open_files P (or_none (registration_hash cfg)) f = (Inr s, f1)"
    and rest: "open_replays f1 = (Inr g, f2)" "ensure_files P cfg f2 = (Inr c, f3)" "open_cores P f3 = (Inr st, f')"
    and sv: "sv_identity sv = s"
    by (auto simp: import_app_def cfg ret_def elim!: bindE_Inr)
  from returnsD [OF open_rearms [OF cfg] i s] have armed: "ident s = rearmed P i" "identity_is (Some (rearmed P i)) f1"
    by simp_all
  then have "identity_is (Some (rearmed P i)) f'" using rest printing_keeps by (metis keepsD snd_conv)
  with armed sv show "ident (sv_identity sv) = rearmed P i \<and> identity_is (Some (rearmed P i)) f'" by simp
qed

text \<open>What the agent does before it hands its files to the server, and that it then returns with what the server left.\<close>

lemma serve_identity:
  assumes "run_agent P f = (Inr n, f')" "identity_is (Some i) f"
  shows "n = 2 \<and> (\<exists>e. load_config P = Inl e) \<and> identity_is (Some i) f' \<or>
    n = 0 \<and> (\<exists>sv fs. pr_serve P sv fs = (Inr (), f') \<and> ident (sv_identity sv) = rearmed P i \<and>
      identity_is (Some (rearmed P i)) fs)"
proof (cases "load_config P")
  case (Inl e)
  then show ?thesis using assms by (auto simp: run_agent_def print_err_def eff_simps identity_is_def)
next
  case (Inr cfg)
  let ?start = "\<lambda>c. seqE (print_banner cfg c) (warn_unclaimable P cfg)"
  from assms(1) Inr obtain c f0 f1 f2 sv fs where before: "ensure_files P cfg f = (Inr c, f0)"
      "print_banner cfg c f0 = (Inr (), f1)" "warn_unclaimable P cfg f1 = (Inr (), f2)"
    and after: "import_app P f2 = (Inr sv, fs)" "pr_serve P sv fs = (Inr (), f')" "n = 0"
    by (auto simp: run_agent_def eff_simps elim!: bindE_Inr)
  have "keeps (identity_is (Some i)) (ensure_files P cfg)" by (rule printing_keeps)
  moreover have "keeps (identity_is (Some i)) (print_banner cfg c)"
    unfolding print_banner_def by (intro keeps_intros frame_intros)
  moreover have "keeps (identity_is (Some i)) (warn_unclaimable P cfg)"
    unfolding warn_unclaimable_def identity_registered_def by (simp; intro conjI impI keeps_intros frame_intros)
  ultimately have "identity_is (Some i) f2" using before assms(2) by (metis keepsD snd_conv)
  from returnsD [OF import_rearms this after(1)] after show ?thesis by blast
qed

definition reset_store :: "files \<Rightarrow> string \<Rightarrow> id_store \<Rightarrow> bool" where
  "reset_store f h s \<longleftrightarrow> fl_identity f = disk_of s \<and> store_ready s \<and>
     registration_token_hash (ident s) = h \<and> signing_key_enc (ident s) = None \<and> registered_panel (ident s) = None"

lemma reset_outcome:
  assumes "cmd_reset_registration P arg f = (Inr n, f')" "h = py_lower (py_strip (header_text arg))"
  shows "(n = 2 \<and> fl_identity f' = fl_identity f \<and> h \<noteq> [] \<and> length h \<noteq> 64) \<or>
    (n = 0 \<and> (h = [] \<or> length h = 64) \<and> (\<exists>s. reset_store f' h s \<and>
       (\<forall>i. identity_file (fl_identity f) = Some i \<longrightarrow> ident s = (unpaired i)\<lparr>registration_token_hash := h\<rparr>)))"
proof -
  from assms(1) obtain cfg where cfg: "load_config P = Inr cfg"
    by (cases "load_config P") (auto simp: cmd_reset_registration_def eff_simps)
  show ?thesis
  proof (cases "h \<noteq> [] \<and> length h \<noteq> 64")
    case True
    with assms cfg show ?thesis
      by (simp add: cmd_reset_registration_def Let_def print_err_def eff_simps) auto
  next
    case False
    with assms cfg obtain s f1 where op: "open_files P (or_none h) f = (Inr s, f1)"
      and f': "fl_identity f' = disk_of (reset_registration s h (pr_now P))" "n = 0"
      by (auto simp: cmd_reset_registration_def Let_def print_out_def ret_def modE_def simp del: json_indent.simps
          elim!: bindE_Inr)
    let ?s = "reset_registration s h (pr_now P)"
    have "store_ready s" using open_files_Inr(1) [OF op] open_identity_ready by blast
    then have "reset_store f' h ?s"
      using f' by (simp add: reset_store_def reset_registration_def unpaired_def store_ready_def audit_def)
    moreover have "ident ?s = (unpaired i)\<lparr>registration_token_hash := h\<rparr>" if "identity_file (fl_identity f) = Some i" for i
      using open_identity_existing [OF open_files_Inr(1) [OF op] that]
      by (simp add: reset_registration_def unpaired_def audit_def or_none_def split: if_splits)
    ultimately show ?thesis using f' False by blast
  qed
qed

lemma reset_identity:
  "returns (identity_is (Some i)) (cmd_reset_registration P arg)
     (\<lambda>n. identity_is (Some (identity_after P (Reset_Registration arg) n i)))"
  unfolding returns_def
proof (intro allI impI)
  fix f n f' assume "identity_is (Some i) f" "cmd_reset_registration P arg f = (Inr n, f')"
  with reset_outcome [OF this(2) refl] show "identity_is (Some (identity_after P (Reset_Registration arg) n i)) f'"
    by (auto simp: identity_is_def identity_after_def reset_store_def disk_of_def)
qed

text \<open>
  C20: What each command does to the identity of a node that has one: \<^verbatim>\<open>cert\<close>, \<^verbatim>\<open>status\<close>, \<^verbatim>\<open>audit\<close> and \<^verbatim>\<open>version\<close> leave it
  alone, \<^verbatim>\<open>reset-registration\<close> unpairs it and sets the given token hash unless it exits with 2, and \<^verbatim>\<open>info\<close>, which only
  prints, arms the configured registration hash again, consumed or not. Starting the agent arms it too, since its module
  opens the identity with that hash: the server begins on the files and with an identity so armed, whatever it then makes
  of them, unless the configuration is invalid.
\<close>

theorem command_effect_on_identity:
  assumes "identity_file (fl_identity f) = Some i" "cli_main P (Some c) f = (Inr n, f')"
  shows "if c = Serve \<and> n = 0
    then \<exists>sv fs. pr_serve P sv fs = (Inr (), f') \<and> ident (sv_identity sv) = identity_after P c n i \<and>
      identity_file (fl_identity fs) = Some (identity_after P c n i)
    else identity_file (fl_identity f') = Some (identity_after P c n i)"
proof -
  have is_i: "identity_is (Some i) f" using assms(1) by (simp add: identity_is_def)
  from assms(2) have run: "run_command P c f = (Inr n, f')" by (simp add: cli_main_def)
  consider "c = Serve" | "c = Info_Command" | arg where "c = Reset_Registration arg"
    | "c \<notin> {Serve, Info_Command} \<union> range Reset_Registration" by blast
  then show ?thesis
  proof cases
    case 1
    with run have "run_agent P f = (Inr n, f')" by simp
    from serve_identity [OF this is_i] show ?thesis
    proof (elim disjE conjE)
      assume "n = 2" "\<exists>e. load_config P = Inl e" "identity_is (Some i) f'"
      then show ?thesis
        by (auto simp: identity_after_def identity_is_def rearmed_def load_config_def split: sum.splits cli_command.split)
    next
      assume "n = 0" "\<exists>sv fs. pr_serve P sv fs = (Inr (), f') \<and> ident (sv_identity sv) = rearmed P i \<and>
        identity_is (Some (rearmed P i)) fs"
      moreover have "identity_after P c n i = rearmed P i" by (simp add: 1 identity_after_def)
      ultimately show ?thesis unfolding identity_is_def 1 by simp
    qed
  next
    case 2
    with run obtain cfg where cfg: "load_config P = Inr cfg"
      by (cases "load_config P") (auto simp: cmd_info_def eff_simps)
    from returnsD [OF info_identity [OF cfg] is_i] run 2 show ?thesis by (simp add: identity_after_def identity_is_def)
  next
    case 3
    with returnsD [OF reset_identity is_i] run show ?thesis by (simp add: identity_is_def)
  next
    case 4
    then have "identity_after P c n i = i" by (auto simp: identity_after_def split: cli_command.split)
    moreover have "identity_is (Some i) f'" using keepsD [OF quiet_commands_keep [OF 4] is_i] run by (metis snd_conv)
    ultimately show ?thesis using 4 by (simp add: identity_is_def)
  qed
qed

text \<open>
  C18: After a successful \<^verbatim>\<open>reset-registration\<close> the running agent, which reads the same files, refuses every signed command
  with 401 and remembers no panel, and exactly the one-time token whose hash was given registers a new one.
\<close>

theorem reset_unpairs:
  assumes "cli_main P (Some (Reset_Registration arg)) f = (Inr 0, f')"
    and "open_identity (fl_identity f') None kd idd = Inr (nd_identity st)" "e_aead E = pure_aead"
    and "length nonce = 12"
  shows "(\<exists>m. signed_request E M rq st = (Inl (Http 401 m), st)) \<and> registered_panel (ident (nd_identity st)) = None \<and>
    ((\<exists>s'. register pure_aead (nd_identity st) token panel key nonce now = (Inr key, s')) \<longleftrightarrow>
       py_lower (py_strip (header_text arg)) = sha256_hex (utf8_encode token))"
proof -
  let ?h = "py_lower (py_strip (header_text arg))"
  obtain s where s: "reset_store f' ?h s"
    using reset_outcome [OF _ refl, of P arg f 0 f'] assms(1) by (auto simp: cli_main_def)
  then have st: "nd_identity st = s"
    using assms(2) reopen_disk_of [of s kd idd] by (simp add: reset_store_def)
  have key: "signing_key (e_aead E) (nd_identity st) = Inr None"
    using s by (simp add: st signing_key_def reset_store_def)
  have "\<exists>m. signed_request E M rq st = (Inl (Http 401 m), st)"
    using key by (cases "missing_header rq") (auto simp: signed_request_def eff_simps sec_crash_def bindE_def)
  moreover have "(\<exists>s'. register pure_aead s token panel key nonce now = (Inr key, s')) \<longleftrightarrow>
      ?h = sha256_hex (utf8_encode token)"
    using register_accepts_only(1) [of pure_aead s token panel key nonce now] pure_gcm.register_total [OF _ assms(4), of s token]
      s by (fastforce simp: reset_store_def)
  ultimately show ?thesis using s by (simp add: st reset_store_def)
qed

section \<open>An operator at a paired node\<close>

lemma hash_text: "list_all (\<lambda>c. is_digit c \<or> is_lower_ascii c) s \<Longrightarrow> py_lower (py_strip s) = s"
proof -
  assume hex: "list_all (\<lambda>c. is_digit c \<or> is_lower_ascii c) s"
  then have c: "\<not> space_char c" "lower_char c = c" if "c \<in> set s" for c
    using that by (auto simp: list_all_iff space_char_def lower_char_def is_digit_def is_lower_ascii_def is_upper_ascii_def)
  have "dropWhile space_char s = s" "dropWhile space_char (rev s) = rev s"
    using c(1) hd_in_set [of s] hd_in_set [of "rev s"] unfolding dropWhile_eq_self_iff by auto
  then show ?thesis using c(2) by (simp add: py_strip_def py_lower_def map_idI)
qed

definition demo_hash :: string where
  "demo_hash = sha256_hex (utf8_encode ''token'')"

lemma demo_hash_text: "py_lower (py_strip demo_hash) = demo_hash" "length demo_hash = 64" "demo_hash \<noteq> []"
proof -
  show "py_lower (py_strip demo_hash) = demo_hash"
    unfolding demo_hash_def sha256_hex_def by (rule hash_text [OF to_hex_chars])
  show "length demo_hash = 64" unfolding demo_hash_def by simp
  then show "demo_hash \<noteq> []" by auto
qed

definition operator_environ :: environ where
  "operator_environ = [(''ZAGROS_NODE_REGISTRATION_HASH'', demo_hash)]"

lemma operator_config: "\<exists>cfg. from_env operator_environ = Inr cfg \<and> registration_hash cfg = demo_hash"
  by (simp add: from_env_def Let_def env_int_def env_get_def operator_environ_def bindR_def validate_def default_port_def
      default_api_port_def demo_hash_text)

definition operator_process :: "(string, nat) process" where
  "operator_process =
     \<lparr>pr_environ = operator_environ, pr_aead = pure_aead, pr_x509 = demo_x509, pr_socket = Inr ''192.0.2.7'',
      pr_tls_key = 9, pr_now = 1000, pr_key_draw = replicate 32 1, pr_id_draw = replicate 16 2,
      pr_state_draw = replicate 32 3, pr_rng = (\<lambda>_. replicate 12 4), pr_serve = (\<lambda>_. ret ())\<rparr>"

text \<open>The one-time token of the environment is burnt.\<close>

definition burnt :: identity where
  "burnt = fresh_identity ''n1'' None"

definition operator_files :: files where
  "operator_files =
     \<lparr>fl_identity = \<lparr>key_file = Some (replicate 32 7), identity_file = Some burnt, audit_file = []\<rparr>,
      fl_replays = None, fl_tls = \<lparr>cert_on_disk = Some ''D'', key_on_disk = Some ''9''\<rparr>, fl_state_key = None, fl_cores = None, fl_out = [], fl_err = []\<rparr>"

lemma operator_ensure:
  "fl_tls f = fl_tls operator_files \<Longrightarrow> \<exists>c. ensure_files operator_process cfg f = (Inr c, f)"
  by (cases f) (simp add: ensure_files_def ensure_def operator_files_def operator_process_def Let_def
      existing_certificate_def fingerprint_of_pem_def demo_x509_def liftE_def)

lemma operator_info: "\<exists>f. cli_main operator_process (Some Info_Command) operator_files = (Inr 0, f)"
proof -
  obtain cfg where cfg: "from_env operator_environ = Inr cfg" "registration_hash cfg = demo_hash"
    using operator_config by blast
  obtain c where tls: "ensure_files operator_process cfg operator_files = (Inr c, operator_files)"
    using operator_ensure [OF refl] by blast
  let ?s = "\<lparr>id_cipher = \<lparr>cipher_key = replicate 32 7\<rparr>, ident = burnt\<lparr>registration_token_hash := demo_hash\<rparr>, audit_log = []\<rparr>"
  have op: "open_files operator_process (or_none demo_hash) operator_files =
      (Inr ?s, operator_files\<lparr>fl_identity := disk_of ?s\<rparr>)"
    using demo_hash_text(3)
    by (auto simp: open_files_def open_identity_def operator_files_def or_none_def burnt_def fresh_identity_def)
  have key: "signing_key (pr_aead operator_process) ?s = Inr None"
    by (simp add: signing_key_def burnt_def fresh_identity_def)
  have ok: "load_config operator_process = Inr cfg" using cfg by (simp add: load_config_Inr operator_process_def)
  let ?f = "operator_files\<lparr>fl_identity := disk_of ?s\<rparr>"
  have cores: "read_cores ?f = (Inr [], ?f)"
    by (simp add: read_cores_def cores_state_def operator_files_def eff_simps)
  show ?thesis
    unfolding cli_main_def option.case run_command.simps cmd_info_def ok bindE_ret bindE_simps(2) [of "ensure_files operator_process cfg" operator_files, OF tls] cfg(2)
      bindE_simps(2) [of "open_files operator_process (or_none demo_hash)" operator_files, OF op] key sec_error_def sum.case bindE_simps(2) [of read_cores ?f, OF cores]
    by (simp add: print_out_def eff_simps del: json_indent.simps)
qed

lemma banner_printed: "\<exists>out. forE print_out ls f = (Inr (), f\<lparr>fl_out := out\<rparr>)"
proof (induction ls arbitrary: f)
  case Nil
  show ?case by (intro exI [of _ "fl_out f"]) (simp add: ret_def)
next
  case (Cons l ls)
  from Cons.IH [of "f\<lparr>fl_out := fl_out f @ [l]\<rparr>"] show ?case
    by (auto simp: print_out_def eff_simps bindE_def)
qed

lemma operator_serves: "\<exists>f. cli_main operator_process (Some Serve) operator_files = (Inr 0, f)"
proof -
  obtain cfg where cfg: "from_env operator_environ = Inr cfg" "registration_hash cfg = demo_hash"
    using operator_config by blast
  obtain c where tls: "ensure_files operator_process cfg operator_files = (Inr c, operator_files)"
    using operator_ensure [OF refl] by blast
  obtain out where printed: "print_banner cfg c operator_files = (Inr (), operator_files\<lparr>fl_out := out\<rparr>)"
    using banner_printed unfolding print_banner_def by blast
  let ?f = "operator_files\<lparr>fl_out := out\<rparr>"
  let ?s = "\<lparr>id_cipher = \<lparr>cipher_key = replicate 32 7\<rparr>, ident = burnt\<lparr>registration_token_hash := demo_hash\<rparr>, audit_log = []\<rparr>"
  let ?f1 = "?f\<lparr>fl_identity := disk_of ?s\<rparr>"
  have op: "open_files operator_process (or_none demo_hash) ?f = (Inr ?s, ?f1)"
    using demo_hash_text(3)
    by (auto simp: open_files_def open_identity_def operator_files_def or_none_def burnt_def fresh_identity_def)
  have rep: "open_replays ?f1 = (Inr \<lparr>window = 300, seen = [], replay_file = None\<rparr>, ?f1)"
    by (simp add: open_replays_def open_replay_def replay_window_def operator_files_def sec_error_def eff_simps)
  obtain c' where tls': "ensure_files operator_process cfg ?f1 = (Inr c', ?f1)"
    using operator_ensure [of ?f1 cfg] by auto
  obtain st where cores: "open_cores operator_process ?f1 = (Inr st, ?f1\<lparr>fl_state_key := Some (replicate 32 3)\<rparr>)"
    by (simp add: open_cores_def open_store_def operator_files_def operator_process_def)
  have ok: "load_config operator_process = Inr cfg" using cfg by (simp add: load_config_Inr operator_process_def)
  have "import_app operator_process ?f = (Inr \<lparr>sv_identity = ?s, sv_replays = \<lparr>window = 300, seen = [], replay_file = None\<rparr>,
      sv_store = st\<rparr>, ?f1\<lparr>fl_state_key := Some (replicate 32 3)\<rparr>)"
    by (simp add: import_app_def ok cfg(2) op rep tls' cores bindE_def eff_simps)
  then show ?thesis
    using tls printed demo_hash_text(3)
    by (simp add: cli_main_def run_agent_def ok warn_unclaimable_def cfg(2) bindE_def eff_simps)
      (simp add: operator_process_def ret_def)
qed

lemma operator_rearms: "rearmed operator_process burnt = burnt\<lparr>registration_token_hash := demo_hash\<rparr>"
  using operator_config demo_hash_text(3) by (auto simp: rearmed_def operator_process_def)

theorem command_effect_on_identity_witness:
  "\<exists>f f'. cli_main operator_process (Some Info_Command) operator_files = (Inr 0, f) \<and>
     cli_main operator_process (Some Serve) operator_files = (Inr 0, f') \<and>
     identity_file (fl_identity operator_files) = Some burnt \<and> registration_token_hash burnt = [] \<and>
     identity_file (fl_identity f) = Some (burnt\<lparr>registration_token_hash := demo_hash\<rparr>) \<and>
     identity_file (fl_identity f') = Some (burnt\<lparr>registration_token_hash := demo_hash\<rparr>)"
proof -
  obtain f f' where run: "cli_main operator_process (Some Info_Command) operator_files = (Inr 0, f)"
    "cli_main operator_process (Some Serve) operator_files = (Inr 0, f')"
    using operator_info operator_serves by blast
  have i: "identity_file (fl_identity operator_files) = Some burnt" by (simp add: operator_files_def)
  have server: "pr_serve operator_process sv fs = (Inr (), f'') \<longleftrightarrow> fs = f''" for sv fs f''
    by (simp add: operator_process_def ret_def)
  have "identity_file (fl_identity f) = Some (burnt\<lparr>registration_token_hash := demo_hash\<rparr>)"
    using command_effect_on_identity [OF i run(1)] by (simp add: identity_after_def operator_rearms)
  moreover have "identity_file (fl_identity f') = Some (burnt\<lparr>registration_token_hash := demo_hash\<rparr>)"
    using command_effect_on_identity [OF i run(2)] by (auto simp: identity_after_def operator_rearms server)
  ultimately show ?thesis using run i by (auto simp: burnt_def fresh_identity_def)
qed

lemma operator_reset:
  "\<exists>f. cli_main operator_process (Some (Reset_Registration (Some demo_hash))) operator_files = (Inr 0, f)"
proof -
  obtain cfg where "from_env operator_environ = Inr cfg" using operator_config by blast
  then have "load_config operator_process = Inr cfg" by (simp add: load_config_Inr operator_process_def)
  moreover have "\<exists>s. open_files operator_process (or_none demo_hash) operator_files =
      (Inr s, operator_files\<lparr>fl_identity := disk_of s\<rparr>)"
    by (simp add: open_files_def open_identity_def operator_files_def Let_def)
  ultimately show ?thesis
    by (auto simp: cli_main_def cmd_reset_registration_def header_text_def demo_hash_text Let_def bindE_def print_out_def
        eff_simps simp del: json_indent.simps)
qed

theorem reset_unpairs_witness:
  "\<exists>f s s'. cli_main operator_process (Some (Reset_Registration (Some demo_hash))) operator_files = (Inr 0, f) \<and>
     open_identity (fl_identity f) None [] [] = Inr s \<and>
     register pure_aead s ''token'' ''panel'' (replicate 32 1) (replicate 12 2) 5 = (Inr (replicate 32 1), s')"
proof -
  obtain f where run: "cli_main operator_process (Some (Reset_Registration (Some demo_hash))) operator_files = (Inr 0, f)"
    using operator_reset by blast
  then obtain s where "reset_store f demo_hash s"
    using reset_outcome [OF _ refl, of operator_process "Some demo_hash" operator_files 0 f]
    by (auto simp: cli_main_def header_text_def demo_hash_text)
  then have s: "open_identity (fl_identity f) None [] [] = Inr s"
    using reopen_disk_of by (simp add: reset_store_def)
  have n: "length (replicate 12 2 :: bytes) = 12" by simp
  have A: "e_aead calm_env = pure_aead" by (simp add: calm_env_def)
  from s have s': "open_identity (fl_identity f) None [] [] = Inr (nd_identity (demo_node\<lparr>nd_identity := s\<rparr>))" by simp
  from reset_unpairs [OF run s' A n, of undefined undefined "''token''" "''panel''" "replicate 32 1" 5]
  have "\<exists>s'. register pure_aead s ''token'' ''panel'' (replicate 32 1) (replicate 12 2) 5 = (Inr (replicate 32 1), s')"
    by (simp add: header_text_def demo_hash_text(1) flip: demo_hash_def)
  with run s show ?thesis by blast
qed

end
