(* ===== verification/Manager_Laws.thy ===== *)
theory Manager_Laws
  imports Manager
begin

text \<open>
  The laws of the core manager: what each operation leaves in memory and in a store that keeps
  the contract \<open>core_state_store\<close>, and the invariants of any sequence of commands. The
  properties that \<open>Manager_Props\<close> states are read off these.
\<close>

section \<open>Lemmas on the basic steps\<close>

lemma call_driver_known:
  "dget (drivers m) cid = Some d \<Longrightarrow> f (drv_class d) (drv_state d) = (r, x) \<Longrightarrow>
   call_driver cid f m = (r, m\<lparr>drivers := dput cid (d\<lparr>drv_state := x\<rparr>) (drivers m)\<rparr>)"
  by (simp add: call_driver_def)

lemma lookups_known [eff_simps]:
  "dget (drivers m) cid = Some d \<Longrightarrow> get_core cid m = (Inr d, m)"
  "dget (drivers m) cid = None \<Longrightarrow> get_core cid m = (Inl (CoreNotFoundError cid), m)"
  "dget (states m) cid = Some st \<Longrightarrow> state_at cid m = (Inr st, m)"
  "dget (enabled m) cid = Some en \<Longrightarrow> enabled_at cid m = (Inr en, m)"
  by (simp_all add: get_core_def state_at_def enabled_at_def)

lemma driver_settings_known [eff_simps]:
  assumes "dget (drivers m) cid = Some d" "dict_ok (drivers m)"
  shows "driver_settings cid m = (Inr (cls_settings (drv_class d) (drv_state d)), m)"
proof -
  have "dput cid d (drivers m) = drivers m"
    using assms(1) by (rule update_triv)
  then show ?thesis
    using assms by (simp add: driver_settings_def call_driver_def getE_def)
qed

text \<open>The manager after a change of state, and after a save, of a store that does not fail.\<close>

definition after_save ::
  "('d, 's) wiring \<Rightarrow> string \<Rightarrow> core_state \<Rightarrow> bool \<Rightarrow> jobj option \<Rightarrow> ('d, 's) mgr \<Rightarrow> ('d, 's) mgr" where
  "after_save W cid st en settings m =
     m\<lparr>store := snd (op_save (w_store W) cid st en settings (store m))\<rparr>"

definition after_set :: "('d, 's) wiring \<Rightarrow> string \<Rightarrow> core_state \<Rightarrow> ('d, 's) mgr \<Rightarrow> ('d, 's) mgr" where
  "after_set W cid st m =
     (after_save W cid st (is_enabled m cid) None m)
       \<lparr>states := dput cid st (states m),
        emitted := emitted m @ [(CORE_STATE_CHANGED,
          [(''core_id'', JStr cid), (''state'', JStr (state_value st))])]\<rparr>"

lemma after_save_simps [simp]:
  "drivers (after_save W cid st en d m) = drivers m"
  "states (after_save W cid st en d m) = states m"
  "enabled (after_save W cid st en d m) = enabled m"
  "emitted (after_save W cid st en d m) = emitted m"
  "is_enabled (after_save W cid st en d m) c = is_enabled m c"
  by (simp_all add: after_save_def is_enabled_def)

lemma after_set_simps [simp]:
  "drivers (after_set W cid st m) = drivers m"
  "states (after_set W cid st m) = dput cid st (states m)"
  "enabled (after_set W cid st m) = enabled m"
  "is_enabled (after_set W cid st m) c = is_enabled m c"
  by (simp_all add: after_set_def is_enabled_def)

text \<open>In a state on the way, after the driver \<open>d\<close> was called and left in state \<open>x\<close>.\<close>

definition after_call ::
  "('d, 's) wiring \<Rightarrow> string \<Rightarrow> core_state \<Rightarrow> 'd driver \<Rightarrow> 'd \<Rightarrow> ('d, 's) mgr \<Rightarrow> ('d, 's) mgr" where
  "after_call W cid mid d x m =
     (after_set W cid mid m)\<lparr>drivers := dput cid (d\<lparr>drv_state := x\<rparr>) (drivers m)\<rparr>"

lemma after_call_simps [simp]:
  "drivers (after_call W cid mid d x m) = dput cid (d\<lparr>drv_state := x\<rparr>) (drivers m)"
  "states (after_call W cid mid d x m) = dput cid mid (states m)"
  "enabled (after_call W cid mid d x m) = enabled m"
  "is_enabled (after_call W cid mid d x m) c = is_enabled m c"
  "store (after_call W cid mid d x m) = store (after_set W cid mid m)"
  by (simp_all add: after_call_def is_enabled_def)

lemma is_enabled_drivers [simp]: "is_enabled (m\<lparr>drivers := ds\<rparr>) c = is_enabled m c"
  by (simp add: is_enabled_def)

section \<open>The manager over a store that keeps its contract\<close>

text \<open>The stored row of a core as the manager's memory has it.\<close>

definition row ::
  "core_state \<Rightarrow> bool \<Rightarrow> jobj \<Rightarrow> core_record" where
  "row st en settings =
     \<lparr>rec_state = JStr (state_value st), rec_enabled = en, rec_settings = settings\<rparr>"

definition kept_settings :: "core_record option \<Rightarrow> jobj" where
  "kept_settings old = (case old of None \<Rightarrow> [] | Some r \<Rightarrow> rec_settings r)"

lemma saved_record_row:
  "saved_record st en (Some d) old = row st en d"
  "saved_record st en None old = row st en (kept_settings old)"
  by (auto simp: saved_record_def row_def kept_settings_def split: option.splits)

lemma kept_settings_row [simp]: "kept_settings (Some (row st en d)) = d"
  by (simp add: kept_settings_def row_def)

context core_state_store
begin

lemma save_row_ok:
  assumes "w_store W = ops" "ok (store m)" "opt_settings_ok settings"
  shows "save_row W cid st en settings m = (Inr (), after_save W cid st en settings m)"
    and "ok (store (after_save W cid st en settings m))"
    and "view (store (after_save W cid st en settings m)) =
      (view (store m))(cid \<mapsto> saved_record st en settings (view (store m) cid))"
  using save_law [OF assms(2,3), of cid st en] assms(1)
  by (auto simp: save_row_def on_store_def after_save_def)

lemma set_state_ok:
  assumes "w_store W = ops" "ok (store m)"
  shows "set_state W cid st m = (Inr (), after_set W cid st m)"
    and "ok (store (after_set W cid st m))"
    and "view (store (after_set W cid st m)) =
      (view (store m))(cid \<mapsto> row st (is_enabled m cid) (kept_settings (view (store m) cid)))"
proof -
  let ?m = "m\<lparr>states := dput cid st (states m)\<rparr>"
  have "is_enabled ?m cid = is_enabled m cid" by (simp add: is_enabled_def)
  moreover have "after_save W cid st (is_enabled m cid) None ?m =
      (after_save W cid st (is_enabled m cid) None m)\<lparr>states := dput cid st (states m)\<rparr>"
    by (simp add: after_save_def)
  ultimately show "set_state W cid st m = (Inr (), after_set W cid st m)"
    using save_row_ok(1) [OF assms(1), of ?m None cid st "is_enabled m cid"] assms(2)
    by (simp add: set_state_def emit_event_def eff_simps after_set_def)
  have "store (after_set W cid st m) = store (after_save W cid st (is_enabled m cid) None m)"
    by (simp add: after_set_def)
  with save_row_ok(2,3) [OF assms, of None cid st "is_enabled m cid"]
  show "ok (store (after_set W cid st m))"
    "view (store (after_set W cid st m)) =
      (view (store m))(cid \<mapsto> row st (is_enabled m cid) (kept_settings (view (store m) cid)))"
    by (simp_all add: saved_record_row)
qed

lemma save_live_ok:
  assumes "w_store W = ops" "ok (store m)" "dict_ok (drivers m)"
    and "dget (drivers m) cid = Some d" "dget (states m) cid = Some st"
    and "settings_ok (cls_settings (drv_class d) (drv_state d))"
  shows "save_live W cid m = (Inr (), after_save W cid st (is_enabled m cid)
      (Some (cls_settings (drv_class d) (drv_state d))) m)"
  using save_row_ok(1) [OF assms(1,2)] assms
  by (simp add: save_live_def eff_simps)

text \<open>A transition runs its action between two saved states; a failed one is saved as ERROR.\<close>

lemma call_after_set:
  assumes "dget (drivers m) cid = Some d" "f (drv_class d) (drv_state d) = (r, x)"
  shows "call_driver cid f (after_set W cid mid m) = (r, after_call W cid mid d x m)"
  using assms by (simp add: call_driver_def after_call_def)

lemma driver_transition:
  assumes W: "w_store W = ops" and m: "ok (store m)"
    and d: "dget (drivers m) cid = Some d" and f: "f (drv_class d) (drv_state d) = (r, x)"
  shows "run_transition W cid mid success (call_driver cid f) m =
    (case r of
       Inr _ \<Rightarrow> (Inr (), after_set W cid success (after_call W cid mid d x m))
     | Inl e \<Rightarrow> (Inl e, if is_exception e then after_set W cid ERROR (after_call W cid mid d x m)
                       else after_call W cid mid d x m))"
proof -
  have "ok (store (after_call W cid mid d x m))" using set_state_ok [OF W m] by simp
  note s = set_state_ok(1) [OF W this]
  show ?thesis
    using set_state_ok(1) [OF W m] s call_after_set [of m cid d f, OF d f]
    by (cases r) (simp_all add: run_transition_def eff_simps)
qed

lemma start_core_starts:
  assumes W: "w_store W = ops" and m: "ok (store m)" "dict_ok (drivers m)"
    and d: "dget (drivers m) cid = Some d" "dget (enabled m) cid = Some True"
    and st: "dget (states m) cid = Some st" "startable st"
    and start: "cls_start (drv_class d) (drv_state d) = (Inr (), x)"
    and settings: "settings_ok (cls_settings (drv_class d) x)"
    and status: "cls_status (drv_class d) x = (r, y)"
  shows "\<exists>m'. start_core W cid m = (r, m') \<and> state_of m' cid = RUNNING \<and>
    view (store m') = (view (store m))(cid \<mapsto> row RUNNING True (cls_settings (drv_class d) x)) \<and>
    dget (drivers m') = (dget (drivers m))(cid \<mapsto> d\<lparr>drv_state := y\<rparr>) \<and>
    dget (states m') = (dget (states m))(cid \<mapsto> RUNNING) \<and> enabled m' = enabled m \<and> ok (store m')"
proof -
  let ?d = "d\<lparr>drv_state := x\<rparr>" and ?m1 = "after_call W cid STARTING d x m"
  let ?m2 = "after_set W cid RUNNING ?m1"
  let ?m3 = "after_save W cid RUNNING True (Some (cls_settings (drv_class d) x)) ?m2"
  note s1 = set_state_ok [OF W m(1), of cid STARTING]
  then have m1: "ok (store ?m1)" by simp
  have en: "is_enabled m cid" using d by (simp add: is_enabled_def)
  note s2 = set_state_ok [OF W m1, of cid RUNNING]
  have live: "save_live W cid ?m2 = (Inr (), ?m3)"
    using save_live_ok [OF W s2(2), of cid ?d RUNNING] m(2) settings en by simp
  note s3 = save_row_ok [OF W s2(2), of "Some (cls_settings (drv_class d) x)" cid RUNNING True]
  have call: "call_driver cid cls_status ?m3 =
      (r, ?m3\<lparr>drivers := dput cid (?d\<lparr>drv_state := y\<rparr>) (drivers ?m3)\<rparr>)"
    using status by (intro call_driver_known) simp_all
  have "start_core W cid m = (r, ?m3\<lparr>drivers := dput cid (?d\<lparr>drv_state := y\<rparr>) (drivers ?m3)\<rparr>)"
    using d st driver_transition [where f = cls_start, OF W m(1) d(1) start] live call
    by (auto simp: start_core_def eff_simps startable_def)
  moreover have "view (store ?m3) = (view (store m))(cid \<mapsto> row RUNNING True (cls_settings (drv_class d) x))"
    using s3(3) settings s2(3) s1(3) by (simp add: saved_record_row)
  ultimately show ?thesis
    using s3(2) settings by (auto simp: state_of_def)
qed

text \<open>A start that raises leaves ERROR on record, a cancelled one STARTING.\<close>

lemma start_core_fails:
  assumes W: "w_store W = ops" and m: "ok (store m)"
    and d: "dget (drivers m) cid = Some d" "dget (enabled m) cid = Some True"
    and st: "dget (states m) cid = Some st" "startable st"
    and start: "cls_start (drv_class d) (drv_state d) = (Inl e, x)"
  shows "\<exists>m'. start_core W cid m = (Inl e, m') \<and>
    state_of m' cid = (if is_exception e then ERROR else STARTING) \<and>
    view (store m') = (view (store m))
      (cid \<mapsto> row (if is_exception e then ERROR else STARTING) True (kept_settings (view (store m) cid))) \<and>
    dget (drivers m') = (dget (drivers m))(cid \<mapsto> d\<lparr>drv_state := x\<rparr>) \<and>
    dget (states m') = (dget (states m))(cid \<mapsto> (if is_exception e then ERROR else STARTING)) \<and>
    enabled m' = enabled m \<and> ok (store m')"
proof -
  let ?m1 = "after_call W cid STARTING d x m"
  note s1 = set_state_ok [OF W m, of cid STARTING]
  then have m1: "ok (store ?m1)" by simp
  note s2 = set_state_ok [OF W m1, of cid ERROR]
  have en: "is_enabled m cid" using d by (simp add: is_enabled_def)
  have "start_core W cid m = (Inl e, if is_exception e then after_set W cid ERROR ?m1 else ?m1)"
    using d st driver_transition [where f = cls_start, OF W m d(1) start]
    by (auto simp: start_core_def eff_simps startable_def)
  then show ?thesis
    using s1 s2 en m1 by (auto simp: state_of_def)
qed

lemma start_core_refuses:
  assumes "dget (drivers m) cid = Some d" "dget (enabled m) cid = Some en"
    "dget (states m) cid = Some st" "\<not> (en \<and> startable st)"
  shows "\<exists>msg. start_core W cid m = (Inl (CoreStateError msg), m)"
  using assms by (auto simp: start_core_def eff_simps startable_def)

end

section \<open>The invariant of the manager\<close>

text \<open>The three dictionaries of the manager always hold the same cores.\<close>

definition mgr_ok :: "('d, 's) mgr \<Rightarrow> bool" where
  "mgr_ok m \<longleftrightarrow> dict_ok (drivers m) \<and> dict_ok (states m) \<and> dict_ok (enabled m) \<and>
     dom (dget (states m)) = dom (dget (drivers m)) \<and>
     dom (dget (enabled m)) = dom (dget (drivers m))"

definition mgr_at :: "string \<Rightarrow> ('d, 's) mgr \<Rightarrow> bool" where
  "mgr_at cid m \<longleftrightarrow> mgr_ok m \<and> cid \<in> dom (dget (drivers m))"

lemma mgr_at_ok: "mgr_at cid m \<Longrightarrow> mgr_ok m"
  by (simp add: mgr_at_def)

lemma mgr_at_known:
  assumes "mgr_at cid m"
  obtains d st en where "dget (drivers m) cid = Some d" "dget (states m) cid = Some st"
    "dget (enabled m) cid = Some en"
  using assms unfolding mgr_at_def mgr_ok_def by blast

named_theorems mgr_keeps

lemma on_store_keeps [mgr_keeps]:
  "keeps mgr_ok (on_store f)" "keeps (mgr_at cid) (on_store f)"
  by (auto simp: keeps_def on_store_def mgr_ok_def mgr_at_def Let_def split: prod.splits)

lemma save_row_keeps [mgr_keeps]:
  "keeps mgr_ok (save_row W c st en d)" "keeps (mgr_at cid) (save_row W c st en d)"
  by (simp_all add: save_row_def mgr_keeps)

lemma emit_keeps [mgr_keeps]: "keeps mgr_ok (emit_event ev p)" "keeps (mgr_at cid) (emit_event ev p)"
  by (auto simp: emit_event_def mgr_ok_def mgr_at_def intro!: keeps_modE)

lemma lookups_keep [mgr_keeps]:
  "keeps P (get_core c)" "keeps P (state_at c)" "keeps P (enabled_at c)"
  by (auto simp: keeps_def get_core_def state_at_def enabled_at_def split: option.splits)

lemma call_driver_mgr_ok: "mgr_ok m \<Longrightarrow> mgr_ok (snd (call_driver c f m))"
  by (auto simp: call_driver_def mgr_ok_def split: option.splits prod.splits)

lemma call_driver_dom: "dom (dget (drivers (snd (call_driver c f m)))) = dom (dget (drivers m))"
  by (auto simp: call_driver_def split: option.splits prod.splits)

lemma call_driver_keeps [mgr_keeps]:
  "keeps mgr_ok (call_driver c f)" "keeps (mgr_at cid) (call_driver c f)"
  by (simp_all add: keeps_def mgr_at_def call_driver_mgr_ok call_driver_dom)

lemma driver_settings_keeps [mgr_keeps]:
  "keeps mgr_ok (driver_settings c)" "keeps (mgr_at cid) (driver_settings c)"
  by (simp_all add: driver_settings_def mgr_keeps)

lemma put_state_keeps: "keeps (mgr_at cid) (modE (\<lambda>m. m\<lparr>states := dput cid st (states m)\<rparr>))"
  by (rule keeps_modE) (auto simp: mgr_at_def mgr_ok_def)

lemma put_enabled_keeps [mgr_keeps]: "keeps (mgr_at cid) (put_enabled cid en)"
  unfolding put_enabled_def by (rule keeps_modE) (auto simp: mgr_at_def mgr_ok_def)

lemma set_state_keeps [mgr_keeps]: "keeps (mgr_at cid) (set_state W cid st)"
  unfolding set_state_def by (intro keeps_intros mgr_keeps put_state_keeps)

lemma save_live_keeps [mgr_keeps]: "keeps (mgr_at cid) (save_live W cid)"
  unfolding save_live_def by (intro keeps_intros mgr_keeps)

lemma run_transition_keeps [mgr_keeps]:
  "keeps (mgr_at cid) action \<Longrightarrow> keeps (mgr_at cid) (run_transition W cid a b action)"
  unfolding run_transition_def by (intro keeps_intros mgr_keeps)

lemma keeps_get_core:
  fixes f :: "'d driver \<Rightarrow> ('d, 's, 'a) op"
  assumes "\<And>d. keeps (mgr_at cid) (f d)"
  shows "keeps mgr_ok (bindE (get_core cid) f)"
proof (rule keepsI)
  fix m :: "('d, 's) mgr" assume m: "mgr_ok m"
  show "mgr_ok (snd (bindE (get_core cid) f m))"
  proof (cases "dget (drivers m) cid")
    case (Some d)
    with m have "mgr_at cid m" by (auto simp: mgr_at_def)
    with Some keepsD [OF assms] show ?thesis by (auto simp: eff_simps dest: mgr_at_ok)
  qed (simp add: eff_simps m)
qed

lemma ends_get_core:
  fixes f :: "'d driver \<Rightarrow> ('d, 's, 'a) op"
  assumes "\<And>d. ends (mgr_at cid) mgr_ok (f d)"
  shows "keeps mgr_ok (bindE (get_core cid) f)"
proof (rule keepsI)
  fix m :: "('d, 's) mgr" assume m: "mgr_ok m"
  show "mgr_ok (snd (bindE (get_core cid) f m))"
  proof (cases "dget (drivers m) cid")
    case (Some d)
    with m have "mgr_at cid m" by (auto simp: mgr_at_def)
    with Some assms show ?thesis by (auto simp: eff_simps ends_def)
  qed (simp add: eff_simps m)
qed

lemma attach_ok: "mgr_ok m \<Longrightarrow> mgr_ok (attach cid d en st m) \<and> mgr_at cid (attach cid d en st m)"
  by (auto simp: mgr_ok_def mgr_at_def attach_def)

lemma detach_ok: "mgr_ok m \<Longrightarrow> mgr_ok (detach cid m)"
  by (auto simp: mgr_ok_def detach_def)

lemma attach_ends: "keeps mgr_ok (modE (attach cid d en st))" "ends mgr_ok (mgr_at cid) (modE (attach cid d en st))"
  by (simp_all add: keeps_def ends_def modE_def attach_ok)

lemma keeps_detach [mgr_keeps]: "keeps mgr_ok (modE (detach cid))"
  by (rule keeps_modE) (rule detach_ok)

lemma start_core_keeps: "keeps mgr_ok (start_core W cid)"
  unfolding start_core_def by (intro keeps_get_core keeps_intros mgr_keeps)

lemma stop_core_keeps: "keeps mgr_ok (stop_core W cid)"
  unfolding stop_core_def by (intro keeps_get_core keeps_intros mgr_keeps)

lemma restart_core_keeps: "keeps mgr_ok (restart_core W cid)"
  unfolding restart_core_def by (intro keeps_get_core keeps_intros mgr_keeps)

lemma enable_core_keeps: "keeps mgr_ok (enable_core W cid)"
  unfolding enable_core_def by (intro keeps_get_core keeps_intros mgr_keeps)

lemma disable_core_keeps: "keeps mgr_ok (disable_core W cid)"
  unfolding disable_core_def by (intro keeps_get_core keeps_intros mgr_keeps stop_core_keeps)

lemma update_core_keeps: "keeps mgr_ok (update_core cid v)"
  unfolding update_core_def by (intro keeps_intros mgr_keeps)

lemma persist_settings_keeps: "keeps mgr_ok (persist_settings W cid)"
  unfolding persist_settings_def by (intro keeps_get_core mgr_keeps)

lemma ignoring_keeps: "keeps P f \<Longrightarrow> keeps P (ignoring f)"
  unfolding ignoring_def by (intro keeps_intros)

lemma start_enabled_keeps: "keeps mgr_ok (start_enabled W)"
  unfolding start_enabled_def
  by (intro keeps_intros mgr_keeps ignoring_keeps start_core_keeps)

lemma stop_all_keeps: "keeps mgr_ok (stop_all W)"
  unfolding stop_all_def
  by (intro keeps_intros mgr_keeps ignoring_keeps stop_core_keeps)

lemma apply_studio_keeps: "keeps mgr_ok (apply_studio_document W cid doc)"
  unfolding apply_studio_document_def studio_failed_def studio_restart_def probe_state_def
  by (intro keeps_get_core keeps_intros mgr_keeps)

lemma policy_hub_keeps:
  "keeps mgr_ok (create_softether_policy_hub W kw)" "keeps mgr_ok (delete_softether_policy_hub W hub)"
  unfolding create_softether_policy_hub_def delete_softether_policy_hub_def
  by (intro keeps_get_core keeps_intros mgr_keeps ignoring_keeps)+

lemma ends_at:
  "keeps (mgr_at cid) m \<Longrightarrow> (\<And>x. ends (mgr_at cid) mgr_ok (f x)) \<Longrightarrow>
   ends (mgr_at cid) mgr_ok (bindE m f)"
  by (rule ends_bindE) (auto dest: mgr_at_ok)

lemma uninstall_core_keeps: "keeps mgr_ok (uninstall_core W cid purge force)"
proof -
  have tail: "ends (mgr_at cid) mgr_ok
      (seqE (modE (detach cid)) (on_store (op_remove (w_store W) cid)))"
    by (rule ends_then) (auto simp: ends_def modE_def detach_ok mgr_at_def intro: mgr_keeps)
  have "ends (mgr_at cid) mgr_ok (uninstall_locked W cid purge)"
    unfolding uninstall_locked_def
    by (rule tail | rule ends_at | intro keeps_intros mgr_keeps)+
  then have "keeps mgr_ok (bindE (get_core cid) (\<lambda>_. uninstall_locked W cid purge))"
    by (rule ends_get_core)
  then show ?thesis
    unfolding uninstall_core_def by (auto intro!: keeps_if keeps_basic intro: keeps_bindE)
qed

text \<open>After \<open>m\<close> ends in \<open>Q\<close>, what follows keeps \<open>Q\<close>, and \<open>Q\<close> gives \<open>P\<close> back.\<close>

lemma keeps_through:
  assumes "ends P Q m" "\<And>x. ends Q P (f x)" "\<And>s. Q s \<Longrightarrow> P s"
  shows "keeps P (bindE m f)"
proof (rule keepsI)
  fix s assume "P s"
  obtain r s1 where m: "m s = (r, s1)" by fastforce
  with assms(1) \<open>P s\<close> have "Q s1" by (auto simp: ends_def)
  with m assms(2,3) show "P (snd (bindE m f s))"
    by (cases r) (simp_all add: bindE_def ends_def)
qed

text \<open>A handler that only recovers in a state with \<open>P\<close>, and otherwise raises in one with \<open>Q\<close>.\<close>

lemma ends_catch_then:
  assumes m: "keeps P m" and f: "\<And>x. ends P Q (f x)" and PQ: "\<And>s. P s \<Longrightarrow> Q s"
    and h: "\<And>e s. P s \<Longrightarrow> (\<exists>x. h e s = (Inr x, s)) \<or> (\<exists>e' s'. h e s = (Inl e', s') \<and> Q s')"
  shows "ends P Q (bindE (catchE m p h) f)"
  unfolding ends_def
proof (intro allI impI)
  fix s assume "P s"
  obtain r s1 where s1: "m s = (r, s1)" by fastforce
  with keepsD [OF m \<open>P s\<close>] have P1: "P s1" by simp
  show "Q (snd (bindE (catchE m p h) f s))"
  proof (cases r)
    case (Inr x)
    with s1 P1 f show ?thesis by (simp add: bindE_def catchE_def ends_def)
  next
    case (Inl e)
    with s1 P1 f PQ h [OF P1, of e] show ?thesis
      by (auto simp: bindE_def catchE_def ends_def)
  qed
qed

lemma install_core_keeps: "keeps mgr_ok (install_core W cid settings en)"
proof -
  have inst: "keeps mgr_ok (seqE (modE (attach cid d en LOADED)) f)"
    if "ends (mgr_at cid) mgr_ok f" for d :: "'a driver" and f :: "('a, 'b, core_state) op"
    by (rule keeps_through [OF attach_ends(2)]) (simp_all add: that mgr_at_ok)
  have tail: "ends (mgr_at cid) mgr_ok (seqE (set_state W cid INSTALLED)
      (bindE (state_at cid) (\<lambda>st. bindE (driver_settings cid) (\<lambda>live.
       seqE (save_row W cid st en (Some live)) (state_at cid)))))"
    by (rule ends_keeps) (auto intro!: keeps_intros mgr_keeps dest: mgr_at_ok)
  have body: "ends (mgr_at cid) mgr_ok
     (seqE (catchE (call_driver cid cls_install) is_exception
               (\<lambda>e. if is_not_supported e then ret ()
                    else seqE (modE (detach cid)) (fail e)))
      (seqE (set_state W cid INSTALLED)
      (bindE (state_at cid) (\<lambda>st.
       bindE (driver_settings cid) (\<lambda>live.
       seqE (save_row W cid st en (Some live)) (state_at cid))))))"
    by (rule ends_catch_then [OF call_driver_keeps(2) tail])
      (auto simp: eff_simps mgr_at_ok detach_ok)
  show ?thesis
    unfolding install_core_def
    by (rule inst [OF body] | rule keeps_intros)+
qed

section \<open>Sequences of commands\<close>

datatype command =
    Install string "jobj option" bool
  | Uninstall string bool bool
  | Update string "string option"
  | Enable string
  | Disable string
  | Start string
  | Stop string
  | Restart string
  | StartEnabled
  | StopAll
  | Studio string jobj
  | Persist string
  | CreateHub jobj
  | DeleteHub string

fun execute :: "('d, 's) wiring \<Rightarrow> command \<Rightarrow> ('d, 's, unit) op" where
  "execute W (Install cid settings en) = bindE (install_core W cid settings en) (\<lambda>_. ret ())"
| "execute W (Uninstall cid purge force) = uninstall_core W cid purge force"
| "execute W (Update cid v) = bindE (update_core cid v) (\<lambda>_. ret ())"
| "execute W (Enable cid) = enable_core W cid"
| "execute W (Disable cid) = disable_core W cid"
| "execute W (Start cid) = bindE (start_core W cid) (\<lambda>_. ret ())"
| "execute W (Stop cid) = bindE (stop_core W cid) (\<lambda>_. ret ())"
| "execute W (Restart cid) = bindE (restart_core W cid) (\<lambda>_. ret ())"
| "execute W StartEnabled = start_enabled W"
| "execute W StopAll = stop_all W"
| "execute W (Studio cid doc) = apply_studio_document W cid doc"
| "execute W (Persist cid) = persist_settings W cid"
| "execute W (CreateHub kwargs) = bindE (create_softether_policy_hub W kwargs) (\<lambda>_. ret ())"
| "execute W (DeleteHub hub) = delete_softether_policy_hub W hub"

text \<open>The manager after commands of which each may return or raise.\<close>

definition after_commands :: "('d, 's) wiring \<Rightarrow> command list \<Rightarrow> ('d, 's) mgr \<Rightarrow> ('d, 's) mgr" where
  "after_commands W cmds m = fold (\<lambda>cmd m. snd (execute W cmd m)) cmds m"

lemma execute_keeps: "keeps mgr_ok (execute W cmd)"
  by (cases cmd)
    (auto intro!: keeps_intros install_core_keeps uninstall_core_keeps update_core_keeps
      enable_core_keeps disable_core_keeps start_core_keeps stop_core_keeps restart_core_keeps
      start_enabled_keeps stop_all_keeps apply_studio_keeps persist_settings_keeps
      policy_hub_keeps)

lemma after_commands_ok: "mgr_ok m \<Longrightarrow> mgr_ok (after_commands W cmds m)"
  unfolding after_commands_def
  by (induction cmds arbitrary: m) (auto intro: keepsD [OF execute_keeps])

section \<open>Built-in engines stay\<close>

definition has_core :: "string \<Rightarrow> ('d, 's) mgr \<Rightarrow> bool" where
  "has_core b m \<longleftrightarrow> b \<in> dom (dget (drivers m))"

named_theorems core_keeps

lemma basic_core_keeps [core_keeps]:
  "keeps (has_core b) (on_store f)" "keeps (has_core b) (call_driver c g)"
  "keeps (has_core b) (modE (\<lambda>m. m\<lparr>states := dput c st (states m)\<rparr>))"
  "keeps (has_core b) (put_enabled c en)" "keeps (has_core b) (emit_event ev p)"
  "keeps (has_core b) (modE (attach c d en st))"
  by (auto simp: keeps_def has_core_def on_store_def call_driver_def put_enabled_def modE_def
      emit_event_def attach_def split: prod.splits option.splits)

lemma detach_core_keeps [core_keeps]: "c \<noteq> b \<Longrightarrow> keeps (has_core b) (modE (detach c))"
  by (auto simp: keeps_def has_core_def modE_def detach_def)

lemma steps_core_keeps [core_keeps]:
  "keeps (has_core b) (save_row W c st en d)" "keeps (has_core b) (driver_settings c)"
  "keeps (has_core b) (set_state W c st)" "keeps (has_core b) (save_live W c)"
  unfolding save_row_def driver_settings_def set_state_def save_live_def
  by (intro keeps_intros core_keeps lookups_keep)+

lemma run_transition_core_keeps [core_keeps]:
  "keeps (has_core b) action \<Longrightarrow> keeps (has_core b) (run_transition W c x y action)"
  unfolding run_transition_def by (intro keeps_intros core_keeps)

lemma start_stop_core_keeps [core_keeps]:
  "keeps (has_core b) (start_core W c)" "keeps (has_core b) (stop_core W c)"
  "keeps (has_core b) (restart_core W c)"
  unfolding start_core_def stop_core_def restart_core_def
  by (intro keeps_intros core_keeps lookups_keep)+

lemma admin_core_keeps [core_keeps]:
  "keeps (has_core b) (enable_core W c)" "keeps (has_core b) (disable_core W c)"
  "keeps (has_core b) (update_core c v)" "keeps (has_core b) (persist_settings W c)"
  "keeps (has_core b) (start_enabled W)" "keeps (has_core b) (stop_all W)"
  "keeps (has_core b) (create_softether_policy_hub W kw)"
  "keeps (has_core b) (delete_softether_policy_hub W hub)"
  unfolding enable_core_def disable_core_def update_core_def persist_settings_def
    start_enabled_def stop_all_def create_softether_policy_hub_def delete_softether_policy_hub_def
  by (intro keeps_intros core_keeps lookups_keep ignoring_keeps)+

lemma studio_core_keeps [core_keeps]: "keeps (has_core b) (apply_studio_document W c doc)"
  unfolding apply_studio_document_def studio_failed_def studio_restart_def probe_state_def
  by (intro keeps_intros core_keeps lookups_keep)

lemma uninstall_core_keeps_builtin:
  assumes "b \<in> set (w_builtin W)"
  shows "keeps (has_core b) (uninstall_core W c purge force)"
proof (cases "c \<in> set (w_builtin W)")
  case False
  with assms have "c \<noteq> b" by auto
  then show ?thesis
    unfolding uninstall_core_def uninstall_locked_def
    by (intro keeps_intros core_keeps lookups_keep)
qed (simp add: uninstall_core_def keeps_basic)

lemma install_core_keeps_core: "keeps (has_core b) (install_core W c settings en)"
proof (cases "c = b")
  case True
  then show ?thesis by (auto simp: keeps_def install_core_def has_core_def eff_simps)
next
  case False
  then show ?thesis
    unfolding install_core_def by (intro keeps_intros core_keeps lookups_keep)
qed

lemma execute_core_keeps:
  "b \<in> set (w_builtin W) \<Longrightarrow> keeps (has_core b) (execute W cmd)"
  by (cases cmd)
    (auto intro!: keeps_intros core_keeps uninstall_core_keeps_builtin install_core_keeps_core)

lemma after_commands_core:
  "b \<in> set (w_builtin W) \<Longrightarrow> has_core b m \<Longrightarrow> has_core b (after_commands W cmds m)"
  unfolding after_commands_def
  by (induction cmds arbitrary: m) (auto intro: keepsD [OF execute_core_keeps])

section \<open>Boot\<close>

text \<open>No state that claims a live process.\<close>

definition cold :: "('d, 's) mgr \<Rightarrow> bool" where
  "cold m \<longleftrightarrow> ran (dget (states m)) \<inter> {RUNNING, STARTING, STOPPING} = {}"

lemma cold_keeps:
  "keeps cold (on_store f)" "keeps cold (put_driver c d)" "keeps cold (put_enabled c en)"
  "st \<notin> {RUNNING, STARTING, STOPPING} \<Longrightarrow> keeps cold (put_state c st)"
  by (auto simp: keeps_def cold_def on_store_def put_driver_def put_enabled_def put_state_def
      modE_def ran_def split: prod.splits if_splits)

lemma boot_state_cold: "boot_state st \<notin> {RUNNING, STARTING, STOPPING}"
  by (simp add: boot_state_def)

lemma boot_cold: "keeps cold (boot W)"
  unfolding boot_def boot_saved_def boot_builtin_def Let_def
  by (intro keeps_intros cold_keeps boot_state_cold) simp

text \<open>What holds whenever an operation returns.\<close>

definition gives :: "('s \<Rightarrow> bool) \<Rightarrow> ('s, 'e, 'a) eff \<Rightarrow> ('s \<Rightarrow> bool) \<Rightarrow> bool" where
  "gives P f Q \<longleftrightarrow> (\<forall>s x s'. P s \<longrightarrow> f s = (Inr x, s') \<longrightarrow> Q s')"

lemma gives_forE: "(\<And>x. gives P (f x) P) \<Longrightarrow> gives P (forE f xs) P"
proof (induction xs)
  case (Cons x xs)
  from Cons.IH [OF Cons.prems] Cons.prems [of x] show ?case
    unfolding gives_def forE.simps by (blast elim: bindE_Inr)
qed (simp add: gives_def eff_simps)

lemma new_core_ok:
  "mgr_ok m \<Longrightarrow> mgr_ok (m\<lparr>drivers := dput c d (drivers m), states := dput c st (states m),
     enabled := dput c en (enabled m)\<rparr>)"
  by (auto simp: mgr_ok_def)

lemma boot_saved_gives: "gives mgr_ok (boot_saved W e) mgr_ok"
  by (auto simp: gives_def boot_saved_def put_driver_def put_state_def put_enabled_def eff_simps
      new_core_ok split: prod.splits sum.splits option.splits elim!: bindE_Inr)

lemma boot_builtin_gives: "gives mgr_ok (boot_builtin W b) mgr_ok"
  by (auto simp: gives_def boot_builtin_def put_driver_def put_state_def put_enabled_def eff_simps
      new_core_ok split: prod.splits sum.splits option.splits if_splits elim!: bindE_Inr)

lemma boot_ok:
  assumes "boot W (new_manager s) = (Inr (), m)"
  shows "mgr_ok m"
proof -
  have "mgr_ok (new_manager s)" by (simp add: mgr_ok_def new_manager_def)
  moreover have "gives mgr_ok (boot W) mgr_ok"
  proof -
    have "gives mgr_ok (forE (boot_saved W) saved) mgr_ok" for saved
      by (rule gives_forE) (rule boot_saved_gives)
    moreover have "gives mgr_ok (forE (boot_builtin W) bs) mgr_ok" for bs
      by (rule gives_forE) (rule boot_builtin_gives)
    ultimately show ?thesis
      using on_store_keeps(1) unfolding gives_def boot_def keeps_def
      by (smt (verit) bindE_Inr snd_conv)
  qed
  ultimately show ?thesis using assms by (auto simp: gives_def)
qed

lemma boot_builtin_has: "gives (\<lambda>_. is_ok (lookup_class W b)) (boot_builtin W b) (has_core b)"
  by (auto simp: gives_def boot_builtin_def put_driver_def put_state_def put_enabled_def eff_simps
      has_core_def split: sum.splits option.splits if_splits elim!: bindE_Inr)

lemma boot_builtin_keeps_core: "keeps (has_core b) (boot_builtin W c)"
  by (auto simp: keeps_def boot_builtin_def put_driver_def put_state_def put_enabled_def eff_simps
      has_core_def bindE_def split: sum.splits option.splits if_splits prod.splits)

lemma boot_builtins_have:
  assumes "b \<in> set bs" "is_ok (lookup_class W b)" "forE (boot_builtin W) bs m = (Inr u, m')"
  shows "has_core b m'"
  using assms
proof (induction bs arbitrary: m)
  case (Cons c bs)
  from Cons.prems(3) obtain x m1 where
    step: "boot_builtin W c m = (Inr x, m1)" "forE (boot_builtin W) bs m1 = (Inr u, m')"
    by (auto elim: bindE_Inr)
  show ?case
  proof (cases "b \<in> set bs")
    case True
    with Cons step show ?thesis by blast
  next
    case False
    with Cons.prems step boot_builtin_has [of W b] have "has_core b m1"
      by (auto simp: gives_def)
    moreover have "keeps (has_core b) (forE (boot_builtin W) bs)"
      by (intro keeps_forE boot_builtin_keeps_core)
    ultimately show ?thesis using step(2) keepsD by fastforce
  qed
qed simp

lemma boot_has_builtin:
  assumes "boot W (new_manager s) = (Inr (), m)" "b \<in> set (w_builtin W)" "is_ok (lookup_class W b)"
  shows "has_core b m"
proof -
  from assms(1) obtain m1 where "forE (boot_builtin W) (sort (w_builtin W)) m1 = (Inr (), m)"
    by (auto simp: boot_def elim!: bindE_Inr)
  with boot_builtins_have assms(2,3) show ?thesis by (metis set_sort)
qed

section \<open>Stopping, removing, installing\<close>

lemma call_driver_store [simp]: "store (snd (call_driver c f m)) = store m"
  by (simp add: call_driver_def split: option.splits prod.splits)

text \<open>A core that the manager knows nothing about.\<close>

definition gone :: "string \<Rightarrow> ('d, 's) mgr \<Rightarrow> bool" where
  "gone cid m \<longleftrightarrow> dget (drivers m) cid = None \<and> dget (states m) cid = None \<and>
     dget (enabled m) cid = None"

lemma gone_detach: "gone cid (detach cid m)"
  by (simp add: gone_def detach_def)

lemma dpop_dput_fresh:
  assumes "k \<notin> dom (dget a)"
  shows "dpop k (dput k v a) = a"
proof -
  have k: "k \<notin> fst ` set a" using assms by (simp add: dom_map_of_conv_image_fst)
  then have "dpop k (a @ [(k, v)]) = a" by (induction a) auto
  with k show ?thesis by (simp add: dput_fresh)
qed

lemma detach_attach:
  assumes "mgr_ok m" "dget (drivers m) cid = None"
  shows "detach cid ((attach cid d en st m)\<lparr>drivers := dput cid d' (drivers (attach cid d en st m))\<rparr>) = m"
proof -
  have "cid \<notin> dom (dget (drivers m))" "cid \<notin> dom (dget (states m))" "cid \<notin> dom (dget (enabled m))"
    using assms by (auto simp: mgr_ok_def)
  then show ?thesis
    by (simp add: attach_def detach_def dpop_dput_fresh update_last)
qed

context core_state_store
begin

lemma store_keeps:
  assumes "w_store W = ops"
  shows "keeps (\<lambda>m. ok (store m)) (call_driver c f)"
    and "keeps (\<lambda>m. ok (store m)) (set_state W c st)"
    and "keeps (\<lambda>m. ok (store m)) (modE (detach c))"
    and "keeps (\<lambda>m. ok (store m)) action \<Longrightarrow>
      keeps (\<lambda>m. ok (store m)) (run_transition W c a b action)"
proof -
  show call: "keeps (\<lambda>m. ok (store m)) (call_driver c f)" for c f by (simp add: keeps_def)
  show set: "keeps (\<lambda>m. ok (store m)) (set_state W c st)" for c st
    using set_state_ok [OF assms] by (simp add: keeps_def)
  show "keeps (\<lambda>m. ok (store m)) (modE (detach c))"
    by (simp add: keeps_def modE_def detach_def)
  show "keeps (\<lambda>m. ok (store m)) action \<Longrightarrow>
      keeps (\<lambda>m. ok (store m)) (run_transition W c a b action)"
    unfolding run_transition_def by (intro keeps_intros set)
qed

lemma uninstall_locked_removes:
  assumes W: "w_store W = ops" and m: "ok (store m)"
    and run: "uninstall_locked W cid purge m = (Inr (), m')"
  shows "gone cid m' \<and> ok (store m') \<and> view (store m') cid = None"
proof -
  note k = store_keeps [OF W]
  let ?before = "\<lambda>st. seqE (whenE (st = RUNNING)
      (run_transition W cid STOPPING STOPPED (call_driver cid cls_stop)))
    (seqE (catchE (call_driver cid (\<lambda>c. cls_uninstall c purge)) is_not_supported (\<lambda>_. ret ()))
      (set_state W cid UNINSTALLED))"
  have "uninstall_locked W cid purge =
      bindE (bindE (state_at cid) ?before) (\<lambda>_. seqE (modE (detach cid)) (on_store (op_remove (w_store W) cid)))"
    by (simp add: uninstall_locked_def bindE_assoc)
  with run have "bindE (bindE (state_at cid) ?before)
      (\<lambda>_. seqE (modE (detach cid)) (on_store (op_remove (w_store W) cid))) m = (Inr (), m')"
    by simp
  then obtain m1 where m1: "bindE (state_at cid) ?before m = (Inr (), m1)"
    and rest: "on_store (op_remove (w_store W) cid) (detach cid m1) = (Inr (), m')"
    by (rule bindE_Inr) simp
  have "keeps (\<lambda>m. ok (store m)) (bindE (state_at cid) ?before)"
    by (intro keeps_intros k lookups_keep)
  with m m1 have "ok (store m1)" using keepsD by fastforce
  then have "ok (store (detach cid m1))" by (simp add: detach_def)
  from remove_law [OF this, of cid] rest W show ?thesis
    using gone_detach [of cid m1] by (auto simp: on_store_def gone_def)
qed

lemma install_core_raises:
  assumes W: "w_store W = ops" and m: "mgr_ok m" "dget (drivers m) cid = None"
    and cls: "lookup_class W cid = Inr c" and tr: "transform W cid (kv # given) = Inr eff"
    and new: "cls_new c eff = Inr x"
    and inst: "cls_install c x = (Inl e, y)" "\<not> is_not_supported e"
  shows "install_core W cid (Some (kv # given)) en m =
    (Inl e, if is_exception e then m
            else attach cid \<lparr>drv_class = c, drv_state = y\<rparr> en LOADED m)"
proof -
  let ?d = "\<lparr>drv_class = c, drv_state = x\<rparr>" and ?d' = "\<lparr>drv_class = c, drv_state = y\<rparr>"
  have att: "(attach cid ?d en LOADED m)\<lparr>drivers := dput cid ?d' (drivers (attach cid ?d en LOADED m))\<rparr> =
      attach cid ?d' en LOADED m"
    by (simp add: attach_def update_last)
  have call: "call_driver cid cls_install (attach cid ?d en LOADED m) =
      (Inl e, attach cid ?d' en LOADED m)"
    using inst att by (simp add: call_driver_def) (simp add: attach_def)
  show ?thesis
    using m(2) cls tr new call inst(2) detach_attach [OF m, where d = ?d and en = en and st = LOADED and d' = ?d'] att
    by (simp add: install_core_def new_driver_def eff_simps)
qed

lemma stop_core_outcomes:
  assumes W: "w_store W = ops" and m: "ok (store m)"
    and d: "dget (drivers m) cid = Some d" and st: "dget (states m) cid = Some st" "stoppable st"
    and stop: "cls_stop (drv_class d) (drv_state d) = (r, x)"
  shows "\<exists>m'. snd (stop_core W cid m) = m' \<and> ok (store m') \<and>
    (let now = (case r of Inr _ \<Rightarrow> STOPPED | Inl e \<Rightarrow> if is_exception e then ERROR else STOPPING)
     in state_of m' cid = now \<and>
        view (store m') cid = Some (row now (is_enabled m cid) (kept_settings (view (store m) cid)))) \<and>
    (case r of Inl e \<Rightarrow> fst (stop_core W cid m) = Inl e
     | Inr _ \<Rightarrow> fst (stop_core W cid m) = fst (cls_status (drv_class d) x))"
proof -
  let ?m1 = "after_call W cid STOPPING d x m"
  note s1 = set_state_ok [OF W m, of cid STOPPING]
  then have m1: "ok (store ?m1)" by simp
  note s2 = set_state_ok [OF W m1]
  note tr = driver_transition [where f = cls_stop and mid = STOPPING and success = STOPPED, OF W m d stop]
  show ?thesis
  proof (cases r)
    case (Inl e)
    then have "stop_core W cid m = (Inl e, if is_exception e then after_set W cid ERROR ?m1 else ?m1)"
      using d st tr by (auto simp: stop_core_def eff_simps)
    then show ?thesis
      using Inl s1 s2 m1 by (auto simp: state_of_def Let_def)
  next
    case (Inr u)
    obtain q y where q: "cls_status (drv_class d) x = (q, y)" by fastforce
    let ?m2 = "after_set W cid STOPPED ?m1"
    have "call_driver cid cls_status ?m2 =
        (q, ?m2\<lparr>drivers := dput cid (d\<lparr>drv_state := y\<rparr>) (drivers ?m2)\<rparr>)"
      using call_driver_known [of ?m2 cid "d\<lparr>drv_state := x\<rparr>" cls_status q y] q by simp
    then have "stop_core W cid m = (q, ?m2\<lparr>drivers := dput cid (d\<lparr>drv_state := y\<rparr>) (drivers ?m2)\<rparr>)"
      using Inr d st tr by (auto simp: stop_core_def eff_simps)
    then show ?thesis
      using Inr s1 s2 q by (auto simp: state_of_def Let_def)
  qed
qed

text \<open>A restart whose stop raises leaves STOPPING in memory and in the store.\<close>

lemma restart_core_stop_raises:
  assumes W: "w_store W = ops" and m: "ok (store m)"
    and d: "dget (drivers m) cid = Some d" and st: "dget (states m) cid = Some RUNNING"
    and stop: "cls_stop (drv_class d) (drv_state d) = (Inl e, x)"
  shows "restart_core W cid m = (Inl e, after_call W cid STOPPING d x m)"
  using d st set_state_ok(1) [OF W m] call_after_set [where f = cls_stop and mid = STOPPING, OF d stop]
  by (simp add: restart_core_def eff_simps)

text \<open>The second half of a probe that outlives its core writes the core's row again.\<close>

lemma health_apply_ghost:
  assumes W: "w_store W = ops" and m: "ok (store m)" "view (store m) cid = None"
    and g: "gone cid m" and s: "cs_state s \<noteq> RUNNING"
  shows "\<exists>l m'. health_apply W cid (Some RUNNING) (Some s) hm m = (Inr l, m') \<and> ok (store m') \<and>
    view (store m') cid = Some (row STOPPED False []) \<and> dget (states m') cid = Some STOPPED \<and>
    dget (drivers m') cid = None"
proof -
  note s1 = set_state_ok [OF W m(1), of cid STOPPED]
  have en: "\<not> is_enabled m cid" using g by (simp add: is_enabled_def gone_def)
  show ?thesis
    using s1 s en g m(2)
    by (auto simp: health_apply_def eff_simps emit_event_def Let_def gone_def kept_settings_def)
qed

end

end
