(* ===== verification/Manager_Props.thy ===== *)
theory Manager_Props
  imports Manager_Laws
begin

text \<open>
  The properties of the core manager over the node's own store (\<open>node_ops pure_aead\<close>), each with an example
  on a small driver whose three lifecycle calls have given outcomes.
\<close>

definition demo_metadata :: core_metadata where
  "demo_metadata = \<lparr>md_id = ''wg'', md_name = ''WireGuard'', md_description = [], md_protocols = [''wireguard''],
     md_capabilities = [USER_MANAGEMENT], md_config_schema = [], md_default_settings = [],
     md_feature_capabilities = [], md_driver_version = ''1.0.0'', md_homepage = None, md_release_repo = None,
     md_provides = [], md_requires = [], md_studio_inbounds_path = None, md_studio_max_inbounds = None,
     md_security_class = None, md_stop_when_no_inbounds = False\<rparr>"

definition demo_status :: core_status where
  "demo_status = \<lparr>cs_core_id = ''wg'', cs_state = STOPPED, cs_health = HEALTHY, cs_enabled = True,
     cs_version = None, cs_version_reason = None, cs_message = None\<rparr>"

definition demo_class ::
  "(core_exc + unit) \<Rightarrow> (core_exc + unit) \<Rightarrow> (core_exc + unit) \<Rightarrow> jobj driver_class" where
  "demo_class install start stop =
     \<lparr>cls_metadata = demo_metadata, cls_new = Inr, cls_settings = id,
      cls_install = liftE install, cls_uninstall = (\<lambda>_. ret ()), cls_update = (\<lambda>_. ret ''2''),
      cls_start = liftE start, cls_stop = liftE stop, cls_status = ret demo_status,
      cls_health_check = ret demo_status, cls_logs = (\<lambda>_. ret []), cls_studio = None,
      cls_create_hub = None, cls_delete_hub = None,
      cls_create_account = (\<lambda>a. if ua_enabled a then ret () else fail (OtherError ''E'' ''off'')),
      cls_update_account = (\<lambda>_. ret ()), cls_delete_account = (\<lambda>_. ret ()),
      cls_suspend_account = (\<lambda>_. ret ()), cls_resume_account = (\<lambda>_. ret ()),
      cls_sync_accounts = (\<lambda>_. ret ()), cls_usage = (\<lambda>_. ret []), cls_online = (\<lambda>_. ret [])\<rparr>"

definition demo_wiring :: "jobj driver_class \<Rightarrow> (jobj, node_store) wiring" where
  "demo_wiring c =
     \<lparr>w_store = node_ops pure_aead,
      w_registry = [(''wg'', \<lparr>dd_module = ''m'', dd_name = ''Wg'',
        dd_metadata = Some demo_metadata, dd_class = c\<rparr>)],
      w_builtin = builtin_core_ids, w_provider = None, w_transform = None\<rparr>"

definition demo_driver :: "jobj driver_class \<Rightarrow> jobj driver" where
  "demo_driver c = \<lparr>drv_class = c, drv_state = [(''port'', JInt 51820)]\<rparr>"

definition demo_manager :: "jobj driver_class \<Rightarrow> core_state \<Rightarrow> (jobj, node_store) mgr" where
  "demo_manager c st = attach ''wg'' (demo_driver c) True st (new_manager demo_node_store)"

lemma demo_manager_simps [simp]:
  "dget (drivers (demo_manager c st)) ''wg'' = Some (demo_driver c)"
  "dget (states (demo_manager c st)) ''wg'' = Some st"
  "dget (enabled (demo_manager c st)) ''wg'' = Some True"
  "store (demo_manager c st) = demo_node_store"
  "dict_ok (drivers (demo_manager c st))"
  "drv_class (demo_driver c) = c" "drv_state (demo_driver c) = [(''port'', JInt 51820)]"
  "w_store (demo_wiring c) = node_ops pure_aead"
  by (simp_all add: demo_manager_def demo_driver_def attach_def new_manager_def demo_wiring_def
      dict_ok_def)

lemma demo_class_simps [simp]:
  "cls_start (demo_class i b e) x = (b, x)" "cls_stop (demo_class i b e) x = (e, x)"
  "cls_install (demo_class i b e) x = (i, x)" "cls_status (demo_class i b e) x = (Inr demo_status, x)"
  "cls_settings (demo_class i b e) x = x"
  by (simp_all add: demo_class_def eff_simps)

lemma demo_settings_ok: "settings_ok [(''port'', JInt 51820)]"
  by (simp add: settings_ok_def)

text \<open>
  C25: starting a core does what the state machine says. It is refused, with nothing changed,
  when the core is disabled or in a state other than installed, stopped or error. Otherwise a
  driver that starts leaves RUNNING, in memory and in the store, with the settings the driver
  has then; one that raises leaves ERROR, and a cancelled start leaves STARTING, each saved.
\<close>

theorem start_core_outcomes:
  assumes W: "w_store W = node_ops pure_aead"
    and m: "node_store_ok pure_aead (store m)" "dict_ok (drivers m)"
    and d: "dget (drivers m) cid = Some d" "dget (enabled m) cid = Some en"
      "dget (states m) cid = Some st"
    and settings: "\<forall>x. cls_start (drv_class d) (drv_state d) = (Inr (), x) \<longrightarrow>
      settings_ok (cls_settings (drv_class d) x)"
  shows "(if \<not> (en \<and> startable st) then \<exists>msg. start_core W cid m = (Inl (CoreStateError msg), m)
     else (\<exists>m'. snd (start_core W cid m) = m' \<and>
       (case cls_start (drv_class d) (drv_state d) of
          (Inr _, x) \<Rightarrow>
            fst (start_core W cid m) = fst (cls_status (drv_class d) x) \<and>
            state_of m' cid = RUNNING \<and>
            node_view pure_aead (store m') cid = Some (row RUNNING True (cls_settings (drv_class d) x))
        | (Inl e, x) \<Rightarrow>
            fst (start_core W cid m) = Inl e \<and>
            (let now = (if is_exception e then ERROR else STARTING)
             in state_of m' cid = now \<and>
                node_view pure_aead (store m') cid =
                  Some (row now True (kept_settings (node_view pure_aead (store m) cid)))))))"
proof (cases "en \<and> startable st")
  case False
  then show ?thesis using node_state.start_core_refuses [OF d False] by simp
next
  case True
  obtain r x where start: "cls_start (drv_class d) (drv_state d) = (r, x)" by fastforce
  obtain q y where status: "cls_status (drv_class d) x = (q, y)" by fastforce
  from True d have en: "dget (enabled m) cid = Some True" "startable st" by simp_all
  show ?thesis
  proof (cases r)
    case (Inl e)
    from node_state.start_core_fails [OF W m(1) d(1) en(1) d(3) en(2) start [unfolded Inl]]
    show ?thesis using True start Inl by (auto simp: Let_def)
  next
    case (Inr u)
    from node_state.start_core_starts [OF W m d(1) en(1) d(3) en(2) _ _ status] start Inr settings
    show ?thesis using True status by auto
  qed
qed

theorem start_core_outcomes_witness:
  "state_of (snd (start_core (demo_wiring (demo_class (Inr ()) (Inr ()) (Inr ()))) ''wg''
      (demo_manager (demo_class (Inr ()) (Inr ()) (Inr ())) INSTALLED))) ''wg'' = RUNNING"
  using start_core_outcomes [where W = "demo_wiring (demo_class (Inr ()) (Inr ()) (Inr ()))" and
      m = "demo_manager (demo_class (Inr ()) (Inr ()) (Inr ())) INSTALLED" and cid = "''wg''" and
      d = "demo_driver (demo_class (Inr ()) (Inr ()) (Inr ()))" and en = True and st = INSTALLED]
  by (simp add: startable_def demo_node_store_ok demo_settings_ok)

text \<open>
  Stopping a core whose state allows it runs the driver's stop between two saved states:
  it ends STOPPED, or ERROR when the stop raises, or STOPPING when it is cancelled, in memory
  and in the store alike, and the caller gets the driver's status or its error.
\<close>

theorem stop_core_spec:
  assumes "w_store W = node_ops pure_aead" "node_store_ok pure_aead (store m)"
    and "dget (drivers m) cid = Some d" "dget (states m) cid = Some st" "stoppable st"
    and "cls_stop (drv_class d) (drv_state d) = (r, x)"
  shows "\<exists>m'. snd (stop_core W cid m) = m' \<and> node_store_ok pure_aead (store m') \<and>
    (let now = (case r of Inr _ \<Rightarrow> STOPPED | Inl e \<Rightarrow> if is_exception e then ERROR else STOPPING)
     in state_of m' cid = now \<and>
        node_view pure_aead (store m') cid =
          Some (row now (is_enabled m cid) (kept_settings (node_view pure_aead (store m) cid)))) \<and>
    (case r of Inl e \<Rightarrow> fst (stop_core W cid m) = Inl e
     | Inr _ \<Rightarrow> fst (stop_core W cid m) = fst (cls_status (drv_class d) x))"
  by (rule node_state.stop_core_outcomes [OF assms])

theorem stop_core_spec_witness:
  "state_of (snd (stop_core (demo_wiring (demo_class (Inr ()) (Inr ()) (Inl CancelledError))) ''wg''
      (demo_manager (demo_class (Inr ()) (Inr ()) (Inl CancelledError)) RUNNING))) ''wg'' = STOPPING"
  using stop_core_spec [where W = "demo_wiring (demo_class (Inr ()) (Inr ()) (Inl CancelledError))"
      and m = "demo_manager (demo_class (Inr ()) (Inr ()) (Inl CancelledError)) RUNNING"
      and cid = "''wg''" and d = "demo_driver (demo_class (Inr ()) (Inr ()) (Inl CancelledError))"
      and st = RUNNING and r = "Inl CancelledError" and x = "[(''port'', JInt 51820)]"]
  by (simp add: stoppable_def demo_node_store_ok is_exception_def Let_def)

text \<open>
  A restart whose stop raises, or is cancelled by the job's time limit, leaves the core in
  STOPPING, from which start, stop and restart all refuse and which the health monitor skips:
  only uninstalling the core or restarting the agent gets it out.
\<close>

theorem restart_can_wedge:
  assumes W: "w_store W = node_ops pure_aead" and m: "node_store_ok pure_aead (store m)"
    and d: "dget (drivers m) cid = Some d" and st: "dget (states m) cid = Some RUNNING"
    and en: "dget (enabled m) cid = Some True"
    and stop: "cls_stop (drv_class d) (drv_state d) = (Inl e, x)"
  shows "\<exists>m'. restart_core W cid m = (Inl e, m') \<and> state_of m' cid = STOPPING \<and>
    health_recorded m' cid = None \<and>
    (\<exists>msg. start_core W cid m' = (Inl (CoreStateError msg), m')) \<and>
    (\<exists>msg. stop_core W cid m' = (Inl (CoreStateError msg), m')) \<and>
    (\<exists>msg. restart_core W cid m' = (Inl (CoreStateError msg), m'))"
  using node_state.restart_core_stop_raises [OF W m d st stop] d en
  by (auto simp: state_of_def health_recorded_def start_core_def stop_core_def restart_core_def
      startable_def stoppable_def eff_simps)

theorem restart_can_wedge_witness:
  "\<exists>m'. restart_core (demo_wiring (demo_class (Inr ()) (Inr ()) (Inl (OtherError ''OSError'' []))))
      ''wg'' (demo_manager (demo_class (Inr ()) (Inr ()) (Inl (OtherError ''OSError'' []))) RUNNING) =
      (Inl (OtherError ''OSError'' []), m') \<and> state_of m' ''wg'' = STOPPING"
  using restart_can_wedge [where
      W = "demo_wiring (demo_class (Inr ()) (Inr ()) (Inl (OtherError ''OSError'' [])))"
      and m = "demo_manager (demo_class (Inr ()) (Inr ()) (Inl (OtherError ''OSError'' []))) RUNNING"
      and cid = "''wg''" and d = "demo_driver (demo_class (Inr ()) (Inr ()) (Inl (OtherError ''OSError'' [])))"
      and e = "OtherError ''OSError'' []" and x = "[(''port'', JInt 51820)]"]
  by (auto simp: demo_node_store_ok)

text \<open>
  C26: an install whose driver raises is undone: the manager is exactly what it was and no row
  was written. A cancelled install (the job's time limit) is not: the core stays, LOADED, so
  that it can neither be installed nor started before it is uninstalled.
\<close>

theorem install_rolls_back:
  assumes W: "w_store W = node_ops pure_aead" and m: "mgr_ok m" "dget (drivers m) cid = None"
    and cls: "lookup_class W cid = Inr c" and tr: "transform W cid (kv # given) = Inr eff"
    and new: "cls_new c eff = Inr x"
    and inst: "cls_install c x = (Inl e, y)" "\<not> is_not_supported e"
  shows "if is_exception e then install_core W cid (Some (kv # given)) True m = (Inl e, m)
    else \<exists>m'. install_core W cid (Some (kv # given)) True m = (Inl e, m') \<and>
      state_of m' cid = LOADED \<and> store m' = store m \<and>
      (\<exists>msg. install_core W cid (Some (kv # given)) True m' = (Inl (CoreStateError msg), m')) \<and>
      (\<exists>msg. start_core W cid m' = (Inl (CoreStateError msg), m'))"
  using node_state.install_core_raises [OF W m cls tr new inst]
  by (auto simp: attach_def state_of_def install_core_def start_core_def startable_def eff_simps)

theorem install_rolls_back_witness:
  "install_core (demo_wiring (demo_class (Inl (OtherError ''OSError'' [])) (Inr ()) (Inr ()))) ''wg''
     (Some [(''port'', JInt 1)]) True (new_manager demo_node_store) =
   (Inl (OtherError ''OSError'' []), new_manager demo_node_store)"
  using install_rolls_back [where
      W = "demo_wiring (demo_class (Inl (OtherError ''OSError'' [])) (Inr ()) (Inr ()))"
      and m = "new_manager demo_node_store" and cid = "''wg''"
      and c = "demo_class (Inl (OtherError ''OSError'' [])) (Inr ()) (Inr ())"
      and kv = "(''port'', JInt 1)" and given = "[]" and eff = "[(''port'', JInt 1)]"
      and x = "[(''port'', JInt 1)]" and y = "[(''port'', JInt 1)]" and e = "OtherError ''OSError'' []"]
  by (simp add: mgr_ok_def new_manager_def lookup_class_def get_driver_class_def transform_def
      demo_wiring_def demo_class_def eff_simps is_not_supported_def is_exception_def)

text \<open>
  An uninstall that returns leaves no trace of the core: no driver, no state, no enabled
  flag, no row in the store. It never touches a built-in core, nor one that another core
  depends on unless it is forced: then nothing at all changes.
\<close>

theorem uninstall_removes:
  assumes W: "w_store W = node_ops pure_aead" and m: "node_store_ok pure_aead (store m)"
  shows "(\<forall>m'. uninstall_core W cid purge force m = (Inr (), m') \<longrightarrow>
      gone cid m' \<and> node_view pure_aead (store m') cid = None) \<and>
    (cid \<in> set (w_builtin W) \<or> dependents m cid \<noteq> [] \<and> \<not> force \<longrightarrow>
      (\<exists>msg. uninstall_core W cid purge force m = (Inl (CoreStateError msg), m)))"
proof (intro conjI allI impI)
  fix m' assume "uninstall_core W cid purge force m = (Inr (), m')"
  then have "uninstall_locked W cid purge m = (Inr (), m')"
    by (auto simp: uninstall_core_def eff_simps get_core_def split: if_splits option.splits
        elim!: bindE_Inr)
  from node_state.uninstall_locked_removes [OF W m this]
  show "gone cid m'" "node_view pure_aead (store m') cid = None" by simp_all
next
  assume "cid \<in> set (w_builtin W) \<or> dependents m cid \<noteq> [] \<and> \<not> force"
  then show "\<exists>msg. uninstall_core W cid purge force m = (Inl (CoreStateError msg), m)"
    by (auto simp: uninstall_core_def eff_simps)
qed

theorem uninstall_removes_witness:
  "\<exists>msg. uninstall_core (demo_wiring (demo_class (Inr ()) (Inr ()) (Inr ()))) ''xray'' False False
     (demo_manager (demo_class (Inr ()) (Inr ()) (Inr ())) RUNNING) =
     (Inl (CoreStateError msg), demo_manager (demo_class (Inr ()) (Inr ()) (Inr ())) RUNNING)"
  using uninstall_removes [where W = "demo_wiring (demo_class (Inr ()) (Inr ()) (Inr ()))" and
      m = "demo_manager (demo_class (Inr ()) (Inr ()) (Inr ())) RUNNING" and cid = "''xray''" and
      purge = False and force = False]
  by (simp add: demo_node_store_ok) (simp add: demo_wiring_def builtin_core_ids_def)

text \<open>
  C7: after boot and any sequence of commands, each of which may raise or be cancelled, the
  manager's drivers, states and enabled flags name the same cores, and every built-in core
  with a registered driver is still attached; right after boot no core claims to be running,
  starting or stopping.
\<close>

theorem manager_invariant:
  assumes "boot W (new_manager s) = (Inr (), m)"
  shows "cold m \<and> mgr_ok (after_commands W cmds m) \<and>
    (\<forall>b \<in> set (w_builtin W). is_ok (lookup_class W b) \<longrightarrow> has_core b (after_commands W cmds m))"
proof -
  have "cold (new_manager s)" by (simp add: cold_def new_manager_def)
  then have "cold m" using keepsD [OF boot_cold [of W]] assms by fastforce
  then show ?thesis
    using after_commands_ok boot_ok [OF assms] after_commands_core boot_has_builtin [OF assms]
    by blast
qed

theorem manager_invariant_witness:
  "\<exists>m. boot (demo_wiring (demo_class (Inr ()) (Inr ()) (Inr ()))) (new_manager demo_node_store) =
      (Inr (), m) \<and>
    mgr_ok (after_commands (demo_wiring (demo_class (Inr ()) (Inr ()) (Inr ())))
      [Install ''wg'' None True, Start ''wg'', Uninstall ''wg'' False False] m)"
proof -
  let ?W = "demo_wiring (demo_class (Inr ()) (Inr ()) (Inr ()))"
  have "store_load pure_aead demo_node_store = (Inr [], demo_node_store)"
    by (simp add: store_load_def store_read_def has_plaintext_def demo_node_store_def eff_simps)
  then have boot: "boot ?W (new_manager demo_node_store) = (Inr (), new_manager demo_node_store)"
    by (simp add: boot_def demo_wiring_def on_store_def node_ops_def new_manager_def eff_simps
        builtin_core_ids_def boot_builtin_def lookup_class_def get_driver_class_def bindE_def)
  then show ?thesis using manager_invariant [OF boot] by blast
qed

text \<open>
  The health monitor holds no lock across its probe: when a running core is uninstalled
  while its probe is under way, the probe's second half records the removed core again, as
  STOPPED, in memory and in the store, and the next boot would attach it.
\<close>

theorem health_probe_resurrects:
  assumes W: "w_store W = node_ops pure_aead" and m: "node_store_ok pure_aead (store m)"
    and st: "dget (states m) cid = Some RUNNING"
    and gone: "uninstall_core W cid purge force m = (Inr (), m1)"
    and probe: "cs_state s \<noteq> RUNNING"
  shows "health_recorded m cid = Some (Some RUNNING) \<and>
    node_view pure_aead (store m1) cid = None \<and>
    (\<exists>l m2. health_apply W cid (Some RUNNING) (Some s) hm m1 = (Inr l, m2) \<and>
      node_view pure_aead (store m2) cid = Some (row STOPPED False []) \<and> \<not> mgr_ok m2)"
proof -
  from gone have "uninstall_locked W cid purge m = (Inr (), m1)"
    by (auto simp: uninstall_core_def eff_simps get_core_def split: if_splits option.splits
        elim!: bindE_Inr)
  note u = node_state.uninstall_locked_removes [OF W m this]
  then obtain l m2 where ghost: "health_apply W cid (Some RUNNING) (Some s) hm m1 = (Inr l, m2)"
    "node_view pure_aead (store m2) cid = Some (row STOPPED False [])"
    "dget (states m2) cid = Some STOPPED" "dget (drivers m2) cid = None"
    using node_state.health_apply_ghost [OF W _ _ _ probe, of m1 cid hm] by blast
  from ghost(3,4) have "\<not> mgr_ok m2" by (auto simp: mgr_ok_def)
  with ghost u st show ?thesis by (auto simp: health_recorded_def)
qed

theorem health_probe_resurrects_witness:
  "\<exists>m1 l m2. uninstall_core (demo_wiring (demo_class (Inr ()) (Inr ()) (Inr ()))) ''wg'' False False
      (demo_manager (demo_class (Inr ()) (Inr ()) (Inr ())) RUNNING) = (Inr (), m1) \<and>
    health_apply (demo_wiring (demo_class (Inr ()) (Inr ()) (Inr ()))) ''wg'' (Some RUNNING)
      (Some demo_status) [] m1 = (Inr l, m2) \<and>
    node_view pure_aead (store m2) ''wg'' = Some (row STOPPED False [])"
proof -
  let ?c = "demo_class (Inr ()) (Inr ()) (Inr ())"
  let ?W = "demo_wiring ?c" and ?m = "demo_manager ?c RUNNING"
  have W: "w_store ?W = node_ops pure_aead" by simp
  have ok: "node_store_ok pure_aead (store ?m)" by (simp add: demo_node_store_ok)
  note set = node_state.set_state_ok [OF W]
  note tr = node_state.driver_transition [where f = cls_stop and cid = "''wg''", OF W ok]
  let ?m1 = "after_set ?W ''wg'' STOPPED (after_call ?W ''wg'' STOPPING (demo_driver ?c)
    [(''port'', JInt 51820)] ?m)"
  have ok1: "node_store_ok pure_aead (store ?m1)" using set(2) ok by simp
  let ?m2 = "?m1\<lparr>drivers := dput ''wg'' (demo_driver ?c) (drivers ?m1)\<rparr>"
  have un: "call_driver ''wg'' (\<lambda>c. cls_uninstall c False) ?m1 = (Inr (), ?m2)"
    by (simp add: call_driver_def) (simp add: demo_class_def demo_driver_def eff_simps)
  have ok2: "node_store_ok pure_aead (store ?m2)" using ok1 by simp
  have ok3: "node_store_ok pure_aead (store (detach ''wg'' (after_set ?W ''wg'' UNINSTALLED ?m2)))"
    using set(2) [OF ok2] by (simp add: detach_def)
  obtain s' where rm: "op_remove (w_store ?W) ''wg''
      (store (detach ''wg'' (after_set ?W ''wg'' UNINSTALLED ?m2))) = (Inr (), s')"
    using node_state.remove_law [OF ok3, of "''wg''"] W by auto
  have deps: "dependents ?m ''wg'' = []"
    by (simp add: dependents_def demo_manager_def attach_def new_manager_def)
  have "''wg'' \<notin> set (w_builtin ?W)" by (simp add: demo_wiring_def builtin_core_ids_def)
  then have "\<exists>m1. uninstall_core ?W ''wg'' False False ?m = (Inr (), m1)"
    using tr [of "demo_driver ?c" "Inr ()" "[(''port'', JInt 51820)]" STOPPING STOPPED] un
      set(1) [OF ok2] rm deps
    by (simp add: uninstall_core_def uninstall_locked_def eff_simps on_store_def)
  then obtain m1 where m1: "uninstall_core ?W ''wg'' False False ?m = (Inr (), m1)" by blast
  from health_probe_resurrects [OF W ok _ m1, of demo_status "[]"]
  show ?thesis using m1 by (auto simp: demo_status_def)
qed

section \<open>Accounts on every core\<close>

text \<open>
  What one core does for one account: its plan (a call, or a refusal) and the outcome, which
  depends on that core's driver alone.
\<close>

definition planned ::
  "string \<Rightarrow> ('d driver \<Rightarrow> core_exc + ('d driver_class \<Rightarrow> ('d, core_exc, unit) eff)) \<Rightarrow> ('d, 's, unit) op" where
  "planned cid plan = bindE (get_core cid)
     (\<lambda>d. case plan d of Inl e \<Rightarrow> fail e | Inr f \<Rightarrow> call_driver cid f)"

definition plan_outcome ::
  "('d driver \<Rightarrow> core_exc + ('d driver_class \<Rightarrow> ('d, core_exc, unit) eff)) \<Rightarrow> ('d, 's) mgr \<Rightarrow> string \<Rightarrow>
   core_exc + unit" where
  "plan_outcome plan m cid =
     (case dget (drivers m) cid of
        None \<Rightarrow> Inl (CoreNotFoundError cid)
      | Some d \<Rightarrow>
          (case plan d of Inl e \<Rightarrow> Inl e | Inr f \<Rightarrow> fst (f (drv_class d) (drv_state d))))"

definition result_of :: "string \<Rightarrow> string \<Rightarrow> core_exc + unit \<Rightarrow> provision_result" where
  "result_of cid aid r = (case r of Inr _ \<Rightarrow> provisioned cid aid | Inl e \<Rightarrow> not_provisioned cid aid e)"

lemma planned_step:
  assumes "plan_outcome plan m cid \<noteq> Inl CancelledError"
  obtains m' where "reported cid aid (planned cid plan) m =
      (Inr (result_of cid aid (plan_outcome plan m cid)), m')"
    "\<And>c. c \<noteq> cid \<Longrightarrow> dget (drivers m') c = dget (drivers m) c"
proof -
  obtain r m' where p: "planned cid plan m = (r, m')" by fastforce
  have "r = plan_outcome plan m cid \<and> (\<forall>c. c \<noteq> cid \<longrightarrow> dget (drivers m') c = dget (drivers m) c)"
    using p by (auto simp: planned_def plan_outcome_def get_core_def call_driver_def bindE_def fail_def
        split: option.splits sum.splits prod.splits)
  then have r: "plan_outcome plan m cid = r"
    and other: "\<And>c. c \<noteq> cid \<Longrightarrow> dget (drivers m') c = dget (drivers m) c" by auto
  have "reported cid aid (planned cid plan) m = (Inr (result_of cid aid r), m')"
    using assms p r
    by (cases r) (auto simp: reported_def result_of_def eff_simps is_exception_def)
  with r other that show thesis by blast
qed

lemma fan_out:
  assumes "distinct (map fst accounts)"
    and "\<forall>(cid, a) \<in> set accounts. plan_outcome (plan cid a) m cid \<noteq> Inl CancelledError"
  shows "\<exists>m'. mapE (\<lambda>(cid, a). reported cid (aid a) (planned cid (plan cid a))) accounts m =
    (Inr (map (\<lambda>(cid, a). result_of cid (aid a) (plan_outcome (plan cid a) m cid)) accounts), m')"
  using assms
proof (induction accounts arbitrary: m)
  case (Cons x accounts)
  obtain cid a where x: "x = (cid, a)" by fastforce
  obtain m1 where m1: "reported cid (aid a) (planned cid (plan cid a)) m =
      (Inr (result_of cid (aid a) (plan_outcome (plan cid a) m cid)), m1)"
    "\<And>c. c \<noteq> cid \<Longrightarrow> dget (drivers m1) c = dget (drivers m) c"
    using planned_step [of "plan cid a" m cid "aid a"] Cons.prems(2) x by auto
  have same: "plan_outcome (plan c b) m1 c = plan_outcome (plan c b) m c"
    if "(c, b) \<in> set accounts" for c b
  proof -
    from that Cons.prems(1) x have "c \<noteq> cid" by force
    then show ?thesis by (simp add: plan_outcome_def m1(2))
  qed
  with Cons.IH [of m1] Cons.prems x obtain m2 where
    "mapE (\<lambda>(cid, a). reported cid (aid a) (planned cid (plan cid a))) accounts m1 =
    (Inr (map (\<lambda>(cid, a). result_of cid (aid a) (plan_outcome (plan cid a) m1 cid)) accounts), m2)"
    by fastforce
  moreover have "map (\<lambda>(cid, a). result_of cid (aid a) (plan_outcome (plan cid a) m1 cid)) accounts =
      map (\<lambda>(cid, a). result_of cid (aid a) (plan_outcome (plan cid a) m cid)) accounts"
    using same by auto
  ultimately show ?case using m1(1) x by (simp add: eff_simps)
qed (simp add: eff_simps)

definition create_plan ::
  "user_account \<Rightarrow> 'd driver \<Rightarrow> core_exc + ('d driver_class \<Rightarrow> ('d, core_exc, unit) eff)" where
  "create_plan a d = Inr (\<lambda>c. cls_create_account c a)"

definition suspend_plan ::
  "string \<Rightarrow> user_account \<Rightarrow> 'd driver \<Rightarrow> core_exc + ('d driver_class \<Rightarrow> ('d, core_exc, unit) eff)" where
  "suspend_plan cid a d =
     (if supports d SUSPEND_RESUME then Inr (\<lambda>c. cls_suspend_account c (ua_account_id a))
      else if supports d USER_MANAGEMENT
      then Inr (\<lambda>c. cls_update_account c (a\<lparr>ua_enabled := False\<rparr>))
      else Inl (CapabilityNotSupportedError cid ''suspend_resume''))"

lemma plan_if:
  "(case (if b then x else y) of Inl e \<Rightarrow> fail e | Inr f \<Rightarrow> call_driver cid f) =
   (if b then (case x of Inl e \<Rightarrow> fail e | Inr f \<Rightarrow> call_driver cid f)
    else (case y of Inl e \<Rightarrow> fail e | Inr f \<Rightarrow> call_driver cid f))"
  by simp

text \<open>
  Provisioning and suspending a user report one result per requested core, in order, and
  the result for a core is the outcome of that core's own driver: one core that is unknown,
  unable or failing never changes what another reports.
\<close>

theorem provision_isolated:
  assumes "distinct (map fst accounts)"
    and "\<forall>(cid, a) \<in> set accounts. plan_outcome (create_plan a) m cid \<noteq> Inl CancelledError \<and>
      plan_outcome (suspend_plan cid a) m cid \<noteq> Inl CancelledError"
  shows "(\<exists>m'. provision_user accounts m =
      (Inr (map (\<lambda>(cid, a). result_of cid (ua_account_id a) (plan_outcome (create_plan a) m cid))
        accounts), m')) \<and>
    (\<exists>m'. suspend_user accounts m =
      (Inr (map (\<lambda>(cid, a). result_of cid (ua_account_id a) (plan_outcome (suspend_plan cid a) m cid))
        accounts), m'))"
proof -
  have create: "provision_user = mapE (\<lambda>(cid, a). reported cid (ua_account_id a)
      (planned cid ((\<lambda>_ a. create_plan a) cid a)))"
    by (simp add: provision_user_def planned_def create_plan_def)
  have suspend: "suspend_user = mapE (\<lambda>(cid, a). reported cid (ua_account_id a)
      (planned cid (suspend_plan cid a)))"
    by (simp add: suspend_user_def planned_def suspend_plan_def plan_if cong: if_cong)
  show ?thesis
    using fan_out [OF assms(1), of "\<lambda>_ a. create_plan a" m ua_account_id]
      fan_out [OF assms(1), of suspend_plan m ua_account_id] assms(2)
    unfolding create suspend by auto
qed

definition demo_account :: "bool \<Rightarrow> user_account" where
  "demo_account on = \<lparr>ua_user_id = 1, ua_username = ''a'', ua_account_id = ''1.a'', ua_protocol = ''wg'',
     ua_enabled = on, ua_expire_at = None, ua_data_limit_bytes = None, ua_settings = []\<rparr>"

theorem provision_isolated_witness:
  "\<exists>m'. provision_user [(''nope'', demo_account True), (''wg'', demo_account True)]
      (demo_manager (demo_class (Inr ()) (Inr ()) (Inr ())) RUNNING) =
    (Inr [not_provisioned ''nope'' ''1.a'' (CoreNotFoundError ''nope''), provisioned ''wg'' ''1.a''], m')"
  using provision_isolated [of "[(''nope'', demo_account True), (''wg'', demo_account True)]"
      "demo_manager (demo_class (Inr ()) (Inr ()) (Inr ())) RUNNING"]
  by (simp add: plan_outcome_def create_plan_def suspend_plan_def supports_def result_of_def
      demo_account_def)
    (simp add: demo_manager_def attach_def new_manager_def demo_driver_def demo_class_def
      demo_metadata_def eff_simps)

end
