(* ===== verification/Recovery.thy ===== *)
theory Recovery
  imports Manager_Props
begin

text \<open>
  What a boot makes of the store: \<open>boot\<close> attaches every recorded core with a driver of its class, and \<open>start_enabled\<close> starts
  every enabled one that is installed, stopped or in error; the failure of one leaves the others alone.
\<close>

section \<open>One core of the manager\<close>

text \<open>What the three dictionaries hold of a core, when all have it.\<close>

definition core_at :: "('d, 's) mgr \<Rightarrow> string \<Rightarrow> ('d driver \<times> core_state \<times> bool) option" where
  "core_at m cid =
     (case dget (drivers m) cid of None \<Rightarrow> None | Some d \<Rightarrow>
      case dget (states m) cid of None \<Rightarrow> None | Some st \<Rightarrow>
      case dget (enabled m) cid of None \<Rightarrow> None | Some en \<Rightarrow> Some (d, st, en))"

lemma core_at_Some: "core_at m cid = Some (d, st, en) \<longleftrightarrow>
    dget (drivers m) cid = Some d \<and> dget (states m) cid = Some st \<and> dget (enabled m) cid = Some en"
  by (auto simp: core_at_def split: option.splits)

lemma core_at_known: "mgr_ok m \<Longrightarrow> dget (drivers m) cid = None \<longleftrightarrow> core_at m cid = None"
  by (auto simp: core_at_def mgr_ok_def split: option.splits)

lemma core_at_attach: "core_at (attach c d en st m) = (core_at m)(c \<mapsto> (d, st, en))"
  by (auto simp: core_at_def attach_def fun_eq_iff cong: option.case_cong)

lemma core_at_new [simp]: "core_at (new_manager s) = (\<lambda>_. None)"
  by (simp add: core_at_def new_manager_def fun_eq_iff)

lemma list_cores_known: "mgr_ok m \<Longrightarrow> cid \<in> set (list_cores m) \<longleftrightarrow> core_at m cid \<noteq> None"
  by (auto simp: list_cores_def dget_None_iff simp flip: core_at_known)

section \<open>The records of the store\<close>

text \<open>The core that a boot builds from a record: \<open>None\<close> when the class is unknown or raises, or the state is none.\<close>

definition booted :: "('d, 's) wiring \<Rightarrow> string \<Rightarrow> core_record \<Rightarrow> ('d driver \<times> core_state \<times> bool) option" where
  "booted W cid r =
     (case lookup_class W cid of Inl _ \<Rightarrow> None | Inr cls \<Rightarrow>
      case bindR (transform W cid (rec_settings r)) (new_driver cls) of Inl _ \<Rightarrow> None | Inr d \<Rightarrow>
      map_option (\<lambda>st. (d, boot_state st, rec_enabled r)) (core_state_of (rec_state r)))"

definition attach_core :: "string \<Rightarrow> ('d driver \<times> core_state \<times> bool) option \<Rightarrow> ('d, 's) mgr \<Rightarrow> ('d, 's) mgr" where
  "attach_core cid z m = (case z of None \<Rightarrow> m | Some (d, st, en) \<Rightarrow> attach cid d en st m)"

lemma attach_core_at: "core_at (attach_core c z m) cid = (if cid = c \<and> z \<noteq> None then z else core_at m cid)"
  by (cases z) (auto simp: attach_core_def core_at_attach)

lemma boot_saved_attaches:
  assumes "is_ok (lookup_class W c) \<longrightarrow> booted W c r \<noteq> None"
  shows "boot_saved W (c, r) m = (Inr (), attach_core c (booted W c r) m)"
  using assms
  by (auto simp: boot_saved_def booted_def attach_core_def attach_def put_driver_def put_state_def put_enabled_def
      bindR_def eff_simps split: sum.splits option.splits)

lemma boot_records:
  assumes "dict_ok saved" "\<forall>c r. dget saved c = Some r \<and> is_ok (lookup_class W c) \<longrightarrow> booted W c r \<noteq> None"
  shows "\<exists>m'. forE (boot_saved W) saved m = (Inr (), m') \<and> store m' = store m \<and>
    (\<forall>cid. core_at m' cid = (case Option.bind (dget saved cid) (booted W cid) of None \<Rightarrow> core_at m cid | Some z \<Rightarrow> Some z))"
  using assms
proof (induction saved arbitrary: m)
  case (Cons e saved)
  obtain c r where e: "e = (c, r)" by fastforce
  have fresh: "dget saved c = None" and ok: "dict_ok saved"
    using Cons.prems(1) e by (auto simp: dict_ok_def dget_None_iff)
  have rest: "\<forall>b q. dget saved b = Some q \<and> is_ok (lookup_class W b) \<longrightarrow> booted W b q \<noteq> None"
  proof (intro allI impI)
    fix b q assume "dget saved b = Some q \<and> is_ok (lookup_class W b)"
    moreover from this fresh have "b \<noteq> c" by auto
    ultimately show "booted W b q \<noteq> None" using Cons.prems(2) e by simp
  qed
  let ?m1 = "attach_core c (booted W c r) m"
  from Cons.prems(2) e have "boot_saved W e m = (Inr (), ?m1)" by (simp add: boot_saved_attaches)
  moreover obtain m' where m': "forE (boot_saved W) saved ?m1 = (Inr (), m')" "store m' = store ?m1"
    "\<forall>cid. core_at m' cid = (case Option.bind (dget saved cid) (booted W cid) of None \<Rightarrow> core_at ?m1 cid | Some z \<Rightarrow> Some z)"
    using Cons.IH [OF ok rest] by blast
  moreover have "store ?m1 = store m" by (simp add: attach_core_def attach_def split: option.split prod.split)
  ultimately show ?case
    using e fresh by (auto simp: eff_simps attach_core_at split: option.splits)
qed (simp add: eff_simps)

section \<open>Starting what is enabled\<close>

text \<open>A start may raise but not be cancelled, and leaves settings that can be stored.\<close>

definition start_safe :: "'d driver \<times> core_state \<times> bool \<Rightarrow> bool" where
  "start_safe z \<longleftrightarrow>
     (case z of (d, _, _) \<Rightarrow>
        case cls_start (drv_class d) (drv_state d) of
          (Inl e, x) \<Rightarrow> is_exception e
        | (Inr _, x) \<Rightarrow> settings_ok (cls_settings (drv_class d) x) \<and>
            (case fst (cls_status (drv_class d) x) of Inl e \<Rightarrow> is_exception e | Inr _ \<Rightarrow> True))"

text \<open>What the start of a boot makes of a core.\<close>

definition to_start :: "'d driver \<times> core_state \<times> bool \<Rightarrow> bool" where
  "to_start z \<longleftrightarrow> (case z of (d, st, en) \<Rightarrow> en \<and> startable st)"

definition recovered :: "'d driver \<times> core_state \<times> bool \<Rightarrow> 'd driver \<times> core_state \<times> bool" where
  "recovered z =
     (if \<not> to_start z then z
      else
        case z of (d, st, en) \<Rightarrow>
        case cls_start (drv_class d) (drv_state d) of
          (Inl e, x) \<Rightarrow> (d\<lparr>drv_state := x\<rparr>, ERROR, True)
        | (Inr _, x) \<Rightarrow> (d\<lparr>drv_state := snd (cls_status (drv_class d) x)\<rparr>, RUNNING, True))"

definition start_if_enabled :: "('d, 's) wiring \<Rightarrow> string \<Rightarrow> ('d, 's, unit) op" where
  "start_if_enabled W cid =
     bindE (enabled_at cid) (\<lambda>en.
     if \<not> en then ret ()
     else bindE (state_at cid) (\<lambda>st. if \<not> startable st then ret () else ignoring (start_core W cid)))"

lemma start_enabled_each:
  "w_builtin W = [] \<Longrightarrow> start_enabled W m = forE (start_if_enabled W) (list_cores m) m"
  by (simp add: start_enabled_def start_if_enabled_def [abs_def])

text \<open>The record has the state and the switch of the core.\<close>

definition on_record :: "'d driver \<times> core_state \<times> bool \<Rightarrow> core_record option \<Rightarrow> bool" where
  "on_record z r \<longleftrightarrow> (case z of (d, st, en) \<Rightarrow> \<exists>settings. r = Some (row st en settings))"

text \<open>\<open>z\<close> becomes \<open>recovered z\<close>, in memory and on record, and nothing else changes.\<close>

definition recovers ::
  "('s \<Rightarrow> bool) \<Rightarrow> ('s \<Rightarrow> string \<Rightarrow> core_record option) \<Rightarrow> string \<Rightarrow> 'd driver \<times> core_state \<times> bool \<Rightarrow>
   ('d, 's) mgr \<Rightarrow> ('d, 's) mgr \<Rightarrow> bool" where
  "recovers ok view cid z m m' \<longleftrightarrow> ok (store m') \<and> core_at m' = (core_at m)(cid \<mapsto> recovered z) \<and>
    (to_start z \<longrightarrow> on_record (recovered z) (view (store m') cid)) \<and>
    (\<forall>c. c \<noteq> cid \<or> \<not> to_start z \<longrightarrow> view (store m') c = view (store m) c)"

definition starts :: "('d, 's) mgr \<Rightarrow> string \<Rightarrow> bool" where
  "starts m cid \<longleftrightarrow> (case core_at m cid of None \<Rightarrow> False | Some z \<Rightarrow> to_start z)"

lemma core_at_update:
  "dget (drivers m') = (dget (drivers m))(cid \<mapsto> d) \<Longrightarrow> dget (states m') = (dget (states m))(cid \<mapsto> st) \<Longrightarrow>
   enabled m' = enabled m \<Longrightarrow> dget (enabled m) cid = Some en \<Longrightarrow> core_at m' = (core_at m)(cid \<mapsto> (d, st, en))"
  by (auto simp: core_at_def fun_eq_iff cong: option.case_cong)

lemma ignored: "f m = (r, m') \<Longrightarrow> (\<forall>e. r = Inl e \<longrightarrow> is_exception e) \<Longrightarrow> ignoring f m = (Inr (), m')"
  by (cases r) (simp_all add: ignoring_def eff_simps)

context core_state_store
begin

lemma start_core_recovers:
  assumes W: "w_store W = ops" and m: "ok (store m)" "mgr_ok m"
    and z: "core_at m cid = Some (d, st, True)" "start_safe (d, st, True)" "startable st"
  shows "\<exists>r m'. start_core W cid m = (r, m') \<and> (\<forall>e. r = Inl e \<longrightarrow> is_exception e) \<and> recovers ok view cid (d, st, True) m m'"
proof -
  from z(1) have at: "dget (drivers m) cid = Some d" "dget (states m) cid = Some st" "dget (enabled m) cid = Some True"
    by (simp_all add: core_at_Some)
  obtain r x where start: "cls_start (drv_class d) (drv_state d) = (r, x)" by fastforce
  show ?thesis
  proof (cases r)
    case (Inl e)
    with z(2) start have e: "is_exception e" by (simp add: start_safe_def)
    with start_core_fails [OF W m(1) at(1,3,2) z(3) start [unfolded Inl]] start Inl z(3) at(3) show ?thesis
      by (auto simp: recovers_def recovered_def to_start_def on_record_def core_at_update)
  next
    case (Inr u)
    obtain q y where status: "cls_status (drv_class d) x = (q, y)" by fastforce
    from z(2) start Inr status have s: "settings_ok (cls_settings (drv_class d) x)" "\<forall>e. q = Inl e \<longrightarrow> is_exception e"
      by (auto simp: start_safe_def split: sum.splits)
    have "dict_ok (drivers m)" using m(2) by (simp add: mgr_ok_def)
    from start_core_starts [OF W m(1) this at(1,3,2) z(3) _ s(1) status] start Inr status s(2) z(3) at(3) show ?thesis
      by (auto simp: recovers_def recovered_def to_start_def on_record_def core_at_update)
  qed
qed

lemma start_if_enabled_step:
  assumes W: "w_store W = ops" and m: "ok (store m)" "mgr_ok m" and z: "core_at m cid = Some z" "start_safe z"
  shows "\<exists>m'. start_if_enabled W cid m = (Inr (), m') \<and> mgr_ok m' \<and> recovers ok view cid z m m'"
proof -
  have ok': "mgr_ok m'" if "start_if_enabled W cid m = (Inr (), m')" for m'
  proof -
    have "keeps mgr_ok (start_if_enabled W cid)"
      unfolding start_if_enabled_def by (intro keeps_intros mgr_keeps ignoring_keeps start_core_keeps)
    from keepsD [OF this m(2)] that show ?thesis by simp
  qed
  obtain d st en where zd: "z = (d, st, en)" by (cases z)
  with z(1) have at: "dget (states m) cid = Some st" "dget (enabled m) cid = Some en" by (simp_all add: core_at_Some)
  show ?thesis
  proof (cases "to_start z")
    case False
    with at zd have "start_if_enabled W cid m = (Inr (), m)"
      by (auto simp: start_if_enabled_def to_start_def enabled_at_def state_at_def eff_simps)
    with False m z(1) show ?thesis by (auto simp: recovered_def recovers_def)
  next
    case True
    with zd have en: "en" "startable st" by (simp_all add: to_start_def)
    with start_core_recovers [OF W m, of cid d st] z zd obtain r m' where
      run: "start_core W cid m = (r, m')" "\<forall>e. r = Inl e \<longrightarrow> is_exception e" "recovers ok view cid z m m'" by auto
    have "start_if_enabled W cid m = ignoring (start_core W cid) m"
      using at en by (simp add: start_if_enabled_def enabled_at_def state_at_def eff_simps)
    with ignored [of "start_core W cid", OF run(1,2)] run(3) ok' show ?thesis by auto
  qed
qed

lemma start_loop:
  assumes W: "w_store W = ops" and m: "ok (store m)" "mgr_ok m"
    and cids: "distinct cids" "\<forall>cid \<in> set cids. \<exists>z. core_at m cid = Some z \<and> start_safe z"
  shows "\<exists>m'. forE (start_if_enabled W) cids m = (Inr (), m') \<and> ok (store m') \<and>
    (\<forall>cid. core_at m' cid = (if cid \<in> set cids then map_option recovered (core_at m cid) else core_at m cid)) \<and>
    (\<forall>cid. if cid \<in> set cids \<and> starts m cid then on_record (recovered (the (core_at m cid))) (view (store m') cid)
      else view (store m') cid = view (store m) cid)"
  using m cids
proof (induction cids arbitrary: m)
  case (Cons c cids)
  from Cons.prems(4) obtain z where z: "core_at m c = Some z" "start_safe z" by auto
  obtain m1 where step: "start_if_enabled W c m = (Inr (), m1)" "mgr_ok m1" "ok (store m1)"
    "core_at m1 = (core_at m)(c \<mapsto> recovered z)" "to_start z \<longrightarrow> on_record (recovered z) (view (store m1) c)"
    "\<forall>b. b \<noteq> c \<or> \<not> to_start z \<longrightarrow> view (store m1) b = view (store m) b"
    using start_if_enabled_step [OF W Cons.prems(1,2) z] unfolding recovers_def by blast
  have c: "c \<notin> set cids" "distinct cids" using Cons.prems(3) by simp_all
  have "\<forall>cid \<in> set cids. \<exists>z. core_at m1 cid = Some z \<and> start_safe z" using Cons.prems(4) step(4) c by auto
  from Cons.IH [OF step(3,2) c(2) this] obtain m' where m': "forE (start_if_enabled W) cids m1 = (Inr (), m')" "ok (store m')"
    "\<forall>cid. core_at m' cid = (if cid \<in> set cids then map_option recovered (core_at m1 cid) else core_at m1 cid)"
    "\<forall>cid. if cid \<in> set cids \<and> starts m1 cid then on_record (recovered (the (core_at m1 cid))) (view (store m') cid)
      else view (store m') cid = view (store m1) cid" by blast
  have same: "core_at m1 cid = core_at m cid" "starts m1 cid = starts m cid" if "cid \<noteq> c" for cid
    using that step(4) by (simp_all add: starts_def)
  have "if cid \<in> set (c # cids) \<and> starts m cid then on_record (recovered (the (core_at m cid))) (view (store m') cid)
      else view (store m') cid = view (store m) cid" for cid
  proof (cases "cid = c")
    case True
    with m'(4) [rule_format, of c] c z(1) step(5,6) show ?thesis by (simp add: starts_def)
  next
    case False
    with m'(4) [rule_format, of cid] step(6) same [OF False] show ?thesis by (auto split: if_splits)
  qed
  moreover have "forE (start_if_enabled W) (c # cids) m = (Inr (), m')" using step(1) m'(1) by (simp add: eff_simps)
  moreover have "core_at m' cid = (if cid \<in> set (c # cids) then map_option recovered (core_at m cid) else core_at m cid)" for cid
    using m'(3) step(4) z(1) c by auto
  ultimately show ?case using m'(2) by blast
qed (simp add: eff_simps)

lemma start_enabled_recovers:
  assumes W: "w_store W = ops" "w_builtin W = []" and m: "ok (store m)" "mgr_ok m"
    and safe: "\<forall>cid z. core_at m cid = Some z \<longrightarrow> start_safe z"
  shows "\<exists>m'. start_enabled W m = (Inr (), m') \<and> (\<forall>cid. core_at m' cid = map_option recovered (core_at m cid)) \<and>
    (\<forall>cid. if starts m cid then on_record (recovered (the (core_at m cid))) (view (store m') cid)
      else view (store m') cid = view (store m) cid)"
proof -
  note known = list_cores_known [OF m(2)]
  have "distinct (list_cores m)" using m(2) by (simp add: list_cores_def mgr_ok_def dict_ok_def)
  moreover have "\<forall>cid \<in> set (list_cores m). \<exists>z. core_at m cid = Some z \<and> start_safe z" using known safe by blast
  ultimately obtain m' where m': "forE (start_if_enabled W) (list_cores m) m = (Inr (), m')"
    "\<forall>cid. core_at m' cid = (if cid \<in> set (list_cores m) then map_option recovered (core_at m cid) else core_at m cid)"
    "\<forall>cid. if cid \<in> set (list_cores m) \<and> starts m cid then on_record (recovered (the (core_at m cid))) (view (store m') cid)
       else view (store m') cid = view (store m) cid"
    using start_loop [OF W(1) m] by blast
  have "core_at m' cid = map_option recovered (core_at m cid)" for cid
    using m'(2) known [of cid] by (cases "core_at m cid") simp_all
  moreover have "cid \<in> set (list_cores m) \<and> starts m cid \<longleftrightarrow> starts m cid" for cid
    using known [of cid] by (simp add: starts_def split: option.split)
  ultimately show ?thesis using m'(1,3) start_enabled_each [OF W(2)] by auto
qed

end

section \<open>A boot recovers the recorded cores\<close>

text \<open>
  C8: A boot over a store whose records all describe a core (a class that constructs, a state) attaches exactly the
  recorded cores that this image has a driver for, with their switch, and with stopped for the states of a live
  process. It then starts every enabled core that is installed, stopped or in error, whether or not it was running
  before: each ends running, or in error when its start raises, in memory and on record, and no failure keeps
  another core from its start. Every other record stays as it was.
\<close>

theorem boot_recovers_cores:
  fixes W :: "('d, node_store) wiring"
  assumes W: "w_store W = node_ops pure_aead" "w_builtin W = []"
    and s: "node_store_ok pure_aead s"
    and records: "\<forall>cid r. node_view pure_aead s cid = Some r \<and> is_ok (lookup_class W cid) \<longrightarrow> booted W cid r \<noteq> None"
    and safe: "\<forall>cid r z. node_view pure_aead s cid = Some r \<and> booted W cid r = Some z \<longrightarrow> start_safe z"
  shows "\<exists>m m'. boot W (new_manager s) = (Inr (), m) \<and> start_enabled W m = (Inr (), m') \<and>
    (\<forall>cid. core_at m cid = Option.bind (node_view pure_aead s cid) (booted W cid)) \<and>
    (\<forall>cid. core_at m' cid = map_option recovered (core_at m cid)) \<and>
    (\<forall>cid. if starts m cid
       then on_record (recovered (the (core_at m cid))) (node_view pure_aead (store m') cid)
       else node_view pure_aead (store m') cid = node_view pure_aead s cid)"
proof -
  obtain saved s1 where load: "op_load (node_ops pure_aead) s = (Inr saved, s1)" "dget saved = node_view pure_aead s"
    "dict_ok saved" "node_store_ok pure_aead s1" "node_view pure_aead s1 = node_view pure_aead s"
    using node_state.load_law [OF s] by blast
  let ?m0 = "(new_manager s)\<lparr>store := s1\<rparr>"
  have blank: "core_at ?m0 cid = None" for cid by (simp add: core_at_def new_manager_def)
  have known: "(case x of None \<Rightarrow> None | Some z \<Rightarrow> Some z) = x" for x :: "('d driver \<times> core_state \<times> bool) option"
    by (cases x) simp_all
  obtain m where m: "forE (boot_saved W) saved ?m0 = (Inr (), m)" "store m = s1"
    "\<forall>cid. core_at m cid = Option.bind (node_view pure_aead s cid) (booted W cid)"
    using boot_records [of saved W ?m0, OF load(3)] records unfolding load(2) blank known by auto
  have boot: "boot W (new_manager s) = (Inr (), m)"
    using m(1) load(1) W by (simp add: boot_def on_store_def eff_simps new_manager_def)
  from boot_ok [OF this] have ok: "mgr_ok m" .
  have all_safe: "\<forall>cid z. core_at m cid = Some z \<longrightarrow> start_safe z"
  proof (intro allI impI)
    fix cid z assume "core_at m cid = Some z"
    with m(3) obtain r where "node_view pure_aead s cid = Some r" "booted W cid r = Some z"
      by (cases "node_view pure_aead s cid") auto
    with safe show "start_safe z" by blast
  qed
  have "node_store_ok pure_aead (store m)" using load(4) m(2) by simp
  from node_state.start_enabled_recovers [OF W this ok all_safe, unfolded m(2) load(5)] obtain m' where
    "start_enabled W m = (Inr (), m')" "\<forall>cid. core_at m' cid = map_option recovered (core_at m cid)"
    "\<forall>cid. if starts m cid then on_record (recovered (the (core_at m cid))) (node_view pure_aead (store m') cid)
       else node_view pure_aead (store m') cid = node_view pure_aead s cid" by blast
  with boot m(3) show ?thesis by blast
qed

definition pair_wiring :: "(jobj, node_store) wiring" where
  "pair_wiring =
     \<lparr>w_store = node_ops pure_aead,
      w_registry =
        [(''ssh'', \<lparr>dd_module = ''m'', dd_name = ''Ssh'', dd_metadata = Some demo_metadata,
            dd_class = demo_class (Inr ()) (Inl (OtherError ''OSError'' [])) (Inr ())\<rparr>),
         (''wg'', \<lparr>dd_module = ''m'', dd_name = ''Wg'', dd_metadata = Some demo_metadata,
            dd_class = demo_class (Inr ()) (Inr ()) (Inr ())\<rparr>)],
      w_builtin = [], w_provider = None, w_transform = None\<rparr>"

lemma pair_classes:
  "lookup_class pair_wiring cid =
     (if cid = ''ssh'' then Inr (demo_class (Inr ()) (Inl (OtherError ''OSError'' [])) (Inr ()))
      else if cid = ''wg'' then Inr (demo_class (Inr ()) (Inr ()) (Inr ()))
      else Inl (DriverNotFoundError cid))"
  by (simp add: lookup_class_def get_driver_class_def pair_wiring_def)

lemma pair_booted:
  "booted pair_wiring ''ssh'' (row STOPPED True d) =
     Some (\<lparr>drv_class = demo_class (Inr ()) (Inl (OtherError ''OSError'' [])) (Inr ()), drv_state = d\<rparr>, STOPPED, True)"
  "booted pair_wiring ''wg'' (row RUNNING True d) =
     Some (\<lparr>drv_class = demo_class (Inr ()) (Inr ()) (Inr ()), drv_state = d\<rparr>, STOPPED, True)"
proof -
  have "transform pair_wiring cid d = Inr d" for cid by (simp add: transform_def pair_wiring_def)
  moreover have "new_driver (demo_class i b e) d = Inr \<lparr>drv_class = demo_class i b e, drv_state = d\<rparr>" for i b e
    by (simp add: new_driver_def demo_class_def)
  ultimately show
    "booted pair_wiring ''ssh'' (row STOPPED True d) =
       Some (\<lparr>drv_class = demo_class (Inr ()) (Inl (OtherError ''OSError'' [])) (Inr ()), drv_state = d\<rparr>, STOPPED, True)"
    "booted pair_wiring ''wg'' (row RUNNING True d) =
       Some (\<lparr>drv_class = demo_class (Inr ()) (Inr ()) (Inr ()), drv_state = d\<rparr>, STOPPED, True)"
    using core_state_of_value [of STOPPED] core_state_of_value [of RUNNING]
    by (simp_all add: booted_def pair_classes row_def boot_state_def)
qed

theorem boot_recovers_cores_witness:
  "\<exists>s m m'. node_view pure_aead s = [''ssh'' \<mapsto> row STOPPED True [], ''wg'' \<mapsto> row RUNNING True []] \<and>
     boot pair_wiring (new_manager s) = (Inr (), m) \<and> start_enabled pair_wiring m = (Inr (), m') \<and>
     map_option (fst \<circ> snd) (core_at m' ''ssh'') = Some ERROR \<and> map_option (fst \<circ> snd) (core_at m' ''wg'') = Some RUNNING"
proof -
  have none: "node_view pure_aead demo_node_store = (\<lambda>_. None)"
    by (simp add: node_view_def store_read_def demo_node_store_def fun_eq_iff)
  obtain s1 where s1: "node_store_ok pure_aead s1" "node_view pure_aead s1 = [''ssh'' \<mapsto> row STOPPED True []]"
    using node_state.save_law [OF demo_node_store_ok, of "Some []" "''ssh''" STOPPED True] none
    by (auto simp: saved_record_row settings_ok_def)
  obtain s where s: "node_store_ok pure_aead s"
    "node_view pure_aead s = [''ssh'' \<mapsto> row STOPPED True [], ''wg'' \<mapsto> row RUNNING True []]"
    using node_state.save_law [OF s1(1), of "Some []" "''wg''" RUNNING True] s1(2)
    by (auto simp: saved_record_row settings_ok_def)
  have W: "w_store pair_wiring = node_ops pure_aead" "w_builtin pair_wiring = []" by (simp_all add: pair_wiring_def)
  have records: "\<forall>cid r. node_view pure_aead s cid = Some r \<and> is_ok (lookup_class pair_wiring cid) \<longrightarrow>
      booted pair_wiring cid r \<noteq> None"
    using s(2) by (auto simp: pair_booted split: if_splits)
  have safe: "\<forall>cid r z. node_view pure_aead s cid = Some r \<and> booted pair_wiring cid r = Some z \<longrightarrow> start_safe z"
    using s(2) by (auto simp: pair_booted start_safe_def settings_ok_def is_exception_def split: if_splits)
  from boot_recovers_cores [OF W s(1) records safe] obtain m m' where
    run: "boot pair_wiring (new_manager s) = (Inr (), m)" "start_enabled pair_wiring m = (Inr (), m')"
    "core_at m cid = Option.bind (node_view pure_aead s cid) (booted pair_wiring cid)"
    "core_at m' cid = map_option recovered (core_at m cid)" for cid by blast
  have "map_option (fst \<circ> snd) (core_at m' ''ssh'') = Some ERROR" "map_option (fst \<circ> snd) (core_at m' ''wg'') = Some RUNNING"
    by (simp_all add: run(3,4) s(2) pair_booted recovered_def to_start_def startable_def)
  with run(1,2) s(2) show ?thesis by blast
qed

end
