(* ===== verification/Sessions.thy ===== *)
theory Sessions
  imports Core_Types Clock
begin

text \<open>
  \<^verbatim>\<open>cores/sessions.py\<close>: the store of closed sessions with its contract (locale \<open>session_store\<close>), and the
  manager that compares consecutive polls of the live sessions of all cores.
\<close>

record live_session =
  ls_core_id :: string
  ls_account_id :: string
  ls_ip :: "string option"
  ls_connected_at :: "datetime option"
  ls_metadata :: jobj

definition session_key :: "string \<Rightarrow> string \<Rightarrow> string option \<Rightarrow> datetime option \<Rightarrow> string" where
  "session_key core account ip connected =
     core @ ''|'' @ account @ ''|'' @
     (case ip of None \<Rightarrow> ''-'' | Some a \<Rightarrow> if a = [] then ''-'' else a) @ ''|'' @
     (case connected of None \<Rightarrow> [] | Some t \<Rightarrow> isoformat t)"

record active_session =
  as_key :: string
  as_user_id :: "int option"
  as_core_id :: string
  as_account_id :: string
  as_ip :: "string option"
  as_connected_at :: "datetime option"
  as_first_seen :: datetime
  as_last_activity :: datetime
  as_rx_bytes :: int
  as_tx_bytes :: int
  as_platform :: "string option"
  as_app_version :: "string option"
  as_metadata :: jobj

record session_record =
  sr_key :: string
  sr_user_id :: "int option"
  sr_core_id :: string
  sr_account_id :: string
  sr_ip :: "string option"
  sr_started_at :: datetime
  sr_ended_at :: datetime
  sr_duration :: int
  sr_rx_bytes :: int
  sr_tx_bytes :: int

section \<open>The history store\<close>

record 's session_ops =
  so_append :: "session_record \<Rightarrow> 's \<Rightarrow> 's"
  so_history :: "'s \<Rightarrow> int option \<Rightarrow> string option \<Rightarrow> int \<Rightarrow> session_record list"

definition record_matches :: "int option \<Rightarrow> string option \<Rightarrow> session_record \<Rightarrow> bool" where
  "record_matches uid aid r \<longleftrightarrow>
     (uid = None \<or> sr_user_id r = uid) \<and> (case aid of None \<Rightarrow> True | Some a \<Rightarrow> sr_account_id r = a)"

text \<open>\<^verbatim>\<open>rows[-limit:]\<close>, also for a limit that is not positive.\<close>

definition last_rows :: "int \<Rightarrow> 'a list \<Rightarrow> 'a list" where
  "last_rows limit rows =
     (if 0 < limit then drop (length rows - nat limit) rows else drop (nat (- limit)) rows)"

definition history_of :: "session_record list \<Rightarrow> int option \<Rightarrow> string option \<Rightarrow> int \<Rightarrow> session_record list" where
  "history_of rows uid aid limit = rev (last_rows limit (filter (record_matches uid aid) rows))"

definition memory_sessions :: "session_record list session_ops" where
  "memory_sessions = \<lparr>so_append = (\<lambda>r s. s @ [r]), so_history = history_of\<rparr>"

section \<open>The session manager\<close>

record 's session_manager =
  sm_store :: 's
  sm_active :: "(string, active_session) dict"

record session_report =
  rep_opened :: "active_session list"
  rep_ongoing :: "active_session list"
  rep_closed :: "session_record list"

type_synonym 's session_op_state = "'s session_manager"

definition empty_report :: session_report where
  "empty_report = \<lparr>rep_opened = [], rep_ongoing = [], rep_closed = []\<rparr>"

definition counter_value :: "jobj \<Rightarrow> string \<Rightarrow> string \<Rightarrow> conv_error + int" where
  "counter_value meta first second =
     py_int (jor (jor (jget meta first) (jget meta second)) (JInt 0))"

definition live_key :: "live_session \<Rightarrow> string" where
  "live_key s = session_key (ls_core_id s) (ls_account_id s) (ls_ip s) (ls_connected_at s)"

text \<open>A field of type \<^verbatim>\<open>str | None\<close>; the \<^verbatim>\<open>ValidationError\<close> of any other value is a \<^verbatim>\<open>ValueError\<close>.\<close>

definition optional_text :: "json \<Rightarrow> conv_error + string option" where
  "optional_text v = (case v of JNull \<Rightarrow> Inr None | JStr t \<Rightarrow> Inr (Some t) | _ \<Rightarrow> Inl ConvValue)"

definition fresh_session ::
  "live_session \<Rightarrow> int option \<Rightarrow> datetime \<Rightarrow> int \<Rightarrow> int \<Rightarrow> conv_error + active_session" where
  "fresh_session s uid now rx tx =
     bindR (optional_text (jget (ls_metadata s) ''platform'')) (\<lambda>platform.
     bindR (optional_text (jget (ls_metadata s) ''app_version'')) (\<lambda>version.
     Inr \<lparr>as_key = live_key s, as_user_id = uid, as_core_id = ls_core_id s,
      as_account_id = ls_account_id s, as_ip = ls_ip s,
      as_connected_at = Some (case ls_connected_at s of None \<Rightarrow> now | Some t \<Rightarrow> t),
      as_first_seen = now, as_last_activity = now, as_rx_bytes = rx, as_tx_bytes = tx,
      as_platform = platform, as_app_version = version, as_metadata = ls_metadata s\<rparr>))"

text \<open>\<^verbatim>\<open>existing.user_id or user_id\<close>: a user id of 0 counts as none.\<close>

definition or_user :: "int option \<Rightarrow> int option \<Rightarrow> int option" where
  "or_user a b = (case a of None \<Rightarrow> b | Some u \<Rightarrow> if u = 0 then b else Some u)"

definition seen_again :: "active_session \<Rightarrow> int option \<Rightarrow> datetime \<Rightarrow> int \<Rightarrow> int \<Rightarrow> active_session" where
  "seen_again a uid now rx tx =
     a\<lparr>as_last_activity := now, as_user_id := or_user (as_user_id a) uid,
       as_rx_bytes := max (as_rx_bytes a) rx, as_tx_bytes := max (as_tx_bytes a) tx\<rparr>"

text \<open>
  One live session of a poll. The report and the manager hold the same objects, so a session that the poll lists twice is
  renewed where the report has it already, too.
\<close>

definition renew :: "string \<Rightarrow> active_session \<Rightarrow> active_session list \<Rightarrow> active_session list" where
  "renew key a = map (\<lambda>x. if as_key x = key then a else x)"

definition see_session ::
  "(string \<times> string, int) dict \<Rightarrow> datetime \<Rightarrow> live_session \<Rightarrow> session_report \<Rightarrow>
   ('s session_manager, conv_error, session_report) eff" where
  "see_session owners now s rep =
     bindE (liftE (counter_value (ls_metadata s) ''session_rx_bytes'' ''rx_bytes'')) (\<lambda>rx.
     bindE (liftE (counter_value (ls_metadata s) ''session_tx_bytes'' ''tx_bytes'')) (\<lambda>tx.
     bindE (getE (\<lambda>m. dget (sm_active m) (live_key s))) (\<lambda>existing.
     let uid = dget owners (ls_core_id s, ls_account_id s);
         keep = (\<lambda>a. modE (\<lambda>m. m\<lparr>sm_active := dput (live_key s) a (sm_active m)\<rparr>))
     in case existing of
          None \<Rightarrow>
            bindE (liftE (fresh_session s uid now rx tx)) (\<lambda>a.
            seqE (keep a) (ret (rep\<lparr>rep_opened := rep_opened rep @ [a]\<rparr>)))
        | Some old \<Rightarrow>
            let a = seen_again old uid now rx tx
            in seqE (keep a)
                 (ret (rep\<lparr>rep_opened := renew (live_key s) a (rep_opened rep),
                           rep_ongoing := renew (live_key s) a (rep_ongoing rep) @ [a]\<rparr>)))))"

fun see_sessions ::
  "(string \<times> string, int) dict \<Rightarrow> datetime \<Rightarrow> live_session list \<Rightarrow> session_report \<Rightarrow>
   ('s session_manager, conv_error, session_report) eff" where
  "see_sessions owners now [] rep = ret rep"
| "see_sessions owners now (s # ss) rep =
     bindE (see_session owners now s rep) (\<lambda>rep'. see_sessions owners now ss rep')"

definition started_of :: "active_session \<Rightarrow> datetime" where
  "started_of a = utc (case as_connected_at a of None \<Rightarrow> as_first_seen a | Some t \<Rightarrow> t)"

definition closed_record :: "datetime \<Rightarrow> active_session \<Rightarrow> string \<Rightarrow> session_record" where
  "closed_record now a key =
     \<lparr>sr_key = key, sr_user_id = as_user_id a, sr_core_id = as_core_id a,
      sr_account_id = as_account_id a, sr_ip = as_ip a, sr_started_at = started_of a,
      sr_ended_at = now, sr_duration = max 0 (instant now - instant (started_of a)),
      sr_rx_bytes = as_rx_bytes a, sr_tx_bytes = as_tx_bytes a\<rparr>"

definition close_key ::
  "'s session_ops \<Rightarrow> datetime \<Rightarrow> string \<Rightarrow> ('s session_manager, conv_error, session_record list) eff" where
  "close_key S now key m =
     (case dget (sm_active m) key of
        None \<Rightarrow> (Inr [], m)
      | Some a \<Rightarrow>
          let r = closed_record now a key
          in (Inr [r], m\<lparr>sm_active := dpop key (sm_active m),
                         sm_store := so_append S r (sm_store m)\<rparr>))"

definition refresh_sessions ::
  "'s session_ops \<Rightarrow> (string \<times> string, int) dict \<Rightarrow> datetime \<Rightarrow> live_session list \<Rightarrow>
   ('s session_manager, conv_error, session_report) eff" where
  "refresh_sessions S owners now sessions =
     bindE (see_sessions owners now sessions empty_report) (\<lambda>rep.
     bindE (getE (\<lambda>m. filter (\<lambda>k. k \<notin> live_key ` set sessions) (sort (dkeys (sm_active m))))) (\<lambda>dead.
     bindE (mapE (close_key S now) dead) (\<lambda>closed. ret (rep\<lparr>rep_closed := concat closed\<rparr>))))"

definition active_list :: "'s session_manager \<Rightarrow> string option \<Rightarrow> int option \<Rightarrow> active_session list" where
  "active_list m core uid =
     filter (\<lambda>a. (case core of None \<Rightarrow> True | Some c \<Rightarrow> as_core_id a = c) \<and>
                 (uid = None \<or> as_user_id a = uid)) (map snd (sm_active m))"

definition session_history ::
  "'s session_ops \<Rightarrow> 's session_manager \<Rightarrow> int option \<Rightarrow> string option \<Rightarrow> int \<Rightarrow> session_record list" where
  "session_history S m uid aid limit = so_history S (sm_store m) uid aid limit"

section \<open>The contract of a session store, and the manager over it\<close>

definition manager_ok :: "'s session_manager \<Rightarrow> bool" where
  "manager_ok m \<longleftrightarrow> dict_ok (sm_active m) \<and>
     (\<forall>k a. dget (sm_active m) k = Some a \<longrightarrow> as_key a = k)"

lemma renew_keys: "as_key a = key \<Longrightarrow> as_key ` set (renew key a xs) = as_key ` set xs"
  by (induction xs) (auto simp: renew_def)

lemma see_session_active:
  assumes "see_session owners now s rep m = (Inr rep1, m1)" "manager_ok m"
  shows "manager_ok m1 \<and> sm_store m1 = sm_store m \<and>
      set (dkeys (sm_active m1)) = insert (live_key s) (set (dkeys (sm_active m))) \<and>
      rep_closed rep1 = rep_closed rep \<and>
      as_key ` set (rep_opened rep1) = as_key ` set (rep_opened rep) \<union>
        ({live_key s} - set (dkeys (sm_active m)))"
proof (cases "dget (sm_active m) (live_key s)")
  case None
  then have "live_key s \<notin> set (dkeys (sm_active m))" by (simp add: dget_None_iff)
  moreover obtain uid rx tx a where "fresh_session s uid now rx tx = Inr a"
    "m1 = m\<lparr>sm_active := dput (live_key s) a (sm_active m)\<rparr>" "rep1 = rep\<lparr>rep_opened := rep_opened rep @ [a]\<rparr>"
    using assms(1) None by (auto simp: see_session_def eff_simps Let_def elim!: bindE_Inr)
  ultimately show ?thesis
    using assms(2)
    by (auto simp: manager_ok_def fresh_session_def bindR_Inr_conv set_dkeys_dput simp del: set_map)
next
  case (Some old)
  then have "live_key s \<in> set (dkeys (sm_active m))"
    by (metis dget_None_iff option.distinct(1))
  moreover have "as_key old = live_key s" using Some assms(2) by (simp add: manager_ok_def)
  moreover obtain uid rx tx where
    "m1 = m\<lparr>sm_active := dput (live_key s) (seen_again old uid now rx tx) (sm_active m)\<rparr>"
    "rep1 = rep\<lparr>rep_opened := renew (live_key s) (seen_again old uid now rx tx) (rep_opened rep),
       rep_ongoing := renew (live_key s) (seen_again old uid now rx tx) (rep_ongoing rep) @ [seen_again old uid now rx tx]\<rparr>"
    using assms(1) Some by (auto simp: see_session_def eff_simps Let_def elim!: bindE_Inr)
  ultimately show ?thesis
    using assms(2) by (auto simp: manager_ok_def seen_again_def set_dkeys_dput renew_keys simp del: set_map)
qed

lemma see_sessions_active:
  assumes "see_sessions owners now ss rep m = (Inr rep', m')" "manager_ok m"
  shows "manager_ok m' \<and> sm_store m' = sm_store m \<and>
    set (dkeys (sm_active m')) = set (dkeys (sm_active m)) \<union> live_key ` set ss \<and>
    rep_closed rep' = rep_closed rep \<and>
    as_key ` set (rep_opened rep') = as_key ` set (rep_opened rep) \<union>
      (live_key ` set ss - set (dkeys (sm_active m)))"
  using assms
proof (induction ss arbitrary: rep m)
  case (Cons s ss)
  from Cons.prems(1) obtain rep1 m1 where
    step: "see_session owners now s rep m = (Inr rep1, m1)"
    and rest: "see_sessions owners now ss rep1 m1 = (Inr rep', m')"
    by (auto elim: bindE_Inr)
  have one: "manager_ok m1 \<and> sm_store m1 = sm_store m \<and>
      set (dkeys (sm_active m1)) = insert (live_key s) (set (dkeys (sm_active m))) \<and>
      rep_closed rep1 = rep_closed rep \<and>
      as_key ` set (rep_opened rep1) = as_key ` set (rep_opened rep) \<union>
        ({live_key s} - set (dkeys (sm_active m)))"
    by (rule see_session_active [OF step Cons.prems(2)])
  with Cons.IH [OF rest] show ?case by auto
qed (simp add: eff_simps)

locale session_store =
  fixes S :: "'s session_ops"
    and archive :: "'s \<Rightarrow> session_record list"
  assumes append_law: "archive (so_append S r s) = archive s @ [r]"
    and history_law: "so_history S s uid aid limit = history_of (archive s) uid aid limit"
begin

lemma close_keys:
  assumes "distinct keys" "set keys \<subseteq> set (dkeys (sm_active m))" "manager_ok m"
  shows "\<exists>rs m'. mapE (close_key S now) keys m = (Inr rs, m') \<and>
    map sr_key (concat rs) = keys \<and> archive (sm_store m') = archive (sm_store m) @ concat rs \<and>
    set (dkeys (sm_active m')) = set (dkeys (sm_active m)) - set keys \<and> manager_ok m'"
  using assms
proof (induction keys arbitrary: m)
  case (Cons k ks)
  then obtain a where a: "dget (sm_active m) k = Some a"
    by (metis dget_None_iff list.set_intros(1) option.exhaust subset_code(1))
  let ?r = "closed_record now a k"
  let ?m1 = "m\<lparr>sm_active := dpop k (sm_active m), sm_store := so_append S ?r (sm_store m)\<rparr>"
  have step: "close_key S now k m = (Inr [?r], ?m1)" using a by (simp add: close_key_def Let_def)
  have keys1: "set (dkeys (sm_active ?m1)) = set (dkeys (sm_active m)) - {k}"
    by (simp add: set_dkeys_dpop del: set_map)
  have "manager_ok ?m1" using Cons.prems(3) by (auto simp: manager_ok_def split: if_splits)
  moreover have "set ks \<subseteq> set (dkeys (sm_active ?m1))"
    unfolding keys1 using Cons.prems(1,2) by auto
  ultimately obtain rs m' where ih: "mapE (close_key S now) ks ?m1 = (Inr rs, m')"
    "map sr_key (concat rs) = ks" "archive (sm_store m') = archive (sm_store ?m1) @ concat rs"
    "set (dkeys (sm_active m')) = set (dkeys (sm_active ?m1)) - set ks" "manager_ok m'"
    using Cons.IH [of ?m1] Cons.prems(1) by auto
  have "mapE (close_key S now) (k # ks) m = (Inr ([?r] # rs), m')"
    using step ih(1) by (simp add: eff_simps)
  moreover have "sr_key ?r = k" by (simp add: closed_record_def)
  moreover have "set (dkeys (sm_active m')) = set (dkeys (sm_active m)) - set (k # ks)"
    by (simp only: ih(4) keys1) auto
  ultimately show ?case
    using ih(2,3,5) by (simp add: append_law del: set_map mapE.simps)
qed (simp add: eff_simps)

lemma refresh_spec:
  assumes run: "refresh_sessions S owners now ss m = (Inr rep, m')" and ok: "manager_ok m"
  shows "set (dkeys (sm_active m')) = live_key ` set ss \<and>
    archive (sm_store m') = archive (sm_store m) @ rep_closed rep \<and>
    map sr_key (rep_closed rep) =
      filter (\<lambda>k. k \<notin> live_key ` set ss) (sort (dkeys (sm_active m))) \<and>
    as_key ` set (rep_opened rep) = live_key ` set ss - set (dkeys (sm_active m)) \<and>
    manager_ok m'"
proof -
  obtain rep1 m1 where see: "see_sessions owners now ss empty_report m = (Inr rep1, m1)"
    and rest: "bindE (getE (\<lambda>m. filter (\<lambda>k. k \<notin> live_key ` set ss) (sort (dkeys (sm_active m)))))
      (\<lambda>dead. bindE (mapE (close_key S now) dead) (\<lambda>closed. ret (rep1\<lparr>rep_closed := concat closed\<rparr>))) m1 =
      (Inr rep, m')"
    by (rule bindE_Inr [OF run [unfolded refresh_sessions_def]])
  note one = see_sessions_active [OF see ok]
  let ?dead = "filter (\<lambda>k. k \<notin> live_key ` set ss) (sort (dkeys (sm_active m1)))"
  have "distinct ?dead" using one by (simp add: manager_ok_def dict_ok_def)
  moreover have "set ?dead \<subseteq> set (dkeys (sm_active m1))" by auto
  moreover have "manager_ok m1" using one by blast
  ultimately obtain rs m2 where close: "mapE (close_key S now) ?dead m1 = (Inr rs, m2)"
    "map sr_key (concat rs) = ?dead" "archive (sm_store m2) = archive (sm_store m1) @ concat rs"
    "set (dkeys (sm_active m2)) = set (dkeys (sm_active m1)) - set ?dead" "manager_ok m2"
    using close_keys [where keys = ?dead] by meson
  have rep: "rep = rep1\<lparr>rep_closed := concat rs\<rparr>" "m' = m2"
    using rest close(1) by (auto simp: eff_simps)
  have keys1: "set (dkeys (sm_active m1)) = set (dkeys (sm_active m)) \<union> live_key ` set ss"
    using one by blast
  have "set (dkeys (sm_active m')) = live_key ` set ss"
    unfolding rep(2) close(4) keys1 by (auto simp del: set_map simp: keys1)
  moreover have "?dead = filter (\<lambda>k. k \<notin> live_key ` set ss) (sort (dkeys (sm_active m)))"
  proof (rule sorted_distinct_set_unique)
    show "set ?dead = set (filter (\<lambda>k. k \<notin> live_key ` set ss) (sort (dkeys (sm_active m))))"
      by (auto simp del: set_map simp: keys1)
  qed (use one ok in \<open>simp_all add: manager_ok_def dict_ok_def sorted_wrt_filter\<close>)
  ultimately show ?thesis
    using one close rep by (simp add: empty_report_def del: set_map)
qed

end

interpretation memory_store: session_store memory_sessions id
  by unfold_locales (simp_all add: memory_sessions_def)

text \<open>
  After a poll that succeeds, the active sessions are exactly those of the poll; every
  session that was active and is not in the poll is closed, once, and appended to the history
  with its final counters, in key order; and the sessions reported as opened are those of the
  poll that were not active before.
\<close>

theorem poll_closes_exactly_the_gone:
  assumes "refresh_sessions memory_sessions owners now ss m = (Inr rep, m')" "manager_ok m"
  shows "set (dkeys (sm_active m')) = live_key ` set ss \<and>
    sm_store m' = sm_store m @ rep_closed rep \<and>
    map sr_key (rep_closed rep) =
      filter (\<lambda>k. k \<notin> live_key ` set ss) (sort (dkeys (sm_active m))) \<and>
    as_key ` set (rep_opened rep) = live_key ` set ss - set (dkeys (sm_active m)) \<and>
    manager_ok m'"
  using memory_store.refresh_spec [OF assms] by simp

definition noon :: datetime where
  "noon = \<lparr>dt_year = 2024, dt_month = 5, dt_day = 1, dt_hour = 12, dt_minute = 0, dt_second = 0,
     dt_micro = 0, dt_offset = Some 0\<rparr>"

definition demo_live :: live_session where
  "demo_live = \<lparr>ls_core_id = ''wg'', ls_account_id = ''1.a'', ls_ip = Some ''10.0.0.2'',
     ls_connected_at = None, ls_metadata = []\<rparr>"

theorem poll_closes_exactly_the_gone_witness:
  "\<exists>rep m'. refresh_sessions memory_sessions [] noon [demo_live] \<lparr>sm_store = [], sm_active = []\<rparr> =
      (Inr rep, m') \<and> set (dkeys (sm_active m')) = {live_key demo_live}"
proof -
  have "\<exists>rep m'. refresh_sessions memory_sessions [] noon [demo_live] \<lparr>sm_store = [], sm_active = []\<rparr> =
      (Inr rep, m')"
    by (simp add: refresh_sessions_def see_session_def fresh_session_def optional_text_def counter_value_def jor_def jget_def
        demo_live_def eff_simps Let_def)
  then obtain rep m' where run:
    "refresh_sessions memory_sessions [] noon [demo_live] \<lparr>sm_store = [], sm_active = []\<rparr> = (Inr rep, m')"
    by blast
  have "manager_ok \<lparr>sm_store = [], sm_active = []\<rparr>" by (simp add: manager_ok_def)
  from poll_closes_exactly_the_gone [OF run this] have "set (dkeys (sm_active m')) = {live_key demo_live}"
    by (simp del: set_map)
  with run show ?thesis by blast
qed

end
