(* ===== verification/Devices.thy ===== *)
theory Devices
  imports Core_Types Clock Sha256
begin

text \<open>
  \<^verbatim>\<open>cores/devices.py\<close>: the identity of a device, the device registry with its contract (locale
  \<open>device_store\<close>), and the manager that folds the live sessions of all cores into it. One poll reads the clock once
  here; the code reads it once per session.
\<close>

record device_info =
  dv_device_id :: string
  dv_user_id :: int
  dv_name :: string
  dv_platform :: "string option"
  dv_app_version :: "string option"
  dv_last_ip :: "string option"
  dv_first_seen :: datetime
  dv_last_seen :: datetime
  dv_current_core :: "string option"
  dv_cores :: "string list"
  dv_online :: bool

definition identity_text :: "int \<Rightarrow> json \<Rightarrow> json \<Rightarrow> string" where
  "identity_text uid stab ip =
     (if truthy stab then ''stable:'' @ py_str stab
      else if truthy ip then ''ip:'' @ str_of_int uid @ '':'' @ py_str ip
      else ''anon:'' @ str_of_int uid)"

definition device_identity :: "int \<Rightarrow> json \<Rightarrow> json \<Rightarrow> string" where
  "device_identity uid stab ip = take 16 (sha256_hex (utf8_encode (identity_text uid stab ip)))"

section \<open>The registry\<close>

record 's device_ops =
  do_get :: "'s \<Rightarrow> string \<Rightarrow> device_info option"
  do_upsert :: "device_info \<Rightarrow> 's \<Rightarrow> 's"
  do_for_user :: "'s \<Rightarrow> int \<Rightarrow> device_info list"
  do_all :: "'s \<Rightarrow> device_info list"

type_synonym device_memory = "(string, device_info) dict"

definition device_upsert :: "device_info \<Rightarrow> device_memory \<Rightarrow> device_memory" where
  "device_upsert d s = dput (dv_device_id d) d s"

definition device_bulk_upsert :: "device_info list \<Rightarrow> device_memory \<Rightarrow> device_memory" where
  "device_bulk_upsert ds s = dmerge s (map (\<lambda>d. (dv_device_id d, d)) ds)"

definition device_for_user :: "device_memory \<Rightarrow> int \<Rightarrow> device_info list" where
  "device_for_user s uid = filter (\<lambda>d. dv_user_id d = uid) (map snd s)"

definition device_all :: "device_memory \<Rightarrow> device_info list" where
  "device_all s = map snd s"

definition memory_devices :: "device_memory device_ops" where
  "memory_devices = \<lparr>do_get = dget, do_upsert = device_upsert, do_for_user = device_for_user,
     do_all = device_all\<rparr>"

section \<open>The manager\<close>

text \<open>The session's metadata are JSON values; the device's fields are validated as text.\<close>

definition as_text :: "json \<Rightarrow> core_exc + string" where
  "as_text v = (case v of JStr s \<Rightarrow> Inr s | _ \<Rightarrow> Inl (OtherError ''ValidationError'' []))"

definition as_opt_text :: "json \<Rightarrow> core_exc + string option" where
  "as_opt_text v =
     (case v of JStr s \<Rightarrow> Inr (Some s) | JNull \<Rightarrow> Inr None | _ \<Rightarrow> Inl (OtherError ''ValidationError'' []))"

definition opt_text :: "string option \<Rightarrow> json" where
  "opt_text x = (case x of None \<Rightarrow> JNull | Some s \<Rightarrow> JStr s)"

definition session_ip :: "device_session \<Rightarrow> json" where
  "session_ip s = jor (opt_text (ds_ip s)) (jget (ds_metadata s) ''ip'')"

definition session_device :: "int \<Rightarrow> device_session \<Rightarrow> string" where
  "session_device uid s = device_identity uid (jget (ds_metadata s) ''stable_id'') (session_ip s)"

definition device_from ::
  "string \<Rightarrow> int \<Rightarrow> datetime \<Rightarrow> device_session \<Rightarrow> device_info option \<Rightarrow> core_exc + device_info" where
  "device_from core uid now s existing =
     (let meta = ds_metadata s;
          stab = jget meta ''stable_id'';
          ip = session_ip s;
          old = (\<lambda>f. case existing of None \<Rightarrow> JNull | Some d \<Rightarrow> opt_text (f d))
      in bindR (as_text (case existing of
                   Some d \<Rightarrow> jor stab (JStr (dv_name d))
                 | None \<Rightarrow> jor (jor stab ip) (JStr []))) (\<lambda>name.
         bindR (as_opt_text (jor (jget meta ''platform'') (old dv_platform))) (\<lambda>platform.
         bindR (as_opt_text (jor (jget meta ''app_version'') (old dv_app_version))) (\<lambda>version.
         bindR (as_opt_text (jor ip (old dv_last_ip))) (\<lambda>last_ip.
         Inr \<lparr>dv_device_id = session_device uid s, dv_user_id = uid, dv_name = name,
              dv_platform = platform, dv_app_version = version, dv_last_ip = last_ip,
              dv_first_seen = (case existing of None \<Rightarrow> now | Some d \<Rightarrow> dv_first_seen d),
              dv_last_seen = now, dv_current_core = Some core,
              dv_cores = (case existing of None \<Rightarrow> [core] | Some d \<Rightarrow> List.insert core (dv_cores d)),
              dv_online = True\<rparr>)))))"

type_synonym 's device_state = "'s \<times> (string, device_info) dict"

definition see_device ::
  "'s device_ops \<Rightarrow> datetime \<Rightarrow> string \<times> int \<times> device_session \<Rightarrow> ('s device_state, core_exc, unit) eff" where
  "see_device D now item =
     (let (core, uid, s) = item; did = session_device uid s in
      bindE (getE (\<lambda>(st, online). case do_get D st did of None \<Rightarrow> dget online did | Some d \<Rightarrow> Some d))
        (\<lambda>existing.
      bindE (liftE (device_from core uid now s existing)) (\<lambda>d.
      modE (\<lambda>(st, online). (do_upsert D d st, dput did d online)))))"

text \<open>Owner entries in order, each with its sessions.\<close>

definition poll_items ::
  "((string \<times> string) \<times> int \<times> device_session list) list \<Rightarrow> (string \<times> int \<times> device_session) list" where
  "poll_items owned =
     concat (map (\<lambda>((core, _), uid, ss). map (\<lambda>s. (core, uid, s)) ss) owned)"

definition mark_offline :: "'s device_ops \<Rightarrow> string list \<Rightarrow> device_info list \<Rightarrow> 's \<Rightarrow> 's" where
  "mark_offline D online ds st =
     fold (\<lambda>d st. if dv_online d \<and> dv_device_id d \<notin> set online
                  then do_upsert D (d\<lparr>dv_online := False\<rparr>) st else st) ds st"

definition refresh_devices ::
  "'s device_ops \<Rightarrow> datetime \<Rightarrow> ((string \<times> string) \<times> int \<times> device_session list) list \<Rightarrow>
   ('s, core_exc, device_info list) eff" where
  "refresh_devices D now owned st =
     (case forE (see_device D now) (poll_items owned) (st, []) of
        (Inl e, (st1, _)) \<Rightarrow> (Inl e, st1)
      | (Inr _, (st1, online)) \<Rightarrow>
          (Inr (map snd online), mark_offline D (dkeys online) (do_all D st1) st1))"

definition active_devices :: "'s device_ops \<Rightarrow> 's \<Rightarrow> int \<Rightarrow> device_info list" where
  "active_devices D st uid = filter dv_online (do_for_user D st uid)"

definition list_devices :: "'s device_ops \<Rightarrow> 's \<Rightarrow> int option \<Rightarrow> device_info list" where
  "list_devices D st uid = (case uid of None \<Rightarrow> do_all D st | Some u \<Rightarrow> do_for_user D st u)"

record device_violation =
  vi_user_id :: int
  vi_active_devices :: nat
  vi_device_limit :: int
  vi_devices :: "device_info list"

text \<open>\<^verbatim>\<open>sorted(active, key=lambda d: d.last_seen, reverse=True)\<close>: stable, latest first.\<close>

definition latest_first :: "device_info list \<Rightarrow> device_info list" where
  "latest_first ds = rev (sort_key (\<lambda>d. instant (dv_last_seen d)) (rev ds))"

definition enforce_limits ::
  "'s device_ops \<Rightarrow> 's \<Rightarrow> (int, int option) dict \<Rightarrow> device_violation list" where
  "enforce_limits D st limits =
     List.map_filter (\<lambda>(uid, limit). case limit of
         None \<Rightarrow> None
       | Some n \<Rightarrow>
           let active = active_devices D st uid
           in if n < int (length active)
              then Some \<lparr>vi_user_id = uid, vi_active_devices = length active, vi_device_limit = n,
                         vi_devices = latest_first active\<rparr>
              else None) limits"

section \<open>The contract of a device store, and the manager over it\<close>

locale device_store =
  fixes D :: "'s device_ops"
    and ok :: "'s \<Rightarrow> bool"
  assumes upsert_law: "ok s \<Longrightarrow> ok (do_upsert D d s) \<and>
      do_get D (do_upsert D d s) = (do_get D s)(dv_device_id d \<mapsto> d)"
    and all_law: "ok s \<Longrightarrow> distinct (map dv_device_id (do_all D s)) \<and>
      (\<forall>d. d \<in> set (do_all D s) \<longleftrightarrow> do_get D s (dv_device_id d) = Some d)"
    and get_law: "ok s \<Longrightarrow> do_get D s did = Some d \<Longrightarrow> dv_device_id d = did"
    and user_law: "ok s \<Longrightarrow> do_for_user D s uid = filter (\<lambda>d. dv_user_id d = uid) (do_all D s)"
begin

lemma mark_offline_get:
  assumes "ok st" "distinct (map dv_device_id ds)"
    "\<forall>d \<in> set ds. do_get D st (dv_device_id d) = Some d"
  shows "ok (mark_offline D online ds st) \<and>
    do_get D (mark_offline D online ds st) did =
      (case do_get D st did of
         None \<Rightarrow> None
       | Some d \<Rightarrow> if d \<in> set ds \<and> dv_online d \<and> did \<notin> set online
                  then Some (d\<lparr>dv_online := False\<rparr>) else Some d)"
  using assms
proof (induction ds arbitrary: st)
  case Nil
  then show ?case by (simp add: mark_offline_def split: option.split)
next
  case (Cons d ds)
  let ?st1 = "if dv_online d \<and> dv_device_id d \<notin> set online
    then do_upsert D (d\<lparr>dv_online := False\<rparr>) st else st"
  have step: "mark_offline D online (d # ds) st = mark_offline D online ds ?st1"
    by (simp add: mark_offline_def)
  have st1: "ok ?st1" "do_get D ?st1 =
      (if dv_online d \<and> dv_device_id d \<notin> set online
       then (do_get D st)(dv_device_id d \<mapsto> d\<lparr>dv_online := False\<rparr>) else do_get D st)"
    using upsert_law [OF Cons.prems(1), of "d\<lparr>dv_online := False\<rparr>"] Cons.prems(1) by auto
  have other: "dv_device_id e \<noteq> dv_device_id d" if "e \<in> set ds" for e
    using Cons.prems(2) that by (metis distinct.simps(2) image_eqI list.simps(9) set_map)
  have "\<forall>e \<in> set ds. do_get D ?st1 (dv_device_id e) = Some e"
    using Cons.prems(3) other st1(2) by simp
  from Cons.IH [OF st1(1) _ this] Cons.prems(2) have ih: "ok (mark_offline D online ds ?st1)"
    "do_get D (mark_offline D online ds ?st1) did =
      (case do_get D ?st1 did of
         None \<Rightarrow> None
       | Some e \<Rightarrow> if e \<in> set ds \<and> dv_online e \<and> did \<notin> set online
                  then Some (e\<lparr>dv_online := False\<rparr>) else Some e)"
    by simp_all
  have d: "do_get D st (dv_device_id d) = Some d" using Cons.prems(3) by simp
  have gone: "d\<lparr>dv_online := False\<rparr> \<notin> set ds" using other by force
  show ?case
  proof (cases "did = dv_device_id d")
    case True
    show ?thesis
    proof (cases "dv_online d \<and> dv_device_id d \<notin> set online")
      case True
      then have "do_get D ?st1 did = Some (d\<lparr>dv_online := False\<rparr>)"
        using st1(2) \<open>did = dv_device_id d\<close> by simp
      then show ?thesis
        unfolding step using ih gone True d \<open>did = dv_device_id d\<close> by simp
    next
      case False
      then have eq: "?st1 = st" by (simp only: if_False)
      have "do_get D st did = Some d" using d \<open>did = dv_device_id d\<close> by simp
      with ih [unfolded eq] False show ?thesis
        unfolding step eq using \<open>did = dv_device_id d\<close> by auto
    qed
  next
    case False
    then have same: "do_get D ?st1 did = do_get D st did" using st1(2) by simp
    show ?thesis
    proof (cases "do_get D st did")
      case None
      then show ?thesis unfolding step using ih same by simp
    next
      case (Some e)
      with get_law [OF Cons.prems(1) Some] False have "e \<noteq> d" by auto
      then show ?thesis unfolding step using ih same Some by simp
    qed
  qed
qed

text \<open>After the first loop: every device seen is stored as it is reported.\<close>

definition online_ok :: "string set \<Rightarrow> 's device_state \<Rightarrow> bool" where
  "online_ok seen p \<longleftrightarrow> ok (fst p) \<and> dict_ok (snd p) \<and> set (dkeys (snd p)) = seen \<and>
     (\<forall>did d. dget (snd p) did = Some d \<longrightarrow>
        do_get D (fst p) did = Some d \<and> dv_device_id d = did \<and> dv_online d)"

lemma see_device_online:
  assumes "online_ok seen p" "see_device D now (core, uid, s) p = (Inr u, p')"
  shows "online_ok (insert (session_device uid s) seen) p'"
proof -
  obtain st online where p: "p = (st, online)" by fastforce
  from assms(2) obtain existing d where d: "device_from core uid now s existing = Inr d"
    "p' = (do_upsert D d st, dput (session_device uid s) d online)"
    by (auto simp: see_device_def p eff_simps Let_def elim!: bindE_Inr)
  have id: "dv_device_id d = session_device uid s" "dv_online d"
    using d(1) by (auto simp: device_from_def Let_def bindR_Inr_conv)
  from assms(1) p have st: "ok st" by (simp add: online_ok_def)
  show ?thesis
    using assms(1) upsert_law [OF st, of d] id
    by (auto simp: online_ok_def p d(2) set_dkeys_dput simp del: set_map)
qed

lemma see_devices_online:
  assumes "online_ok seen p" "forE (see_device D now) items p = (Inr u, p')"
  shows "online_ok (seen \<union> (\<lambda>(_, uid, s). session_device uid s) ` set items) p'"
  using assms
proof (induction items arbitrary: seen p)
  case (Cons i items)
  obtain core uid s where i: "i = (core, uid, s)" by (cases i) auto
  obtain x p1 where step: "see_device D now i p = (Inr x, p1)"
    and rest: "forE (see_device D now) items p1 = (Inr u, p')"
    by (rule bindE_Inr [OF Cons.prems(2) [unfolded forE.simps]])
  from Cons.IH [OF see_device_online [OF Cons.prems(1) step [unfolded i]] rest] i
  show ?case by simp
qed (simp add: eff_simps)

lemma refresh_online:
  assumes st: "ok st" and run: "refresh_devices D now owned st = (Inr ds, st')"
  shows "ok st' \<and> dv_device_id ` set ds = (\<lambda>(_, uid, s). session_device uid s) ` set (poll_items owned) \<and>
    (\<forall>d. d \<in> set (do_all D st') \<and> dv_online d \<longleftrightarrow> d \<in> set ds)"
proof -
  obtain r st1 online where loop: "forE (see_device D now) (poll_items owned) (st, []) = (r, (st1, online))"
    by (metis prod.exhaust)
  from run loop obtain u where r: "r = Inr u" and out: "ds = map snd online"
    "st' = mark_offline D (dkeys online) (do_all D st1) st1"
    by (auto simp: refresh_devices_def split: sum.splits)
  have "online_ok {} (st, [])" using st by (simp add: online_ok_def)
  from see_devices_online [OF this loop [unfolded r]]
  have on: "ok st1" "dict_ok online"
    "set (dkeys online) = (\<lambda>(_, uid, s). session_device uid s) ` set (poll_items owned)"
    "\<And>did d. dget online did = Some d \<Longrightarrow> do_get D st1 did = Some d \<and> dv_device_id d = did \<and> dv_online d"
    by (simp_all add: online_ok_def)
  note all1 = all_law [OF on(1)]
  have marked: "ok st'" "do_get D st' did =
      (case do_get D st1 did of
         None \<Rightarrow> None
       | Some d \<Rightarrow> if d \<in> set (do_all D st1) \<and> dv_online d \<and> did \<notin> set (dkeys online)
                  then Some (d\<lparr>dv_online := False\<rparr>) else Some d)" for did
    using mark_offline_get [OF on(1), of "do_all D st1" "dkeys online"] all1 out(2) by auto
  have mem: "d \<in> set ds \<longleftrightarrow> (\<exists>did. dget online did = Some d)" for d
    using dget_iff_in_set [OF on(2)] by (force simp: out(1))
  have "d \<in> set (do_all D st') \<and> dv_online d \<longleftrightarrow> d \<in> set ds" for d
  proof
    assume a: "d \<in> set (do_all D st') \<and> dv_online d"
    then have g: "do_get D st' (dv_device_id d) = Some d" using all_law [OF marked(1)] by blast
    with marked(2) [of "dv_device_id d"] obtain e where e: "do_get D st1 (dv_device_id d) = Some e"
      by (auto split: option.splits)
    then have "e \<in> set (do_all D st1)"
      using all1 get_law [OF on(1) e] by auto
    with g e marked(2) [of "dv_device_id d"] have eq: "d =
        (if dv_online e \<and> dv_device_id d \<notin> set (dkeys online) then e\<lparr>dv_online := False\<rparr> else e)"
      by (simp only: option.case option.inject simp_thms split: if_splits)
    have not_marked: "\<not> (dv_online e \<and> dv_device_id d \<notin> set (dkeys online))"
    proof
      assume "dv_online e \<and> dv_device_id d \<notin> set (dkeys online)"
      with eq have "d = e\<lparr>dv_online := False\<rparr>" by (simp only: simp_thms if_True)
      with a show False by (metis device_info.select_convs(11) device_info.surjective device_info.update_convs(11))
    qed
    with eq have "e = d" by (simp only: if_False)
    with not_marked a have "dv_device_id d \<in> set (dkeys online)" by blast
    then obtain d' where d': "dget online (dv_device_id d) = Some d'"
      by (metis dget_None_iff option.exhaust)
    from on(4) [OF d'] e \<open>e = d\<close> have "Some d' = Some d" by (metis (no_types))
    then have "d' = d" by (rule option.inject [THEN iffD1])
    with d' show "d \<in> set ds" using mem by blast
  next
    assume "d \<in> set ds"
    then obtain did where did: "dget online did = Some d" using mem by blast
    note o = on(4) [OF did]
    have "did \<in> set (dkeys online)" using did by (metis dget_None_iff option.distinct(1))
    with o marked(2) [of did] have "do_get D st' did = Some d"
      by (simp only: option.case simp_thms if_False)
    with o show "d \<in> set (do_all D st') \<and> dv_online d" using all_law [OF marked(1)] by blast
  qed
  moreover have "dv_device_id ` set ds = set (dkeys online)"
  proof -
    have "dv_device_id (snd p) = fst p" if "p \<in> set online" for p
      using on(4) [of "fst p" "snd p"] dget_iff_in_set [OF on(2), of "fst p" "snd p"] that by simp
    then have "map dv_device_id (map snd online) = map fst online"
      unfolding map_map by (intro map_cong refl) simp
    then have "set (map dv_device_id (map snd online)) = set (map fst online)" by (rule arg_cong)
    then show ?thesis unfolding out(1) by (simp only: set_map)
  qed
  ultimately show ?thesis using marked(1) on(3) by auto
qed

lemma active_devices_online:
  assumes "ok s"
  shows "distinct (map dv_device_id (active_devices D s uid)) \<and>
    set (active_devices D s uid) = {d. do_get D s (dv_device_id d) = Some d \<and> dv_user_id d = uid \<and> dv_online d}"
  using all_law [OF assms] user_law [OF assms]
  by (auto simp: active_devices_def distinct_map_filter)

end

definition memory_devices_ok :: "device_memory \<Rightarrow> bool" where
  "memory_devices_ok s \<longleftrightarrow> dict_ok s \<and> (\<forall>did d. dget s did = Some d \<longrightarrow> dv_device_id d = did)"

lemma memory_device_entry:
  assumes "memory_devices_ok s" "(did, d) \<in> set s"
  shows "dget s did = Some d \<and> dv_device_id d = did"
  using assms dget_iff_in_set [of s did d] unfolding memory_devices_ok_def by blast

lemma memory_device_set:
  assumes "memory_devices_ok s"
  shows "d \<in> set (map snd s) \<longleftrightarrow> dget s (dv_device_id d) = Some d"
proof
  assume "d \<in> set (map snd s)"
  then obtain did where "(did, d) \<in> set s" by auto
  from memory_device_entry [OF assms this] show "dget s (dv_device_id d) = Some d" by simp
next
  assume "dget s (dv_device_id d) = Some d"
  then have "(dv_device_id d, d) \<in> set s"
    using assms dget_iff_in_set [of s "dv_device_id d" d] unfolding memory_devices_ok_def by blast
  then show "d \<in> set (map snd s)" by force
qed

lemma memory_device_ids:
  assumes "memory_devices_ok s"
  shows "map dv_device_id (map snd s) = map fst s"
  unfolding map_map
proof (rule map_cong [OF refl])
  fix p assume "p \<in> set s"
  then show "(dv_device_id \<circ> snd) p = fst p"
    using memory_device_entry [OF assms, of "fst p" "snd p"] by simp
qed

interpretation memory_device: device_store memory_devices memory_devices_ok
proof
  fix s d did uid assume s: "memory_devices_ok s"
  show "memory_devices_ok (do_upsert memory_devices d s) \<and>
      do_get memory_devices (do_upsert memory_devices d s) =
        (do_get memory_devices s)(dv_device_id d \<mapsto> d)"
    using s by (simp add: memory_devices_def device_upsert_def memory_devices_ok_def)
  show "distinct (map dv_device_id (do_all memory_devices s)) \<and>
      (\<forall>d. d \<in> set (do_all memory_devices s) \<longleftrightarrow> do_get memory_devices s (dv_device_id d) = Some d)"
  proof
    have "distinct (map fst s)" using s by (simp add: memory_devices_ok_def dict_ok_def)
    then show "distinct (map dv_device_id (do_all memory_devices s))"
      unfolding memory_devices_def device_all_def device_ops.simps memory_device_ids [OF s] .
    show "\<forall>d. d \<in> set (do_all memory_devices s) \<longleftrightarrow>
        do_get memory_devices s (dv_device_id d) = Some d"
      unfolding memory_devices_def device_all_def device_ops.simps
      using memory_device_set [OF s] by blast
  qed
  show "do_get memory_devices s did = Some d \<Longrightarrow> dv_device_id d = did"
    using s by (simp add: memory_devices_def memory_devices_ok_def)
  show "do_for_user memory_devices s uid = filter (\<lambda>d. dv_user_id d = uid) (do_all memory_devices s)"
    by (simp add: memory_devices_def device_for_user_def device_all_def)
qed

section \<open>What a poll leaves behind\<close>

lemma latest_first_set: "set (latest_first ds) = set ds"
  by (simp add: latest_first_def)

lemma latest_first_sorted:
  "sorted_wrt (\<lambda>a b. instant (dv_last_seen b) \<le> instant (dv_last_seen a)) (latest_first ds)"
proof -
  have "sorted_wrt (\<lambda>a b. instant (dv_last_seen a) \<le> instant (dv_last_seen b))
      (sort_key (\<lambda>d. instant (dv_last_seen d)) (rev ds))"
    using sorted_sort_key [of "\<lambda>d. instant (dv_last_seen d)" "rev ds"] by (simp add: sorted_wrt_map)
  then show ?thesis by (simp add: latest_first_def sorted_wrt_rev)
qed

lemma active_length:
  assumes "memory_devices_ok st"
  shows "length (active_devices memory_devices st uid) =
    card {d. dget st (dv_device_id d) = Some d \<and> dv_user_id d = uid \<and> dv_online d}"
proof -
  have "distinct (active_devices memory_devices st uid)"
    using memory_device.active_devices_online [OF assms, of uid] by (simp add: distinct_map)
  from distinct_card [OF this] memory_device.active_devices_online [OF assms, of uid]
  show ?thesis by (simp add: memory_devices_def)
qed

lemma enforce_limits_iff:
  "v \<in> set (enforce_limits D st limits) \<longleftrightarrow>
     (\<exists>n. (vi_user_id v, Some n) \<in> set limits \<and> n < int (length (active_devices D st (vi_user_id v))) \<and>
          v = \<lparr>vi_user_id = vi_user_id v, vi_active_devices = length (active_devices D st (vi_user_id v)),
               vi_device_limit = n, vi_devices = latest_first (active_devices D st (vi_user_id v))\<rparr>)"
  by (force simp: enforce_limits_def map_filter_def Let_def split: option.splits if_splits)

lemma online_rows:
  assumes ok: "memory_devices_ok st"
    and ds: "\<forall>d. d \<in> set (device_all st) \<and> dv_online d \<longleftrightarrow> d \<in> set ds"
  shows "set (active_devices memory_devices st uid) = {d \<in> set ds. dv_user_id d = uid}"
    "length (active_devices memory_devices st uid) = card {d \<in> set ds. dv_user_id d = uid}"
proof -
  show set: "set (active_devices memory_devices st uid) = {d \<in> set ds. dv_user_id d = uid}"
    using ds by (auto simp: active_devices_def memory_devices_def device_for_user_def device_all_def)
  have "distinct (active_devices memory_devices st uid)"
    using memory_device.active_devices_online [OF ok, of uid] by (simp add: distinct_map)
  from distinct_card [OF this] set
  show "length (active_devices memory_devices st uid) = card {d \<in> set ds. dv_user_id d = uid}" by simp
qed

lemma online_violation:
  assumes "memory_devices_ok st'" "\<forall>d. d \<in> set (device_all st') \<and> dv_online d \<longleftrightarrow> d \<in> set ds"
    and "v \<in> set (enforce_limits memory_devices st' limits)"
  shows "(vi_user_id v, Some (vi_device_limit v)) \<in> set limits \<and>
    vi_active_devices v = card {d \<in> set ds. dv_user_id d = vi_user_id v} \<and>
    vi_device_limit v < int (vi_active_devices v) \<and>
    set (vi_devices v) = {d \<in> set ds. dv_user_id d = vi_user_id v} \<and>
    sorted_wrt (\<lambda>a b. instant (dv_last_seen b) \<le> instant (dv_last_seen a)) (vi_devices v)"
proof -
  note rows = online_rows [OF assms(1,2)]
  from assms(3) [unfolded enforce_limits_iff] obtain n where
    n: "(vi_user_id v, Some n) \<in> set limits" "n < int (length (active_devices memory_devices st' (vi_user_id v)))"
    and v: "v = \<lparr>vi_user_id = vi_user_id v,
      vi_active_devices = length (active_devices memory_devices st' (vi_user_id v)),
      vi_device_limit = n, vi_devices = latest_first (active_devices memory_devices st' (vi_user_id v))\<rparr>"
    by blast
  let ?uid = "vi_user_id v"
  have f: "vi_active_devices v = card {d \<in> set ds. dv_user_id d = ?uid}" "vi_device_limit v = n"
    "vi_devices v = latest_first (active_devices memory_devices st' ?uid)"
    using arg_cong [OF v, of vi_active_devices] arg_cong [OF v, of vi_device_limit]
      arg_cong [OF v, of vi_devices] by (simp_all add: rows(2))
  have "set (latest_first (active_devices memory_devices st' ?uid)) = {d \<in> set ds. dv_user_id d = ?uid}"
    using rows(1) by (simp only: latest_first_set)
  with n f latest_first_sorted show ?thesis by (simp add: rows(2))
qed

lemma online_excess:
  assumes "memory_devices_ok st'" "\<forall>d. d \<in> set (device_all st') \<and> dv_online d \<longleftrightarrow> d \<in> set ds"
    and "(uid, Some n) \<in> set limits" "n < int (card {d \<in> set ds. dv_user_id d = uid})"
  shows "uid \<in> vi_user_id ` set (enforce_limits memory_devices st' limits)"
proof -
  let ?v = "\<lparr>vi_user_id = uid, vi_active_devices = length (active_devices memory_devices st' uid),
      vi_device_limit = n, vi_devices = latest_first (active_devices memory_devices st' uid)\<rparr>"
  have "?v \<in> set (enforce_limits memory_devices st' limits)"
    unfolding enforce_limits_iff using assms(3,4) by (simp add: online_rows(2) [OF assms(1,2)])
  then show ?thesis by (rule rev_image_eqI) simp
qed

text \<open>
  One poll of the live sessions leaves the device registry exact: the devices it reports carry precisely the
  identities of the polled sessions, a device of the registry is online exactly when the poll reported it (everything
  else was marked offline), and the limit check that follows reports a user exactly when the number of distinct devices
  the poll credited to that user exceeds the user's limit, with those devices listed latest first.
\<close>

theorem device_poll_exact:
  assumes st: "memory_devices_ok st"
    and run: "refresh_devices memory_devices now owned st = (Inr ds, st')"
  shows "memory_devices_ok st' \<and>
    dv_device_id ` set ds = (\<lambda>(_, uid, s). session_device uid s) ` set (poll_items owned) \<and>
    (\<forall>d. d \<in> set (device_all st') \<and> dv_online d \<longleftrightarrow> d \<in> set ds) \<and>
    (\<forall>v. v \<in> set (enforce_limits memory_devices st' limits) \<longrightarrow>
       (vi_user_id v, Some (vi_device_limit v)) \<in> set limits \<and>
       vi_active_devices v = card {d \<in> set ds. dv_user_id d = vi_user_id v} \<and>
       vi_device_limit v < int (vi_active_devices v) \<and>
       set (vi_devices v) = {d \<in> set ds. dv_user_id d = vi_user_id v} \<and>
       sorted_wrt (\<lambda>a b. instant (dv_last_seen b) \<le> instant (dv_last_seen a)) (vi_devices v)) \<and>
    (\<forall>uid n. (uid, Some n) \<in> set limits \<and> n < int (card {d \<in> set ds. dv_user_id d = uid}) \<longrightarrow>
       uid \<in> vi_user_id ` set (enforce_limits memory_devices st' limits))"
proof -
  have do_all: "do_all memory_devices = device_all" by (simp add: memory_devices_def)
  note r = memory_device.refresh_online [OF st run, unfolded do_all]
  then have ok: "memory_devices_ok st'" and on: "\<forall>d. d \<in> set (device_all st') \<and> dv_online d \<longleftrightarrow> d \<in> set ds"
    by blast+
  from r online_violation [OF ok on] online_excess [OF ok on] show ?thesis by (intro conjI allI impI; iprover)
qed

definition demo_now :: datetime where
  "demo_now = \<lparr>dt_year = 2026, dt_month = 1, dt_day = 2, dt_hour = 3, dt_minute = 4, dt_second = 5,
     dt_micro = 0, dt_offset = Some 0\<rparr>"

definition demo_session :: "string \<Rightarrow> string \<Rightarrow> device_session" where
  "demo_session core ip = \<lparr>ds_core_id = core, ds_account_id = ''a'', ds_ip = Some ip, ds_connected_at = None,
     ds_last_activity = None, ds_metadata = []\<rparr>"

definition demo_owned :: "((string \<times> string) \<times> int \<times> device_session list) list" where
  "demo_owned = [((''xray'', ''a''), 7, [demo_session ''xray'' ''1.1.1.1'']),
     ((''wg'', ''a''), 7, [demo_session ''wg'' ''1.1.1.1'', demo_session ''wg'' ''2.2.2.2''])]"

lemma demo_session_device: "\<exists>d. device_from core uid now (demo_session c ip) existing = Inr d"
  by (cases existing) (simp_all add: demo_session_def device_from_def Let_def session_ip_def opt_text_def
    as_text_def as_opt_text_def jor_def jget_def split: option.split)

lemma demo_poll_runs:
  "\<exists>p'. forE (see_device D now) (map (\<lambda>(core, uid, c, ip). (core, uid, demo_session c ip)) xs) p = (Inr (), p')"
proof (induction xs arbitrary: p)
  case (Cons x xs)
  obtain core uid c ip where x: "x = (core, uid, c, ip)" by (cases x)
  obtain st online where p: "p = (st, online)" by (cases p)
  have "\<exists>p1. see_device D now (core, uid, demo_session c ip) p = (Inr (), p1)"
  proof -
    let ?existing = "case do_get D st (session_device uid (demo_session c ip)) of
      None \<Rightarrow> dget online (session_device uid (demo_session c ip)) | Some d \<Rightarrow> Some d"
    obtain d where "device_from core uid now (demo_session c ip) ?existing = Inr d"
      using demo_session_device by blast
    then show ?thesis by (simp add: see_device_def p Let_def modE_def)
  qed
  then obtain p1 where "see_device D now (core, uid, demo_session c ip) p = (Inr (), p1)" ..
  with Cons.IH [of p1] show ?case by (simp add: x bindE_def)
qed (simp add: eff_simps)

lemma device_poll_exact_witness:
  "let (r, st') = refresh_devices memory_devices demo_now demo_owned [] in
     \<exists>ds. r = Inr ds \<and> (\<forall>d. d \<in> set (device_all st') \<and> dv_online d \<longleftrightarrow> d \<in> set ds)"
proof -
  obtain r st' where run: "refresh_devices memory_devices demo_now demo_owned [] = (r, st')" by fastforce
  have "poll_items demo_owned = map (\<lambda>(core, uid, c, ip). (core, uid, demo_session c ip))
      [(''xray'', 7, ''xray'', ''1.1.1.1''), (''wg'', 7, ''wg'', ''1.1.1.1''), (''wg'', 7, ''wg'', ''2.2.2.2'')]"
    by (simp add: poll_items_def demo_owned_def)
  then obtain p where "forE (see_device memory_devices demo_now) (poll_items demo_owned) ([], []) = (Inr (), p)"
    using demo_poll_runs by metis
  with run obtain ds where ds: "r = Inr ds" by (cases p) (auto simp: refresh_devices_def)
  have "memory_devices_ok []" by (simp add: memory_devices_ok_def)
  from device_poll_exact [OF this run [unfolded ds]] ds show ?thesis by (simp add: run)
qed

end
