(* ===== verification/Compat.thy ===== *)
theory Compat
  imports Json
begin

unbundle bit_operations_syntax

text \<open>
  \<^verbatim>\<open>node_agent/compat.py\<close>: the stand-ins for the panel's modules, and the marks of a user's traffic that one of
  them computes; beside it the marks of the panel's own module (\<^verbatim>\<open>platform/bandwidth.py\<close>), which the comment of
  the stand-in says are the same.
\<close>

section \<open>Marks\<close>

definition mark_for_user :: "int \<Rightarrow> string + int" where
  "mark_for_user user_id =
     (if user_id \<le> 0 \<or> 65535 < user_id
      then Inl (''user id '' @ str_of_int user_id @ '' is outside the 16-bit limiter range'')
      else Inr (0x7A000000 OR push_bit 8 user_id))"

definition marks_for_user :: "int \<Rightarrow> string + (string, int) dict" where
  "marks_for_user user_id =
     bindR (mark_for_user user_id) (\<lambda>base. Inr
       [(''base'', base), (''outer'', base OR 0), (''up'', base OR 1), (''down'', base OR 2)])"

definition panel_mark_for_user :: "int \<Rightarrow> string + int" where
  "panel_mark_for_user user_id =
     (if user_id \<le> 0 \<or> 65535 < user_id
      then Inl (''user id '' @ str_of_int user_id @ '' is outside the 16-bit limiter identity range'')
      else Inr (0x5A000000 OR push_bit 8 user_id))"

definition panel_marks_for_user :: "int \<Rightarrow> string + (string, int) dict" where
  "panel_marks_for_user user_id =
     bindR (panel_mark_for_user user_id) (\<lambda>base. Inr
       [(''base'', base), (''outer'', base OR 0x40), (''up'', base OR 1), (''down'', base OR 2)])"

definition quarantine_inner :: int where
  "quarantine_inner = 0x5AFE0000"

lemma or_disjoint_add:
  fixes a b :: int
  assumes "0 \<le> b" "b < 2 ^ n" "a = push_bit n c"
  shows "a OR b = a + b"
proof -
  have "a AND b = 0"
  proof (rule bit_eqI)
    fix i
    have "\<not> bit b i" if "n \<le> i"
    proof -
      from assms(2) have "b < 2 ^ i" using that by (meson order_less_le_trans power_increasing one_le_numeral)
      with assms(1) show ?thesis by (simp add: bit_iff_odd div_pos_pos_trivial)
    qed
    then show "bit (a AND b) i = bit 0 i"
      by (auto simp: bit_and_iff assms(3) bit_push_bit_iff)
  qed
  then show ?thesis by (simp add: disjunctive_add_eq_or)
qed

lemma mark_value:
  fixes u :: int
  assumes "0 < u" "u \<le> 65535"
  shows "0x7A000000 OR push_bit 8 u = 0x7A000000 + u * 256"
    and "0x5A000000 OR push_bit 8 u = 0x5A000000 + u * 256"
proof -
  have b: "0 \<le> push_bit 8 u" "push_bit 8 u < 2 ^ 24" using assms by (simp_all add: push_bit_eq_mult)
  show "0x7A000000 OR push_bit 8 u = 0x7A000000 + u * 256"
    using or_disjoint_add [OF b, of "0x7A000000" "0x7A"] by (simp add: push_bit_eq_mult)
  show "0x5A000000 OR push_bit 8 u = 0x5A000000 + u * 256"
    using or_disjoint_add [OF b, of "0x5A000000" "0x5A"] by (simp add: push_bit_eq_mult)
qed

lemma mark_kind:
  fixes u k :: int
  assumes "0 \<le> k" "k < 256"
  shows "(0x7A000000 + u * 256) OR k = 0x7A000000 + u * 256 + k"
    and "(0x5A000000 + u * 256) OR k = 0x5A000000 + u * 256 + k"
proof -
  have b: "k < 2 ^ 8" using assms by simp
  show "(0x7A000000 + u * 256) OR k = 0x7A000000 + u * 256 + k"
    by (rule or_disjoint_add [OF assms(1) b, of _ "0x7A0000 + u"]) (simp add: push_bit_eq_mult)
  show "(0x5A000000 + u * 256) OR k = 0x5A000000 + u * 256 + k"
    by (rule or_disjoint_add [OF assms(1) b, of _ "0x5A0000 + u"]) (simp add: push_bit_eq_mult)
qed

lemma mark_digits:
  fixes a b u v :: int
  assumes "0 \<le> a" "a \<le> 2" "0 \<le> b" "b \<le> 2"
  shows "u * 256 + a = v * 256 + b \<longleftrightarrow> u = v \<and> a = b"
proof
  assume e: "u * 256 + a = v * 256 + b"
  then have "(u * 256 + a) div 256 = (v * 256 + b) div 256" "(u * 256 + a) mod 256 = (v * 256 + b) mod 256"
    by simp_all
  with assms show "u = v \<and> a = b" by simp
qed simp

lemma marks_value:
  "marks_for_user u = Inr m \<longleftrightarrow> 0 < u \<and> u \<le> 65535 \<and>
     m = [(''base'', 0x7A000000 + u * 256), (''outer'', 0x7A000000 + u * 256),
          (''up'', 0x7A000000 + u * 256 + 1), (''down'', 0x7A000000 + u * 256 + 2)]"
  "panel_marks_for_user u = Inr m \<longleftrightarrow> 0 < u \<and> u \<le> 65535 \<and>
     m = [(''base'', 0x5A000000 + u * 256), (''outer'', 0x5A000000 + u * 256 + 0x40),
          (''up'', 0x5A000000 + u * 256 + 1), (''down'', 0x5A000000 + u * 256 + 2)]"
  using mark_value [where u = u] mark_kind [where k = 1 and u = u] mark_kind [where k = 2 and u = u]
    mark_kind [where k = 64 and u = u]
  by (auto simp: marks_for_user_def mark_for_user_def panel_marks_for_user_def panel_mark_for_user_def)

lemma marks_entry:
  assumes "marks_for_user u = Inr ms" "(k, x) \<in> set ms"
  obtains a where "x = 0x7A000000 + u * 256 + a" "0 < u" "u \<le> 65535"
    "(k, a) \<in> {(''base'', 0), (''outer'', 0), (''up'', 1), (''down'', 2)}"
proof -
  from assms(1) have u: "0 < u" "u \<le> 65535" by (simp_all add: marks_value)
  from assms have "(k, x) = (''base'', 0x7A000000 + u * 256) \<or> (k, x) = (''outer'', 0x7A000000 + u * 256) \<or>
      (k, x) = (''up'', 0x7A000000 + u * 256 + 1) \<or> (k, x) = (''down'', 0x7A000000 + u * 256 + 2)"
    by (simp add: marks_value)
  then show thesis
  proof (elim disjE)
    assume "(k, x) = (''base'', 0x7A000000 + u * 256)"
    with u show thesis by (intro that [of 0]) simp_all
  next
    assume "(k, x) = (''outer'', 0x7A000000 + u * 256)"
    with u show thesis by (intro that [of 0]) simp_all
  next
    assume "(k, x) = (''up'', 0x7A000000 + u * 256 + 1)"
    with u show thesis by (intro that [of 1]) simp_all
  next
    assume "(k, x) = (''down'', 0x7A000000 + u * 256 + 2)"
    with u show thesis by (intro that [of 2]) simp_all
  qed
qed

section \<open>The stand-ins\<close>

text \<open>
  What a stand-in module offers: the two mark functions, an exception class, a submodule, or a facility that raises
  \<^verbatim>\<open>PanelOnlyFeatureError\<close> when it is called.
\<close>

datatype attr =
    MarkForUser | MarksForUser | ValueErrorClass | PanelOnly string | SubModule pymodule
and pymodule = PyModule string string "(string \<times> attr) list"

datatype loaded = StandIn pymodule | Genuine

record interpreter =
  sys_modules :: "(string, loaded) dict"
  compat_flag :: bool

definition panel_only_text :: "string \<Rightarrow> string" where
  "panel_only_text name =
     CHR 0x27 # name @ [CHR 0x27] @ '' is panel-only and is not available on a Zagros node''"

text \<open>Calling an attribute with a user id: the text of the exception, or the value.\<close>

definition call_attr :: "attr \<Rightarrow> int \<Rightarrow> string + (string, int) dict" where
  "call_attr a user_id =
     (case a of
        MarkForUser \<Rightarrow> bindR (mark_for_user user_id) (\<lambda>m. Inr [(''base'', m)])
      | MarksForUser \<Rightarrow> marks_for_user user_id
      | PanelOnly name \<Rightarrow> Inl (panel_only_text name)
      | _ \<Rightarrow> Inr [])"

definition stand_in :: "string \<Rightarrow> (string \<times> attr) list \<Rightarrow> pymodule" where
  "stand_in name attrs =
     PyModule name (''Node-agent stand-in for the panel module '' @ CHR 0x27 # name @ CHR 0x27 #
       '' (see node_agent.compat).'') attrs"

definition db_crud :: pymodule where
  "db_crud = stand_in ''app.db.crud'' [(''get_user'', PanelOnly ''app.db.crud.get_user'')]"

definition stand_ins :: "(string, pymodule) dict" where
  "stand_ins =
     [(''app.platform'', stand_in ''app.platform'' []),
      (''app.platform.bandwidth'', stand_in ''app.platform.bandwidth''
         [(''mark_for_user'', MarkForUser), (''marks_for_user'', MarksForUser),
          (''BandwidthError'', ValueErrorClass)]),
      (''app.db'', stand_in ''app.db''
         [(''GetDB'', PanelOnly ''app.db.GetDB''), (''Session'', PanelOnly ''app.db.Session''),
          (''crud'', SubModule db_crud)]),
      (''app.db.crud'', db_crud),
      (''app.models'', stand_in ''app.models'' []),
      (''app.models.proxy'', stand_in ''app.models.proxy''
         [(''ProxyTypes'', PanelOnly ''app.models.proxy.ProxyTypes''),
          (''ProxyHost'', PanelOnly ''app.models.proxy.ProxyHost'')]),
      (''app.subscription'', stand_in ''app.subscription'' []),
      (''app.subscription.share'', stand_in ''app.subscription.share''
         [(''setup_format_variables'', PanelOnly ''app.subscription.share.setup_format_variables'')]),
      (''app.xray'', stand_in ''app.xray'' []),
      (''app.xray.config'', stand_in ''app.xray.config''
         [(''XRayConfig'', PanelOnly ''app.xray.config.XRayConfig'')])]"

text \<open>
  \<^verbatim>\<open>importlib.util.find_spec\<close>, which looks at the loaded modules too: an exception, or whether there is a spec.
  The parent packages that it imports while it looks are the panel's own; that they are loaded then is not modelled.
\<close>

datatype find_error = ImportErr | AttributeErr | ValueErr

type_synonym finder = "(string, loaded) dict \<Rightarrow> string \<Rightarrow> find_error + bool"

definition shipped_by_panel :: "finder \<Rightarrow> (string, loaded) dict \<Rightarrow> string \<Rightarrow> bool" where
  "shipped_by_panel find_spec mods name = (case find_spec mods name of Inl _ \<Rightarrow> False | Inr b \<Rightarrow> b)"

definition set_default :: "string \<Rightarrow> loaded \<Rightarrow> (string, loaded) dict \<Rightarrow> (string, loaded) dict" where
  "set_default k v d = (case dget d k of None \<Rightarrow> dput k v d | Some _ \<Rightarrow> d)"

definition put_stand_in :: "finder \<Rightarrow> string \<times> pymodule \<Rightarrow> (string, loaded) dict \<Rightarrow> (string, loaded) dict" where
  "put_stand_in find_spec nm mods =
     (if shipped_by_panel find_spec mods (fst nm) then mods else set_default (fst nm) (StandIn (snd nm)) mods)"

definition install_stand_ins :: "finder \<Rightarrow> interpreter \<Rightarrow> interpreter" where
  "install_stand_ins find_spec I =
     (if compat_flag I then I
      else I\<lparr>sys_modules := fold (put_stand_in find_spec) stand_ins (sys_modules I), compat_flag := True\<rparr>)"

lemma put_stand_in_get:
  "dget (put_stand_in find_spec nm mods) k =
     (if k = fst nm \<and> dget mods k = None \<and> \<not> shipped_by_panel find_spec mods k
      then Some (StandIn (snd nm)) else dget mods k)"
  by (auto simp: put_stand_in_def set_default_def split: option.split)

lemma put_stand_ins_get:
  "dget (fold (put_stand_in find_spec) nms mods) k = dget mods k \<or>
   (dget mods k = None \<and> (\<exists>ms. \<not> shipped_by_panel find_spec ms k) \<and>
    (\<exists>m. (k, m) \<in> set nms \<and> dget (fold (put_stand_in find_spec) nms mods) k = Some (StandIn m)))"
proof (induction nms arbitrary: mods)
  case (Cons nm nms)
  obtain n m where nm: "nm = (n, m)" by (cases nm)
  show ?case
    using Cons.IH [of "put_stand_in find_spec nm mods"]
    by (auto simp: nm put_stand_in_get split: if_splits)
qed simp

definition closed_attr :: "attr \<Rightarrow> bool" where
  "closed_attr x \<longleftrightarrow> (case x of PanelOnly _ \<Rightarrow> True | SubModule _ \<Rightarrow> True | _ \<Rightarrow> False)"

lemma closed_attr_cases: "closed_attr x \<Longrightarrow> (\<exists>t. x = PanelOnly t) \<or> (\<exists>m. x = SubModule m)"
  by (cases x) (simp_all add: closed_attr_def)

fun closed_module :: "string \<times> pymodule \<Rightarrow> bool" where
  "closed_module (name, PyModule m d attrs) \<longleftrightarrow>
     name = ''app.platform.bandwidth'' \<or> list_all (\<lambda>kx. closed_attr (snd kx)) attrs"

lemma stand_ins_closed: "list_all closed_module stand_ins"
  by code_simp

lemma closed_stand_in:
  assumes "(name, PyModule m d attrs) \<in> set stand_ins \<and> name \<noteq> ''app.platform.bandwidth''" "(k, x) \<in> set attrs"
  shows "closed_attr x"
  using stand_ins_closed assms by (fastforce simp: list_all_iff)

text \<open>
  C38: Installing the stand-ins is idempotent and never shadows a real module: a module that is already loaded, or that
  the vendored tree ships, stays what it was; every other change adds one of the listed stand-ins, and everything they
  offer except the bandwidth marks is closed: calling it raises the panel-only error.
\<close>

theorem stand_ins_never_shadow:
  "install_stand_ins f (install_stand_ins f I) = install_stand_ins f I \<and>
   (\<forall>name. dget (sys_modules I) name \<noteq> None \<or> (\<forall>mods. f mods name = Inr True) \<longrightarrow>
      dget (sys_modules (install_stand_ins f I)) name = dget (sys_modules I) name) \<and>
   (\<forall>name. dget (sys_modules (install_stand_ins f I)) name \<noteq> dget (sys_modules I) name \<longrightarrow>
      (\<exists>m. (name, m) \<in> set stand_ins \<and> dget (sys_modules (install_stand_ins f I)) name = Some (StandIn m))) \<and>
   (\<forall>name m attrs a u. (name, PyModule m a attrs) \<in> set stand_ins \<and> name \<noteq> ''app.platform.bandwidth'' \<longrightarrow>
      (\<forall>(k, x) \<in> set attrs. (\<exists>t. x = PanelOnly t \<and> call_attr x u = Inl (panel_only_text t)) \<or> (\<exists>m. x = SubModule m)))"
proof (intro conjI allI impI)
  show "install_stand_ins f (install_stand_ins f I) = install_stand_ins f I"
    by (simp add: install_stand_ins_def)
next
  fix name assume a: "dget (sys_modules I) name \<noteq> None \<or> (\<forall>mods. f mods name = Inr True)"
  show "dget (sys_modules (install_stand_ins f I)) name = dget (sys_modules I) name"
    using put_stand_ins_get [of f stand_ins "sys_modules I" name] a
    by (auto simp: install_stand_ins_def shipped_by_panel_def)
next
  fix name assume "dget (sys_modules (install_stand_ins f I)) name \<noteq> dget (sys_modules I) name"
  then show "\<exists>m. (name, m) \<in> set stand_ins \<and>
      dget (sys_modules (install_stand_ins f I)) name = Some (StandIn m)"
    using put_stand_ins_get [of f stand_ins "sys_modules I" name]
    by (auto simp: install_stand_ins_def split: if_splits)
next
  fix name m a attrs and u :: int
  assume l: "(name, PyModule m a attrs) \<in> set stand_ins \<and> name \<noteq> ''app.platform.bandwidth''"
  have "(\<exists>t. x = PanelOnly t \<and> call_attr x u = Inl (panel_only_text t)) \<or> (\<exists>m. x = SubModule m)"
    if "(k, x) \<in> set attrs" for k x
    using closed_attr_cases [OF closed_stand_in [OF l that]] by (auto simp: call_attr_def)
  then show "\<forall>(k, x) \<in> set attrs. (\<exists>t. x = PanelOnly t \<and> call_attr x u = Inl (panel_only_text t)) \<or>
      (\<exists>m. x = SubModule m)" by blast
qed

text \<open>The vendored tree ships the platform modules and nothing else.\<close>

definition demo_find :: finder where
  "demo_find mods name = (if name \<in> {''app.platform'', ''app.platform.bandwidth''} then Inr True else Inl ImportErr)"

definition demo_interpreter :: interpreter where
  "demo_interpreter = \<lparr>sys_modules = [(''app.db'', Genuine)], compat_flag = False\<rparr>"

theorem stand_ins_never_shadow_witness:
  "dget (sys_modules (install_stand_ins demo_find demo_interpreter)) ''app.platform.bandwidth'' = None \<and>
   dget (sys_modules (install_stand_ins demo_find demo_interpreter)) ''app.db'' = Some Genuine"
proof -
  have b: "\<forall>mods. demo_find mods ''app.platform.bandwidth'' = Inr True" by (simp add: demo_find_def)
  have d: "dget (sys_modules demo_interpreter) ''app.db'' \<noteq> None" by (simp add: demo_interpreter_def)
  note s = stand_ins_never_shadow [THEN conjunct2, THEN conjunct1, of demo_interpreter demo_find]
  from s b have "dget (sys_modules (install_stand_ins demo_find demo_interpreter)) ''app.platform.bandwidth'' =
      dget (sys_modules demo_interpreter) ''app.platform.bandwidth''" by blast
  moreover from s d have "dget (sys_modules (install_stand_ins demo_find demo_interpreter)) ''app.db'' =
      dget (sys_modules demo_interpreter) ''app.db''" by blast
  ultimately show ?thesis by (simp add: demo_interpreter_def)
qed

text \<open>
  The stand-in's marks identify a user: they fit in 32 bits, two users never share one, and the marks of one user
  differ except that the outer mark is the base mark. They are not the panel's marks, contrary to the comment that they
  are kept identical: no mark of the stand-in is a mark of the panel's module, whose outer marks have a bit of their own,
  and whose base mark for user 65024 is the quarantine mark.
\<close>

theorem marks_identify_user:
  assumes "marks_for_user u = Inr ms" "marks_for_user v = Inr ns" "panel_marks_for_user v = Inr ps"
    and "(k, x) \<in> set ms" "(l, y) \<in> set ns"
  shows "0 < x \<and> x < 2 ^ 32 \<and>
    (x = y \<longleftrightarrow> u = v \<and> (k = l \<or> {k, l} = {''base'', ''outer''})) \<and> x \<notin> snd ` set ps \<and>
    panel_mark_for_user 65024 = Inr quarantine_inner"
proof -
  from marks_entry [OF assms(1,4)] obtain a where x: "x = 0x7A000000 + u * 256 + a" "0 < u" "u \<le> 65535"
    and a: "(k, a) \<in> {(''base'', 0), (''outer'', 0), (''up'', 1), (''down'', 2)}" .
  from marks_entry [OF assms(2,5)] obtain b where y: "y = 0x7A000000 + v * 256 + b" "0 < v" "v \<le> 65535"
    and b: "(l, b) \<in> {(''base'', 0), (''outer'', 0), (''up'', 1), (''down'', 2)}" .
  have ab: "0 \<le> a" "a \<le> 2" "0 \<le> b" "b \<le> 2" using a b by auto
  from mark_digits [OF this] have "x = y \<longleftrightarrow> u = v \<and> a = b" using x(1) y(1) by simp
  moreover have "a = b \<longleftrightarrow> k = l \<or> {k, l} = {''base'', ''outer''}"
    using a b by (elim insertE emptyE; simp add: doubleton_eq_iff)
  moreover have "0 < x" "x < 2 ^ 32" using x ab by simp_all
  moreover have "\<forall>z \<in> snd ` set ps. z < 0x6B000000"
  proof -
    from assms(3) have "ps = [(''base'', 0x5A000000 + v * 256), (''outer'', 0x5A000000 + v * 256 + 0x40),
        (''up'', 0x5A000000 + v * 256 + 1), (''down'', 0x5A000000 + v * 256 + 2)]"
      by (simp add: marks_value)
    with y(3) show ?thesis by simp
  qed
  then have "x \<notin> snd ` set ps" using x ab by force
  moreover have "panel_mark_for_user 65024 = Inr quarantine_inner"
    by (simp add: panel_mark_for_user_def mark_value quarantine_inner_def)
  ultimately show ?thesis by blast
qed

theorem marks_identify_user_witness:
  "(0x7A000701 :: int) \<noteq> 0x7A000801 \<and> marks_for_user 7 = Inr [(''base'', 0x7A000700), (''outer'', 0x7A000700),
     (''up'', 0x7A000701), (''down'', 0x7A000702)]"
proof -
  have m: "marks_for_user 7 = Inr [(''base'', 0x7A000700), (''outer'', 0x7A000700),
      (''up'', 0x7A000701), (''down'', 0x7A000702)]"
    "marks_for_user 8 = Inr [(''base'', 0x7A000800), (''outer'', 0x7A000800),
      (''up'', 0x7A000801), (''down'', 0x7A000802)]"
    by (simp_all add: marks_value)
  obtain ps where p: "panel_marks_for_user 8 = Inr ps"
    by (simp add: marks_value)
  from marks_identify_user [OF m p, of "''up''" "0x7A000701" "''up''" "0x7A000801"] m show ?thesis by simp
qed

end
