(* ===== verification/Gcm_Props.thy ===== *)
theory Gcm_Props
  imports Aes_Gcm
begin

text \<open>
  What callers of \<^verbatim>\<open>aesgcm.py\<close> rely on: no intermediate value of the cipher leaves its range, GHASH is the polynomial of
  the standard, and decryption is exactly the inverse of encryption.
\<close>

section \<open>GHASH evaluates a polynomial\<close>

lemma low_bit: "drop_bit k x AND 1 \<noteq> (0 :: nat) \<longleftrightarrow> bit x k"
  by (simp add: and_one_eq bit_iff_odd_drop_bit mod_2_eq_odd)

lemma gf128_fold_xor:
  "fold (gf128_step (a XOR b)) is (z1 XOR z2, v) =
     (fst (fold (gf128_step a) is (z1, v)) XOR fst (fold (gf128_step b) is (z2, v)), snd (fold (gf128_step b) is (z2, v)))"
proof (induction "is" arbitrary: z1 z2 v)
  case (Cons i "is")
  let ?v = "if v AND 1 \<noteq> 0 then drop_bit 1 v XOR gcm_poly else drop_bit 1 v"
  let ?z = "\<lambda>x z. if bit x (127 - i) then z XOR v else z"
  have step: "gf128_step x i (z, v) = (?z x z, ?v)" for x z
    unfolding gf128_step_def Let_def prod.case low_bit [of "127 - i" x] ..
  have z: "?z (a XOR b) (z1 XOR z2) = ?z a z1 XOR ?z b z2" by (rule bit_eqI) (auto simp: bit_xor_iff)
  show ?case unfolding fold_simps step z by (rule Cons.IH)
qed simp

lemma gf128_mul_xor: "gf128_mul (a XOR b) h = gf128_mul a h XOR gf128_mul b h"
  using gf128_fold_xor [of a b "[0..<128]" 0 0 h] by (simp add: gf128_mul_def)

lemma gf128_power_zero: "((\<lambda>y. gf128_mul y h) ^^ n) 0 = 0"
proof (induction n)
  case (Suc n)
  then show ?case using gf128_mul_xor [of 0 0 h] by simp
qed simp

lemma gf128_power_xor: "((\<lambda>y. gf128_mul y h) ^^ n) (a XOR b) =
    ((\<lambda>y. gf128_mul y h) ^^ n) a XOR ((\<lambda>y. gf128_mul y h) ^^ n) b"
  by (induction n) (simp_all add: gf128_mul_xor)

text \<open>The blocks of the input, the last one padded with zeros.\<close>

function ghash_blocks :: "bytes \<Rightarrow> nat list" where
  "ghash_blocks data =
     (if data = [] then [] else from_be (pad_chunk (take 16 data)) # ghash_blocks (drop 16 data))"
  by pat_completeness auto
termination
  by (relation "measure length") auto

declare ghash_blocks.simps [simp del]

text \<open>\<open>b\<^sub>1 h\<^sup>n + b\<^sub>2 h\<^sup>n\<^sup>-\<^sup>1 + ... + b\<^sub>n h\<close>, as the standard defines it.\<close>

primrec ghash_poly :: "nat \<Rightarrow> nat list \<Rightarrow> nat" where
  "ghash_poly h [] = 0"
| "ghash_poly h (b # bs) = ((\<lambda>y. gf128_mul y h) ^^ Suc (length bs)) b XOR ghash_poly h bs"

lemma ghash_loop_poly:
  "ghash_loop h y data =
     ((\<lambda>y. gf128_mul y h) ^^ length (ghash_blocks data)) y XOR ghash_poly h (ghash_blocks data)"
proof (induction h y data rule: ghash_loop.induct)
  case (1 h y data)
  show ?case
  proof (cases "data = []")
    case True
    then show ?thesis by (simp add: ghash_loop.simps ghash_blocks.simps)
  next
    case False
    then show ?thesis
      using 1 [OF False] ghash_loop.simps [of h y data] ghash_blocks.simps [of data]
      by (simp add: gf128_power_xor gf128_mul_xor funpow_Suc_right xor.assoc del: funpow.simps(2))
  qed
qed

text \<open>
  C23: The Horner loop of \<^verbatim>\<open>_ghash\<close> computes the GHASH of the standard: the sum over the padded blocks of the input, each
  multiplied by the hash key once for itself and once for every block after it.
\<close>

theorem ghash_is_polynomial: "ghash h data = ghash_poly h (ghash_blocks data)"
  by (simp add: ghash_def ghash_loop_poly gf128_power_zero)

section \<open>Values stay in range\<close>

text \<open>
  C24: Whatever key, nonce, text and associated data it is given, the cipher never leaves the range of a byte, of a block or
  of a 128-bit integer: neither \<^verbatim>\<open>bytes()\<close>, nor \<^verbatim>\<open>encrypt_block\<close>, nor \<^verbatim>\<open>to_bytes\<close> ever raises on an intermediate value. The
  errors are those of a wrong key or nonce size, and for decryption those of \<^verbatim>\<open>AesGcmError\<close>.
\<close>

theorem gcm_stays_in_range:
  "aes_gcm_encrypt key nonce pt aad \<notin> Inl ` {ByteRange, BlockSize, IntTooBig} \<and>
   aes_gcm_decrypt key nonce data aad \<notin> Inl ` {ByteRange, BlockSize, IntTooBig}"
proof (cases "gcm_key_ok key nonce")
  case True
  with aes_gcm_encrypt_total [OF True, of pt aad] aes_gcm_decrypt_errors [OF True, of data aad]
  show ?thesis by (auto simp: is_aes_gcm_error_def)
next
  case False
  then show ?thesis by (auto simp: gcm_key_ok_def aes_gcm_encrypt_def aes_gcm_decrypt_def aes_init_def Let_def)
qed

section \<open>Decryption inverts encryption\<close>

text \<open>
  C22: With a key and a nonce of the right sizes encryption always succeeds, adds the 16 bytes of the tag, and a text decrypts
  to \<open>pt'\<close> exactly when it is the encryption of \<open>pt'\<close>: nothing but what was sealed opens.
\<close>

theorem gcm_opens_only_sealed:
  assumes "gcm_key_ok key nonce"
  shows "(\<exists>ct. aes_gcm_encrypt key nonce pt aad = Inr ct \<and> length ct = length pt + 16 \<and> aes_gcm_decrypt key nonce ct aad = Inr pt) \<and>
    (\<forall>ct' pt'. aes_gcm_decrypt key nonce ct' aad = Inr pt' \<longleftrightarrow> aes_gcm_encrypt key nonce pt' aad = Inr ct')"
  using aes_gcm_encrypt_total [OF assms, of pt aad] pure_gcm.open_iff [OF assms, of _ aad]
  by (auto simp: pure_aead_def)

theorem gcm_opens_only_sealed_witness:
  "\<exists>ct. aes_gcm_encrypt (replicate 32 7) (replicate 12 0) [1, 2, 3] [] = Inr ct \<and> length ct = 19 \<and>
     aes_gcm_decrypt (replicate 32 7) (replicate 12 0) ct [] = Inr [1, 2, 3]"
proof -
  have "gcm_key_ok (replicate 32 7) (replicate 12 0)" by (simp add: gcm_key_ok_def)
  from gcm_opens_only_sealed [OF this, of "[1, 2, 3]" "[]", THEN conjunct1] show ?thesis by simp
qed

end
