(* ===== verification/Base_Driver.thy ===== *)
theory Base_Driver
  imports Manager Usage
begin

text \<open>
  \<^verbatim>\<open>cores/base.py\<close>: what every driver inherits. A driver class is a record of the methods it defines (\<open>class_body\<close>): those that
  \<^verbatim>\<open>BaseCoreDriver\<close> declares abstract, and \<open>None\<close> or an override for each of the others. \<open>driver_class_of\<close> resolves
  the methods as Python does, so that a subclass is a \<open>driver_class\<close> of the manager. An inherited optional method raises
  \<^verbatim>\<open>CapabilityNotSupportedError\<close> when the metadata do not declare its capability. The methods that hand a document of
  the panel's routing, outbound and policy packages to a core are gated alike; their documents are any type.
\<close>

section \<open>Objects and classes\<close>

record 'b base_driver =
  bd_settings :: jobj
  bd_usage :: "string delta_tracker option"
  bd_self :: 'b

type_synonym ('b, 'a) meth = "('b base_driver, core_exc, 'a) eff"

record version_info =
  vi_version :: "string option"
  vi_reason :: "string option"

record 'b class_body =
  sb_metadata :: core_metadata
  sb_new :: "jobj \<Rightarrow> core_exc + 'b base_driver"
  sb_start :: "('b, unit) meth"
  sb_stop :: "('b, unit) meth"
  sb_status :: "('b, core_status) meth"
  sb_create :: "user_account \<Rightarrow> ('b, unit) meth"
  sb_update_account :: "user_account \<Rightarrow> ('b, unit) meth"
  sb_delete :: "string \<Rightarrow> ('b, unit) meth"
  sb_install :: "('b, unit) meth option"
  sb_uninstall :: "(bool \<Rightarrow> ('b, unit) meth) option"
  sb_update :: "(string option \<Rightarrow> ('b, string) meth) option"
  sb_health_check :: "('b, core_status) meth option"
  sb_logs :: "(int \<Rightarrow> ('b, string list) meth) option"
  sb_suspend :: "(string \<Rightarrow> ('b, unit) meth) option"
  sb_resume :: "(user_account \<Rightarrow> ('b, unit) meth) option"
  sb_sync :: "(user_account list \<Rightarrow> ('b, unit) meth) option"
  sb_usage :: "(string list option \<Rightarrow> ('b, usage_record list) meth) option"
  sb_online :: "(string list option \<Rightarrow> ('b, device_session list) meth) option"
  sb_studio :: "(jobj \<Rightarrow> ('b, unit) meth) option"
  sb_create_hub :: "(jobj \<Rightarrow> ('b, jobj) meth) option"
  sb_delete_hub :: "(string \<Rightarrow> ('b, unit) meth) option"

definition overriding :: "'m option \<Rightarrow> 'm \<Rightarrow> 'm" where
  "overriding own inherited = (case own of None \<Rightarrow> inherited | Some m \<Rightarrow> m)"

lemma overriding_simps [simp]: "overriding None m = m" "overriding (Some f) m = f"
  by (simp_all add: overriding_def)

definition base_new :: "core_metadata \<Rightarrow> jobj \<Rightarrow> string delta_tracker option \<Rightarrow> 'b \<Rightarrow> 'b base_driver" where
  "base_new md settings trk self =
     \<lparr>bd_settings = dmerge (md_default_settings md) settings, bd_usage = trk, bd_self = self\<rparr>"

definition require :: "core_metadata \<Rightarrow> capability \<Rightarrow> ('b, unit) meth" where
  "require md c =
     (if c \<in> set (md_capabilities md) then ret ()
      else fail (CapabilityNotSupportedError (md_id md) (capability_value c)))"

definition not_implemented :: core_exc where
  "not_implemented = OtherError ''NotImplementedError'' []"

text \<open>An optional method without a body of its own: the gate, then \<^verbatim>\<open>raise NotImplementedError\<close>.\<close>

definition gated :: "core_metadata \<Rightarrow> capability \<Rightarrow> ('b, 'a) meth" where
  "gated md c = seqE (require md c) (fail not_implemented)"

section \<open>The inherited methods\<close>

definition base_install :: "core_metadata \<Rightarrow> ('b, unit) meth" where
  "base_install md = require md SELF_INSTALL"

definition base_uninstall :: "core_metadata \<Rightarrow> bool \<Rightarrow> ('b, unit) meth" where
  "base_uninstall md purge = require md SELF_INSTALL"

definition base_update :: "core_metadata \<Rightarrow> string option \<Rightarrow> ('b, string) meth" where
  "base_update md version = gated md SELF_INSTALL"

definition base_version :: "core_metadata \<Rightarrow> ('b, string option) meth option \<Rightarrow> ('b, version_info) meth" where
  "base_version md version_probe =
     (case version_probe of
        None \<Rightarrow> ret \<lparr>vi_version = None, vi_reason = Some (md_name md @ '' adapter has no version probe'')\<rparr>
      | Some probe \<Rightarrow>
          catchE
            (bindE probe (\<lambda>found.
             let text = py_strip (case found of None \<Rightarrow> [] | Some v \<Rightarrow> v) in
             ret (if text = []
                  then \<lparr>vi_version = None,
                        vi_reason = Some ''runtime binary is not installed or returned no parseable version''\<rparr>
                  else \<lparr>vi_version = Some text, vi_reason = None\<rparr>)))
            is_exception
            (\<lambda>e. ret \<lparr>vi_version = None,
                      vi_reason = Some (''version probe failed: '' @ exc_type e @ '': '' @ exc_text e)\<rparr>))"

definition base_restart :: "'b class_body \<Rightarrow> ('b, unit) meth" where
  "base_restart B = seqE (sb_stop B) (sb_start B)"

definition base_health_check :: "'b class_body \<Rightarrow> ('b, core_status) meth" where
  "base_health_check B = sb_status B"

definition base_logs :: "core_metadata \<Rightarrow> int \<Rightarrow> ('b, string list) meth" where
  "base_logs md tail = gated md SERVICE_CONTROL"

definition usage_tracker_snapshot :: "string list option \<Rightarrow> ('b, (string, int \<times> int) dict) meth" where
  "usage_tracker_snapshot account_ids =
     getE (\<lambda>d. case bd_usage d of None \<Rightarrow> [] | Some t \<Rightarrow> baseline_snapshot t account_ids)"

definition restore_tracker :: "(string, int \<times> int) dict \<Rightarrow> ('b, unit) meth" where
  "restore_tracker baselines =
     modE (\<lambda>d. if baselines = [] then d
               else d\<lparr>bd_usage := map_option (restore_baseline baselines) (bd_usage d)\<rparr>)"

definition base_suspend :: "core_metadata \<Rightarrow> string \<Rightarrow> ('b, unit) meth" where
  "base_suspend md account_id = gated md SUSPEND_RESUME"

definition base_resume :: "'b class_body \<Rightarrow> user_account \<Rightarrow> ('b, unit) meth" where
  "base_resume B account = seqE (require (sb_metadata B) SUSPEND_RESUME) (sb_update_account B account)"

definition rotate_credentials :: "core_metadata \<Rightarrow> user_account \<Rightarrow> ('b, user_account) meth" where
  "rotate_credentials md account = gated md KEY_ROTATION"

definition base_sync :: "'b class_body \<Rightarrow> user_account list \<Rightarrow> ('b, unit) meth" where
  "base_sync B accounts = seqE (require (sb_metadata B) USER_MANAGEMENT) (forE (sb_create B) accounts)"

definition base_bandwidth_identities :: "'b base_driver \<Rightarrow> core_exc + json" where
  "base_bandwidth_identities d = Inr (JObj [])"

definition base_export_identity :: "'b base_driver \<Rightarrow> (string, string) dict" where
  "base_export_identity d = []"

definition base_import_identity :: "core_metadata \<Rightarrow> (string, string) dict \<Rightarrow> ('b, string list) meth" where
  "base_import_identity md material =
     (if material = [] then ret []
      else fail (OtherError ''NotImplementedError'' (md_id md @ '' has no server identity to import'')))"

definition base_usage :: "core_metadata \<Rightarrow> string list option \<Rightarrow> ('b, usage_record list) meth" where
  "base_usage md account_ids = gated md USAGE_ACCOUNTING"

definition base_online :: "core_metadata \<Rightarrow> string list option \<Rightarrow> ('b, device_session list) meth" where
  "base_online md account_ids = gated md ONLINE_TRACKING"

definition deploy_routing_rules :: "core_metadata \<Rightarrow> 'r \<Rightarrow> ('b, 'a) meth" where
  "deploy_routing_rules md rules = gated md ROUTING"

definition deploy_outbounds :: "core_metadata \<Rightarrow> 'o \<Rightarrow> ('b, 'a) meth" where
  "deploy_outbounds md outbounds = gated md OUTBOUND_MANAGEMENT"

definition apply_policy :: "core_metadata \<Rightarrow> user_account \<Rightarrow> 'p \<Rightarrow> ('b, string list) meth" where
  "apply_policy md account profile = gated md POLICY_ENFORCEMENT"

definition kick_account :: "'b class_body \<Rightarrow> user_account \<Rightarrow> ('b, unit) meth" where
  "kick_account B account =
     seqE (require (sb_metadata B) USER_MANAGEMENT)
       (seqE (sb_delete B (ua_account_id account)) (sb_create B account))"

definition ensure_chain_listener :: "core_metadata \<Rightarrow> string \<Rightarrow> int \<Rightarrow> ('b, 'a) meth" where
  "ensure_chain_listener md protocol port = gated md CHAIN_ROUTING"

section \<open>The class the manager sees\<close>

definition driver_class_of :: "'b class_body \<Rightarrow> 'b base_driver driver_class" where
  "driver_class_of B =
     (let md = sb_metadata B in
      \<lparr>cls_metadata = md, cls_new = sb_new B, cls_settings = bd_settings,
       cls_install = overriding (sb_install B) (base_install md),
       cls_uninstall = overriding (sb_uninstall B) (base_uninstall md),
       cls_update = overriding (sb_update B) (base_update md),
       cls_start = sb_start B, cls_stop = sb_stop B, cls_status = sb_status B,
       cls_health_check = overriding (sb_health_check B) (base_health_check B),
       cls_logs = overriding (sb_logs B) (base_logs md),
       cls_studio = sb_studio B, cls_create_hub = sb_create_hub B, cls_delete_hub = sb_delete_hub B,
       cls_create_account = sb_create B, cls_update_account = sb_update_account B,
       cls_delete_account = sb_delete B,
       cls_suspend_account = overriding (sb_suspend B) (base_suspend md),
       cls_resume_account = overriding (sb_resume B) (base_resume B),
       cls_sync_accounts = overriding (sb_sync B) (base_sync B),
       cls_usage = (\<lambda>ids. overriding (sb_usage B) (base_usage md) (Some ids)),
       cls_online = (\<lambda>ids. overriding (sb_online B) (base_online md) (Some ids))\<rparr>)"

section \<open>What the base class promises\<close>

lemma require_iff: "require md c d = (Inr (), d) \<longleftrightarrow> c \<in> set (md_capabilities md)"
  by (simp add: require_def eff_simps)

lemma gated_unsupported:
  "c \<notin> set (md_capabilities md) \<Longrightarrow>
   gated md c d = (Inl (CapabilityNotSupportedError (md_id md) (capability_value c)), d)"
  by (simp add: gated_def require_def eff_simps)

text \<open>The driver of a core whose binary is somebody else's business still installs: the manager takes the refusal for a success.\<close>

lemma undeclared_install_unsupported:
  assumes "sb_install B = None" "SELF_INSTALL \<notin> set (md_capabilities (sb_metadata B))"
  shows "\<exists>e. cls_install (driver_class_of B) d = (Inl e, d) \<and> is_not_supported e"
  using assms by (simp add: driver_class_of_def Let_def base_install_def require_def eff_simps is_not_supported_def)

text \<open>A tracker restored from a snapshot is the tracker the snapshot was taken of, for every later reading.\<close>

lemma dmerge_Nil: "dict_ok d \<Longrightarrow> dmerge [] d = d"
  by (simp add: dmerge_fresh dict_ok_def)

lemma tracker_resumes:
  assumes "bd_usage d = Some t" "dict_ok t" "bd_usage d' = Some []"
  shows "bd_usage (snd (restore_tracker (projr (fst (usage_tracker_snapshot None d))) d')) = Some t"
  using assms dmerge_Nil [of t]
  by (simp add: restore_tracker_def usage_tracker_snapshot_def eff_simps baseline_snapshot_def restore_baseline_def)

end
