(* ===== verification/Pptp_Ledger.thy ===== *)
theory Pptp_Ledger
  imports Usage
begin

text \<open>
  \<^verbatim>\<open>cores/drivers/pptp/accounting.py\<close>: the ledger of the PPTP core, two SQL tables that a restart reads back: the totals of
  the accounts and, for every interface of a daemon generation, the counters that were read last. A method is one
  transaction. The counters of SQLite have 64 bits, those of the model have no bound.

  The second half puts the ledger beside the traffic that really passed, under any interleaving of sessions that come
  and go, polls and restarts of the daemon. A poll is two steps, because the driver reads the sessions of the daemon
  and only later, in another thread, hands them to the ledger.
\<close>

section \<open>The ledger\<close>

record pptp_session =
  ss_ifname :: string
  ss_username :: string
  ss_calling_sid :: string
  ss_assigned_ip :: string
  ss_session_id :: string
  ss_state :: string
  ss_compression :: string
  ss_uptime :: int
  ss_rx :: int
  ss_tx :: int

record ledger =
  lg_totals :: "(string, int \<times> int) dict"
  lg_active :: "(string \<times> string, string \<times> int \<times> int) dict"

definition empty_ledger :: ledger where
  "empty_ledger = \<lparr>lg_totals = [], lg_active = []\<rparr>"

definition ledger_delta :: "int \<Rightarrow> int \<Rightarrow> int" where
  "ledger_delta current previous =
     (let c = max 0 current; p = max 0 previous in if p \<le> c then c - p else c)"

definition total_of :: "ledger \<Rightarrow> string \<Rightarrow> int \<times> int" where
  "total_of L account = (case dget (lg_totals L) account of None \<Rightarrow> (0, 0) | Some t \<Rightarrow> t)"

definition add_total :: "string \<Rightarrow> int \<Rightarrow> int \<Rightarrow> ledger \<Rightarrow> ledger" where
  "add_total account up down L =
     (let (u, d) = total_of L account
      in L\<lparr>lg_totals := dput account (u + max 0 up, d + max 0 down) (lg_totals L)\<rparr>)"

definition previous_of :: "ledger \<Rightarrow> string \<Rightarrow> string \<Rightarrow> string \<Rightarrow> int \<times> int" where
  "previous_of L generation ifname account =
     (case dget (lg_active L) (generation, ifname) of
        None \<Rightarrow> (0, 0)
      | Some (owner, up, down) \<Rightarrow> if owner = account then (up, down) else (0, 0))"

definition observe_session :: "string \<Rightarrow> pptp_session \<Rightarrow> ledger \<Rightarrow> ledger" where
  "observe_session generation s L =
     (let (up, down) = previous_of L generation (ss_ifname s) (ss_username s);
          L1 = add_total (ss_username s) (ledger_delta (ss_rx s) up) (ledger_delta (ss_tx s) down) L
      in L1\<lparr>lg_active := dput (generation, ss_ifname s) (ss_username s, max 0 (ss_rx s), max 0 (ss_tx s)) (lg_active L1)\<rparr>)"

text \<open>A new generation of the daemon cannot own the interfaces of an old one.\<close>

definition drop_generations :: "string \<Rightarrow> ledger \<Rightarrow> ledger" where
  "drop_generations generation L = L\<lparr>lg_active := filter (\<lambda>row. fst (fst row) = generation) (lg_active L)\<rparr>"

definition observe_ledger ::
  "string \<Rightarrow> pptp_session list \<Rightarrow> ledger \<Rightarrow> (string, int \<times> int) dict \<times> ledger" where
  "observe_ledger generation sessions L =
     (let rows = filter (\<lambda>s. ss_state s = ''active'') sessions;
          L' = fold (observe_session generation) rows (drop_generations generation L)
      in (lg_totals L', L'))"

definition record_final :: "string \<Rightarrow> string \<Rightarrow> string \<Rightarrow> int \<Rightarrow> int \<Rightarrow> ledger \<Rightarrow> ledger" where
  "record_final generation ifname account received sent L =
     (if generation = [] \<or> ifname = [] \<or> account = [] then L
      else
        (let (up, down) = previous_of L generation ifname account;
             L1 = add_total account (ledger_delta received up) (ledger_delta sent down) L
         in L1\<lparr>lg_active := dpop (generation, ifname) (lg_active L1)\<rparr>))"

definition forget_account :: "string \<Rightarrow> bool \<Rightarrow> ledger \<Rightarrow> ledger" where
  "forget_account account purge L =
     L\<lparr>lg_active := filter (\<lambda>row. fst (snd row) \<noteq> account) (lg_active L),
       lg_totals := (if purge then dpop account (lg_totals L) else lg_totals L)\<rparr>"

text \<open>
  The hook that the daemon runs when an interface goes down: \<open>None\<close> is a generation file that cannot be read as
  ASCII.
\<close>

definition environment_count :: "(string, string) dict \<Rightarrow> string \<Rightarrow> int option" where
  "environment_count env name =
     (case dget env name of None \<Rightarrow> Some 0 | Some v \<Rightarrow> if v = [] then Some 0 else py_int_of_str v)"

definition hook_from_environment ::
  "string option \<Rightarrow> (string, string) dict \<Rightarrow> string \<Rightarrow> ledger \<Rightarrow> ledger" where
  "hook_from_environment generation_file env ifname L =
     (case (generation_file, environment_count env ''BYTES_RCVD'', environment_count env ''BYTES_SENT'') of
        (Some text, Some received, Some sent) \<Rightarrow>
          record_final (py_strip text) ifname
            (case dget env ''PEERNAME'' of None \<Rightarrow> [] | Some name \<Rightarrow> name) received sent L
      | _ \<Rightarrow> L)"

lemma ledger_delta_counter: "ledger_delta = counter_delta"
  by (intro ext) (simp add: ledger_delta_def counter_delta_def)

lemma total_of_dput [simp]:
  "total_of (L\<lparr>lg_totals := dput a t (lg_totals L)\<rparr>) b = (if b = a then t else total_of L b)"
  "total_of (L\<lparr>lg_active := A\<rparr>) b = total_of L b"
  by (simp_all add: total_of_def)

lemma add_total_simps [simp]:
  "total_of (add_total a up down L) b =
     (if b = a then (fst (total_of L a) + max 0 up, snd (total_of L a) + max 0 down) else total_of L b)"
  "lg_active (add_total a up down L) = lg_active L"
  by (simp_all add: add_total_def split: prod.split)

lemma previous_of_dput [simp]:
  "previous_of (L\<lparr>lg_active := dput (g, i) (a, u, d) A\<rparr>) g' i' a' =
     (if g' = g \<and> i' = i then if a' = a then (u, d) else (0, 0) else previous_of (L\<lparr>lg_active := A\<rparr>) g' i' a')"
  by (auto simp: previous_of_def)

lemma previous_of_dpop [simp]:
  "previous_of (L\<lparr>lg_active := dpop (g, i) A\<rparr>) g' i' a' =
     (if g' = g \<and> i' = i then (0, 0) else previous_of (L\<lparr>lg_active := A\<rparr>) g' i' a')"
  by (auto simp: previous_of_def)

lemma previous_of_add_total [simp]:
  "previous_of (add_total a up down L) g i b = previous_of L g i b"
  "previous_of (L\<lparr>lg_active := lg_active L'\<rparr>) g i b = previous_of L' g i b"
  by (simp_all add: previous_of_def)

section \<open>Beside the traffic that really passed\<close>

text \<open>
  \<open>Up\<close> and \<open>Down\<close> are the start and the end of a session on an interface, \<open>Traffic\<close> what its counters grow by,
  \<open>Read\<close> and \<open>Apply\<close> the two halves of a poll, \<open>Crash\<close> an end of the daemon without the hooks of its sessions, followed
  by a start with a fresh generation.
\<close>

datatype pptp_event =
    Up string string
  | Traffic string nat nat
  | Down string
  | Read
  | Apply nat
  | Crash string

record pptp_world =
  pw_generation :: string
  pw_used :: "string list"
  pw_links :: "(string, string \<times> int \<times> int) dict"
  pw_ledger :: ledger
  pw_readings :: "pptp_session list list"
  pw_passed :: "string \<Rightarrow> int \<times> int"
  pw_lost :: "string \<Rightarrow> int \<times> int"

definition new_world :: "string \<Rightarrow> pptp_world" where
  "new_world generation =
     \<lparr>pw_generation = generation, pw_used = [generation], pw_links = [], pw_ledger = empty_ledger,
      pw_readings = [], pw_passed = (\<lambda>_. (0, 0)), pw_lost = (\<lambda>_. (0, 0))\<rparr>"

definition shown_session :: "string \<times> string \<times> int \<times> int \<Rightarrow> pptp_session" where
  "shown_session link =
     (case link of (ifname, account, up, down) \<Rightarrow>
       \<lparr>ss_ifname = ifname, ss_username = account, ss_calling_sid = [], ss_assigned_ip = [], ss_session_id = [],
        ss_state = ''active'', ss_compression = ''mppe'', ss_uptime = 1, ss_rx = up, ss_tx = down\<rparr>)"

lemma shown_session_simps [simp]:
  "ss_ifname (shown_session l) = fst l" "ss_username (shown_session l) = fst (snd l)"
  "ss_rx (shown_session l) = fst (snd (snd l))" "ss_tx (shown_session l) = snd (snd (snd l))"
  "ss_state (shown_session l) = ''active''"
  by (simp_all add: shown_session_def split: prod.split)

text \<open>What the counters of an account's interfaces hold beyond the ledger's last reading.\<close>

definition unread_on :: "pptp_world \<Rightarrow> string \<Rightarrow> string \<Rightarrow> int \<times> int" where
  "unread_on w account ifname =
     (case dget (pw_links w) ifname of
        None \<Rightarrow> (0, 0)
      | Some (owner, up, down) \<Rightarrow>
          if owner = account
          then (up - fst (previous_of (pw_ledger w) (pw_generation w) ifname owner),
                down - snd (previous_of (pw_ledger w) (pw_generation w) ifname owner))
          else (0, 0))"

definition unread :: "pptp_world \<Rightarrow> string \<Rightarrow> int \<times> int" where
  "unread w account =
     (\<Sum>ifname \<in> fst ` set (pw_links w). fst (unread_on w account ifname),
      \<Sum>ifname \<in> fst ` set (pw_links w). snd (unread_on w account ifname))"

lemma unread_readings [simp]:
  "unread_on (w\<lparr>pw_readings := r\<rparr>) = unread_on w" "unread (w\<lparr>pw_readings := r\<rparr>) = unread w"
proof -
  show same: "unread_on (w\<lparr>pw_readings := r\<rparr>) = unread_on w"
    by (auto simp: unread_on_def fun_eq_iff split: option.split)
  show "unread (w\<lparr>pw_readings := r\<rparr>) = unread w" by (simp add: unread_def same fun_eq_iff)
qed

definition pair_plus :: "int \<times> int \<Rightarrow> int \<times> int \<Rightarrow> int \<times> int" where
  "pair_plus p q = (fst p + fst q, snd p + snd q)"

fun pptp_step :: "pptp_event \<Rightarrow> pptp_world \<Rightarrow> pptp_world" where
  "pptp_step (Up ifname account) w =
     (if ifname = [] \<or> account = [] \<or> dget (pw_links w) ifname \<noteq> None then w
      else w\<lparr>pw_links := dput ifname (account, 0, 0) (pw_links w)\<rparr>)"
| "pptp_step (Traffic ifname up down) w =
     (case dget (pw_links w) ifname of
        None \<Rightarrow> w
      | Some (account, u, d) \<Rightarrow>
          w\<lparr>pw_links := dput ifname (account, u + int up, d + int down) (pw_links w),
            pw_passed := (pw_passed w)(account := pair_plus (pw_passed w account) (int up, int down))\<rparr>)"
| "pptp_step (Down ifname) w =
     (case dget (pw_links w) ifname of
        None \<Rightarrow> w
      | Some (account, u, d) \<Rightarrow>
          w\<lparr>pw_links := dpop ifname (pw_links w),
            pw_ledger := record_final (pw_generation w) ifname account u d (pw_ledger w)\<rparr>)"
| "pptp_step Read w = w\<lparr>pw_readings := pw_readings w @ [map shown_session (pw_links w)]\<rparr>"
| "pptp_step (Apply n) w =
     (if n < length (pw_readings w)
      then w\<lparr>pw_ledger := snd (observe_ledger (pw_generation w) (pw_readings w ! n) (pw_ledger w)),
             pw_readings := take n (pw_readings w) @ drop (Suc n) (pw_readings w)\<rparr>
      else w)"
| "pptp_step (Crash generation) w =
     (if generation = [] \<or> generation \<in> set (pw_used w) then w
      else w\<lparr>pw_generation := generation, pw_used := generation # pw_used w, pw_links := [],
             pw_lost := (\<lambda>account. pair_plus (pw_lost w account) (unread w account))\<rparr>)"

definition run_pptp :: "pptp_event list \<Rightarrow> pptp_world" where
  "run_pptp evs = fold pptp_step evs (new_world ''g0'')"

text \<open>One poll at a time, and between its two halves no session ends and the daemon does not restart.\<close>

fun undisturbed :: "bool \<Rightarrow> pptp_event list \<Rightarrow> bool" where
  "undisturbed polling [] \<longleftrightarrow> True"
| "undisturbed polling (Read # evs) \<longleftrightarrow> \<not> polling \<and> undisturbed True evs"
| "undisturbed polling (Apply n # evs) \<longleftrightarrow> undisturbed (polling \<and> n \<noteq> 0) evs"
| "undisturbed polling (Down ifname # evs) \<longleftrightarrow> \<not> polling \<and> undisturbed polling evs"
| "undisturbed polling (Crash generation # evs) \<longleftrightarrow> \<not> polling \<and> undisturbed polling evs"
| "undisturbed polling (ev # evs) \<longleftrightarrow> undisturbed polling evs"

lemma dget_filter_key: "dget (filter (\<lambda>row. Q (fst row)) d) k = (if Q k then dget d k else None)"
  by (induction d) auto

lemma drop_generations_simps [simp]:
  "dget (lg_active (drop_generations g L)) (g', i) = (if g' = g then dget (lg_active L) (g', i) else None)"
  "total_of (drop_generations g L) a = total_of L a"
  "previous_of (drop_generations g L) g i a = previous_of L g i a"
  by (simp_all add: previous_of_def drop_generations_def dget_filter_key [where Q = "\<lambda>k. fst k = g"])

lemma observe_session_simps [simp]:
  "previous_of (observe_session g s L) g' i a =
     (if g' = g \<and> i = ss_ifname s then if a = ss_username s then (max 0 (ss_rx s), max 0 (ss_tx s)) else (0, 0)
      else previous_of L g' i a)"
  "total_of (observe_session g s L) a =
     (if a = ss_username s
      then (fst (total_of L a) + ledger_delta (ss_rx s) (fst (previous_of L g (ss_ifname s) a)),
            snd (total_of L a) + ledger_delta (ss_tx s) (snd (previous_of L g (ss_ifname s) a)))
      else total_of L a)"
  "lg_active (observe_session g s L) =
     dput (g, ss_ifname s) (ss_username s, max 0 (ss_rx s), max 0 (ss_tx s)) (lg_active L)"
  by (auto simp: observe_session_def ledger_delta_counter counter_delta_nonneg max_absorb2 split: prod.split)

lemma record_final_simps:
  assumes "g \<noteq> []" "i \<noteq> []" "a \<noteq> []"
  shows "previous_of (record_final g i a up down L) g' i' b =
      (if g' = g \<and> i' = i then (0, 0) else previous_of L g' i' b)"
    and "total_of (record_final g i a up down L) b =
      (if b = a then (fst (total_of L a) + ledger_delta up (fst (previous_of L g i a)),
                      snd (total_of L a) + ledger_delta down (snd (previous_of L g i a)))
       else total_of L b)"
    and "lg_active (record_final g i a up down L) = dpop (g, i) (lg_active L)"
  using assms
  by (auto simp: record_final_def ledger_delta_counter counter_delta_nonneg max_absorb2 split: prod.split)

lemma unread_change:
  assumes "\<And>i. i \<noteq> k \<Longrightarrow> unread_on w' a i = unread_on w a i"
    and "insert k (fst ` set (pw_links w')) = insert k (fst ` set (pw_links w))"
  shows "fst (unread w' a) = fst (unread w a) + fst (unread_on w' a k) - fst (unread_on w a k)"
    and "snd (unread w' a) = snd (unread w a) + snd (unread_on w' a k) - snd (unread_on w a k)"
proof -
  have absent: "k \<notin> fst ` set (pw_links v) \<Longrightarrow> unread_on v a k = (0, 0)" for v
    by (simp add: unread_on_def map_of_eq_None_iff [symmetric])
  have split: "(\<Sum>i \<in> fst ` set (pw_links v). h (unread_on v a i)) =
      h (unread_on v a k) + (\<Sum>i \<in> insert k (fst ` set (pw_links v)) - {k}. h (unread_on v a i))"
    if "h (0, 0) = 0" for v and h :: "int \<times> int \<Rightarrow> int"
    using that absent [of v]
    by (cases "k \<in> fst ` set (pw_links v)") (simp_all add: sum.remove insert_absorb)
  have same: "(\<Sum>i \<in> insert k (fst ` set (pw_links w')) - {k}. h (unread_on w' a i)) =
      (\<Sum>i \<in> insert k (fst ` set (pw_links w)) - {k}. h (unread_on w a i))" for h :: "int \<times> int \<Rightarrow> int"
    using assms by (intro sum.cong) auto
  show "fst (unread w' a) = fst (unread w a) + fst (unread_on w' a k) - fst (unread_on w a k)"
    using split [of fst w'] split [of fst w] same [of fst] by (simp add: unread_def)
  show "snd (unread w' a) = snd (unread w a) + snd (unread_on w' a k) - snd (unread_on w a k)"
    using split [of snd w'] split [of snd w] same [of snd] by (simp add: unread_def)
qed

section \<open>The invariant\<close>

definition link_ok :: "pptp_world \<Rightarrow> string \<Rightarrow> string \<Rightarrow> int \<times> int \<Rightarrow> bool" where
  "link_ok w ifname account counters \<longleftrightarrow> ifname \<noteq> [] \<and> account \<noteq> [] \<and>
     0 \<le> fst (previous_of (pw_ledger w) (pw_generation w) ifname account) \<and>
     fst (previous_of (pw_ledger w) (pw_generation w) ifname account) \<le> fst counters \<and>
     0 \<le> snd (previous_of (pw_ledger w) (pw_generation w) ifname account) \<and>
     snd (previous_of (pw_ledger w) (pw_generation w) ifname account) \<le> snd counters"

definition rows_ok :: "pptp_world \<Rightarrow> bool" where
  "rows_ok w \<longleftrightarrow> pw_generation w \<noteq> [] \<and> pw_generation w \<in> set (pw_used w) \<and>
     (\<forall>g i row. dget (lg_active (pw_ledger w)) (g, i) = Some row \<longrightarrow> g \<in> set (pw_used w) \<and>
        (g = pw_generation w \<longrightarrow> (\<exists>u d. dget (pw_links w) i = Some (fst row, u, d))))"

definition reading_ok :: "pptp_world \<Rightarrow> pptp_session list \<Rightarrow> bool" where
  "reading_ok w sessions \<longleftrightarrow> distinct (map ss_ifname sessions) \<and>
     (\<forall>s \<in> set sessions. ss_state s = ''active'' \<and> link_ok w (ss_ifname s) (ss_username s) (ss_rx s, ss_tx s) \<and>
        (\<exists>u d. dget (pw_links w) (ss_ifname s) = Some (ss_username s, u, d) \<and> ss_rx s \<le> u \<and> ss_tx s \<le> d))"

definition balanced :: "pptp_world \<Rightarrow> bool" where
  "balanced w \<longleftrightarrow>
     (\<forall>a. pair_plus (total_of (pw_ledger w) a) (pair_plus (unread w a) (pw_lost w a)) = pw_passed w a)"

definition core_ok :: "pptp_world \<Rightarrow> bool" where
  "core_ok w \<longleftrightarrow> rows_ok w \<and> balanced w \<and>
     (\<forall>i a u d. dget (pw_links w) i = Some (a, u, d) \<longrightarrow> link_ok w i a (u, d))"

definition books_ok :: "bool \<Rightarrow> pptp_world \<Rightarrow> bool" where
  "books_ok polling w \<longleftrightarrow> core_ok w \<and> dict_ok (pw_links w) \<and>
     (if polling then \<exists>ss. pw_readings w = [ss] \<and> reading_ok w ss else pw_readings w = [])"

lemma balanced_step:
  assumes "balanced w" "pw_lost w' = pw_lost w"
    and "\<And>a i. i \<noteq> k \<Longrightarrow> unread_on w' a i = unread_on w a i"
    and "insert k (fst ` set (pw_links w')) = insert k (fst ` set (pw_links w))"
    and "\<And>a. fst (total_of (pw_ledger w') a) + fst (unread_on w' a k) - fst (pw_passed w' a) =
      fst (total_of (pw_ledger w) a) + fst (unread_on w a k) - fst (pw_passed w a)"
    and "\<And>a. snd (total_of (pw_ledger w') a) + snd (unread_on w' a k) - snd (pw_passed w' a) =
      snd (total_of (pw_ledger w) a) + snd (unread_on w a k) - snd (pw_passed w a)"
  shows "balanced w'"
  unfolding balanced_def
proof
  fix a
  note change = unread_change [of k w' a w, OF assms(3,4)]
  from assms(1) have "pair_plus (total_of (pw_ledger w) a) (pair_plus (unread w a) (pw_lost w a)) = pw_passed w a"
    by (simp add: balanced_def)
  with change assms(5,6) [of a]
  show "pair_plus (total_of (pw_ledger w') a) (pair_plus (unread w' a) (pw_lost w' a)) = pw_passed w' a"
    by (simp add: pair_plus_def prod_eq_iff assms(2))
qed

lemma no_row: "rows_ok w \<Longrightarrow> dget (pw_links w) i = None \<Longrightarrow> previous_of (pw_ledger w) (pw_generation w) i a = (0, 0)"
proof -
  assume rows: "rows_ok w" and none: "dget (pw_links w) i = None"
  have "dget (lg_active (pw_ledger w)) (pw_generation w, i) = None"
  proof (rule ccontr)
    assume "\<not> ?thesis"
    then obtain row where "dget (lg_active (pw_ledger w)) (pw_generation w, i) = Some row" by blast
    with rows none show False unfolding rows_ok_def by (metis option.distinct(1))
  qed
  then show ?thesis by (simp add: previous_of_def)
qed

lemma keys_dput: "insert k (fst ` set (dput k v d)) = insert k (fst ` set d)"
  by (simp add: dom_update)

lemma keys_dpop: "insert k (fst ` set (dpop k d)) = insert k (fst ` set d)"
  by (auto simp: delete_keys simp flip: set_map)

lemma up_keeps: "books_ok p w \<Longrightarrow> books_ok p (pptp_step (Up i a) w)"
proof (cases "i = [] \<or> a = [] \<or> dget (pw_links w) i \<noteq> None")
  case False
  assume ok: "books_ok p w"
  let ?w = "w\<lparr>pw_links := dput i (a, 0, 0) (pw_links w)\<rparr>"
  from ok have core: "rows_ok w" "balanced w" by (simp_all add: books_ok_def core_ok_def)
  from False have free: "dget (pw_links w) i = None" by blast
  note none = no_row [OF core(1) free]
  have "balanced ?w"
    using core(2) free by (intro balanced_step [of w ?w i]) (auto simp: unread_on_def none keys_dput split: option.split)
  moreover have "rows_ok ?w" using core(1) free by (fastforce simp: rows_ok_def)
  moreover have "\<forall>j b u d. dget (pw_links ?w) j = Some (b, u, d) \<longrightarrow> link_ok ?w j b (u, d)"
    using ok False none by (auto simp: books_ok_def core_ok_def link_ok_def)
  moreover have "reading_ok w ss \<Longrightarrow> reading_ok ?w ss" for ss
    using free by (fastforce simp: reading_ok_def link_ok_def)
  ultimately show ?thesis using ok False by (auto simp: books_ok_def core_ok_def)
qed simp

lemma traffic_keeps: "books_ok p w \<Longrightarrow> books_ok p (pptp_step (Traffic i up down) w)"
proof (cases "dget (pw_links w) i")
  case (Some link)
  assume ok: "books_ok p w"
  obtain a u d where link: "dget (pw_links w) i = Some (a, u, d)" using Some by (cases link) simp
  let ?w = "pptp_step (Traffic i up down) w"
  from ok have core: "rows_ok w" "balanced w" by (simp_all add: books_ok_def core_ok_def)
  from ok have all: "\<And>j b u d. dget (pw_links w) j = Some (b, u, d) \<Longrightarrow> link_ok w j b (u, d)"
    by (simp add: books_ok_def core_ok_def)
  note this_link = all [OF link]
  have "balanced ?w"
    using core(2) link by (intro balanced_step [of w ?w i]) (auto simp: unread_on_def pair_plus_def keys_dput split: option.split)
  moreover have "rows_ok ?w" using core(1) link by (fastforce simp: rows_ok_def)
  moreover have "link_ok ?w j b (u', d')" if "dget (pw_links ?w) j = Some (b, u', d')" for j b u' d'
    using that all [of j b u' d'] this_link link by (cases "j = i") (auto simp: link_ok_def)
  moreover have "reading_ok w ss \<Longrightarrow> reading_ok ?w ss" for ss
    using link by (fastforce simp: reading_ok_def link_ok_def)
  ultimately show ?thesis using ok link by (auto simp: books_ok_def core_ok_def)
qed simp

lemma down_keeps: "books_ok False w \<Longrightarrow> books_ok False (pptp_step (Down i) w)"
proof (cases "dget (pw_links w) i")
  case (Some link)
  assume ok: "books_ok False w"
  obtain a u d where link: "dget (pw_links w) i = Some (a, u, d)" using Some by (cases link) simp
  let ?w = "pptp_step (Down i) w"
  from ok have core: "rows_ok w" "balanced w" by (simp_all add: books_ok_def core_ok_def)
  from ok link have this_link: "link_ok w i a (u, d)" by (simp add: books_ok_def core_ok_def)
  then have named: "pw_generation w \<noteq> []" "i \<noteq> []" "a \<noteq> []" using core(1) by (auto simp: link_ok_def rows_ok_def)
  note final = record_final_simps [OF named]
  have "balanced ?w"
    using core(2) this_link link
    by (intro balanced_step [of w ?w i])
      (auto simp: unread_on_def final keys_dpop link_ok_def ledger_delta_def Let_def split: prod.splits option.split)
  moreover have "rows_ok ?w" using core(1) link by (fastforce simp: rows_ok_def final)
  moreover have "\<forall>j b u d. dget (pw_links ?w) j = Some (b, u, d) \<longrightarrow> link_ok ?w j b (u, d)"
    using ok link by (auto simp: books_ok_def core_ok_def link_ok_def final)
  ultimately show ?thesis using ok link by (auto simp: books_ok_def core_ok_def)
qed simp

lemma crash_keeps: "books_ok False w \<Longrightarrow> books_ok False (pptp_step (Crash g) w)"
proof (cases "g = [] \<or> g \<in> set (pw_used w)")
  case False
  assume ok: "books_ok False w"
  let ?w = "pptp_step (Crash g) w"
  from ok have core: "rows_ok w" "balanced w" by (simp_all add: books_ok_def core_ok_def)
  have gone: "unread ?w a = (0, 0)" for a using False by (simp add: unread_def)
  have "balanced ?w"
    unfolding balanced_def
  proof
    fix a
    from core(2) have "pair_plus (total_of (pw_ledger w) a) (pair_plus (unread w a) (pw_lost w a)) = pw_passed w a"
      by (simp add: balanced_def)
    then show "pair_plus (total_of (pw_ledger ?w) a) (pair_plus (unread ?w a) (pw_lost ?w a)) = pw_passed ?w a"
      unfolding gone using False by (simp add: pair_plus_def prod_eq_iff)
  qed
  moreover have "g' \<in> set (pw_used w)" if "dget (lg_active (pw_ledger w)) (g', i) = Some row" for g' i row
    using that core(1) unfolding rows_ok_def by blast
  then have "rows_ok ?w" using False unfolding rows_ok_def by (simp del: split_paired_All) blast
  ultimately show ?thesis using ok False by (simp add: books_ok_def core_ok_def)
qed simp

lemma read_keeps: "books_ok False w \<Longrightarrow> books_ok True (pptp_step Read w)"
proof -
  assume ok: "books_ok False w"
  then have dict: "dict_ok (pw_links w)" by (simp add: books_ok_def)
  have "distinct (map ss_ifname (map shown_session (pw_links w)))"
    using dict by (simp add: dict_ok_def comp_def)
  moreover have "link_ok w i a (u, d) \<and> dget (pw_links w) i = Some (a, u, d)"
    if "(i, a, u, d) \<in> set (pw_links w)" for i a u d
    using that ok dict by (simp add: books_ok_def core_ok_def dict_ok_def)
  ultimately have "reading_ok w (map shown_session (pw_links w))"
    unfolding reading_ok_def by (auto simp del: map_map)
  then show ?thesis
    using ok by (auto simp: books_ok_def core_ok_def balanced_def rows_ok_def reading_ok_def link_ok_def)
qed

lemma session_keeps:
  assumes core: "core_ok w" and reading: "reading_ok w (s # ss)"
    and w': "w' = w\<lparr>pw_ledger := observe_session (pw_generation w) s (pw_ledger w)\<rparr>"
  shows "core_ok w'" and "reading_ok w' ss"
proof -
  let ?i = "ss_ifname s" and ?a = "ss_username s"
  from reading obtain u d where link: "dget (pw_links w) ?i = Some (?a, u, d)" "ss_rx s \<le> u" "ss_tx s \<le> d"
    and read: "link_ok w ?i ?a (ss_rx s, ss_tx s)" by (auto simp: reading_ok_def)
  from core have parts: "rows_ok w" "balanced w"
    and all: "\<And>j b u d. dget (pw_links w) j = Some (b, u, d) \<Longrightarrow> link_ok w j b (u, d)"
    by (simp_all add: core_ok_def)
  have "balanced w'"
    using parts(2) read link
    by (intro balanced_step [of w w' ?i])
      (auto simp: w' unread_on_def link_ok_def ledger_delta_def Let_def split: option.split)
  moreover have "rows_ok w'" using parts(1) link by (fastforce simp: w' rows_ok_def)
  moreover have "link_ok w' j b (u', d')" if "dget (pw_links w') j = Some (b, u', d')" for j b u' d'
    using that all [of j b u' d'] link read by (auto simp: w' link_ok_def Let_def)
  ultimately show "core_ok w'" by (simp add: core_ok_def)
  have "ss_ifname s' \<noteq> ?i" if "s' \<in> set ss" for s'
    using reading that by (metis (no_types) distinct.simps(2) image_eqI list.simps(9) list.set_map reading_ok_def)
  then show "reading_ok w' ss"
    using reading by (simp add: w' reading_ok_def link_ok_def)
qed

lemma sessions_keep:
  "core_ok w \<Longrightarrow> reading_ok w ss \<Longrightarrow>
   core_ok (w\<lparr>pw_ledger := fold (observe_session (pw_generation w)) ss (pw_ledger w)\<rparr>)"
proof (induction ss arbitrary: w)
  case (Cons s ss)
  let ?w = "w\<lparr>pw_ledger := observe_session (pw_generation w) s (pw_ledger w)\<rparr>"
  from Cons.IH [of ?w] session_keeps [OF Cons.prems refl] show ?case by simp
qed simp

lemma drop_keeps:
  assumes "core_ok w" and w': "w' = w\<lparr>pw_ledger := drop_generations (pw_generation w) (pw_ledger w)\<rparr>"
  shows "core_ok w'" and "reading_ok w ss \<Longrightarrow> reading_ok w' ss"
proof -
  have "unread_on w' = unread_on w"
    by (auto simp: w' unread_on_def fun_eq_iff split: option.split)
  then have "unread w' = unread w" by (simp add: unread_def fun_eq_iff w')
  then show "core_ok w'"
    using assms(1)
    by (auto simp: w' core_ok_def balanced_def link_ok_def rows_ok_def split: if_splits)
  show "reading_ok w ss \<Longrightarrow> reading_ok w' ss" by (simp add: w' reading_ok_def link_ok_def)
qed

lemma apply_keeps: "books_ok True w \<Longrightarrow> books_ok (n \<noteq> 0) (pptp_step (Apply n) w)"
proof (cases "n = 0")
  case True
  assume ok: "books_ok True w"
  then obtain ss where core: "core_ok w" and ss: "pw_readings w = [ss]" "reading_ok w ss" by (auto simp: books_ok_def)
  have "filter (\<lambda>s. ss_state s = ''active'') ss = ss" using ss(2) by (simp add: reading_ok_def)
  with sessions_keep drop_keeps [OF core refl] ss(2) have
    "core_ok (w\<lparr>pw_ledger := snd (observe_ledger (pw_generation w) ss (pw_ledger w))\<rparr>)"
    by (simp add: observe_ledger_def Let_def) (metis pptp_world.select_convs(1,4) pptp_world.surjective pptp_world.update_convs(4))
  then show ?thesis
    using ok ss True by (auto simp: books_ok_def core_ok_def balanced_def rows_ok_def link_ok_def)
qed (auto simp: books_ok_def)

lemma run_keeps:
  "books_ok p w \<Longrightarrow> undisturbed p evs \<Longrightarrow> \<exists>q. books_ok q (fold pptp_step evs w)"
proof (induction evs arbitrary: p w)
  case (Cons ev evs)
  have "\<exists>q. books_ok q (pptp_step ev w) \<and> undisturbed q evs"
  proof (cases ev)
    case (Apply n)
    show ?thesis
    proof (cases p)
      case True
      then have "books_ok (n \<noteq> 0) (pptp_step ev w)" "undisturbed (n \<noteq> 0) evs"
        using apply_keeps Cons.prems Apply by simp_all
      then show ?thesis by blast
    qed (use Apply Cons.prems in \<open>auto simp: books_ok_def\<close>)
  qed (use Cons.prems in \<open>cases p; simp del: pptp_step.simps;
      blast intro: up_keeps traffic_keeps down_keeps read_keeps crash_keeps\<close>)+
  then show ?case using Cons.IH by auto
qed auto

lemma new_world_ok: "g \<noteq> [] \<Longrightarrow> books_ok False (new_world g)"
  by (simp add: books_ok_def core_ok_def rows_ok_def balanced_def new_world_def empty_ledger_def unread_def
      total_of_def pair_plus_def dict_ok_def)

lemma unread_nonneg: "core_ok w \<Longrightarrow> 0 \<le> fst (unread w a) \<and> 0 \<le> snd (unread w a)"
proof -
  assume "core_ok w"
  then have "0 \<le> fst (unread_on w a i) \<and> 0 \<le> snd (unread_on w a i)" for i
    by (auto simp: unread_on_def core_ok_def link_ok_def split: option.split)
  then show ?thesis by (simp add: unread_def sum_nonneg)
qed

text \<open>
  C28: The PPTP ledger counts every byte once: whatever sessions come, go and reuse interfaces, however polls and ends of
  sessions alternate, and whenever the daemon restarts, the total of an account is the traffic that passed less what
  its open sessions hold since the last poll and less what restarts of the daemon lost before it was read; provided
  that polls do not overlap and no session ends between the two halves of one.
\<close>

theorem ledger_counts_once:
  assumes "undisturbed False evs"
  shows "total_of (pw_ledger (run_pptp evs)) a =
      (fst (pw_passed (run_pptp evs) a) - fst (unread (run_pptp evs) a) - fst (pw_lost (run_pptp evs) a),
       snd (pw_passed (run_pptp evs) a) - snd (unread (run_pptp evs) a) - snd (pw_lost (run_pptp evs) a)) \<and>
    0 \<le> fst (unread (run_pptp evs) a) \<and> 0 \<le> snd (unread (run_pptp evs) a)"
proof (intro conjI)
  let ?w = "run_pptp evs"
  obtain q where ok: "books_ok q ?w"
    using run_keeps [OF new_world_ok assms] by (auto simp: run_pptp_def)
  then have "pair_plus (total_of (pw_ledger ?w) a) (pair_plus (unread ?w a) (pw_lost ?w a)) = pw_passed ?w a"
    by (simp add: books_ok_def core_ok_def balanced_def)
  then show "total_of (pw_ledger ?w) a =
      (fst (pw_passed ?w a) - fst (unread ?w a) - fst (pw_lost ?w a), snd (pw_passed ?w a) - snd (unread ?w a) - snd (pw_lost ?w a))"
    by (auto simp: pair_plus_def prod_eq_iff)
  have "0 \<le> fst (unread ?w a) \<and> 0 \<le> snd (unread ?w a)"
    using ok by (intro unread_nonneg) (simp add: books_ok_def)
  then show "0 \<le> fst (unread ?w a)" "0 \<le> snd (unread ?w a)" by simp_all
qed

definition two_sessions :: "pptp_event list" where
  "two_sessions =
     [Up ''ppp0'' ''ann'', Traffic ''ppp0'' 100 10, Read, Traffic ''ppp0'' 5 5, Apply 0, Down ''ppp0'',
      Up ''ppp0'' ''bob'', Traffic ''ppp0'' 7 1, Crash ''g1'', Up ''ppp0'' ''ann'', Traffic ''ppp0'' 3 3, Read, Apply 0]"

lemma ledger_counts_once_witness:
  "undisturbed False two_sessions \<and> total_of (pw_ledger (run_pptp two_sessions)) ''ann'' = (108, 18) \<and>
   0 \<le> fst (unread (run_pptp two_sessions) ''ann'')"
proof -
  have quiet: "undisturbed False two_sessions" by (simp add: two_sessions_def)
  have "pw_passed (run_pptp two_sessions) ''ann'' = (108, 18)" "unread (run_pptp two_sessions) ''ann'' = (0, 0)"
    "pw_lost (run_pptp two_sessions) ''ann'' = (0, 0)"
    by code_simp+
  with ledger_counts_once [OF quiet, of "''ann''"] quiet show ?thesis by simp
qed

text \<open>A session that ends between the two halves of a poll is counted twice, as is one that two overlapping polls read.\<close>

theorem disturbed_polls_count_twice:
  "let w = run_pptp [Up ''ppp0'' ''ann'', Traffic ''ppp0'' 100 10, Read, Down ''ppp0'', Apply 0]
   in total_of (pw_ledger w) ''ann'' = (200, 20) \<and> pw_passed w ''ann'' = (100, 10)"
  "let w = run_pptp [Up ''ppp0'' ''ann'', Traffic ''ppp0'' 100 10, Read, Traffic ''ppp0'' 1 1, Read, Apply 1, Apply 0]
   in total_of (pw_ledger w) ''ann'' = (201, 21) \<and> pw_passed w ''ann'' = (101, 11)"
  by code_simp+

end
