(* ===== verification/Ip_Network.thy ===== *)
theory Ip_Network
  imports Ip_Address
begin

text \<open>
  \<^verbatim>\<open>ipaddress.ip_network(s, strict=True)\<close> of the standard library on strings, and what the drivers ask of an IPv4
  network: its text, its usable hosts and whether it is private. A prefix is a length or, for IPv4, a net mask or a host
  mask. The error is the text of the \<^verbatim>\<open>ValueError\<close>.
\<close>

datatype ip_net = Net4 nat nat | Net6 nat nat

definition mask_prefix :: "nat \<Rightarrow> nat option" where
  "mask_prefix n =
     (case List.find (\<lambda>p. n = 2 ^ 32 - 2 ^ (32 - p)) [0..<33] of
        Some p \<Rightarrow> Some p
      | None \<Rightarrow> List.find (\<lambda>p. n = 2 ^ (32 - p) - 1) [0..<33])"

definition prefix_of :: "nat \<Rightarrow> string \<Rightarrow> nat option" where
  "prefix_of bits s = (if parse_prefix bits s then Some (nat_of_digits s) else None)"

definition v4_prefix_of :: "string \<Rightarrow> nat option" where
  "v4_prefix_of s =
     (case prefix_of 32 s of
        Some p \<Rightarrow> Some p
      | None \<Rightarrow> (case parse_v4 s of None \<Rightarrow> None | Some n \<Rightarrow> mask_prefix n))"

text \<open>Address and prefix length, before the check of the host bits.\<close>

definition read_net :: "string \<Rightarrow> (ip_addr \<times> nat) option" where
  "read_net s =
     (let (a, m) = (case py_split CHR ''/'' s of
                      [a] \<Rightarrow> (Some a, None) | [a, m] \<Rightarrow> (Some a, Some m) | _ \<Rightarrow> (None, None)) in
      case a of
        None \<Rightarrow> None
      | Some a \<Rightarrow>
          (case (parse_v4 a, case m of None \<Rightarrow> Some 32 | Some m \<Rightarrow> v4_prefix_of m) of
             (Some n, Some p) \<Rightarrow> Some (V4 n, p)
           | _ \<Rightarrow>
              (case (parse_v6 a, case m of None \<Rightarrow> Some 128 | Some m \<Rightarrow> prefix_of 128 m) of
                 (Some x, Some p) \<Rightarrow> Some (x, p)
               | _ \<Rightarrow> None)))"

definition host_bits :: "nat \<Rightarrow> nat \<Rightarrow> nat \<Rightarrow> bool" where
  "host_bits bits n p \<longleftrightarrow> n mod 2 ^ (bits - p) \<noteq> 0"

definition ip_network :: "string \<Rightarrow> string + ip_net" where
  "ip_network s =
     (case read_net s of
        None \<Rightarrow> Inl (py_repr_str s @ '' does not appear to be an IPv4 or IPv6 network'')
      | Some (a, p) \<Rightarrow>
          (let bad = Inl (ip_text a @ ''/'' @ str_of_nat p @ '' has host bits set'') in
           case a of
             V4 n \<Rightarrow> if host_bits 32 n p then bad else Inr (Net4 n p)
           | V6 n _ \<Rightarrow> if host_bits 128 n p then bad else Inr (Net6 n p)))"

definition net4_text :: "nat \<Rightarrow> nat \<Rightarrow> string" where
  "net4_text n p = v4_text n @ ''/'' @ str_of_nat p"

definition in_net4 :: "nat \<Rightarrow> nat \<times> nat \<Rightarrow> bool" where
  "in_net4 a net = (a div 2 ^ (32 - snd net) = fst net div 2 ^ (32 - snd net))"

definition broadcast4 :: "nat \<Rightarrow> nat \<Rightarrow> nat" where
  "broadcast4 n p = n + 2 ^ (32 - p) - 1"

text \<open>The private ranges of the registry and the exceptions in them.\<close>

definition private_nets :: "(nat \<times> nat) list" where
  "private_nets =
     [(0x00000000, 8), (0x0A000000, 8), (0x7F000000, 8), (0xA9FE0000, 16), (0xAC100000, 12), (0xC0000000, 24),
      (0xC00000AA, 31), (0xC0000200, 24), (0xC0A80000, 16), (0xC6120000, 15), (0xC6336400, 24), (0xCB007100, 24),
      (0xF0000000, 4), (0xFFFFFFFF, 32)]"

definition private_exceptions :: "(nat \<times> nat) list" where
  "private_exceptions = [(0xC0000009, 32), (0xC000000A, 32)]"

definition is_private4 :: "nat \<Rightarrow> nat \<Rightarrow> bool" where
  "is_private4 n p \<longleftrightarrow>
     list_ex (\<lambda>net. in_net4 n net \<and> in_net4 (broadcast4 n p) net) private_nets \<and>
     list_all (\<lambda>net. \<not> in_net4 n net \<and> \<not> in_net4 (broadcast4 n p) net) private_exceptions"

text \<open>\<^verbatim>\<open>list(network.hosts())\<close> of a prefix of at most 30.\<close>

definition hosts4 :: "nat \<Rightarrow> nat \<Rightarrow> nat list" where
  "hosts4 n p = [n + 1..<broadcast4 n p]"

lemma read_net4_text:
  assumes "n < 2 ^ 32" "p \<le> 32"
  shows "read_net (net4_text n p) = Some (V4 n, p)"
proof -
  have "CHR ''/'' \<notin> set (v4_text n)" by (intro v4_text_chars) (simp_all add: is_digit_def)
  then have "py_split CHR ''/'' (net4_text n p) = [v4_text n, str_of_nat p]"
    by (simp add: net4_text_def py_split_append_sep py_split_no_sep digits_no_sep is_digit_def)
  moreover have "prefix_of 32 (str_of_nat p) = Some p"
    using assms(2) str_of_nat_digits [of p] by (simp add: prefix_of_def parse_prefix_def nat_of_digits_str)
  ultimately show ?thesis
    using parse_v4_text [OF assms(1)] by (simp add: read_net_def v4_prefix_of_def)
qed

lemma ip_network_text:
  assumes "n < 2 ^ 32" "p \<le> 32" "\<not> host_bits 32 n p"
  shows "ip_network (net4_text n p) = Inr (Net4 n p)"
  using assms by (simp add: ip_network_def read_net4_text)

lemma ip_network_less:
  assumes "ip_network s = Inr (Net4 n p)"
  shows "n < 2 ^ 32" "\<not> host_bits 32 n p" "ip_network (net4_text n p) = Inr (Net4 n p)"
proof -
  from assms have read: "read_net s = Some (V4 n, p)" and bits: "\<not> host_bits 32 n p"
    by (auto simp: ip_network_def Let_def split: option.splits prod.splits ip_addr.splits if_splits)
  have v6: "parse_v6 t \<noteq> Some (V4 k)" for t k by (auto simp: parse_v6_def split: option.splits)
  obtain a where v4: "parse_v4 a = Some n"
    using read v6 by (auto simp: read_net_def split: prod.splits option.splits)
  then show n: "n < 2 ^ 32" by (rule parse_v4_less)
  have "p \<le> 32"
  proof -
    have *: "prefix_of 32 m = Some q \<Longrightarrow> q \<le> 32" for m q
      by (auto simp: prefix_of_def parse_prefix_def split: if_splits)
    have **: "mask_prefix k = Some q \<Longrightarrow> q \<le> 32" for k q
      by (auto simp: mask_prefix_def find_Some_iff split: option.splits simp del: upt_Suc)
    show ?thesis
      using read v6 * ** by (fastforce simp: read_net_def v4_prefix_of_def split: prod.splits option.splits)
  qed
  then show "ip_network (net4_text n p) = Inr (Net4 n p)" using n bits by (intro ip_network_text)
  show "\<not> host_bits 32 n p" by (rule bits)
qed

lemma hosts4_bounds:
  assumes "ip_network s = Inr (Net4 n p)" "p \<le> 29" "a \<in> set (hosts4 n p)"
  shows "n < a" "a < 2 ^ 32" "a < broadcast4 n p"
proof -
  let ?k = "2 ^ (32 - p) :: nat"
  from assms(1) have n: "n < 2 ^ 32" "n mod ?k = 0" using ip_network_less by (auto simp: host_bits_def)
  have "?k dvd n" using n(2) by presburger
  moreover have "?k dvd 2 ^ 32" by (intro le_imp_power_dvd) simp
  ultimately have "?k dvd 2 ^ 32 - n" by (rule dvd_diff_nat [rotated])
  then have "?k \<le> 2 ^ 32 - n" using n(1) by (intro dvd_imp_le) auto
  then have "n + ?k \<le> 2 ^ 32" using n(1) by linarith
  with assms(3) show "n < a" "a < 2 ^ 32" "a < broadcast4 n p" by (auto simp: hosts4_def broadcast4_def)
qed

lemma v4_text_inject: "a < 2 ^ 32 \<Longrightarrow> b < 2 ^ 32 \<Longrightarrow> v4_text a = v4_text b \<longleftrightarrow> a = b"
  using parse_v4_text by (metis option.inject)

end
