(* ===== verification/Pptp_Driver.thy ===== *)
theory Pptp_Driver
  imports Base_Driver Pptp_Ledger Ip_Network Limits Ip_Limits
begin

text \<open>
  \<^verbatim>\<open>cores/drivers/pptp/driver.py\<close>: the driver of the PPTP core over its backend, the record \<open>pptp_backend\<close> of what it calls
  (process, firewall, files, random draws, clock). The accounts are a dictionary that every change publishes to the daemon's
  secrets file and takes back when publishing fails. Not modelled: the descriptions for clients
  (\<^verbatim>\<open>build_client_config\<close>, \<^verbatim>\<open>describe_delivery\<close>), which change nothing.
\<close>

section \<open>State\<close>

record 'b pptp_backend =
  pb_token :: "'b \<Rightarrow> string \<times> 'b"
  pb_verify :: "('b, core_exc, unit) eff"
  pb_secret :: "('b, core_exc, string) eff"
  pb_configure :: "string \<Rightarrow> string \<Rightarrow> string \<Rightarrow> ('b, core_exc, unit) eff"
  pb_start :: "string \<Rightarrow> string \<Rightarrow> string \<Rightarrow> ('b, core_exc, unit) eff"
  pb_stop :: "('b, core_exc, unit) eff"
  pb_purge :: "('b, core_exc, unit) eff"
  pb_reload :: "('b, core_exc, unit) eff"
  pb_running :: "('b, core_exc, bool) eff"
  pb_sessions :: "('b, core_exc, pptp_session list) eff"
  pb_metrics :: "('b, core_exc, unit) eff"
  pb_terminate :: "string \<Rightarrow> ('b, core_exc, unit) eff"
  pb_check_subnet :: "(string \<Rightarrow> ('b, core_exc, string list) eff) option"
  pb_logs :: "int \<Rightarrow> ('b, core_exc, string list) eff"
  pb_version :: "('b, core_exc, string option) eff"
  pb_generation :: "('b, core_exc, string option) eff"
  pb_transaction :: "('b, core_exc, unit) eff"
  pb_now :: "'b \<Rightarrow> int"
  pb_chap_path :: string
  pb_hook_path :: string
  pb_accounting_path :: string
  pb_generation_path :: string

record 'b pptp =
  pp_backend :: 'b
  pp_accounts :: "(string, user_account) dict"
  pp_ledger :: ledger

type_synonym ('b, 'a) pptp_op = "('b pptp, 'a) meth"

definition on_backend :: "('b, core_exc, 'a) eff \<Rightarrow> ('b, 'a) pptp_op" where
  "on_backend f d =
     (let (r, b) = f (pp_backend (bd_self d)) in (r, d\<lparr>bd_self := (bd_self d)\<lparr>pp_backend := b\<rparr>\<rparr>))"

abbreviation accounts_of :: "'b pptp base_driver \<Rightarrow> (string, user_account) dict" where
  "accounts_of d \<equiv> pp_accounts (bd_self d)"

definition put_accounts :: "(string, user_account) dict \<Rightarrow> ('b, unit) pptp_op" where
  "put_accounts accounts = modE (\<lambda>d. d\<lparr>bd_self := (bd_self d)\<lparr>pp_accounts := accounts\<rparr>\<rparr>)"

definition core_error :: "string \<Rightarrow> core_exc" where
  "core_error m = OtherError ''CoreError'' m"

definition check :: "bool \<Rightarrow> string \<Rightarrow> core_exc + unit" where
  "check ok m = (if ok then Inr () else Inl (core_error m))"

lemma check_simps [simp]: "check True m = Inr ()" "check False m = Inl (core_error m)"
  by (simp_all add: check_def)

lemma check_Inr: "check b m = Inr u \<longleftrightarrow> b"
  by (simp add: check_def)

text \<open>\<^verbatim>\<open>self.settings[k]\<close>.\<close>

definition setting :: "'b base_driver \<Rightarrow> string \<Rightarrow> core_exc + json" where
  "setting d k =
     (case dget (bd_settings d) k of None \<Rightarrow> Inl (OtherError ''KeyError'' (quoted k)) | Some v \<Rightarrow> Inr v)"

section \<open>The inbound\<close>

definition pinned_version :: string where
  "pinned_version = ''1.14.0''"

definition default_pptp_inbound :: jobj where
  "default_pptp_inbound =
     [(''tag'', JStr ''pptp-default''), (''protocol'', JStr ''pptp''), (''listen'', JStr ''0.0.0.0''), (''port'', JInt 1723),
      (''subnet'', JStr ''10.77.0.0/24''), (''dns'', JList [JStr ''1.1.1.1'', JStr ''8.8.8.8'']),
      (''legacy_risk_ack'', JBool True), (''internet_exposure_ack'', JBool True),
      (''authentication'', JStr ''MS-CHAPv2''), (''encryption'', JStr ''MPPE128''), (''network'', JStr ''IPv4''),
      (''ipv6'', JBool False), (''security_class'', JStr ''legacy_insecure'')]"

definition inbound_keys :: "string list" where
  "inbound_keys =
     [''tag'', ''protocol'', ''listen'', ''port'', ''subnet'', ''dns'', ''legacy_risk_ack'', ''internet_exposure_ack'',
      ''authentication'', ''encryption'', ''network'', ''ipv6'', ''security_class'', ''transport'', ''security'']"

fun dns_servers :: "json list \<Rightarrow> core_exc + string list" where
  "dns_servers [] = Inr []"
| "dns_servers (item # items) =
     (let text = py_strip (py_str item) in
      if text = [] then dns_servers items
      else
        (case ip_address text of
           None \<Rightarrow> Inl (core_error (''invalid PPTP DNS address '' @ quoted text))
         | Some a \<Rightarrow>
             if ip_version a \<noteq> 4 then Inl (core_error ''PPTP DNS servers must be IPv4'')
             else bindR (dns_servers items) (\<lambda>rest. Inr (text # rest))))"

definition parse_dns :: "json \<Rightarrow> core_exc + string list" where
  "parse_dns v =
     (let raw = (case v of JList xs \<Rightarrow> xs | _ \<Rightarrow> map JStr (py_split CHR '','' (py_str (jor v (JStr [])))))
      in bindR (dns_servers raw) (\<lambda>servers. Inr (take 2 servers)))"

definition tag_char :: "char \<Rightarrow> bool" where
  "tag_char c \<longleftrightarrow> alnum_char c \<and> is_ascii c"

definition tag_ok :: "string \<Rightarrow> bool" where
  "tag_ok tag \<longleftrightarrow> tag \<noteq> [] \<and> length tag \<le> 64 \<and> tag_char (hd tag) \<and>
     list_all (\<lambda>c. tag_char c \<or> c \<in> set ''_.-'') (tl tag)"

record pptp_listener =
  pl_tag :: string
  pl_net :: "nat \<times> nat"
  pl_dns :: "string list"

definition subnet_text :: "pptp_listener \<Rightarrow> string" where
  "subnet_text l = net4_text (fst (pl_net l)) (snd (pl_net l))"

definition listener_json :: "pptp_listener \<Rightarrow> json" where
  "listener_json l =
     JObj [(''tag'', JStr (pl_tag l)), (''protocol'', JStr ''pptp''), (''listen'', JStr ''0.0.0.0''),
       (''port'', JInt 1723), (''transport'', JStr ''tcp''), (''security'', JStr ''none''),
       (''subnet'', JStr (subnet_text l)), (''dns'', JList (map JStr (pl_dns l))),
       (''legacy_risk_ack'', JBool True), (''internet_exposure_ack'', JBool True),
       (''authentication'', JStr ''MS-CHAPv2''), (''encryption'', JStr ''MPPE128''), (''network'', JStr ''IPv4''),
       (''ipv6'', JBool False), (''security_class'', JStr ''legacy_insecure'')]"

definition pptp_subnet :: "json \<Rightarrow> core_exc + nat \<times> nat" where
  "pptp_subnet v =
     (case ip_network (py_str (jor v (JStr []))) of
        Inl m \<Rightarrow> Inl (core_error (''invalid PPTP IPv4 subnet: '' @ m))
      | Inr (Net6 n p) \<Rightarrow> Inl (core_error ''PPTP subnet must be a private IPv4 network'')
      | Inr (Net4 n p) \<Rightarrow>
          bindR (check (is_private4 n p) ''PPTP subnet must be a private IPv4 network'') (\<lambda>_.
          bindR (check (24 \<le> p \<and> p \<le> 29) ''PPTP subnet prefix must be between /24 and /29'') (\<lambda>_.
          bindR (check (8 \<le> (2::nat) ^ (32 - p)) ''PPTP subnet has insufficient addresses'') (\<lambda>_. Inr (n, p)))))"

definition check_inbound :: "jobj \<Rightarrow> core_exc + string" where
  "check_inbound raw =
     (let unknown = sort (filter (\<lambda>k. k \<notin> set inbound_keys) (dkeys raw));
          tag = py_strip (py_str (jor (jget raw ''tag'') (JStr []))) in
      bindR (check (unknown = []) (''unsupported PPTP inbound fields: '' @ py_repr (JList (map JStr unknown)))) (\<lambda>_.
      bindR (check (tag_ok tag) ''PPTP inbound tag must be 1-64 safe characters'') (\<lambda>_.
      bindR (check (jget raw ''protocol'' = JStr ''pptp'')
               (''independent PPTP provider only accepts protocol='' @ quoted ''pptp'')) (\<lambda>_.
      bindR (check (jget raw ''transport'' \<in> {JNull, JStr ''tcp''} \<and> jget raw ''security'' \<in> {JNull, JStr ''none''})
               ''PPTP transport is fixed to TCP control + GRE with no TLS layer'') (\<lambda>_.
      bindR (check (jget raw ''listen'' \<in> {JNull, JStr ''0.0.0.0''})
               ''ACCEL-PPP PPTP 1.14.0 listener is fixed to 0.0.0.0'') (\<lambda>_.
      bindR (int_or_zero raw ''port'') (\<lambda>mport.
      bindR (check (mport = 1723) ''PPTP control port is fixed to TCP/1723'') (\<lambda>_.
      bindR (check (jget raw ''legacy_risk_ack'' = JBool True) ''explicit Legacy/Insecure risk confirmation is required'') (\<lambda>_.
      bindR (check (jget raw ''internet_exposure_ack'' = JBool True)
               ''explicit Internet exposure confirmation is required'') (\<lambda>_.
      bindR (check (jget raw ''authentication'' = JStr ''MS-CHAPv2'') ''PPTP authentication is fixed to MS-CHAPv2 only'') (\<lambda>_.
      bindR (check (jget raw ''encryption'' = JStr ''MPPE128'') ''PPTP encryption is fixed to mandatory MPPE128'') (\<lambda>_.
      bindR (check (jget raw ''network'' = JStr ''IPv4'' \<and> jget raw ''ipv6'' = JBool False)
               ''PPTP provider is IPv4-only; IPv6 is unsupported'') (\<lambda>_.
      bindR (check (jget raw ''security_class'' \<in> {JNull, JStr ''legacy_insecure''})
               ''PPTP security_class must be legacy_insecure'') (\<lambda>_. Inr tag))))))))))))))"

definition normalize_inbound :: "json \<Rightarrow> core_exc + pptp_listener" where
  "normalize_inbound v =
     (case v of
        JObj raw \<Rightarrow>
          bindR (check_inbound raw) (\<lambda>tag.
          bindR (pptp_subnet (jget raw ''subnet'')) (\<lambda>net.
          bindR (parse_dns (jor (jget raw ''dns'') (JStr ''1.1.1.1, 8.8.8.8''))) (\<lambda>dns.
          Inr \<lparr>pl_tag = tag, pl_net = net, pl_dns = dns\<rparr>)))
      | _ \<Rightarrow> Inl (core_error ''PPTP inbound must be an object''))"

text \<open>\<^verbatim>\<open>rows[0]\<close> of the inbounds, where \<^verbatim>\<open>rows\<close> is whatever the settings hold.\<close>

definition first_row :: "json \<Rightarrow> core_exc + json" where
  "first_row rows =
     (case rows of
        JList (r # _) \<Rightarrow> Inr r
      | JStr (c # _) \<Rightarrow> Inr (JStr [c])
      | JObj _ \<Rightarrow> Inl (OtherError ''KeyError'' ''0'')
      | _ \<Rightarrow> Inl type_error)"

definition listener_of :: "'b base_driver \<Rightarrow> core_exc + pptp_listener option" where
  "listener_of d =
     (let rows = jget (bd_settings d) ''inbounds'' in
      if truthy rows then bindR (first_row rows) (\<lambda>r. bindR (normalize_inbound r) (\<lambda>l. Inr (Some l)))
      else Inr None)"

definition required_listener :: "'b base_driver \<Rightarrow> core_exc + pptp_listener" where
  "required_listener d =
     bindR (listener_of d) (\<lambda>l. case l of
        None \<Rightarrow> Inl (core_error ''configure the PPTP inbound before starting'') | Some x \<Rightarrow> Inr x)"

definition validate_studio_document :: "'b pptp_backend \<Rightarrow> jobj \<Rightarrow> ('b, string list) pptp_op" where
  "validate_studio_document B document =
     (case jor (jget document ''inbounds'') (JList []) of
        JList [] \<Rightarrow> ret []
      | JList [row] \<Rightarrow>
          catchE
            (bindE (liftE (normalize_inbound row)) (\<lambda>l.
             case pb_check_subnet B of None \<Rightarrow> ret [] | Some f \<Rightarrow> on_backend (f (subnet_text l))))
            is_core_error (\<lambda>e. ret [exc_text e])
      | JList _ \<Rightarrow> ret [''PPTP has one fixed TCP/1723 listener; multiple inbounds are unsupported'']
      | _ \<Rightarrow> ret [''PPTP inbounds must be an array''])"

definition export_config_document :: "'b base_driver \<Rightarrow> jobj" where
  "export_config_document d = [(''inbounds'', jor (jget (bd_settings d) ''inbounds'') (JList []))]"

section \<open>The files of the daemon\<close>

definition line_break :: string where
  "line_break = [CHR 0x0A]"

definition dquote :: "string \<Rightarrow> string" where
  "dquote s = [CHR 0x22] @ s @ [CHR 0x22]"

text \<open>Gateway, first and last client address.\<close>

definition pool_of :: "pptp_listener \<Rightarrow> string \<times> string \<times> string" where
  "pool_of l =
     (let hosts = map v4_text (hosts4 (fst (pl_net l)) (snd (pl_net l))) in (hosts ! 0, hosts ! 1, last hosts))"

definition dns_lines :: "string list \<Rightarrow> string list" where
  "dns_lines dns =
     (case dns of
        [] \<Rightarrow> []
      | [a] \<Rightarrow> [[], ''[dns]'', ''dns1='' @ a]
      | a # b # _ \<Rightarrow> [[], ''[dns]'', ''dns1='' @ a, ''dns2='' @ b])"

definition config_lines ::
  "'b pptp_backend \<Rightarrow> pptp_listener \<Rightarrow> string \<Rightarrow> string \<Rightarrow> string \<Rightarrow> int \<Rightarrow> string list" where
  "config_lines B l secret module_dir work mport =
     (let (gateway, low, high) = pool_of l in
      [''[modules]'', ''path='' @ module_dir, ''log_file'', ''pptp'', ''auth_mschap_v2'', ''chap-secrets'', ''ippool'',
       ''sigchld'', ''pppd_compat'', [], ''[core]'', ''log-error='' @ work @ ''/core.log'', ''thread-count=2'', [],
       ''[common]'', ''single-session=replace'', ''max-starting=64'', ''check-ip=1'', [], ''[ppp]'', ''verbose=0'',
       ''min-mtu=1280'', ''mtu=1400'', ''mru=1400'', ''ccp=1'', ''mppe=require'', ''ipv4=require'', ''ipv6=deny'',
       ''lcp-echo-interval=20'', ''lcp-echo-failure=3'', [], ''[auth]'', ''timeout=5'', ''max-failure=3'',
       ''any-login=0'', ''noauth=0'', [], ''[pptp]'', ''verbose=0'', ''echo-interval=30'', ''ip-pool=pptp'',
       ''ifname=zgppp%d'', [], ''[client-ip-range]'', ''0.0.0.0/0'', [], ''[ip-pool]'', ''gw-ip-address='' @ gateway,
       low @ ''-'' @ high @ '',name=pptp'', [], ''[chap-secrets]'', ''gw-ip-address='' @ gateway,
       ''chap-secrets='' @ pb_chap_path B, ''encrypted=0'', [], ''[pppd-compat]'', ''ip-down='' @ pb_hook_path B,
       ''fork-limit=8'', ''verbose=0'', [], ''[log]'', ''log-file='' @ work @ ''/accel-ppp.log'',
       ''log-emerg='' @ work @ ''/emerg.log'', ''log-fail-file='' @ work @ ''/auth-fail.log'', ''copy=1'', ''level=3'', [],
       ''[cli]'', ''verbose=1'', ''tcp=127.0.0.1:'' @ str_of_int mport, ''password='' @ secret,
       ''sessions-columns=ifname,username,calling-sid,ip,type,comp,state,uptime-raw,sid,rx-bytes-raw,tx-bytes-raw''] @
      dns_lines (pl_dns l) @ [[]])"

definition render_config ::
  "'b pptp_backend \<Rightarrow> 'c base_driver \<Rightarrow> pptp_listener \<Rightarrow> string \<Rightarrow> core_exc + string" where
  "render_config B d l secret =
     bindR (setting d ''module_dir'') (\<lambda>module_dir.
     bindR (setting d ''work_dir'') (\<lambda>work.
     bindR (setting d ''management_port'') (\<lambda>p.
     bindR (conv (py_int p)) (\<lambda>mport.
     Inr (py_join line_break (config_lines B l secret (py_str module_dir) (py_str work) mport))))))"

definition account_char :: "char \<Rightarrow> bool" where
  "account_char c \<longleftrightarrow> tag_char c \<or> c \<in> set ''._@-''"

definition password_of :: "user_account \<Rightarrow> string" where
  "password_of a = py_str (jor (jget (ua_settings a) ''password'') (JStr []))"

definition validate_account :: "user_account \<Rightarrow> core_exc + unit" where
  "validate_account a =
     bindR (check (ua_protocol a = ''pptp'') (''PPTP core accepts only protocol='' @ quoted ''pptp'')) (\<lambda>_.
     bindR (check (ua_account_id a \<noteq> [] \<and> length (ua_account_id a) \<le> 190 \<and> list_all account_char (ua_account_id a))
              ''PPTP account id contains unsupported characters'') (\<lambda>_.
     check (password_of a \<noteq> [] \<and> length (password_of a) \<le> 256 \<and>
            list_all (\<lambda>c. c \<notin> {CHR 0x0D, CHR 0x0A, CHR 0x00, CHR 0x22, CHR 0x5C}) (password_of a))
       ''PPTP account password is missing or unsafe''))"

definition assigned_of :: "user_account \<Rightarrow> string" where
  "assigned_of a = py_str (jor (jget (ua_settings a) ''assigned_ipv4'') (JStr ''*''))"

definition chap_line :: "user_account \<Rightarrow> string" where
  "chap_line a = dquote (ua_account_id a) @ '' * '' @ dquote (password_of a) @ '' '' @ dquote (assigned_of a)"

fun chap_lines :: "user_account list \<Rightarrow> core_exc + string list" where
  "chap_lines [] = Inr []"
| "chap_lines (a # as) =
     (if \<not> ua_enabled a then chap_lines as
      else
        bindR (validate_account a) (\<lambda>_.
        bindR (chap_lines as) (\<lambda>rest. Inr (chap_line a # rest))))"

definition sorted_accounts :: "(string, user_account) dict \<Rightarrow> user_account list" where
  "sorted_accounts accounts = map snd (sort_key fst accounts)"

definition render_chap_secrets :: "(string, user_account) dict \<Rightarrow> core_exc + string" where
  "render_chap_secrets accounts =
     bindR (chap_lines (sorted_accounts accounts)) (\<lambda>rows.
     Inr (py_join line_break (''# Zagros-owned ACCEL-PPP secrets. Mode 0600.'' # rows) @ line_break))"

definition render_hook :: "'b pptp_backend \<Rightarrow> string" where
  "render_hook B =
     py_join line_break
       [''#!/usr/local/bin/python3'', ''import sys'', ''sys.path.insert(0, '' @ dquote ''/code'' @ '')'',
        ''from app.cores.drivers.pptp.accounting import hook_from_environment'',
        ''hook_from_environment('' @ py_repr_str (pb_accounting_path B) @ '', '' @
          py_repr_str (pb_generation_path B) @ '', sys.argv[1] if len(sys.argv) > 1 else '' @ dquote [] @ '')'', []]"

definition materialize :: "'b pptp_backend \<Rightarrow> ('b, unit) pptp_op" where
  "materialize B =
     bindE (bindE (getE listener_of) liftE) (\<lambda>l.
     case l of
       None \<Rightarrow> ret ()
     | Some l \<Rightarrow>
         bindE (on_backend (pb_secret B)) (\<lambda>secret.
         bindE (bindE (getE (\<lambda>d. render_config B d l secret)) liftE) (\<lambda>config.
         bindE (bindE (getE (\<lambda>d. render_chap_secrets (accounts_of d))) liftE) (\<lambda>chap.
         on_backend (pb_configure B config chap (render_hook B))))))"

section \<open>Lifecycle\<close>

definition settings_text :: "'b base_driver \<Rightarrow> string \<Rightarrow> string \<Rightarrow> string" where
  "settings_text d k other = py_str (jor (jget (bd_settings d) k) (JStr other))"

definition validate_root_confirmations :: "'b base_driver \<Rightarrow> core_exc + unit" where
  "validate_root_confirmations d =
     bindR (check (dropWhile (\<lambda>c. c = CHR ''v'') (settings_text d ''release_version'' pinned_version) = pinned_version)
              ''PPTP runtime is pinned to ACCEL-PPP 1.14.0'') (\<lambda>_.
     bindR (check (jget (bd_settings d) ''legacy_risk_ack'' = JBool True)
              ''PPTP install/enable requires Legacy/Insecure risk confirmation'') (\<lambda>_.
     check (jget (bd_settings d) ''internet_exposure_ack'' = JBool True)
       ''PPTP install/enable requires Internet exposure confirmation''))"

definition put_inbounds :: "json \<Rightarrow> ('b, unit) pptp_op" where
  "put_inbounds v = modE (\<lambda>d. d\<lparr>bd_settings := dput ''inbounds'' v (bd_settings d)\<rparr>)"

definition pptp_install :: "'b pptp_backend \<Rightarrow> ('b, unit) pptp_op" where
  "pptp_install B =
     seqE (bindE (getE validate_root_confirmations) liftE)
    (seqE (on_backend (pb_verify B))
    (bindE (on_backend (pb_secret B)) (\<lambda>_.
     seqE (bindE (getE (\<lambda>d. truthy (jget (bd_settings d) ''inbounds''))) (\<lambda>some.
             whenE (\<not> some) (put_inbounds (JList [JObj default_pptp_inbound]))))
       (materialize B))))"

definition pptp_update :: "'b pptp_backend \<Rightarrow> string option \<Rightarrow> ('b, string) pptp_op" where
  "pptp_update B version =
     (let wanted = (case version of None \<Rightarrow> [] | Some v \<Rightarrow> v) in
      seqE (liftE (check (wanted = [] \<or> dropWhile (\<lambda>c. c = CHR ''v'') wanted = pinned_version)
                     ''PPTP runtime is pinned to ACCEL-PPP 1.14.0''))
     (seqE (on_backend (pb_verify B)) (ret pinned_version)))"

definition pptp_uninstall :: "'b pptp_backend \<Rightarrow> bool \<Rightarrow> ('b, unit) pptp_op" where
  "pptp_uninstall B purge = on_backend (if purge then pb_purge B else pb_stop B)"

definition start_listener :: "'b pptp_backend \<Rightarrow> pptp_listener \<Rightarrow> ('b, unit) pptp_op" where
  "start_listener B l = on_backend (pb_start B (pl_tag l) (subnet_text l) ''0.0.0.0'')"

definition pptp_start :: "'b pptp_backend \<Rightarrow> ('b, unit) pptp_op" where
  "pptp_start B =
     seqE (bindE (getE validate_root_confirmations) liftE)
    (bindE (bindE (getE required_listener) liftE) (\<lambda>l.
     seqE (materialize B) (start_listener B l)))"

definition pptp_stop :: "'b pptp_backend \<Rightarrow> ('b, unit) pptp_op" where
  "pptp_stop B = on_backend (pb_stop B)"

text \<open>Any failure puts the old settings back, publishes them and restarts the old listener; a failure of that is only logged.\<close>

definition studio_rollback ::
  "'b pptp_backend \<Rightarrow> jobj \<Rightarrow> bool \<Rightarrow> pptp_listener option \<Rightarrow> core_exc \<Rightarrow> ('b, unit) pptp_op" where
  "studio_rollback B old was_running old_listener e =
     seqE (modE (\<lambda>d. d\<lparr>bd_settings := old\<rparr>))
    (seqE (catchE
             (seqE (materialize B)
                (case old_listener of None \<Rightarrow> ret () | Some l \<Rightarrow> whenE was_running (start_listener B l)))
             is_exception (\<lambda>_. ret ()))
       (fail e))"

definition studio_change :: "'b pptp_backend \<Rightarrow> json list \<Rightarrow> bool \<Rightarrow> ('b, unit) pptp_op" where
  "studio_change B rows was_running =
     seqE (whenE was_running (on_backend (pb_stop B)))
       (case rows of
          [] \<Rightarrow> put_inbounds (JList [])
        | row # _ \<Rightarrow>
            bindE (liftE (normalize_inbound row)) (\<lambda>l.
            seqE (put_inbounds (JList [listener_json l]))
           (seqE (materialize B)
              (whenE was_running (bindE (bindE (getE required_listener) liftE) (start_listener B))))))"

definition pptp_studio :: "'b pptp_backend \<Rightarrow> jobj \<Rightarrow> ('b, unit) pptp_op" where
  "pptp_studio B document =
     bindE (validate_studio_document B document) (\<lambda>errors.
     if errors \<noteq> [] then fail (core_error (py_join ''; '' errors))
     else
       let rows = (case jor (jget document ''inbounds'') (JList []) of JList rs \<Rightarrow> rs | _ \<Rightarrow> []) in
       bindE (getE bd_settings) (\<lambda>old.
       bindE (on_backend (pb_running B)) (\<lambda>was_running.
       bindE (bindE (getE listener_of) liftE) (\<lambda>old_listener.
       catchE (studio_change B rows was_running) is_exception (studio_rollback B old was_running old_listener)))))"

definition pptp_health :: "'b pptp_backend \<Rightarrow> ('b, health \<times> string option) pptp_op" where
  "pptp_health B =
     catchE
       (bindE (on_backend (pb_sessions B)) (\<lambda>_. seqE (on_backend (pb_metrics B)) (ret (HEALTHY, None))))
       is_core_error (\<lambda>e. ret (DEGRADED, Some (exc_text e)))"

text \<open>\<open>version\<close> is the inherited method.\<close>

definition pptp_status :: "'b pptp_backend \<Rightarrow> ('b, version_info) pptp_op \<Rightarrow> ('b, core_status) pptp_op" where
  "pptp_status B version =
     bindE (on_backend (pb_running B)) (\<lambda>running.
     bindE version (\<lambda>v.
     bindE (if running then pptp_health B else ret (UNKNOWN, None)) (\<lambda>(health, message).
     ret \<lparr>cs_core_id = ''pptp'', cs_state = (if running then RUNNING else STOPPED), cs_health = health,
          cs_enabled = True, cs_version = vi_version v, cs_version_reason = vi_reason v, cs_message = message\<rparr>)))"

definition pptp_logs :: "'b pptp_backend \<Rightarrow> int \<Rightarrow> ('b, string list) pptp_op" where
  "pptp_logs B tail = on_backend (pb_logs B tail)"

definition pptp_claims :: "('b, listener_claim list) pptp_op" where
  "pptp_claims =
     bindE (bindE (getE listener_of) liftE) (\<lambda>l.
     if l = None then ret []
     else
       bindE (bindE (getE (\<lambda>d. bindR (setting d ''management_port'') (\<lambda>p. conv (py_int p)))) liftE) (\<lambda>mport.
       ret [\<lparr>lc_protocol = ''pptp'', lc_transport = ''tcp'', lc_address = ''0.0.0.0'', lc_port = 1723\<rparr>,
            \<lparr>lc_protocol = ''accel-ppp-cli'', lc_transport = ''tcp'', lc_address = ''127.0.0.1'', lc_port = mport\<rparr>]))"

section \<open>Accounts\<close>

definition put_setting :: "string \<Rightarrow> string \<Rightarrow> user_account \<Rightarrow> user_account" where
  "put_setting k v a = a\<lparr>ua_settings := dput k (JStr v) (ua_settings a)\<rparr>"

definition ensure_password :: "'b pptp_backend \<Rightarrow> user_account \<Rightarrow> ('b, user_account) pptp_op" where
  "ensure_password B a =
     (if truthy (jget (ua_settings a) ''password'') then ret a
      else bindE (on_backend (\<lambda>b. let (tok, b') = pb_token B b in (Inr tok, b'))) (\<lambda>tok. ret (put_setting ''password'' tok a)))"

definition has_address :: "user_account \<Rightarrow> bool" where
  "has_address a \<longleftrightarrow> truthy (jget (ua_settings a) ''assigned_ipv4'')"

definition used_addresses :: "(string, user_account) dict \<Rightarrow> string list" where
  "used_addresses accounts = map assigned_of (filter has_address (map snd accounts))"

definition client_slots :: "pptp_listener \<Rightarrow> string list" where
  "client_slots l = map v4_text (tl (hosts4 (fst (pl_net l)) (snd (pl_net l))))"

definition free_slot :: "string list \<Rightarrow> string list \<Rightarrow> int \<Rightarrow> string option" where
  "free_slot slots used uid =
     (let start = nat (max 1 uid - 1) mod length slots in
      List.find (\<lambda>v. v \<notin> set used) (map (\<lambda>k. slots ! ((start + k) mod length slots)) [0..<length slots]))"

definition assign_address :: "(string, user_account) dict \<Rightarrow> pptp_listener option \<Rightarrow> user_account \<Rightarrow> core_exc + user_account" where
  "assign_address accounts l a =
     (case l of
        None \<Rightarrow> Inr a
      | Some l \<Rightarrow>
          let slots = client_slots l in
          bindR (check (slots \<noteq> []) ''PPTP subnet has no address available for bandwidth identity'') (\<lambda>_.
          case free_slot slots (used_addresses accounts) (ua_user_id a) of
            None \<Rightarrow> Inl (core_error ''PPTP address pool exhausted'')
          | Some v \<Rightarrow> Inr (put_setting ''assigned_ipv4'' v a)))"

definition ensure_bandwidth_address :: "user_account \<Rightarrow> ('b, user_account) pptp_op" where
  "ensure_bandwidth_address a =
     (if has_address a then ret a
      else bindE (getE (\<lambda>d. bindR (listener_of d) (\<lambda>l. assign_address (accounts_of d) l a))) liftE)"

text \<open>
  \<^verbatim>\<open>model_copy\<close> is shallow: the copy of a stored account shares its settings, so what is drawn for the copy is
  written into the stored account at once. Every account is stored under its own id.
\<close>

definition share_settings :: "user_account \<Rightarrow> ('b, unit) pptp_op" where
  "share_settings a =
     bindE (getE accounts_of) (\<lambda>accounts.
     case dget accounts (ua_account_id a) of
       None \<Rightarrow> ret ()
     | Some x \<Rightarrow> put_accounts (dput (ua_account_id a) (x\<lparr>ua_settings := ua_settings a\<rparr>) accounts))"

definition prepared_account :: "'b pptp_backend \<Rightarrow> bool \<Rightarrow> user_account \<Rightarrow> ('b, user_account) pptp_op" where
  "prepared_account B shared a =
     bindE (ensure_password B a) (\<lambda>a1.
     seqE (whenE shared (share_settings a1))
    (bindE (ensure_bandwidth_address a1) (\<lambda>a2.
     seqE (whenE shared (share_settings a2))
    (seqE (liftE (validate_account a2)) (ret a2)))))"

definition publish_accounts :: "'b pptp_backend \<Rightarrow> ('b, unit) pptp_op" where
  "publish_accounts B =
     bindE (bindE (getE listener_of) liftE) (\<lambda>l.
     if l = None then ret () else seqE (materialize B) (on_backend (pb_reload B)))"

definition put_account :: "user_account \<Rightarrow> ('b, unit) pptp_op" where
  "put_account a = bindE (getE accounts_of) (\<lambda>accounts. put_accounts (dput (ua_account_id a) a accounts))"

text \<open>The entry of an account as it was before a change.\<close>

definition restore_account :: "string \<Rightarrow> user_account option \<Rightarrow> ('b, unit) pptp_op" where
  "restore_account aid previous =
     bindE (getE accounts_of) (\<lambda>accounts.
     put_accounts (case previous of None \<Rightarrow> dpop aid accounts | Some p \<Rightarrow> dput aid p accounts))"

definition taken_back ::
  "'b pptp_backend \<Rightarrow> ('b, unit) pptp_op \<Rightarrow> ('b, unit) pptp_op \<Rightarrow> ('b, unit) pptp_op" where
  "taken_back B change undo =
     catchE change is_exception (\<lambda>e. seqE undo (seqE (publish_accounts B) (fail e)))"

definition pptp_create :: "'b pptp_backend \<Rightarrow> user_account \<Rightarrow> ('b, unit) pptp_op" where
  "pptp_create B account =
     bindE (prepared_account B False account) (\<lambda>a.
     bindE (getE (\<lambda>d. dget (accounts_of d) (ua_account_id a))) (\<lambda>previous.
     seqE (put_account a)
       (taken_back B (publish_accounts B) (restore_account (ua_account_id a) previous))))"

definition must_disconnect :: "user_account option \<Rightarrow> user_account \<Rightarrow> bool" where
  "must_disconnect previous a \<longleftrightarrow>
     (case previous of
        None \<Rightarrow> False
      | Some p \<Rightarrow> \<not> ua_enabled a \<or> jget (ua_settings p) ''password'' \<noteq> jget (ua_settings a) ''password'')"

text \<open>\<open>shared\<close>: the account is a copy of the stored one.\<close>

definition pptp_update_account :: "'b pptp_backend \<Rightarrow> bool \<Rightarrow> user_account \<Rightarrow> ('b, unit) pptp_op" where
  "pptp_update_account B shared account =
     bindE (prepared_account B shared account) (\<lambda>a.
     bindE (getE (\<lambda>d. dget (accounts_of d) (ua_account_id a))) (\<lambda>previous.
     seqE (put_account a)
       (taken_back B
          (seqE (publish_accounts B)
             (whenE (must_disconnect previous a) (on_backend (pb_terminate B (ua_account_id a)))))
          (restore_account (ua_account_id a) previous))))"

text \<open>
  One transaction on the ledger's SQLite file: it changes the ledger whole, or raises (\<open>pb_transaction\<close>: a locked database,
  a full disk) and leaves it alone.
\<close>

definition on_ledger :: "'b pptp_backend \<Rightarrow> (ledger \<Rightarrow> 'a \<times> ledger) \<Rightarrow> ('b, 'a) pptp_op" where
  "on_ledger B f =
     seqE (on_backend (pb_transaction B))
       (\<lambda>d. let (x, L) = f (pp_ledger (bd_self d)) in (Inr x, d\<lparr>bd_self := (bd_self d)\<lparr>pp_ledger := L\<rparr>\<rparr>))"

definition pptp_delete :: "'b pptp_backend \<Rightarrow> string \<Rightarrow> ('b, unit) pptp_op" where
  "pptp_delete B aid =
     bindE (getE (\<lambda>d. dget (accounts_of d) aid)) (\<lambda>previous.
     seqE (bindE (getE accounts_of) (\<lambda>accounts. put_accounts (dpop aid accounts)))
       (catchE
          (seqE (publish_accounts B)
          (seqE (on_backend (pb_terminate B aid))
             (on_ledger B (\<lambda>L. ((), forget_account aid False L)))))
          is_exception
          (\<lambda>e. seqE (case previous of None \<Rightarrow> ret () | Some p \<Rightarrow> seqE (restore_account aid (Some p)) (publish_accounts B)) (fail e))))"

definition pptp_suspend :: "'b pptp_backend \<Rightarrow> string \<Rightarrow> ('b, unit) pptp_op" where
  "pptp_suspend B aid =
     bindE (getE (\<lambda>d. dget (accounts_of d) aid)) (\<lambda>existing.
     case existing of None \<Rightarrow> ret () | Some a \<Rightarrow> pptp_update_account B True (a\<lparr>ua_enabled := False\<rparr>))"

definition pptp_resume :: "'b pptp_backend \<Rightarrow> user_account \<Rightarrow> ('b, unit) pptp_op" where
  "pptp_resume B account =
     bindE (getE (\<lambda>d. dget (accounts_of d) (ua_account_id account))) (\<lambda>existing.
     let (shared, a) =
       (case existing of
          None \<Rightarrow> (False, account)
        | Some x \<Rightarrow> if ua_settings account = [] then (True, x) else (False, account))
     in pptp_update_account B shared (a\<lparr>ua_enabled := True\<rparr>))"

text \<open>The addresses are drawn against the accounts that the driver still has, not against those of the call.\<close>

fun desired_accounts ::
  "'b pptp_backend \<Rightarrow> user_account list \<Rightarrow> (string, user_account) dict \<Rightarrow> ('b, (string, user_account) dict) pptp_op" where
  "desired_accounts B [] desired = ret desired"
| "desired_accounts B (account # accounts) desired =
     bindE (prepared_account B False account) (\<lambda>a. desired_accounts B accounts (dput (ua_account_id a) a desired))"

definition pptp_sync :: "'b pptp_backend \<Rightarrow> user_account list \<Rightarrow> ('b, unit) pptp_op" where
  "pptp_sync B accounts =
     bindE (desired_accounts B accounts []) (\<lambda>desired.
     bindE (getE accounts_of) (\<lambda>previous.
     seqE (put_accounts desired) (taken_back B (publish_accounts B) (put_accounts previous))))"

definition pptp_identities :: "'b pptp base_driver \<Rightarrow> json" where
  "pptp_identities d =
     JObj (map (\<lambda>(aid, a). (aid, JObj [(''inner_sources'', JList (if has_address a then [JStr (assigned_of a)] else [])),
       (''uids'', JList [])])) (accounts_of d))"

section \<open>Usage and sessions\<close>

fun observe_totals ::
  "(string, int \<times> int) dict \<Rightarrow> string list \<Rightarrow> string delta_tracker \<Rightarrow> usage_record list \<times> string delta_tracker" where
  "observe_totals totals [] t = ([], t)"
| "observe_totals totals (aid # aids) t =
     (let (up, down) = (case dget totals aid of None \<Rightarrow> (0, 0) | Some x \<Rightarrow> x);
          ((du, dd), t1) = observe aid up down t;
          (rest, t2) = observe_totals totals aids t1
      in (\<lparr>ur_core_id = ''pptp'', ur_account_id = aid, ur_uplink_bytes = du, ur_downlink_bytes = dd\<rparr> # rest, t2))"

definition usage_records ::
  "(string, int \<times> int) dict \<Rightarrow> string list option \<Rightarrow> ('b, usage_record list) pptp_op" where
  "usage_records totals account_ids d =
     (let wanted = sort (remdups (case account_ids of None \<Rightarrow> dkeys totals | Some ids \<Rightarrow> ids));
          (records, t) = observe_totals totals wanted (case bd_usage d of None \<Rightarrow> [] | Some t \<Rightarrow> t)
      in (Inr records, d\<lparr>bd_usage := Some t\<rparr>))"

definition pptp_usage :: "'b pptp_backend \<Rightarrow> string list option \<Rightarrow> ('b, usage_record list) pptp_op" where
  "pptp_usage B account_ids =
     bindE (on_backend (pb_running B)) (\<lambda>running.
     bindE (if running then on_backend (pb_sessions B) else ret []) (\<lambda>sessions.
     bindE (on_backend (pb_generation B)) (\<lambda>file.
     let generation = (case file of None \<Rightarrow> ''stopped'' | Some text \<Rightarrow> py_strip text) in
     bindE (on_ledger B (observe_ledger generation sessions)) (\<lambda>totals.
     usage_records totals account_ids))))"

definition pptp_device :: "int \<Rightarrow> pptp_session \<Rightarrow> device_session" where
  "pptp_device now s =
     \<lparr>ds_core_id = ''pptp'', ds_account_id = ss_username s,
      ds_ip = (if ss_calling_sid s = [] then None else Some (ss_calling_sid s)),
      ds_connected_at = Some (if ss_uptime s = 0 then now else now - ss_uptime s), ds_last_activity = Some now,
      ds_metadata =
        [(''assigned_ipv4'', JStr (ss_assigned_ip s)), (''interface'', JStr (ss_ifname s)),
         (''encryption'', JStr (if ss_compression s = ''mppe'' then ''MPPE128'' else ss_compression s)),
         (''carrier'', JStr ''GRE/47''), (''security_class'', JStr ''legacy_insecure'')]\<rparr>"

definition pptp_online :: "'b pptp_backend \<Rightarrow> string list option \<Rightarrow> ('b, device_session list) pptp_op" where
  "pptp_online B account_ids =
     bindE (on_backend (pb_sessions B)) (\<lambda>sessions.
     bindE (getE (\<lambda>d. pb_now B (pp_backend (bd_self d)))) (\<lambda>now.
     ret (map (pptp_device now)
            (filter (\<lambda>s. ss_state s = ''active'' \<and>
                (case account_ids of None \<Rightarrow> True | Some ids \<Rightarrow> ss_username s \<in> set ids)) sessions))))"

section \<open>The class\<close>

definition typed :: "string \<Rightarrow> json" where
  "typed ty = JObj [(''type'', JStr ty)]"

definition fixed :: "string \<Rightarrow> json \<Rightarrow> json" where
  "fixed ty v = JObj [(''type'', JStr ty), (''enum'', JList [v])]"

definition pptp_inbound_schema :: json where
  "pptp_inbound_schema =
     JObj
       [(''type'', JStr ''object''),
        (''required'', JList (map JStr
           [''tag'', ''protocol'', ''listen'', ''port'', ''subnet'', ''legacy_risk_ack'', ''internet_exposure_ack'',
            ''authentication'', ''encryption'', ''network'', ''ipv6''])),
        (''properties'', JObj
           [(''tag'', JObj [(''type'', JStr ''string''), (''minLength'', JInt 1)]),
            (''protocol'', fixed ''string'' (JStr ''pptp'')), (''listen'', fixed ''string'' (JStr ''0.0.0.0'')),
            (''port'', fixed ''integer'' (JInt 1723)),
            (''subnet'', JObj [(''type'', JStr ''string''), (''minLength'', JInt 1)]), (''dns'', typed ''string''),
            (''legacy_risk_ack'', fixed ''boolean'' (JBool True)),
            (''internet_exposure_ack'', fixed ''boolean'' (JBool True)),
            (''authentication'', fixed ''string'' (JStr ''MS-CHAPv2'')),
            (''encryption'', fixed ''string'' (JStr ''MPPE128'')), (''network'', fixed ''string'' (JStr ''IPv4'')),
            (''ipv6'', fixed ''boolean'' (JBool False)), (''security_class'', fixed ''string'' (JStr ''legacy_insecure''))])]"

definition acknowledged :: json where
  "acknowledged = JObj [(''type'', JStr ''boolean''), (''default'', JBool False)]"

definition pptp_schema :: jobj where
  "pptp_schema =
     [(''type'', JStr ''object''), (''x-security-class'', JStr ''legacy_insecure''),
      (''x-security-label'', JStr ''Legacy / Insecure''),
      (''properties'', JObj
         [(''legacy_risk_ack'', acknowledged), (''internet_exposure_ack'', acknowledged), (''work_dir'', typed ''string''),
          (''executable_path'', typed ''string''), (''module_dir'', typed ''string''),
          (''management_port'',
             JObj [(''type'', JStr ''integer''), (''minimum'', JInt 1), (''maximum'', JInt 65535)]),
          (''advertise_host'', typed ''string''),
          (''inbounds'', JObj [(''type'', JStr ''array''), (''items'', pptp_inbound_schema)])])]"

definition pptp_defaults :: jobj where
  "pptp_defaults =
     [(''legacy_risk_ack'', JBool True), (''internet_exposure_ack'', JBool True),
      (''work_dir'', JStr ''/var/lib/zagros/cores/pptp''),
      (''executable_path'', JStr ''/opt/zagros/accel-ppp/1.14.0/sbin/accel-pppd''),
      (''module_dir'', JStr ''/opt/zagros/accel-ppp/1.14.0/lib/accel-ppp''), (''management_port'', JInt 22001),
      (''advertise_host'', JStr []), (''inbounds'', JList [])]"

definition pptp_metadata :: core_metadata where
  "pptp_metadata =
     \<lparr>md_id = ''pptp'', md_name = ''Independent PPTP Server - Legacy / Insecure'',
      md_description = ''Independent ACCEL-PPP 1.14.0 PPTP server. Legacy/insecure: fixed '' @
        ''TCP/1723 + GRE/47, MS-CHAPv2 only, mandatory MPPE128 and IPv4 only.'',
      md_protocols = [''pptp''],
      md_capabilities =
        [USER_MANAGEMENT, SUSPEND_RESUME, USAGE_ACCOUNTING, ONLINE_TRACKING, SERVICE_CONTROL, SELF_INSTALL,
         CLIENT_CONFIG, UDP_SUPPORT],
      md_config_schema = pptp_schema, md_default_settings = pptp_defaults,
      md_feature_capabilities =
        [(''inbound'', SUPPORTED, Some ''Independent ACCEL-PPP PPTP server (Legacy / Insecure)''),
         (''outbound'', UNSUPPORTED, Some ''PPTP outbound is not implemented'')],
      md_driver_version = ''1.0.0'', md_homepage = Some ''https://github.com/accel-ppp/accel-ppp'',
      md_release_repo = None, md_provides = [], md_requires = [], md_studio_inbounds_path = Some ''/inbounds'',
      md_studio_max_inbounds = Some 1, md_security_class = Some ''legacy_insecure'', md_stop_when_no_inbounds = True\<rparr>"

text \<open>\<open>open_backend\<close> builds the backend of the settings and finds the ledger that is on disk.\<close>

definition pptp_new ::
  "(jobj \<Rightarrow> core_exc + 'b \<times> ledger) \<Rightarrow> jobj \<Rightarrow> core_exc + 'b pptp base_driver" where
  "pptp_new open_backend given =
     (let merged = dmerge pptp_defaults given;
          inbounds = jget merged ''inbounds'';
          full = dput ''inbounds'' (if truthy inbounds then inbounds else JList [JObj default_pptp_inbound]) merged in
      bindR (open_backend full) (\<lambda>(b, L).
      Inr \<lparr>bd_settings = full, bd_usage = Some [], bd_self = \<lparr>pp_backend = b, pp_accounts = [], pp_ledger = L\<rparr>\<rparr>))"

definition pptp_version :: "'b pptp_backend \<Rightarrow> ('b, version_info) pptp_op" where
  "pptp_version B = base_version pptp_metadata (Some (on_backend (pb_version B)))"

definition pptp_class ::
  "'b pptp_backend \<Rightarrow> (jobj \<Rightarrow> core_exc + 'b \<times> ledger) \<Rightarrow> 'b pptp class_body" where
  "pptp_class B open_backend =
     \<lparr>sb_metadata = pptp_metadata, sb_new = pptp_new open_backend, sb_start = pptp_start B, sb_stop = pptp_stop B,
      sb_status = pptp_status B (pptp_version B), sb_create = pptp_create B, sb_update_account = pptp_update_account B False,
      sb_delete = pptp_delete B, sb_install = Some (pptp_install B), sb_uninstall = Some (pptp_uninstall B),
      sb_update = Some (pptp_update B), sb_health_check = None, sb_logs = Some (pptp_logs B),
      sb_suspend = Some (pptp_suspend B), sb_resume = Some (pptp_resume B), sb_sync = Some (pptp_sync B),
      sb_usage = Some (pptp_usage B), sb_online = Some (pptp_online B), sb_studio = Some (pptp_studio B),
      sb_create_hub = None, sb_delete_hub = None\<rparr>"

end
