(* ===== verification/Pptp_Props.thy ===== *)
theory Pptp_Props
  imports Pptp_Driver
begin

text \<open>
  What the account operations of the PPTP driver guarantee: a change is carried out whole or taken back, and the
  addresses that tell the accounts apart stay distinct; and where a sync breaks the latter.
\<close>

section \<open>Triples\<close>

text \<open>\<open>triple P m Q E\<close>: from \<open>P\<close>, \<open>m\<close> returns \<open>x\<close> with \<open>Q x\<close> or raises \<open>e\<close> with \<open>E e\<close>.\<close>

definition triple ::
  "('s \<Rightarrow> bool) \<Rightarrow> ('s, 'e, 'a) eff \<Rightarrow> ('a \<Rightarrow> 's \<Rightarrow> bool) \<Rightarrow> ('e \<Rightarrow> 's \<Rightarrow> bool) \<Rightarrow> bool" where
  "triple P m Q E \<longleftrightarrow> (\<forall>s. P s \<longrightarrow> (case fst (m s) of Inr x \<Rightarrow> Q x (snd (m s)) | Inl e \<Rightarrow> E e (snd (m s))))"

lemma tripleI: "(\<And>s. P s \<Longrightarrow> case fst (m s) of Inr x \<Rightarrow> Q x (snd (m s)) | Inl e \<Rightarrow> E e (snd (m s))) \<Longrightarrow> triple P m Q E"
  by (simp add: triple_def)

lemma tripleD:
  "triple P m Q E \<Longrightarrow> P s \<Longrightarrow> m s = (Inr x, s') \<Longrightarrow> Q x s'"
  "triple P m Q E \<Longrightarrow> P s \<Longrightarrow> m s = (Inl e, s') \<Longrightarrow> E e s'"
  by (auto simp: triple_def split: sum.splits)

lemma triple_basic:
  "(\<And>s. P s \<Longrightarrow> Q x s) \<Longrightarrow> triple P (ret x) Q E"
  "(\<And>s. P s \<Longrightarrow> E e s) \<Longrightarrow> triple P (fail e) Q E"
  "(\<And>s. P s \<Longrightarrow> Q (f s) s) \<Longrightarrow> triple P (getE f) Q E"
  by (simp_all add: triple_def ret_def fail_def getE_def)

lemma triple_modE: "(\<And>s. P s \<Longrightarrow> Q () (u s)) \<Longrightarrow> triple P (modE u) Q E"
  by (simp add: triple_def modE_def)

lemma triple_liftE:
  "(\<And>s x. P s \<Longrightarrow> r = Inr x \<Longrightarrow> Q x s) \<Longrightarrow> (\<And>s e. P s \<Longrightarrow> r = Inl e \<Longrightarrow> E e s) \<Longrightarrow> triple P (liftE r) Q E"
  by (cases r) (simp_all add: triple_def liftE_def)

lemma triple_bindE:
  assumes "triple P m R E" "\<And>x. triple (R x) (f x) Q E"
  shows "triple P (bindE m f) Q E"
proof (rule tripleI)
  fix s assume s: "P s"
  obtain r s1 where m: "m s = (r, s1)" by fastforce
  show "case fst (bindE m f s) of Inr x \<Rightarrow> Q x (snd (bindE m f s)) | Inl e \<Rightarrow> E e (snd (bindE m f s))"
  proof (cases r)
    case (Inl e)
    with m tripleD(2) [OF assms(1) s] show ?thesis by (simp add: bindE_def)
  next
    case (Inr x)
    with m tripleD(1) [OF assms(1) s] have "R x s1" by simp
    have run: "bindE m f s = f x s1" using m Inr by (simp add: bindE_def)
    from \<open>R x s1\<close> show ?thesis using assms(2) [of x] unfolding run triple_def by blast
  qed
qed

lemma triple_catchE:
  assumes "triple P m Q R" "\<And>e. p e \<Longrightarrow> triple (R e) (h e) Q E" "\<And>e s. \<not> p e \<Longrightarrow> R e s \<Longrightarrow> E e s"
  shows "triple P (catchE m p h) Q E"
proof (rule tripleI)
  fix s assume s: "P s"
  obtain r s1 where m: "m s = (r, s1)" by fastforce
  show "case fst (catchE m p h s) of Inr x \<Rightarrow> Q x (snd (catchE m p h s)) | Inl e \<Rightarrow> E e (snd (catchE m p h s))"
  proof (cases r)
    case (Inl e)
    with m tripleD(2) [OF assms(1) s] have R: "R e s1" by simp
    show ?thesis
    proof (cases "p e")
      case True
      then have run: "catchE m p h s = h e s1" using m Inl by (simp add: catchE_def)
      from R show ?thesis using assms(2) [OF True] unfolding run triple_def by blast
    next
      case False
      with assms(3) [OF False R] m Inl show ?thesis by (simp add: catchE_def)
    qed
  next
    case (Inr x)
    with m tripleD(1) [OF assms(1) s] show ?thesis by (simp add: catchE_def)
  qed
qed

lemma triple_keeps: "keeps P m \<Longrightarrow> triple P m (\<lambda>_. P) (\<lambda>_. P)"
  by (auto simp: triple_def keeps_def split: sum.split)

lemma triple_weaken:
  "triple P m Q E \<Longrightarrow> (\<And>s. P' s \<Longrightarrow> P s) \<Longrightarrow> (\<And>x s. Q x s \<Longrightarrow> Q' x s) \<Longrightarrow> (\<And>e s. E e s \<Longrightarrow> E' e s) \<Longrightarrow> triple P' m Q' E'"
  by (auto simp: triple_def split: sum.splits)

lemma triple_each: "(\<And>s. P s \<Longrightarrow> triple (\<lambda>s'. s' = s) m Q E) \<Longrightarrow> triple P m Q E"
  by (auto simp: triple_def)

section \<open>What leaves the accounts alone\<close>

definition same_accounts :: "'b pptp base_driver \<Rightarrow> 'b pptp base_driver \<Rightarrow> bool" where
  "same_accounts d0 d \<longleftrightarrow> accounts_of d = accounts_of d0 \<and> bd_settings d = bd_settings d0"

lemma same_refl [simp]: "same_accounts d d"
  by (simp add: same_accounts_def)

lemma listener_same: "same_accounts d0 d \<Longrightarrow> listener_of d = listener_of d0"
  by (simp add: same_accounts_def listener_of_def)

lemma keeps_on_backend [keeps_intros]: "keeps (same_accounts d0) (on_backend f)"
  by (auto simp: keeps_def on_backend_def same_accounts_def split: prod.split)

lemma keeps_on_ledger [keeps_intros]: "keeps (same_accounts d0) (on_ledger B f)"
  unfolding on_ledger_def
  by (rule keeps_bindE [OF keeps_on_backend]) (auto simp: keeps_def same_accounts_def split: prod.split)

lemma keeps_materialize [keeps_intros]: "keeps (same_accounts d0) (materialize B)"
  unfolding materialize_def by (intro keeps_intros)

lemma keeps_publish [keeps_intros]: "keeps (same_accounts d0) (publish_accounts B)"
  unfolding publish_accounts_def by (intro keeps_intros)

lemma keeps_ensure_password [keeps_intros]: "keeps (same_accounts d0) (ensure_password B a)"
  unfolding ensure_password_def by (intro keeps_intros)

lemma keeps_ensure_address [keeps_intros]: "keeps (same_accounts d0) (ensure_bandwidth_address a)"
  unfolding ensure_bandwidth_address_def by (intro keeps_intros)

section \<open>The account that is stored\<close>

text \<open>
  What may be drawn for a given account with the accounts and the listener of \<open>d\<close>: a password and a free address, when
  it has none.
\<close>

definition filled_as :: "'b pptp base_driver \<Rightarrow> user_account \<Rightarrow> user_account \<Rightarrow> bool" where
  "filled_as d given a \<longleftrightarrow>
     ua_account_id a = ua_account_id given \<and> ua_enabled a = ua_enabled given \<and>
     (if has_address given then has_address a \<and> assigned_of a = assigned_of given
      else has_address a \<longrightarrow>
        (\<exists>l. listener_of d = Inr (Some l) \<and> assigned_of a \<in> set (client_slots l) \<and>
             assigned_of a \<notin> set (used_addresses (accounts_of d))))"

definition prepared_as :: "'b pptp base_driver \<Rightarrow> user_account \<Rightarrow> user_account \<Rightarrow> bool" where
  "prepared_as d given a \<longleftrightarrow> validate_account a = Inr () \<and> filled_as d given a"

definition complete :: "user_account \<Rightarrow> bool" where
  "complete a \<longleftrightarrow> has_address a \<and> truthy (jget (ua_settings a) ''password'')"

text \<open>The state while \<open>a\<close> is being prepared; \<open>sh\<close> is the stored account that shares the settings.\<close>

definition noted :: "'b pptp base_driver \<Rightarrow> user_account option \<Rightarrow> user_account \<Rightarrow> 'b pptp base_driver \<Rightarrow> bool" where
  "noted d0 sh a d \<longleftrightarrow> bd_settings d = bd_settings d0 \<and>
     accounts_of d =
       (case sh of
          None \<Rightarrow> accounts_of d0
        | Some x \<Rightarrow> dput (ua_account_id x) (x\<lparr>ua_settings := ua_settings a\<rparr>) (accounts_of d0))"

definition sharing :: "'b pptp base_driver \<Rightarrow> user_account option \<Rightarrow> user_account \<Rightarrow> bool" where
  "sharing d0 sh given \<longleftrightarrow>
     (case sh of
        None \<Rightarrow> True
      | Some x \<Rightarrow> dget (accounts_of d0) (ua_account_id x) = Some x \<and> ua_account_id given = ua_account_id x \<and>
          ua_settings given = ua_settings x)"

lemma put_setting_simps [simp]:
  "ua_account_id (put_setting k v a) = ua_account_id a" "ua_enabled (put_setting k v a) = ua_enabled a"
  "ua_user_id (put_setting k v a) = ua_user_id a"
  "jget (ua_settings (put_setting k v a)) k' = (if k' = k then JStr v else jget (ua_settings a) k')"
  by (simp_all add: put_setting_def jget_def)

lemma put_password_address [simp]:
  "has_address (put_setting ''password'' v a) = has_address a"
  "assigned_of (put_setting ''password'' v a) = assigned_of a"
  by (simp_all add: has_address_def assigned_of_def)

lemma free_slot_Some:
  assumes "free_slot slots used uid = Some v"
  shows "v \<in> set slots" "v \<notin> set used"
proof -
  from assms obtain k where k: "k < length slots" and v: "v = slots ! ((nat (max 1 uid - 1) mod length slots + k) mod length slots)"
    and free: "v \<notin> set used"
    by (auto simp: free_slot_def Let_def find_Some_iff)
  have "0 < length slots" using k by (cases slots) auto
  then show "v \<in> set slots" unfolding v by (intro nth_mem) simp
  show "v \<notin> set used" by (rule free)
qed

lemma assign_address_Inr:
  assumes "assign_address accounts l a = Inr a'" "l = Some x"
  shows "\<exists>v. a' = put_setting ''assigned_ipv4'' v a \<and> v \<in> set (client_slots x) \<and> v \<notin> set (used_addresses accounts)"
  using assms free_slot_Some
  by (auto simp: assign_address_def Let_def bindR_Inr_conv split: option.splits)

lemma slots_not_empty: "v \<in> set (client_slots l) \<Longrightarrow> v \<noteq> []"
  by (auto simp: client_slots_def v4_text_def)

lemma used_addresses_put:
  "dget accounts k = Some x \<Longrightarrow> has_address y = has_address x \<Longrightarrow> assigned_of y = assigned_of x \<Longrightarrow>
     used_addresses (dput k y accounts) = used_addresses accounts"
  by (induction accounts) (auto simp: used_addresses_def)

lemma settings_decide [simp]:
  "has_address (x\<lparr>ua_settings := ua_settings a\<rparr>) = has_address a"
  "assigned_of (x\<lparr>ua_settings := ua_settings a\<rparr>) = assigned_of a"
  by (simp_all add: has_address_def assigned_of_def)

lemma noted_same: "sharing d0 sh given \<Longrightarrow> same_accounts d0 d \<Longrightarrow> noted d0 sh given d"
  by (auto simp: noted_def sharing_def same_accounts_def update_triv split: option.splits)

lemma noted_view:
  assumes "noted d0 sh a d" "sharing d0 sh given" "has_address a = has_address given" "assigned_of a = assigned_of given"
  shows "listener_of d = listener_of d0" "used_addresses (accounts_of d) = used_addresses (accounts_of d0)"
proof -
  show "listener_of d = listener_of d0" using assms(1) by (simp add: noted_def listener_of_def)
  show "used_addresses (accounts_of d) = used_addresses (accounts_of d0)"
    using assms
    by (auto simp: noted_def sharing_def has_address_def assigned_of_def split: option.splits intro!: used_addresses_put)
qed

lemma share_triple:
  assumes "sharing d0 sh given" "ua_account_id a' = ua_account_id given"
  shows "triple (noted d0 sh a) (whenE (sh \<noteq> None) (share_settings a')) (\<lambda>_. noted d0 sh a') E"
proof (rule tripleI)
  fix d assume d: "noted d0 sh a d"
  show "case fst (whenE (sh \<noteq> None) (share_settings a') d) of
      Inr x \<Rightarrow> noted d0 sh a' (snd (whenE (sh \<noteq> None) (share_settings a') d))
    | Inl e \<Rightarrow> E e (snd (whenE (sh \<noteq> None) (share_settings a') d))"
  proof (cases sh)
    case None
    with d show ?thesis by (simp add: noted_def ret_def)
  next
    case (Some x)
    with d assms show ?thesis
      by (simp add: noted_def sharing_def share_settings_def put_accounts_def bindE_def getE_def modE_def)
  qed
qed

lemma ensure_password_triple:
  "triple (same_accounts d0) (ensure_password B given)
     (\<lambda>a d. same_accounts d0 d \<and> filled_as d0 given a \<and> has_address a = has_address given \<and>
        assigned_of a = assigned_of given \<and> (complete given \<longrightarrow> a = given))
     (\<lambda>_. same_accounts d0)"
  unfolding ensure_password_def
  by (auto intro!: triple_basic triple_bindE [OF triple_keeps] keeps_intros simp: filled_as_def complete_def)

lemma ensure_address_triple:
  assumes "\<And>d. P d \<Longrightarrow> listener_of d = listener_of d0 \<and> used_addresses (accounts_of d) = used_addresses (accounts_of d0)"
  shows "triple P (ensure_bandwidth_address given)
     (\<lambda>a d. P d \<and> filled_as d0 given a \<and> (has_address given \<longrightarrow> a = given)) (\<lambda>_. P)"
proof (rule tripleI)
  fix d assume d: "P d"
  let ?r = "bindR (listener_of d0) (\<lambda>l. assign_address (accounts_of d) l given)"
  have run: "ensure_bandwidth_address given d = (if has_address given then Inr given else ?r, d)"
    using assms [OF d] by (simp add: ensure_bandwidth_address_def ret_def liftE_def bindE_def getE_def)
  have "filled_as d0 given a" if r: "?r = Inr a" "\<not> has_address given" for a
  proof -
    from r(1) obtain l where l: "listener_of d0 = Inr l" "assign_address (accounts_of d) l given = Inr a"
      by (auto simp: bindR_Inr_conv)
    show ?thesis
    proof (cases l)
      case None
      with l(2) r(2) show ?thesis by (simp add: assign_address_def filled_as_def)
    next
      case (Some x)
      with assign_address_Inr [OF l(2) Some] l(1) r(2) slots_not_empty [of _ x] assms [OF d] show ?thesis
        by (auto simp: assigned_of_def jor_def filled_as_def)
    qed
  qed
  moreover have "filled_as d0 given given" if "has_address given" using that by (simp add: filled_as_def)
  ultimately show "case fst (ensure_bandwidth_address given d) of
      Inr a \<Rightarrow> P (snd (ensure_bandwidth_address given d)) \<and> filled_as d0 given a \<and> (has_address given \<longrightarrow> a = given)
    | Inl e \<Rightarrow> P (snd (ensure_bandwidth_address given d))"
    using d unfolding run by (auto split: sum.split)
qed

lemma filled_trans:
  "filled_as d given b \<Longrightarrow> has_address b = has_address given \<Longrightarrow> assigned_of b = assigned_of given \<Longrightarrow>
     filled_as d b a \<Longrightarrow> filled_as d given a"
  by (auto simp: filled_as_def)

text \<open>How far the preparation of \<open>given\<close> has come in \<open>d\<close>.\<close>

definition midway :: "'b pptp base_driver \<Rightarrow> user_account option \<Rightarrow> user_account \<Rightarrow> 'b pptp base_driver \<Rightarrow> bool" where
  "midway d0 sh given d \<longleftrightarrow> (\<exists>a. noted d0 sh a d \<and> filled_as d0 given a \<and> (complete given \<longrightarrow> a = given))"

lemma prepared_account_triple:
  assumes "sharing d0 sh given"
  shows "triple (same_accounts d0) (prepared_account B (sh \<noteq> None) given)
     (\<lambda>a d. noted d0 sh a d \<and> prepared_as d0 given a \<and> (complete given \<longrightarrow> a = given)) (\<lambda>_. midway d0 sh given)"
  unfolding prepared_account_def
proof (rule triple_bindE)
  have start: "midway d0 sh given d" if "same_accounts d0 d" for d
    using noted_same [OF assms that] by (auto simp: midway_def filled_as_def intro!: exI [of _ given])
  show "triple (same_accounts d0) (ensure_password B given)
     (\<lambda>a d. same_accounts d0 d \<and> filled_as d0 given a \<and> has_address a = has_address given \<and>
        assigned_of a = assigned_of given \<and> (complete given \<longrightarrow> a = given)) (\<lambda>_. midway d0 sh given)"
    by (rule triple_weaken [OF ensure_password_triple]) (use start in auto)
next
  fix a1
  let ?first = "filled_as d0 given a1 \<and> has_address a1 = has_address given \<and> assigned_of a1 = assigned_of given \<and>
        (complete given \<longrightarrow> a1 = given)"
  let ?rest = "bindE (ensure_bandwidth_address a1) (\<lambda>a2. seqE (whenE (sh \<noteq> None) (share_settings a2))
      (seqE (liftE (validate_account a2)) (ret a2)))"
  let ?Q = "\<lambda>a d. noted d0 sh a d \<and> prepared_as d0 given a \<and> (complete given \<longrightarrow> a = given)"
  show "triple (\<lambda>d. same_accounts d0 d \<and> ?first) (seqE (whenE (sh \<noteq> None) (share_settings a1)) ?rest) ?Q (\<lambda>_. midway d0 sh given)"
  proof (cases ?first)
    case first: True
    show ?thesis
    proof (rule triple_bindE [where R = "\<lambda>_. noted d0 sh a1"])
      show "triple (\<lambda>d. same_accounts d0 d \<and> ?first) (whenE (sh \<noteq> None) (share_settings a1)) (\<lambda>_. noted d0 sh a1)
          (\<lambda>_. midway d0 sh given)"
        by (rule triple_weaken [OF share_triple [OF assms, of a1 given]])
          (use first noted_same [OF assms] in \<open>auto simp: filled_as_def\<close>)
      show "triple (noted d0 sh a1) ?rest ?Q (\<lambda>_. midway d0 sh given)"
      proof (rule triple_bindE)
        show "triple (noted d0 sh a1) (ensure_bandwidth_address a1)
            (\<lambda>a d. noted d0 sh a1 d \<and> filled_as d0 given a \<and> (complete given \<longrightarrow> a = given)) (\<lambda>_. midway d0 sh given)"
        proof (rule triple_weaken [OF ensure_address_triple [of "noted d0 sh a1" d0 a1]])
          show "noted d0 sh a1 d \<Longrightarrow>
              listener_of d = listener_of d0 \<and> used_addresses (accounts_of d) = used_addresses (accounts_of d0)" for d
            using noted_view [OF _ assms] first by blast
          show "noted d0 sh a1 d \<and> filled_as d0 a1 a \<and> (has_address a1 \<longrightarrow> a = a1) \<Longrightarrow>
              noted d0 sh a1 d \<and> filled_as d0 given a \<and> (complete given \<longrightarrow> a = given)" for a d
            using filled_trans [of d0 given a1 a] first by (auto simp: complete_def)
          show "noted d0 sh a1 d \<Longrightarrow> midway d0 sh given d" for d
            using first by (auto simp: midway_def)
        qed simp
      next
        fix a2
        show "triple (\<lambda>d. noted d0 sh a1 d \<and> filled_as d0 given a2 \<and> (complete given \<longrightarrow> a2 = given))
            (seqE (whenE (sh \<noteq> None) (share_settings a2)) (seqE (liftE (validate_account a2)) (ret a2))) ?Q
            (\<lambda>_. midway d0 sh given)"
        proof (cases "filled_as d0 given a2 \<and> (complete given \<longrightarrow> a2 = given)")
          case True
          show ?thesis
          proof (rule triple_bindE [where R = "\<lambda>_. noted d0 sh a2"])
            show "triple (\<lambda>d. noted d0 sh a1 d \<and> filled_as d0 given a2 \<and> (complete given \<longrightarrow> a2 = given))
                (whenE (sh \<noteq> None) (share_settings a2)) (\<lambda>_. noted d0 sh a2) (\<lambda>_. midway d0 sh given)"
              by (rule triple_weaken [OF share_triple [OF assms, of a2 a1]]) (use True in \<open>auto simp: filled_as_def\<close>)
            show "triple (noted d0 sh a2) (seqE (liftE (validate_account a2)) (ret a2)) ?Q (\<lambda>_. midway d0 sh given)"
              by (rule triple_bindE [where R = "\<lambda>_ d. noted d0 sh a2 d \<and> validate_account a2 = Inr ()"])
                (use True in \<open>auto intro!: triple_liftE triple_basic simp: midway_def prepared_as_def\<close>)
          qed
        qed (auto simp: triple_def)
      qed
    qed
  qed (auto simp: triple_def)
qed

lemma prepared_alone_triple:
  "triple (same_accounts d0) (prepared_account B False given)
     (\<lambda>a d. same_accounts d0 d \<and> prepared_as d0 given a) (\<lambda>_. same_accounts d0)"
  using prepared_account_triple [of d0 None given B]
  by (simp add: sharing_def) (erule triple_weaken, auto simp: noted_def midway_def same_accounts_def)

section \<open>A change is carried out or taken back\<close>

datatype pptp_command =
    Create user_account
  | Update user_account
  | Delete string
  | Suspend string
  | Resume user_account
  | Sync "user_account list"

fun pptp_do :: "'b pptp_backend \<Rightarrow> pptp_command \<Rightarrow> ('b, unit) pptp_op" where
  "pptp_do B (Create a) = pptp_create B a"
| "pptp_do B (Update a) = pptp_update_account B False a"
| "pptp_do B (Delete aid) = pptp_delete B aid"
| "pptp_do B (Suspend aid) = pptp_suspend B aid"
| "pptp_do B (Resume a) = pptp_resume B a"
| "pptp_do B (Sync as) = pptp_sync B as"

definition stored_as :: "'b pptp base_driver \<Rightarrow> user_account \<Rightarrow> (string, user_account) dict \<Rightarrow> bool" where
  "stored_as d given accounts \<longleftrightarrow>
     (\<exists>a. prepared_as d given a \<and> accounts = dput (ua_account_id given) a (accounts_of d))"

definition resumed :: "'b pptp base_driver \<Rightarrow> user_account \<Rightarrow> user_account" where
  "resumed d given =
     (case dget (accounts_of d) (ua_account_id given) of
        None \<Rightarrow> given
      | Some x \<Rightarrow> if ua_settings given = [] then x else given)\<lparr>ua_enabled := True\<rparr>"

text \<open>The stored account that a command copies, settings and all.\<close>

fun copied :: "'b pptp base_driver \<Rightarrow> pptp_command \<Rightarrow> user_account option" where
  "copied d (Suspend aid) = dget (accounts_of d) aid"
| "copied d (Resume a) = (if ua_settings a = [] then dget (accounts_of d) (ua_account_id a) else None)"
| "copied d _ = None"

text \<open>The accounts that a command asks for.\<close>

fun applied :: "'b pptp base_driver \<Rightarrow> pptp_command \<Rightarrow> (string, user_account) dict \<Rightarrow> bool" where
  "applied d (Create a) accounts \<longleftrightarrow> stored_as d a accounts"
| "applied d (Update a) accounts \<longleftrightarrow> stored_as d a accounts"
| "applied d (Delete aid) accounts \<longleftrightarrow> accounts = dpop aid (accounts_of d)"
| "applied d (Suspend aid) accounts \<longleftrightarrow>
     (case dget (accounts_of d) aid of
        None \<Rightarrow> accounts = accounts_of d
      | Some x \<Rightarrow> stored_as d (x\<lparr>ua_enabled := False\<rparr>) accounts)"
| "applied d (Resume a) accounts \<longleftrightarrow> stored_as d (resumed d a) accounts"
| "applied d (Sync as) accounts \<longleftrightarrow>
     (\<exists>bs. list_all2 (prepared_as d) as bs \<and> accounts = fold (\<lambda>b. dput (ua_account_id b) b) bs [])"

text \<open>
  The accounts before a command, except that the settings of an account that was copied before it was complete may have
  been filled.
\<close>

definition rolled_back :: "'b pptp base_driver \<Rightarrow> user_account option \<Rightarrow> (string, user_account) dict \<Rightarrow> bool" where
  "rolled_back d sh accounts \<longleftrightarrow> dget accounts = dget (accounts_of d) \<or>
     (\<exists>x s. sh = Some x \<and> \<not> complete x \<and> filled_as d x (x\<lparr>ua_settings := s\<rparr>) \<and>
        dget accounts = (dget (accounts_of d))(ua_account_id x \<mapsto> x\<lparr>ua_settings := s\<rparr>))"

lemma rolled_back_same: "dget accounts = dget (accounts_of d) \<Longrightarrow> rolled_back d sh accounts"
  by (simp add: rolled_back_def)

text \<open>Every account is stored under its own id.\<close>

definition own_ids :: "(string, user_account) dict \<Rightarrow> bool" where
  "own_ids accounts \<longleftrightarrow> (\<forall>k a. dget accounts k = Some a \<longrightarrow> ua_account_id a = k)"

abbreviation holds :: "(string, user_account) dict \<Rightarrow> 'b pptp base_driver \<Rightarrow> bool" where
  "holds accounts d \<equiv> accounts_of d = accounts"

lemma keeps_holds: "(\<And>d0. keeps (same_accounts d0) m) \<Longrightarrow> keeps (holds A) m"
  by (force simp: keeps_def same_accounts_def)

lemma triple_put_accounts: "triple P (put_accounts A) (\<lambda>_. holds A) E"
  unfolding put_accounts_def by (rule triple_modE) simp

lemma taken_back_triple:
  assumes "\<And>d0. keeps (same_accounts d0) change"
    and "triple (holds A1) undo (\<lambda>_. holds A2) (\<lambda>_ _. False)"
  shows "triple (holds A1) (taken_back B change undo) (\<lambda>_. holds A1)
    (\<lambda>e d. holds A2 d \<or> e = CancelledError \<and> holds A1 d)"
  unfolding taken_back_def
proof (rule triple_catchE)
  show "triple (holds A1) change (\<lambda>_. holds A1) (\<lambda>_. holds A1)"
    using keeps_holds [OF assms(1)] by (rule triple_keeps)
next
  fix e
  show "triple (holds A1) (seqE undo (seqE (publish_accounts B) (fail e))) (\<lambda>_. holds A1)
      (\<lambda>e d. holds A2 d \<or> e = CancelledError \<and> holds A1 d)"
  proof (rule triple_bindE [OF triple_weaken [OF assms(2)]], assumption, assumption)
    fix x
    show "triple (holds A2) (seqE (publish_accounts B) (fail e)) (\<lambda>_. holds A1)
        (\<lambda>e d. holds A2 d \<or> e = CancelledError \<and> holds A1 d)"
      by (rule triple_bindE [where R = "\<lambda>_. holds A2"])
        (auto intro: triple_weaken [OF triple_keeps [OF keeps_holds [OF keeps_publish]]] triple_basic)
  qed simp
qed (auto simp: is_exception_def)

lemma restore_account_triple:
  "triple (holds A) (restore_account aid previous)
     (\<lambda>_. holds (case previous of None \<Rightarrow> dpop aid A | Some p \<Rightarrow> dput aid p A)) (\<lambda>_ _. False)"
  unfolding restore_account_def put_accounts_def
  by (rule triple_bindE [where R = "\<lambda>x d. x = A \<and> holds A d"]) (auto intro!: triple_basic triple_modE simp: triple_def modE_def getE_def)

lemma restored_entries:
  "dget (case dget A aid of None \<Rightarrow> dpop aid (dput aid a A) | Some p \<Rightarrow> dput aid p (dput aid a A)) = dget A"
  by (auto simp: fun_eq_iff split: option.split)

text \<open>The part of a change after the account is prepared.\<close>

definition entered :: "'b pptp_backend \<Rightarrow> (user_account option \<Rightarrow> ('b, unit) pptp_op) \<Rightarrow> user_account \<Rightarrow> ('b, unit) pptp_op" where
  "entered B change a =
     bindE (getE (\<lambda>d. dget (accounts_of d) (ua_account_id a))) (\<lambda>previous.
     seqE (put_account a)
       (taken_back B (change previous) (restore_account (ua_account_id a) previous)))"

lemma put_account_triple: "triple (holds A) (put_account a) (\<lambda>_. holds (dput (ua_account_id a) a A)) E"
  unfolding put_account_def put_accounts_def
  by (rule triple_bindE [where R = "\<lambda>x d. x = A \<and> holds A d"]) (auto intro!: triple_basic triple_modE simp: triple_def modE_def getE_def)

lemma entered_triple:
  assumes "\<And>p d0. keeps (same_accounts d0) (change p)"
  shows "triple (holds A) (entered B change a) (\<lambda>_. holds (dput (ua_account_id a) a A))
    (\<lambda>e d. dget (accounts_of d) = dget A \<or> e = CancelledError \<and> holds (dput (ua_account_id a) a A) d)"
  unfolding entered_def
proof (rule triple_bindE [where R = "\<lambda>x d. x = dget A (ua_account_id a) \<and> holds A d"])
  fix previous
  let ?A1 = "dput (ua_account_id a) a A"
  show "triple (\<lambda>d. previous = dget A (ua_account_id a) \<and> holds A d)
     (seqE (put_account a) (taken_back B (change previous) (restore_account (ua_account_id a) previous)))
     (\<lambda>_. holds ?A1) (\<lambda>e d. dget (accounts_of d) = dget A \<or> e = CancelledError \<and> holds ?A1 d)"
  proof (cases "previous = dget A (ua_account_id a)")
    case True
    show ?thesis
    proof (rule triple_bindE [where R = "\<lambda>_. holds ?A1"])
      show "triple (\<lambda>d. previous = dget A (ua_account_id a) \<and> holds A d) (put_account a) (\<lambda>_. holds ?A1)
          (\<lambda>e d. dget (accounts_of d) = dget A \<or> e = CancelledError \<and> holds ?A1 d)"
        by (rule triple_weaken [OF put_account_triple [of A]]) auto
      show "triple (holds ?A1) (taken_back B (change previous) (restore_account (ua_account_id a) previous))
          (\<lambda>_. holds ?A1) (\<lambda>e d. dget (accounts_of d) = dget A \<or> e = CancelledError \<and> holds ?A1 d)"
        by (rule triple_weaken [OF taken_back_triple [OF assms restore_account_triple]])
          (auto simp: True restored_entries)
    qed
  qed (auto simp: triple_def)
qed (auto intro: triple_basic)

text \<open>An account whose switch alone differs.\<close>

lemma switched [simp]:
  "has_address (x\<lparr>ua_enabled := b\<rparr>) = has_address x" "assigned_of (x\<lparr>ua_enabled := b\<rparr>) = assigned_of x"
  "complete (x\<lparr>ua_enabled := b\<rparr>) = complete x"
  by (simp_all add: has_address_def assigned_of_def complete_def)

lemma noted_rolled_back:
  assumes "noted d0 sh a d" "filled_as d0 given a" "complete given \<longrightarrow> a = given" "sharing d0 sh given"
    and "dget A = dget (accounts_of d)"
  shows "rolled_back d0 sh A"
proof (cases sh)
  case None
  with assms(1,5) show ?thesis by (simp add: noted_def rolled_back_same)
next
  case (Some x)
  have x: "dget (accounts_of d0) (ua_account_id x) = Some x" "ua_account_id given = ua_account_id x"
    "ua_settings given = ua_settings x"
    using assms(4) Some by (simp_all add: sharing_def)
  have given: "has_address given = has_address x" "assigned_of given = assigned_of x" "complete given = complete x"
    using x(3) by (simp_all add: has_address_def assigned_of_def complete_def)
  have A: "dget A = (dget (accounts_of d0))(ua_account_id x \<mapsto> x\<lparr>ua_settings := ua_settings a\<rparr>)"
    using assms(1,5) Some by (simp add: noted_def)
  show ?thesis
  proof (cases "complete x")
    case True
    with assms(3) given(3) x(3) have "ua_settings a = ua_settings x" by simp
    with x(1) A have "dget A = dget (accounts_of d0)" by auto
    then show ?thesis by (rule rolled_back_same)
  next
    case False
    moreover have "filled_as d0 x (x\<lparr>ua_settings := ua_settings a\<rparr>)"
      using assms(2) unfolding filled_as_def given by simp
    ultimately show ?thesis using Some A by (auto simp: rolled_back_def)
  qed
qed

lemma noted_stored:
  assumes "noted d0 sh a d" "sharing d0 sh given" "prepared_as d0 given a" "accounts = dput (ua_account_id a) a (accounts_of d)"
  shows "stored_as d0 given accounts"
  using assms by (auto simp: noted_def sharing_def stored_as_def prepared_as_def filled_as_def split: option.splits intro!: exI [of _ a])

lemma stored_triple:
  assumes "\<And>a p d0. keeps (same_accounts d0) (change a p)" "sharing d0 sh given"
  shows "triple (same_accounts d0) (bindE (prepared_account B (sh \<noteq> None) given) (\<lambda>a. entered B (change a) a))
    (\<lambda>_ d. stored_as d0 given (accounts_of d))
    (\<lambda>e d. rolled_back d0 sh (accounts_of d) \<or> e = CancelledError \<and> stored_as d0 given (accounts_of d))"
    (is "triple _ _ _ ?E")
proof (rule triple_bindE)
  show "triple (same_accounts d0) (prepared_account B (sh \<noteq> None) given)
      (\<lambda>a d. noted d0 sh a d \<and> prepared_as d0 given a \<and> (complete given \<longrightarrow> a = given)) ?E"
    by (rule triple_weaken [OF prepared_account_triple [OF assms(2)]])
      (auto simp: midway_def intro: noted_rolled_back [OF _ _ _ assms(2)])
next
  fix a
  let ?P = "\<lambda>d. noted d0 sh a d \<and> prepared_as d0 given a \<and> (complete given \<longrightarrow> a = given)"
  show "triple ?P (entered B (change a) a) (\<lambda>_ d. stored_as d0 given (accounts_of d)) ?E"
  proof (rule triple_each)
    fix d assume d: "?P d"
    then have "rolled_back d0 sh A" if "dget A = dget (accounts_of d)" for A
      using noted_rolled_back [OF _ _ _ assms(2) that, of a] by (simp add: prepared_as_def)
    moreover have "stored_as d0 given (dput (ua_account_id a) a (accounts_of d))"
      using d by (intro noted_stored [OF _ assms(2)]) auto
    ultimately show "triple (\<lambda>d'. d' = d) (entered B (change a) a) (\<lambda>_ d. stored_as d0 given (accounts_of d)) ?E"
      by (intro triple_weaken [OF entered_triple [OF assms(1), where A = "accounts_of d" and B = B and a = a]]) auto
  qed
qed

lemma create_triple:
  "triple (same_accounts d0) (pptp_create B given) (\<lambda>_ d. stored_as d0 given (accounts_of d))
    (\<lambda>e d. rolled_back d0 None (accounts_of d) \<or> e = CancelledError \<and> stored_as d0 given (accounts_of d))"
  using stored_triple [where change = "\<lambda>_ _. publish_accounts B" and sh = None, OF keeps_publish]
  by (simp add: pptp_create_def entered_def sharing_def)

lemma update_triple:
  assumes "sharing d0 sh given"
  shows "triple (same_accounts d0) (pptp_update_account B (sh \<noteq> None) given) (\<lambda>_ d. stored_as d0 given (accounts_of d))
    (\<lambda>e d. rolled_back d0 sh (accounts_of d) \<or> e = CancelledError \<and> stored_as d0 given (accounts_of d))"
  using stored_triple [OF _ assms, of "\<lambda>a previous. seqE (publish_accounts B)
      (whenE (must_disconnect previous a) (on_backend (pb_terminate B (ua_account_id a))))" B]
  by (auto simp: pptp_update_account_def entered_def intro: keeps_intros)

lemma delete_triple:
  "triple (same_accounts d0) (pptp_delete B aid) (\<lambda>_. holds (dpop aid (accounts_of d0)))
    (\<lambda>e d. dget (accounts_of d) = dget (accounts_of d0) \<or> e = CancelledError \<and> holds (dpop aid (accounts_of d0)) d)"
  unfolding pptp_delete_def
proof (rule triple_bindE [where R = "\<lambda>p d. p = dget (accounts_of d0) aid \<and> holds (accounts_of d0) d"])
  fix previous
  let ?A = "accounts_of d0" and ?A1 = "dpop aid (accounts_of d0)"
  let ?E = "\<lambda>e d. dget (accounts_of d) = dget ?A \<or> e = CancelledError \<and> holds ?A1 d"
  let ?change = "seqE (publish_accounts B) (seqE (on_backend (pb_terminate B aid)) (on_ledger B (\<lambda>L. ((), forget_account aid False L))))"
  have undo: "triple (holds ?A1)
      (seqE (case previous of None \<Rightarrow> ret () | Some p \<Rightarrow> seqE (restore_account aid (Some p)) (publish_accounts B)) (fail e))
      (\<lambda>_. holds ?A1) ?E" if p: "previous = dget ?A aid" for e
  proof (cases previous)
    case None
    with p have "dget ?A1 = dget ?A" by (auto simp: fun_eq_iff)
    then show ?thesis using None by (auto intro!: triple_basic)
  next
    case (Some x)
    have kept: "(dget ?A)(aid \<mapsto> x) = dget ?A" using p Some by auto
    have "triple (holds ?A1) (seqE (restore_account aid (Some x)) (publish_accounts B)) (\<lambda>_. holds (dput aid x ?A1)) ?E"
    proof (rule triple_bindE [where R = "\<lambda>_. holds (dput aid x ?A1)"])
      show "triple (holds ?A1) (restore_account aid (Some x)) (\<lambda>_. holds (dput aid x ?A1)) ?E"
        by (rule triple_weaken [OF restore_account_triple]) auto
      show "triple (holds (dput aid x ?A1)) (publish_accounts B) (\<lambda>_. holds (dput aid x ?A1)) ?E" for u
        by (rule triple_weaken [OF triple_keeps [OF keeps_holds [OF keeps_publish]]]) (auto simp: kept)
    qed
    then show ?thesis
      unfolding Some option.case by (rule triple_bindE) (auto simp: kept intro: triple_basic)
  qed
  show "triple (\<lambda>d. previous = dget ?A aid \<and> holds ?A d)
     (seqE (bindE (getE accounts_of) (\<lambda>accounts. put_accounts (dpop aid accounts)))
       (catchE ?change is_exception
          (\<lambda>e. seqE (case previous of None \<Rightarrow> ret () | Some p \<Rightarrow> seqE (restore_account aid (Some p)) (publish_accounts B)) (fail e))))
     (\<lambda>_. holds ?A1) ?E"
  proof (cases "previous = dget ?A aid")
    case True
    show ?thesis
    proof (rule triple_bindE [where R = "\<lambda>_. holds ?A1"])
      show "triple (\<lambda>d. previous = dget ?A aid \<and> holds ?A d)
          (bindE (getE accounts_of) (\<lambda>accounts. put_accounts (dpop aid accounts))) (\<lambda>_. holds ?A1) ?E"
        by (rule triple_bindE [where R = "\<lambda>x d. x = ?A"])
          (auto intro: triple_basic simp: put_accounts_def triple_def modE_def getE_def)
      show "triple (holds ?A1) (catchE ?change is_exception
          (\<lambda>e. seqE (case previous of None \<Rightarrow> ret () | Some p \<Rightarrow> seqE (restore_account aid (Some p)) (publish_accounts B)) (fail e)))
          (\<lambda>_. holds ?A1) ?E"
      proof (rule triple_catchE [where R = "\<lambda>_. holds ?A1"])
        show "triple (holds ?A1) ?change (\<lambda>_. holds ?A1) (\<lambda>_. holds ?A1)"
          by (intro triple_keeps keeps_holds keeps_intros)
      qed (use undo [OF True] in \<open>auto simp: is_exception_def\<close>)
    qed
  qed (simp add: triple_def)
qed (auto intro: triple_basic simp: same_accounts_def)

lemma desired_triple:
  "triple (same_accounts d0) (desired_accounts B as start)
    (\<lambda>desired d. same_accounts d0 d \<and>
       (\<exists>bs. list_all2 (prepared_as d0) as bs \<and> desired = fold (\<lambda>b. dput (ua_account_id b) b) bs start))
    (\<lambda>_. same_accounts d0)"
proof (induction as arbitrary: start)
  case (Cons a as)
  show ?case
    unfolding desired_accounts.simps
  proof (rule triple_bindE [OF prepared_alone_triple])
    fix b
    show "triple (\<lambda>d. same_accounts d0 d \<and> prepared_as d0 a b)
        (desired_accounts B as (dput (ua_account_id b) b start))
        (\<lambda>desired d. same_accounts d0 d \<and>
           (\<exists>bs. list_all2 (prepared_as d0) (a # as) bs \<and> desired = fold (\<lambda>b. dput (ua_account_id b) b) bs start))
        (\<lambda>_. same_accounts d0)"
    proof (cases "prepared_as d0 a b")
      case True
      then have "list_all2 (prepared_as d0) as bs \<Longrightarrow> list_all2 (prepared_as d0) (a # as) (b # bs)" for bs by simp
      then show ?thesis
        by (intro triple_weaken [OF Cons.IH [of "dput (ua_account_id b) b start"]]) (auto intro: exI [of _ "b # _"])
    qed (simp add: triple_def)
  qed
qed (auto intro: triple_basic)

lemma sync_triple:
  "triple (same_accounts d0) (pptp_sync B as) (\<lambda>_ d. applied d0 (Sync as) (accounts_of d))
    (\<lambda>e d. dget (accounts_of d) = dget (accounts_of d0) \<or> e = CancelledError \<and> applied d0 (Sync as) (accounts_of d))"
    (is "triple _ _ _ ?E")
  unfolding pptp_sync_def
proof (rule triple_bindE)
  show "triple (same_accounts d0) (desired_accounts B as [])
      (\<lambda>desired d. same_accounts d0 d \<and> applied d0 (Sync as) desired) ?E"
    by (rule triple_weaken [OF desired_triple]) (auto simp: same_accounts_def)
next
  fix desired
  let ?A = "accounts_of d0"
  show "triple (\<lambda>d. same_accounts d0 d \<and> applied d0 (Sync as) desired)
      (bindE (getE accounts_of) (\<lambda>previous.
       seqE (put_accounts desired) (taken_back B (publish_accounts B) (put_accounts previous))))
      (\<lambda>_ d. applied d0 (Sync as) (accounts_of d)) ?E"
  proof (cases "applied d0 (Sync as) desired")
    case True
    show ?thesis
    proof (rule triple_bindE [where R = "\<lambda>x _. x = ?A"])
      fix previous
      have "triple (holds desired) (taken_back B (publish_accounts B) (put_accounts ?A)) (\<lambda>_. holds desired)
          (\<lambda>e d. holds ?A d \<or> e = CancelledError \<and> holds desired d)"
        by (rule taken_back_triple [OF keeps_publish triple_put_accounts])
      then have run: "triple (\<lambda>_. True) (seqE (put_accounts desired) (taken_back B (publish_accounts B) (put_accounts ?A)))
          (\<lambda>_. holds desired) (\<lambda>e d. holds ?A d \<or> e = CancelledError \<and> holds desired d)"
        by (rule triple_bindE [OF triple_put_accounts])
      show "triple (\<lambda>_. previous = ?A)
          (seqE (put_accounts desired) (taken_back B (publish_accounts B) (put_accounts previous)))
          (\<lambda>_ d. applied d0 (Sync as) (accounts_of d)) ?E"
      proof (cases "previous = ?A")
        case p: True
        show ?thesis
          unfolding p by (rule triple_weaken [OF run]) (use True in \<open>auto simp del: applied.simps\<close>)
      qed (simp add: triple_def)
    qed (auto intro: triple_basic simp: same_accounts_def)
  qed (simp add: triple_def del: applied.simps)
qed

lemma suspend_triple:
  assumes "own_ids (accounts_of d0)"
  shows "triple (same_accounts d0) (pptp_suspend B aid) (\<lambda>_ d. applied d0 (Suspend aid) (accounts_of d))
    (\<lambda>e d. rolled_back d0 (copied d0 (Suspend aid)) (accounts_of d) \<or>
       e = CancelledError \<and> applied d0 (Suspend aid) (accounts_of d))"
    (is "triple _ _ ?Q ?E")
  unfolding pptp_suspend_def
proof (rule triple_bindE [where R = "\<lambda>x d. same_accounts d0 d \<and> x = dget (accounts_of d0) aid"])
  fix existing
  show "triple (\<lambda>d. same_accounts d0 d \<and> existing = dget (accounts_of d0) aid)
     (case existing of None \<Rightarrow> ret () | Some a \<Rightarrow> pptp_update_account B True (a\<lparr>ua_enabled := False\<rparr>)) ?Q ?E"
  proof (cases existing)
    case None
    then show ?thesis by (auto intro!: triple_basic simp: same_accounts_def split: option.split)
  next
    case (Some x)
    show ?thesis
    proof (cases "dget (accounts_of d0) aid = Some x")
      case True
      with assms have "sharing d0 (Some x) (x\<lparr>ua_enabled := False\<rparr>)" by (auto simp: sharing_def own_ids_def)
      from update_triple [OF this, of B] show ?thesis
        using True Some by simp
    qed (use Some in \<open>auto simp: triple_def\<close>)
  qed
qed (auto intro: triple_basic simp: same_accounts_def)

lemma resume_triple:
  assumes "own_ids (accounts_of d0)"
  shows "triple (same_accounts d0) (pptp_resume B given) (\<lambda>_ d. applied d0 (Resume given) (accounts_of d))
    (\<lambda>e d. rolled_back d0 (copied d0 (Resume given)) (accounts_of d) \<or>
       e = CancelledError \<and> applied d0 (Resume given) (accounts_of d))"
    (is "triple _ _ ?Q ?E")
  unfolding pptp_resume_def
proof (rule triple_bindE [where R = "\<lambda>x d. same_accounts d0 d \<and> x = dget (accounts_of d0) (ua_account_id given)"])
  fix existing
  let ?sh = "copied d0 (Resume given)"
  let ?m = "\<lambda>existing. let (shared, a) =
       (case existing of None \<Rightarrow> (False, given) | Some x \<Rightarrow> if ua_settings given = [] then (True, x) else (False, given))
     in pptp_update_account B shared (a\<lparr>ua_enabled := True\<rparr>)"
  have m: "?m (dget (accounts_of d0) (ua_account_id given)) = pptp_update_account B (?sh \<noteq> None) (resumed d0 given)"
    by (auto simp: resumed_def split: option.split)
  have "sharing d0 ?sh (resumed d0 given)"
    using assms by (auto simp: sharing_def resumed_def own_ids_def split: option.split)
  from update_triple [OF this, of B]
  have run: "triple (same_accounts d0) (?m (dget (accounts_of d0) (ua_account_id given))) ?Q ?E"
    unfolding m by (simp only: applied.simps)
  show "triple (\<lambda>d. same_accounts d0 d \<and> existing = dget (accounts_of d0) (ua_account_id given)) (?m existing) ?Q ?E"
    by (cases "existing = dget (accounts_of d0) (ua_account_id given)")
      (simp_all only: simp_thms, rule run, simp add: triple_def)
qed (auto intro: triple_basic simp: same_accounts_def)

lemma command_triple:
  assumes "own_ids (accounts_of d)"
  shows "triple (same_accounts d) (pptp_do B cmd) (\<lambda>_ d'. applied d cmd (accounts_of d'))
     (\<lambda>e d'. rolled_back d (copied d cmd) (accounts_of d') \<or> e = CancelledError \<and> applied d cmd (accounts_of d'))"
proof (cases cmd)
  case (Update a)
  show ?thesis using update_triple [of d None a B] by (simp add: Update sharing_def)
next
  case (Delete aid)
  show ?thesis
    using delete_triple [of d B aid] unfolding Delete
    by (simp del: dget_dpop add: rolled_back_def)
next
  case (Sync as)
  show ?thesis
    using sync_triple [of d B as] unfolding Sync pptp_do.simps
    by (rule triple_weaken) (auto intro: rolled_back_same simp del: applied.simps)
qed (use create_triple suspend_triple [OF assms] resume_triple [OF assms] in
    \<open>simp_all only: pptp_do.simps applied.simps copied.simps\<close>)

lemma command_accounts:
  assumes "pptp_do B cmd d = (r, d')" "own_ids (accounts_of d)"
  shows "rolled_back d (copied d cmd) (accounts_of d') \<or> applied d cmd (accounts_of d')"
  using command_triple [OF assms(2), where B = B and cmd = cmd] assms(1)
  by (cases r) (auto simp: triple_def dest!: spec [of _ d])

text \<open>
  The accounts that the driver has in memory: a command that returns leaves exactly the accounts that it asks for, one
  that raises those from before, but for a cancelled command and for what is drawn for a copy that shares its settings.
\<close>

lemma accounts_changed_or_rolled_back:
  assumes "own_ids (accounts_of d)"
  shows "case pptp_do B cmd d of
     (Inr _, d') \<Rightarrow> applied d cmd (accounts_of d')
   | (Inl e, d') \<Rightarrow> rolled_back d (copied d cmd) (accounts_of d') \<or> e = CancelledError \<and> applied d cmd (accounts_of d')"
  using command_triple [OF assms, where B = B and cmd = cmd]
  by (auto simp: triple_def split: prod.split sum.splits dest!: spec [of _ d])

section \<open>Addresses\<close>

text \<open>No two accounts have the same assigned address.\<close>

definition addresses_ok :: "(string, user_account) dict \<Rightarrow> bool" where
  "addresses_ok accounts \<longleftrightarrow> own_ids accounts \<and>
     (\<forall>k a k' a'. dget accounts k = Some a \<longrightarrow> dget accounts k' = Some a' \<longrightarrow> has_address a \<longrightarrow> has_address a' \<longrightarrow>
        assigned_of a = assigned_of a' \<longrightarrow> k = k')"

text \<open>A command that leaves the choice of the address to the driver, and changes one account only.\<close>

fun chooses_no_address :: "pptp_command \<Rightarrow> bool" where
  "chooses_no_address (Create a) \<longleftrightarrow> \<not> has_address a"
| "chooses_no_address (Update a) \<longleftrightarrow> \<not> has_address a"
| "chooses_no_address (Resume a) \<longleftrightarrow> \<not> has_address a"
| "chooses_no_address (Sync as) \<longleftrightarrow> False"
| "chooses_no_address _ \<longleftrightarrow> True"

definition run_commands :: "'b pptp_backend \<Rightarrow> pptp_command list \<Rightarrow> 'b pptp base_driver \<Rightarrow> 'b pptp base_driver" where
  "run_commands B cmds d = fold (\<lambda>cmd d. snd (pptp_do B cmd d)) cmds d"

lemma used_addresses_mem: "dget accounts k = Some a \<Longrightarrow> has_address a \<Longrightarrow> assigned_of a \<in> set (used_addresses accounts)"
  unfolding used_addresses_def by (force dest: dget_in_set)

lemma addresses_ok_put:
  assumes "addresses_ok accounts" "ua_account_id a = k" "dget accounts' = (dget accounts)(k \<mapsto> a)"
    and "has_address a \<Longrightarrow> assigned_of a \<notin> set (used_addresses accounts) \<or>
      (\<exists>x. dget accounts k = Some x \<and> has_address x \<and> assigned_of x = assigned_of a)"
  shows "addresses_ok accounts'"
proof -
  have other: "j = k" if "dget accounts j = Some b" "has_address b" "has_address a" "assigned_of a = assigned_of b" for j b
    using assms(1,4) that used_addresses_mem [OF that(1,2)] by (fastforce simp: addresses_ok_def)
  show ?thesis
    using assms(1-3) other unfolding addresses_ok_def own_ids_def by (auto split: if_splits)
qed

lemma filled_addresses_ok:
  assumes "filled_as d given a" "addresses_ok (accounts_of d)"
    and "dget accounts = (dget (accounts_of d))(ua_account_id given \<mapsto> a)"
    and "has_address given \<Longrightarrow>
      \<exists>x. dget (accounts_of d) (ua_account_id given) = Some x \<and> has_address x \<and> assigned_of x = assigned_of given"
  shows "addresses_ok accounts"
  using assms(2) _ assms(3)
proof (rule addresses_ok_put)
  show "ua_account_id a = ua_account_id given" using assms(1) by (simp add: filled_as_def)
  show "assigned_of a \<notin> set (used_addresses (accounts_of d)) \<or>
      (\<exists>x. dget (accounts_of d) (ua_account_id given) = Some x \<and> has_address x \<and> assigned_of x = assigned_of a)"
    if "has_address a"
    using assms(1,4) that by (cases "has_address given") (auto simp: filled_as_def)
qed

lemma stored_addresses_ok:
  assumes "stored_as d given accounts" "addresses_ok (accounts_of d)"
    and "has_address given \<Longrightarrow>
      \<exists>x. dget (accounts_of d) (ua_account_id given) = Some x \<and> has_address x \<and> assigned_of x = assigned_of given"
  shows "addresses_ok accounts"
proof -
  from assms(1) obtain a where "filled_as d given a" "accounts = dput (ua_account_id given) a (accounts_of d)"
    by (auto simp: stored_as_def prepared_as_def)
  then show ?thesis using assms(2,3) by (auto intro: filled_addresses_ok)
qed

lemma copied_stored: "copied d cmd = Some x \<Longrightarrow> own_ids (accounts_of d) \<Longrightarrow> dget (accounts_of d) (ua_account_id x) = Some x"
  by (cases cmd) (auto simp: own_ids_def split: if_splits)

lemma rolled_back_addresses_ok:
  assumes "rolled_back d (copied d cmd) accounts" "addresses_ok (accounts_of d)"
  shows "addresses_ok accounts"
  using assms(1) unfolding rolled_back_def
proof (elim disjE exE conjE)
  assume "dget accounts = dget (accounts_of d)"
  with assms(2) show ?thesis by (simp only: addresses_ok_def own_ids_def)
next
  fix x s
  assume x: "copied d cmd = Some x" and filled: "filled_as d x (x\<lparr>ua_settings := s\<rparr>)"
    and A: "dget accounts = (dget (accounts_of d))(ua_account_id x \<mapsto> x\<lparr>ua_settings := s\<rparr>)"
  from x assms(2) have "dget (accounts_of d) (ua_account_id x) = Some x"
    by (auto simp: addresses_ok_def intro: copied_stored)
  then show ?thesis by (auto intro: filled_addresses_ok [OF filled assms(2) A])
qed

lemma applied_addresses_ok:
  assumes "applied d cmd accounts" "chooses_no_address cmd" "addresses_ok (accounts_of d)"
  shows "addresses_ok accounts"
proof (cases cmd)
  case (Delete aid)
  with assms show ?thesis by (auto simp: addresses_ok_def own_ids_def split: if_splits)
next
  case (Suspend aid)
  show ?thesis
  proof (cases "dget (accounts_of d) aid")
    case (Some x)
    have id: "ua_account_id x = aid" using assms(3) Some by (simp add: addresses_ok_def own_ids_def)
    show ?thesis
      using assms(1) Suspend Some by (auto intro!: stored_addresses_ok [OF _ assms(3)] simp: id)
  qed (use assms Suspend in simp)
next
  case (Resume given)
  have id: "ua_account_id x = k" if "dget (accounts_of d) k = Some x" for k x
    using assms(3) that by (simp add: addresses_ok_def own_ids_def)
  show ?thesis
    using assms(1,2) Resume
    by (auto intro!: stored_addresses_ok [OF _ assms(3)] simp: resumed_def id split: option.splits if_splits)
qed (use assms stored_addresses_ok in auto)

text \<open>
  C31: The addresses by which the speed limits tell the PPTP accounts apart stay distinct, over any commands that create,
  update, delete, suspend and resume single accounts and leave the choice of the address to the driver, whether they
  succeed, fail or are cancelled. (A command that brings an address of its own is not checked against the others:
  \<open>chosen_address_shared\<close>; nor are those of one sync: \<open>sync_shares_address\<close>.)
\<close>

theorem addresses_stay_distinct:
  assumes "\<forall>cmd \<in> set cmds. chooses_no_address cmd" "addresses_ok (accounts_of d)"
  shows "addresses_ok (accounts_of (run_commands B cmds d))"
  using assms
proof (induction cmds arbitrary: d)
  case (Cons cmd cmds)
  obtain r d' where run: "pptp_do B cmd d = (r, d')" by fastforce
  have "addresses_ok (accounts_of d')"
    using command_accounts [OF run]
  proof (rule disjE)
    show "own_ids (accounts_of d)" using Cons.prems(2) by (simp add: addresses_ok_def)
  next
    assume "rolled_back d (copied d cmd) (accounts_of d')"
    then show ?thesis by (rule rolled_back_addresses_ok) (rule Cons.prems(2))
  next
    assume "applied d cmd (accounts_of d')"
    then show ?thesis by (rule applied_addresses_ok) (use Cons.prems in simp_all)
  qed
  with Cons.IH [of d'] Cons.prems show ?case by (simp add: run_commands_def run)
qed (simp add: run_commands_def)

section \<open>A concrete core\<close>

definition demo_pptp_backend :: "unit pptp_backend" where
  "demo_pptp_backend =
     \<lparr>pb_token = (\<lambda>b. (''hunter2'', b)), pb_verify = ret (), pb_secret = ret ''key'',
      pb_configure = (\<lambda>_ _ _. ret ()), pb_start = (\<lambda>_ _ _. ret ()), pb_stop = ret (), pb_purge = ret (), pb_reload = ret (),
      pb_running = ret True, pb_sessions = ret [], pb_metrics = ret (), pb_terminate = (\<lambda>_. ret ()),
      pb_check_subnet = None, pb_logs = (\<lambda>_. ret []), pb_version = ret None, pb_generation = ret None, pb_transaction = ret (),
      pb_now = (\<lambda>_. 0), pb_chap_path = ''/c'', pb_hook_path = ''/h'', pb_accounting_path = ''/a'',
      pb_generation_path = ''/g''\<rparr>"

text \<open>A core on a /29: the gateway 10.77.0.1 and the clients 10.77.0.2 to 10.77.0.6.\<close>

definition demo_pptp_listener :: pptp_listener where
  "demo_pptp_listener = \<lparr>pl_tag = ''pptp-default'', pl_net = (172818432, 29), pl_dns = [''1.1.1.1'', ''8.8.8.8'']\<rparr>"

definition demo_settings :: jobj where
  "demo_settings =
     dput ''inbounds'' (JList [JObj (dput ''subnet'' (JStr ''10.77.0.0/29'') default_pptp_inbound)]) pptp_defaults"

definition demo_pptp :: "unit pptp base_driver" where
  "demo_pptp =
     \<lparr>bd_settings = demo_settings, bd_usage = Some [],
      bd_self = \<lparr>pp_backend = (), pp_accounts = [], pp_ledger = empty_ledger\<rparr>\<rparr>"

definition pptp_account :: "int \<Rightarrow> string \<Rightarrow> user_account" where
  "pptp_account uid aid =
     \<lparr>ua_user_id = uid, ua_username = aid, ua_account_id = aid, ua_protocol = ''pptp'', ua_enabled = True,
      ua_expire_at = None, ua_data_limit_bytes = None, ua_settings = []\<rparr>"

lemma demo_digits:
  "digit_char 0 = CHR ''0''" "digit_char (Suc 0) = CHR ''1''" "digit_char 2 = CHR ''2''" "digit_char 3 = CHR ''3''"
  "digit_char 4 = CHR ''4''" "digit_char 5 = CHR ''5''" "digit_char 6 = CHR ''6''" "digit_char 7 = CHR ''7''"
  "digit_char 8 = CHR ''8''" "digit_char 9 = CHR ''9''"
  by code_simp+

lemmas pptp_texts = v4_text_def str_of_nat.simps demo_digits

lemma demo_inbound: "check_inbound (dput ''subnet'' (JStr ''10.77.0.0/29'') default_pptp_inbound) = Inr ''pptp-default''"
proof -
  have "tag_ok ''pptp-default''" "py_strip ''pptp-default'' = ''pptp-default''" by code_simp+
  then show ?thesis
    by (simp add: check_inbound_def default_pptp_inbound_def inbound_keys_def jget_def int_or_zero_def jor_def conv_def Let_def)
qed

lemma demo_subnet: "pptp_subnet (JStr ''10.77.0.0/29'') = Inr (172818432, 29)"
proof -
  have "net4_text 172818432 29 = ''10.77.0.0/29''" by (simp add: net4_text_def pptp_texts)
  then have net: "ip_network ''10.77.0.0/29'' = Inr (Net4 172818432 29)"
    using ip_network_text [of 172818432 29] by (simp add: host_bits_def)
  have "is_private4 172818432 29"
    by (simp add: is_private4_def private_nets_def private_exceptions_def in_net4_def broadcast4_def)
  with net show ?thesis by (simp add: pptp_subnet_def jor_def)
qed

lemma demo_dns: "parse_dns (JList [JStr ''1.1.1.1'', JStr ''8.8.8.8'']) = Inr [''1.1.1.1'', ''8.8.8.8'']"
proof -
  have "v4_text 16843009 = ''1.1.1.1''" "v4_text 134744072 = ''8.8.8.8''" by (simp_all add: pptp_texts)
  then have "ip_address ''1.1.1.1'' = Some (V4 16843009)" "ip_address ''8.8.8.8'' = Some (V4 134744072)"
    using parse_v4_text [of 16843009] parse_v4_text [of 134744072] by (simp_all add: ip_address_def)
  moreover have "py_strip ''1.1.1.1'' = ''1.1.1.1''" "py_strip ''8.8.8.8'' = ''8.8.8.8''" by code_simp+
  ultimately show ?thesis by (simp add: parse_dns_def Let_def ip_version_def)
qed

lemma demo_listener: "bd_settings d = demo_settings \<Longrightarrow> listener_of d = Inr (Some demo_pptp_listener)"
  using demo_inbound demo_subnet demo_dns
  by (simp add: listener_of_def demo_settings_def pptp_defaults_def first_row_def normalize_inbound_def jget_def jor_def
      default_pptp_inbound_def demo_pptp_listener_def)

lemma demo_slots:
  "client_slots demo_pptp_listener = [''10.77.0.2'', ''10.77.0.3'', ''10.77.0.4'', ''10.77.0.5'', ''10.77.0.6'']"
  by (simp add: client_slots_def demo_pptp_listener_def hosts4_def broadcast4_def upt_rec pptp_texts)

lemma demo_config:
  "bd_settings d = demo_settings \<Longrightarrow> \<exists>c. render_config B d l secret = Inr c"
  by (simp add: render_config_def setting_def demo_settings_def pptp_defaults_def conv_def)

lemma no_backend_state [simp]: "d\<lparr>bd_self := (bd_self d)\<lparr>pp_backend := u\<rparr>\<rparr> = (d :: unit pptp base_driver)"
  by simp

lemma demo_publish:
  assumes "bd_settings d = demo_settings" "chap_lines (sorted_accounts (accounts_of d)) = Inr rows"
  shows "publish_accounts demo_pptp_backend d = (Inr (), d)"
proof -
  obtain c where "render_config demo_pptp_backend d demo_pptp_listener ''key'' = Inr c"
    using demo_config [OF assms(1)] by blast
  with assms demo_listener [OF assms(1)] show ?thesis
    by (simp add: publish_accounts_def materialize_def render_chap_secrets_def bindE_def getE_def liftE_def ret_def
        on_backend_def demo_pptp_backend_def)
qed

text \<open>What \<open>pptp_account\<close> is with the password that is drawn and an address.\<close>

definition demo_stored :: "int \<Rightarrow> string \<Rightarrow> string \<Rightarrow> user_account" where
  "demo_stored uid aid v = put_setting ''assigned_ipv4'' v (put_setting ''password'' ''hunter2'' (pptp_account uid aid))"

lemma demo_prepared:
  assumes "bd_settings d = demo_settings" "validate_account (demo_stored uid aid v) = Inr ()"
    and "free_slot (client_slots demo_pptp_listener) (used_addresses (accounts_of d)) uid = Some v"
  shows "prepared_account demo_pptp_backend False (pptp_account uid aid) d = (Inr (demo_stored uid aid v), d)"
  using assms demo_listener [OF assms(1)]
  by (simp add: prepared_account_def ensure_password_def ensure_bandwidth_address_def assign_address_def demo_slots
      demo_stored_def has_address_def jget_def bindE_def getE_def liftE_def ret_def on_backend_def demo_pptp_backend_def
      put_setting_def pptp_account_def)

lemma demo_valid:
  "validate_account (demo_stored uid ''ann'' v) = Inr ()" "validate_account (demo_stored uid ''bob'' v) = Inr ()"
  by (simp_all add: validate_account_def demo_stored_def put_setting_def pptp_account_def password_of_def jget_def jor_def
      account_char_def tag_char_def alnum_char_def is_ascii_def is_lower_ascii_def)

lemma demo_lines:
  assumes "list_all (\<lambda>a. validate_account a = Inr ()) (map snd accounts)"
  shows "\<exists>rows. chap_lines (sorted_accounts accounts) = Inr rows"
proof -
  have "\<exists>rows. chap_lines as = Inr rows" if "list_all (\<lambda>a. validate_account a = Inr ()) as" for as
    using that by (induction as) auto
  moreover have "list_all (\<lambda>a. validate_account a = Inr ()) (sorted_accounts accounts)"
    using assms by (simp add: sorted_accounts_def list_all_iff)
  ultimately show ?thesis .
qed

lemma demo_sync:
  assumes "bd_settings d = demo_settings" "desired_accounts demo_pptp_backend as [] d = (Inr desired, d)"
    and "list_all (\<lambda>a. validate_account a = Inr ()) (map snd desired)"
  shows "pptp_sync demo_pptp_backend as d = (Inr (), d\<lparr>bd_self := (bd_self d)\<lparr>pp_accounts := desired\<rparr>\<rparr>)"
proof -
  let ?d = "d\<lparr>bd_self := (bd_self d)\<lparr>pp_accounts := desired\<rparr>\<rparr>"
  obtain rows where "chap_lines (sorted_accounts desired) = Inr rows" using demo_lines [OF assms(3)] by blast
  then have "publish_accounts demo_pptp_backend ?d = (Inr (), ?d)" by (intro demo_publish) (simp_all add: assms(1))
  with assms(2) show ?thesis
    by (simp add: pptp_sync_def taken_back_def put_accounts_def modE_def bindE_def getE_def catchE_def)
qed

text \<open>The node's copy of the accounts has no addresses. Syncing it gives two accounts of one pool the same address.\<close>

theorem sync_shares_address:
  "map (assigned_of \<circ> snd)
     (accounts_of (snd (pptp_sync demo_pptp_backend [pptp_account 1 ''ann'', pptp_account 6 ''bob''] demo_pptp))) =
   [''10.77.0.2'', ''10.77.0.2'']"
proof -
  have settings: "bd_settings demo_pptp = demo_settings" by (simp add: demo_pptp_def)
  have free: "free_slot (client_slots demo_pptp_listener) (used_addresses (accounts_of demo_pptp)) 1 = Some ''10.77.0.2''"
    "free_slot (client_slots demo_pptp_listener) (used_addresses (accounts_of demo_pptp)) 6 = Some ''10.77.0.2''"
    unfolding demo_slots by (simp_all add: demo_pptp_def free_slot_def used_addresses_def upt_rec)
  have "desired_accounts demo_pptp_backend [pptp_account 1 ''ann'', pptp_account 6 ''bob''] [] demo_pptp =
      (Inr [(''ann'', demo_stored 1 ''ann'' ''10.77.0.2''), (''bob'', demo_stored 6 ''bob'' ''10.77.0.2'')], demo_pptp)"
    using demo_prepared [OF settings demo_valid(1) free(1)] demo_prepared [OF settings demo_valid(2) free(2)]
    by (simp add: bindE_def ret_def demo_stored_def) (simp add: pptp_account_def)
  from demo_sync [OF settings this] demo_valid show ?thesis
    by (simp add: demo_stored_def assigned_of_def jor_def)
qed

lemma demo_sync_one:
  assumes "bd_settings d = demo_settings"
    and "free_slot (client_slots demo_pptp_listener) (used_addresses (accounts_of d)) 1 = Some v"
  shows "snd (pptp_sync demo_pptp_backend [pptp_account 1 ''ann''] d) =
    d\<lparr>bd_self := (bd_self d)\<lparr>pp_accounts := [(''ann'', demo_stored 1 ''ann'' v)]\<rparr>\<rparr>"
proof -
  have "desired_accounts demo_pptp_backend [pptp_account 1 ''ann''] [] d = (Inr [(''ann'', demo_stored 1 ''ann'' v)], d)"
    using demo_prepared [OF assms(1) demo_valid(1) assms(2)]
    by (simp add: bindE_def ret_def demo_stored_def) (simp add: pptp_account_def)
  from demo_sync [OF assms(1) this] demo_valid show ?thesis by simp
qed

text \<open>Syncing the same account again moves it, since its own address counts as used.\<close>

theorem sync_moves_address:
  "let once = snd (pptp_sync demo_pptp_backend [pptp_account 1 ''ann''] demo_pptp);
       twice = snd (pptp_sync demo_pptp_backend [pptp_account 1 ''ann''] once)
   in map (assigned_of \<circ> snd) (accounts_of once) = [''10.77.0.2''] \<and>
      map (assigned_of \<circ> snd) (accounts_of twice) = [''10.77.0.3'']"
proof -
  let ?once = "demo_pptp\<lparr>bd_self := (bd_self demo_pptp)\<lparr>pp_accounts := [(''ann'', demo_stored 1 ''ann'' ''10.77.0.2'')]\<rparr>\<rparr>"
  have once: "snd (pptp_sync demo_pptp_backend [pptp_account 1 ''ann''] demo_pptp) = ?once"
    by (rule demo_sync_one) (simp_all only: demo_slots, simp_all add: demo_pptp_def free_slot_def used_addresses_def upt_rec)
  have twice: "snd (pptp_sync demo_pptp_backend [pptp_account 1 ''ann''] ?once) =
      ?once\<lparr>bd_self := (bd_self ?once)\<lparr>pp_accounts := [(''ann'', demo_stored 1 ''ann'' ''10.77.0.3'')]\<rparr>\<rparr>"
    by (rule demo_sync_one) (simp_all only: demo_slots, simp_all add: demo_pptp_def free_slot_def used_addresses_def
        upt_rec demo_stored_def has_address_def assigned_of_def jor_def)
  show ?thesis
    by (simp only: Let_def once twice) (simp add: demo_stored_def assigned_of_def jor_def)
qed

text \<open>An address that comes with the account is taken as it is, also when another account has it.\<close>

definition demo_one :: "unit pptp base_driver" where
  "demo_one = demo_pptp\<lparr>bd_self := (bd_self demo_pptp)\<lparr>pp_accounts := [(''ann'', demo_stored 1 ''ann'' ''10.77.0.2'')]\<rparr>\<rparr>"

theorem chosen_address_shared:
  "map (assigned_of \<circ> snd) (accounts_of (snd (pptp_create demo_pptp_backend
     (put_setting ''assigned_ipv4'' ''10.77.0.2'' (pptp_account 6 ''bob'')) demo_one))) = [''10.77.0.2'', ''10.77.0.2'']"
proof -
  let ?given = "put_setting ''assigned_ipv4'' ''10.77.0.2'' (pptp_account 6 ''bob'')"
  let ?bob = "put_setting ''password'' ''hunter2'' ?given"
  have valid: "validate_account ?bob = Inr ()"
    by (simp add: validate_account_def put_setting_def pptp_account_def password_of_def jget_def jor_def
        account_char_def tag_char_def alnum_char_def is_ascii_def is_lower_ascii_def)
  then have prepared: "prepared_account demo_pptp_backend False ?given demo_one = (Inr ?bob, demo_one)"
    by (simp add: prepared_account_def ensure_password_def ensure_bandwidth_address_def has_address_def jget_def
        bindE_def liftE_def ret_def on_backend_def demo_pptp_backend_def put_setting_def pptp_account_def)
  let ?both = "demo_one\<lparr>bd_self := (bd_self demo_one)\<lparr>pp_accounts :=
      [(''ann'', demo_stored 1 ''ann'' ''10.77.0.2''), (''bob'', ?bob)]\<rparr>\<rparr>"
  have "list_all (\<lambda>a. validate_account a = Inr ()) (map snd (accounts_of ?both))" using valid demo_valid(1) by simp
  then obtain rows where "chap_lines (sorted_accounts (accounts_of ?both)) = Inr rows" using demo_lines by blast
  then have published: "publish_accounts demo_pptp_backend ?both = (Inr (), ?both)"
    by (intro demo_publish) (simp_all add: demo_one_def demo_pptp_def)
  have "put_account ?bob demo_one = (Inr (), ?both)"
    by (simp add: put_account_def put_accounts_def bindE_def getE_def modE_def demo_one_def) (simp add: pptp_account_def)
  with prepared published have "pptp_create demo_pptp_backend ?given demo_one = (Inr (), ?both)"
    by (simp add: pptp_create_def taken_back_def bindE_def getE_def catchE_def)
  then show ?thesis by (simp add: demo_stored_def assigned_of_def jor_def)
qed

text \<open>The address is not validated, so a line break in it reaches the secrets file of the daemon.\<close>

theorem secrets_line_injection:
  "let a = demo_stored 1 ''ann'' (''*'' @ [CHR 0x22, CHR 0x0A, CHR 0x22] @ ''eve'')
   in validate_account a = Inr () \<and> CHR 0x0A \<in> set (chap_line a)"
  unfolding Let_def using demo_valid(1) by (simp add: chap_line_def assigned_of_def demo_stored_def jor_def dquote_def)

theorem addresses_stay_distinct_witness:
  "addresses_ok (accounts_of (run_commands demo_pptp_backend
     [Create (pptp_account 1 ''ann''), Create (pptp_account 6 ''bob''), Suspend ''ann'', Delete ''ann''] demo_pptp))"
  by (rule addresses_stay_distinct) (simp_all add: pptp_account_def has_address_def jget_def addresses_ok_def own_ids_def demo_pptp_def)

end
