(* ===== verification/Pptp_Secrets.thy ===== *)
theory Pptp_Secrets
  imports Pptp_Props
begin

text \<open>
  What the account operations of the PPTP driver ask of a backend, and what they promise with it: after every command
  that returns, the secrets file of the daemon is the rendering of the accounts and the daemon was told to read it; and
  after one that raises, the file is as it was or follows the accounts again, unless that was refused too.
\<close>

section \<open>What leaves the listener alone\<close>

definition listens :: "core_exc + pptp_listener option \<Rightarrow> 'b pptp base_driver \<Rightarrow> bool" where
  "listens l d \<longleftrightarrow> listener_of d = l"

lemma keeps_listens_backend [keeps_intros]: "keeps (listens l) (on_backend f)"
  by (auto simp: keeps_def on_backend_def listens_def listener_of_def split: prod.split)

lemma keeps_listens_accounts [keeps_intros]: "keeps (listens l) (put_accounts A)"
  unfolding put_accounts_def by (rule keeps_modE) (simp add: listens_def listener_of_def)

lemma keeps_listens_prepared [keeps_intros]: "keeps (listens l) (prepared_account B shared a)"
  unfolding prepared_account_def ensure_password_def ensure_bandwidth_address_def share_settings_def
  by (intro keeps_intros)

lemma keeps_listens_put [keeps_intros]: "keeps (listens l) (put_account a)"
  unfolding put_account_def by (intro keeps_intros)

lemma keeps_listens_publish [keeps_intros]: "keeps (listens l) (publish_accounts B)"
  unfolding publish_accounts_def materialize_def by (intro keeps_intros)

lemma keeps_listens_desired [keeps_intros]: "keeps (listens l) (desired_accounts B as desired)"
  by (induction as arbitrary: desired) (auto intro!: keeps_intros)

text \<open>From \<open>P\<close>, \<open>m\<close> ends in \<open>Q\<close> if it returns.\<close>

abbreviation returning :: "('s \<Rightarrow> bool) \<Rightarrow> ('s, 'e, 'a) eff \<Rightarrow> ('s \<Rightarrow> bool) \<Rightarrow> bool" where
  "returning P m Q \<equiv> triple P m (\<lambda>_. Q) (\<lambda>_ _. True)"

lemma returning_keeps: "keeps P m \<Longrightarrow> returning P m P"
  by (rule triple_weaken [OF triple_keeps]) auto

lemma returning_then: "returning P m R \<Longrightarrow> (\<And>x. returning R (f x) Q) \<Longrightarrow> returning P (bindE m f) Q"
  by (rule triple_bindE)

lemma never_returns: "returning P (seqE m (seqE n (fail e))) Q"
  by (auto simp: triple_def bindE_def fail_def split: prod.splits sum.splits)

lemma never_returns1: "returning P (seqE m (fail e)) Q"
  by (auto simp: triple_def bindE_def fail_def split: prod.splits sum.splits)

lemma returning_taken_back: "returning P change Q \<Longrightarrow> returning P (taken_back B change undo) Q"
  unfolding taken_back_def by (rule triple_catchE) (auto intro: never_returns)

section \<open>The interface\<close>

text \<open>
  A backend with a secrets file: \<^verbatim>\<open>configure\<close> replaces it; \<^verbatim>\<open>reload\<close>, the end of sessions, the drawing of a password and
  the transactions on the ledger leave it alone.
\<close>

locale secrets_store =
  fixes B :: "'b pptp_backend" and secrets_file :: "'b \<Rightarrow> string option"
  assumes configured: "pb_configure B config chap hook b = (Inr (), b') \<Longrightarrow> secrets_file b' = Some chap"
    and reload_keeps: "keeps (\<lambda>b. secrets_file b = f) (pb_reload B)"
    and terminate_keeps: "keeps (\<lambda>b. secrets_file b = f) (pb_terminate B aid)"
    and transaction_keeps: "keeps (\<lambda>b. secrets_file b = f) (pb_transaction B)"
    and token_keeps: "secrets_file (snd (pb_token B b)) = secrets_file b"
begin

abbreviation file_of :: "'b pptp base_driver \<Rightarrow> string option" where
  "file_of d \<equiv> secrets_file (pp_backend (bd_self d))"

text \<open>The file is the rendering of the accounts, and a reload of just this file succeeded.\<close>

definition in_step :: "'b pptp base_driver \<Rightarrow> bool" where
  "in_step d \<longleftrightarrow>
     (\<exists>t b b'. render_chap_secrets (accounts_of d) = Inr t \<and> file_of d = Some t \<and>
        secrets_file b = Some t \<and> pb_reload B b = (Inr (), b'))"

definition written :: "'b pptp base_driver \<Rightarrow> bool" where
  "written d \<longleftrightarrow> (\<exists>t. render_chap_secrets (accounts_of d) = Inr t \<and> file_of d = Some t)"

text \<open>\<open>e\<close> is what publishing the accounts that the driver has raised.\<close>

definition publish_fails :: "core_exc \<Rightarrow> 'b pptp base_driver \<Rightarrow> bool" where
  "publish_fails e d \<longleftrightarrow> (\<exists>d0. accounts_of d0 = accounts_of d \<and> publish_accounts B d0 = (Inl e, d))"

lemma keeps_in_step_backend:
  assumes "\<And>f. keeps (\<lambda>b. secrets_file b = f) m"
  shows "keeps in_step (on_backend m)"
proof (rule keepsI)
  fix d assume "in_step d"
  obtain r b where m: "m (pp_backend (bd_self d)) = (r, b)" by fastforce
  have "secrets_file b = secrets_file (pp_backend (bd_self d))"
    using keepsD [OF assms, of "pp_backend (bd_self d)"] by (simp add: m)
  with \<open>in_step d\<close> show "in_step (snd (on_backend m d))"
    by (simp add: in_step_def on_backend_def m)
qed

lemma keeps_in_step_ledger: "keeps in_step (on_ledger B f)"
  unfolding on_ledger_def
  by (rule keeps_bindE [OF keeps_in_step_backend [OF transaction_keeps]])
    (auto simp: keeps_def in_step_def split: prod.split)

lemma materialize_written: "returning (listens (Inr (Some l))) (materialize B) written"
proof (rule tripleI)
  fix d :: "'b pptp base_driver" assume l: "listens (Inr (Some l)) d"
  show "case fst (materialize B d) of Inr x \<Rightarrow> written (snd (materialize B d)) | Inl e \<Rightarrow> True"
    using l
    by (auto simp: materialize_def listens_def bindE_def getE_def liftE_def on_backend_def ret_def written_def
        split: prod.splits sum.splits dest!: configured)
qed

lemma reload_in_step: "returning written (on_backend (pb_reload B)) in_step"
proof (rule tripleI)
  fix d assume "written d"
  then obtain t where t: "render_chap_secrets (accounts_of d) = Inr t" "file_of d = Some t" by (auto simp: written_def)
  obtain r b' where reload: "pb_reload B (pp_backend (bd_self d)) = (r, b')" by fastforce
  have "secrets_file b' = Some t" using keepsD [OF reload_keeps t(2)] by (simp add: reload)
  with t reload show "case fst (on_backend (pb_reload B) d) of Inr x \<Rightarrow> in_step (snd (on_backend (pb_reload B) d)) | Inl e \<Rightarrow> True"
    by (auto simp: on_backend_def in_step_def split: sum.split)
qed

lemma publish_in_step: "returning (listens (Inr (Some l))) (publish_accounts B) in_step"
  unfolding publish_accounts_def
proof (rule triple_bindE [where R = "\<lambda>x d. x = Some l \<and> listens (Inr (Some l)) d"])
  show "triple (listens (Inr (Some l))) (bindE (getE listener_of) liftE) (\<lambda>x d. x = Some l \<and> listens (Inr (Some l)) d)
      (\<lambda>_ _. True)"
    by (auto simp: triple_def listens_def liftE_def)
  show "triple (\<lambda>d. x = Some l \<and> listens (Inr (Some l)) d)
      (if x = None then ret () else seqE (materialize B) (on_backend (pb_reload B))) (\<lambda>_. in_step) (\<lambda>_ _. True)" for x
  proof (cases "x = Some l")
    case True
    have "returning (listens (Inr (Some l))) (seqE (materialize B) (on_backend (pb_reload B))) in_step"
      by (rule returning_then [OF materialize_written reload_in_step])
    then show ?thesis using True by simp
  qed (auto simp: triple_def)
qed

lemma terminate_in_step: "returning in_step (on_backend (pb_terminate B aid)) in_step"
  by (intro returning_keeps keeps_in_step_backend terminate_keeps)

lemma entered_in_step:
  assumes "\<And>p. returning (listens (Inr (Some l))) (change p) in_step"
  shows "returning (listens (Inr (Some l))) (entered B change a) in_step"
  unfolding entered_def
  by (intro returning_then [OF returning_keeps] keeps_intros returning_taken_back assms)

lemma create_in_step: "returning (listens (Inr (Some l))) (pptp_create B a) in_step"
  unfolding pptp_create_def
  by (intro returning_then [OF returning_keeps] keeps_intros returning_taken_back publish_in_step)

lemma update_in_step: "returning (listens (Inr (Some l))) (pptp_update_account B shared a) in_step"
proof -
  have disconnect: "returning in_step (whenE b (on_backend (pb_terminate B aid))) in_step" for b aid
    using terminate_in_step by (auto intro: triple_basic)
  show ?thesis
    unfolding pptp_update_account_def
    by (intro returning_then [OF returning_keeps] keeps_intros returning_taken_back
        returning_then [OF publish_in_step] disconnect)
qed

lemma delete_in_step: "returning (listens (Inr (Some l))) (pptp_delete B aid) in_step"
proof -
  have change: "returning (listens (Inr (Some l)))
      (seqE (publish_accounts B) (seqE (on_backend (pb_terminate B aid)) (on_ledger B g))) in_step" for g
    by (intro returning_then [OF publish_in_step] returning_then [OF terminate_in_step] returning_keeps keeps_in_step_ledger)
  show ?thesis
    unfolding pptp_delete_def
    by (intro returning_then [OF returning_keeps] keeps_intros triple_catchE [OF change] never_returns1 TrueI)
qed

lemma sync_in_step: "returning (listens (Inr (Some l))) (pptp_sync B as) in_step"
  unfolding pptp_sync_def
  by (intro returning_then [OF returning_keeps] keeps_intros returning_taken_back publish_in_step)

text \<open>Suspending an account that does not exist publishes nothing.\<close>

lemma command_in_step:
  assumes "listener_of d = Inr (Some l)" "\<And>aid. cmd = Suspend aid \<Longrightarrow> dget (accounts_of d) aid \<noteq> None"
    and "pptp_do B cmd d = (Inr (), d')"
  shows "in_step d'"
proof -
  have start: "listens (Inr (Some l)) d" using assms(1) by (simp add: listens_def)
  have "returning (\<lambda>x. x = d) (pptp_do B cmd) in_step"
  proof (cases cmd)
    case (Suspend aid)
    with assms(2) obtain x where "dget (accounts_of d) aid = Some x" by blast
    then have "pptp_suspend B aid d = pptp_update_account B True (x\<lparr>ua_enabled := False\<rparr>) d"
      by (simp add: pptp_suspend_def)
    then show ?thesis
      using update_in_step [of l True "x\<lparr>ua_enabled := False\<rparr>"] start
      by (auto simp: Suspend triple_def split: sum.splits)
  next
    case (Resume a)
    have "returning (listens (Inr (Some l))) (pptp_resume B a) in_step"
      unfolding pptp_resume_def Let_def
      by (intro returning_then [OF returning_keeps] keeps_intros) (auto split: prod.split intro: update_in_step)
    then show ?thesis using start by (auto simp: Resume triple_def)
  qed (use start create_in_step update_in_step delete_in_step sync_in_step in \<open>auto simp: triple_def\<close>)
  from tripleD(1) [OF this refl assms(3)] show ?thesis .
qed

section \<open>A command that raises\<close>

text \<open>
  A command that is not cancelled leaves the file in step with the accounts when it raises, or publishing the accounts
  that it leaves raised in its turn; before anything is published the file is as it was.
\<close>

definition ended :: "core_exc \<Rightarrow> 'b pptp base_driver \<Rightarrow> bool" where
  "ended e d \<longleftrightarrow> e = CancelledError \<or> in_step d \<or> publish_fails e d"

abbreviation ending :: "('b pptp base_driver \<Rightarrow> bool) \<Rightarrow> ('b, 'a) pptp_op \<Rightarrow> bool" where
  "ending P m \<equiv> triple P m (\<lambda>_ _. True) ended"

lemma publish_ends: "triple (listens (Inr (Some l))) (publish_accounts B) (\<lambda>_. in_step) ended"
proof (rule tripleI)
  fix d :: "'b pptp base_driver" assume l: "listens (Inr (Some l)) d"
  obtain r d' where run: "publish_accounts B d = (r, d')" by fastforce
  have "accounts_of d' = accounts_of d"
    using keepsD [OF keeps_publish, of d d B] run by (simp add: same_accounts_def)
  with run tripleD(1) [OF publish_in_step l, of "()" d']
  show "case fst (publish_accounts B d) of Inr x \<Rightarrow> in_step (snd (publish_accounts B d))
    | Inl e \<Rightarrow> ended e (snd (publish_accounts B d))"
    by (auto simp: ended_def publish_fails_def split: sum.split)
qed

lemma keeps_ended: "keeps in_step m \<Longrightarrow> triple in_step m (\<lambda>_. in_step) ended"
  by (erule triple_weaken [OF triple_keeps]) (simp_all add: ended_def)

lemma keeps_in_step_terminate: "keeps in_step (on_backend (pb_terminate B aid))"
  by (intro keeps_in_step_backend terminate_keeps)

lemma republish_ends: "triple (listens (Inr (Some l))) (seqE (publish_accounts B) (fail e)) Q ended"
  by (rule triple_bindE [OF publish_ends]) (simp add: triple_basic ended_def)

lemma taken_back_ends:
  assumes "keeps (listens (Inr (Some l))) change" "triple (listens (Inr (Some l))) undo (\<lambda>_. listens (Inr (Some l))) (\<lambda>_ _. False)"
  shows "ending (listens (Inr (Some l))) (taken_back B change undo)"
  unfolding taken_back_def
proof (rule triple_catchE)
  show "triple (listens (Inr (Some l))) change (\<lambda>_ _. True) (\<lambda>_. listens (Inr (Some l)))"
    by (rule triple_weaken [OF triple_keeps [OF assms(1)]]) auto
  show "triple (listens (Inr (Some l))) (seqE undo (seqE (publish_accounts B) (fail e))) (\<lambda>_ _. True) ended" for e
    by (rule triple_bindE [OF triple_weaken [OF assms(2)] republish_ends]) auto
qed (simp add: is_exception_def ended_def)

lemma listens_puts:
  "triple (listens l) (put_accounts A) (\<lambda>_. listens l) (\<lambda>_ _. False)"
  "triple (listens l) (restore_account aid previous) (\<lambda>_. listens l) (\<lambda>_ _. False)"
  "triple (listens l) (put_account a) (\<lambda>_. listens l) (\<lambda>_ _. False)"
  unfolding restore_account_def put_account_def put_accounts_def
  by (auto simp: triple_def bindE_def getE_def modE_def listens_def listener_of_def)

lemma entered_ends:
  assumes "\<And>p. keeps (listens (Inr (Some l))) (change p)"
  shows "ending (listens (Inr (Some l))) (entered B change a)"
  unfolding entered_def
proof (rule triple_bindE [where R = "\<lambda>_. listens (Inr (Some l))"])
  fix previous
  show "ending (listens (Inr (Some l)))
      (seqE (put_account a) (taken_back B (change previous) (restore_account (ua_account_id a) previous)))"
    by (rule triple_bindE [where R = "\<lambda>_. listens (Inr (Some l))"])
      (auto intro: taken_back_ends assms listens_puts triple_weaken [OF listens_puts(3)])
qed (auto intro: triple_basic)

text \<open>The preparation of the accounts writes nothing.\<close>

definition untouched :: "pptp_listener \<Rightarrow> string option \<Rightarrow> 'b pptp base_driver \<Rightarrow> bool" where
  "untouched l F d \<longleftrightarrow> listens (Inr (Some l)) d \<and> file_of d = F"

definition settled :: "string option \<Rightarrow> core_exc \<Rightarrow> 'b pptp base_driver \<Rightarrow> bool" where
  "settled F e d \<longleftrightarrow> ended e d \<or> file_of d = F"

abbreviation settling :: "('b pptp base_driver \<Rightarrow> bool) \<Rightarrow> string option \<Rightarrow> ('b, 'a) pptp_op \<Rightarrow> bool" where
  "settling P F m \<equiv> triple P m (\<lambda>_ _. True) (settled F)"

lemma keeps_untouched:
  assumes "keeps (listens (Inr (Some l))) m" "keeps (\<lambda>d. file_of d = F) m"
  shows "keeps (untouched l F) m"
  using assms by (auto simp: keeps_def untouched_def)

lemma keeps_file_accounts: "keeps (\<lambda>d. file_of d = F) (put_accounts A)"
  unfolding put_accounts_def by (rule keeps_modE) simp

lemma keeps_file_prepared: "keeps (\<lambda>d. file_of d = F) (prepared_account B shared a)"
proof -
  have "keeps (\<lambda>d. file_of d = F) (on_backend (\<lambda>b. let (tok, b') = pb_token B b in (Inr tok, b')))"
    using token_keeps by (auto simp: keeps_def on_backend_def split: prod.split) (metis snd_conv)
  then show ?thesis
    unfolding prepared_account_def ensure_password_def ensure_bandwidth_address_def share_settings_def
    by (intro keeps_intros keeps_file_accounts)
qed

lemma keeps_file_desired: "keeps (\<lambda>d. file_of d = F) (desired_accounts B as desired)"
  by (induction as arbitrary: desired) (auto intro!: keeps_intros keeps_file_prepared)

lemma settling_after:
  assumes "keeps (listens (Inr (Some l))) m" "keeps (\<lambda>d. file_of d = F) m" "\<And>x. ending (listens (Inr (Some l))) (f x)"
  shows "settling (untouched l F) F (bindE m f)"
proof (rule triple_bindE [where R = "\<lambda>_. untouched l F"])
  show "triple (untouched l F) m (\<lambda>_. untouched l F) (settled F)"
    by (rule triple_weaken [OF triple_keeps [OF keeps_untouched [OF assms(1,2)]]])
      (auto simp: untouched_def settled_def)
  show "settling (untouched l F) F (f x)" for x
    by (rule triple_weaken [OF assms(3)]) (auto simp: untouched_def settled_def)
qed

lemma create_settles: "settling (untouched l F) F (pptp_create B a)"
proof -
  have "ending (listens (Inr (Some l))) (entered B (\<lambda>_. publish_accounts B) x)" for x
    by (intro entered_ends keeps_intros)
  then show ?thesis
    unfolding pptp_create_def entered_def
    by (intro settling_after keeps_listens_prepared keeps_file_prepared)
qed

lemma update_settles: "settling (untouched l F) F (pptp_update_account B shared a)"
proof -
  have "ending (listens (Inr (Some l))) (entered B (\<lambda>previous. seqE (publish_accounts B)
      (whenE (must_disconnect previous x) (on_backend (pb_terminate B (ua_account_id x))))) x)" for x
    by (intro entered_ends keeps_intros)
  then show ?thesis
    unfolding pptp_update_account_def entered_def
    by (intro settling_after keeps_listens_prepared keeps_file_prepared)
qed

lemma sync_settles: "settling (untouched l F) F (pptp_sync B as)"
proof -
  have "ending (listens (Inr (Some l))) (bindE (getE accounts_of) (\<lambda>previous.
      seqE (put_accounts x) (taken_back B (publish_accounts B) (put_accounts previous))))" for x
  proof (rule triple_bindE [where R = "\<lambda>_. listens (Inr (Some l))"])
    show "ending (listens (Inr (Some l))) (seqE (put_accounts x) (taken_back B (publish_accounts B) (put_accounts y)))" for y
      by (rule triple_bindE [where R = "\<lambda>_. listens (Inr (Some l))"])
        (auto intro: taken_back_ends keeps_listens_publish listens_puts triple_weaken [OF listens_puts(1)])
  qed (auto intro: triple_basic)
  then show ?thesis
    unfolding pptp_sync_def by (intro settling_after keeps_listens_desired keeps_file_desired)
qed

text \<open>When there was no account to delete, nothing is published again: the accounts have not changed.\<close>

lemma delete_settles: "settling (untouched l F) F (pptp_delete B aid)"
proof -
  let ?l = "listens (Inr (Some l))"
  let ?change = "seqE (publish_accounts B) (seqE (on_backend (pb_terminate B aid)) (on_ledger B (\<lambda>L. ((), forget_account aid False L))))"
  have "triple ?l ?change (\<lambda>_. in_step) ended"
    by (intro triple_bindE [OF publish_ends] triple_bindE [OF keeps_ended] keeps_ended keeps_in_step_terminate
        keeps_in_step_ledger)
  moreover have "keeps ?l ?change"
    unfolding on_ledger_def
    by (intro keeps_intros) (auto simp: keeps_def listens_def listener_of_def split: prod.split)
  ultimately have change: "triple ?l ?change (\<lambda>_ _. True) (\<lambda>e d. ended e d \<and> ?l d)"
    by (auto simp: triple_def keeps_def split: sum.splits)
  have "ending ?l (catchE ?change is_exception
          (\<lambda>e. seqE (case previous of None \<Rightarrow> ret () | Some p \<Rightarrow> seqE (restore_account aid (Some p)) (publish_accounts B)) (fail e)))"
    (is "ending _ (catchE _ _ ?undo)") for previous
  proof (rule triple_catchE [OF change])
    fix e
    show "ending (\<lambda>d. ended e d \<and> ?l d) (?undo e)"
    proof (cases previous)
      case None
      then show ?thesis by (auto intro: triple_basic)
    next
      case (Some p)
      have "ending ?l (seqE (seqE (restore_account aid (Some p)) (publish_accounts B)) (fail e))"
        by (rule triple_bindE [OF triple_bindE [OF triple_weaken [OF listens_puts(2)] publish_ends]])
          (auto intro: triple_basic simp: ended_def)
      then show ?thesis unfolding Some by (auto intro: triple_weaken)
    qed
  qed simp
  then have "ending ?l (seqE (bindE (getE accounts_of) (\<lambda>accounts. put_accounts (dpop aid accounts))) (catchE ?change is_exception
          (\<lambda>e. seqE (case previous of None \<Rightarrow> ret () | Some p \<Rightarrow> seqE (restore_account aid (Some p)) (publish_accounts B)) (fail e))))"
    for previous
    by (intro triple_bindE [where R = "\<lambda>_. ?l"]) (auto intro: triple_basic triple_weaken [OF listens_puts(1)])
  then show ?thesis
    unfolding pptp_delete_def by (intro settling_after keeps_intros)
qed

text \<open>What a command that raises leaves of the file.\<close>

lemma command_settles:
  assumes "listener_of d = Inr (Some l)" "pptp_do B cmd d = (Inl e, d')"
  shows "e = CancelledError \<or> file_of d' = file_of d \<or> in_step d' \<or> publish_fails e d'"
proof -
  have start: "untouched l (file_of d) d" using assms(1) by (simp add: untouched_def listens_def)
  have "settling (untouched l F) F (pptp_do B cmd)" for F
  proof (cases cmd)
    case (Suspend aid)
    show ?thesis
      unfolding Suspend pptp_do.simps pptp_suspend_def
      by (rule triple_bindE [where R = "\<lambda>_. untouched l F"])
        (auto intro: triple_basic update_settles split: option.split)
  next
    case (Resume a)
    show ?thesis
      unfolding Resume pptp_do.simps pptp_resume_def Let_def
      by (rule triple_bindE [where R = "\<lambda>_. untouched l F"])
        (auto intro: triple_basic update_settles split: prod.split)
  qed (use create_settles update_settles delete_settles sync_settles in simp_all)
  from tripleD(2) [OF this start assms(2)] show ?thesis by (auto simp: settled_def ended_def)
qed

end

end
