(* ===== verification/Pptp_Backend.thy ===== *)
theory Pptp_Backend
  imports Pptp_Secrets Sha256 Files
begin

text \<open>
  \<^verbatim>\<open>cores/drivers/pptp/backend.py\<close>: the backend of the PPTP driver. Its files are a dictionary from paths to texts;
  the host it runs on is the record \<open>host\<close> of what it asks of it (commands, processes, sockets, the kernel), over a state
  that the model knows nothing of. The interface that the account operations rely on is the locale \<open>secrets_store\<close>.
\<close>

section \<open>Text\<close>

text \<open>\<^verbatim>\<open>str.splitlines\<close>.\<close>

definition line_end :: "char \<Rightarrow> bool" where
  "line_end c \<longleftrightarrow> code c \<in> {10, 11, 12, 13, 28, 29, 30, 133}"

fun splitlines_from :: "string \<Rightarrow> string \<Rightarrow> string list" where
  "splitlines_from w [] = (if w = [] then [] else [w])"
| "splitlines_from w [c] = (if line_end c then [w] else [w @ [c]])"
| "splitlines_from w (c # e # cs) =
     (if c = CHR 0x0D \<and> e = CHR 0x0A then w # splitlines_from [] cs
      else if line_end c then w # splitlines_from [] (e # cs)
      else splitlines_from (w @ [c]) (e # cs))"

definition splitlines :: "string \<Rightarrow> string list" where
  "splitlines s = splitlines_from [] s"

text \<open>\<^verbatim>\<open>re.search\<close>: the first position at which \<open>f\<close> matches.\<close>

fun re_search :: "(string \<Rightarrow> 'a option) \<Rightarrow> string \<Rightarrow> 'a option" where
  "re_search f [] = f []"
| "re_search f (c # cs) = (case f (c # cs) of Some x \<Rightarrow> Some x | None \<Rightarrow> re_search f cs)"

definition digits_at :: "string \<Rightarrow> string option" where
  "digits_at s = (let d = takeWhile is_digit s in if d = [] then None else Some d)"

text \<open>\<open>n\<close> more numbers after the first, with dots between them.\<close>

primrec dotted_at :: "nat \<Rightarrow> string \<Rightarrow> string option" where
  "dotted_at 0 s = digits_at s"
| "dotted_at (Suc n) s =
     (let d = takeWhile is_digit s; r = dropWhile is_digit s in
      if d = [] \<or> r = [] \<or> hd r \<noteq> CHR ''.'' then None
      else map_option (\<lambda>v. d @ CHR ''.'' # v) (dotted_at n (tl r)))"

definition version_at :: "string \<Rightarrow> string option" where
  "version_at s =
     (let r = drop 9 s in
      if starts_with s ''accel-ppp'' \<and> r \<noteq> [] \<and> space_char (hd r) then dotted_at 2 (dropWhile space_char r) else None)"

definition handle_at :: "string \<Rightarrow> string option" where
  "handle_at s = (if starts_with s ''# handle '' then digits_at (drop 9 s) else None)"

definition path_in :: "string \<Rightarrow> string \<Rightarrow> string" where
  "path_in dir name = (if dir = [] \<or> ends_with dir ''/'' then dir @ name else dir @ ''/'' @ name)"

definition base_name :: "string \<Rightarrow> string" where
  "base_name p = last (py_split CHR ''/'' p)"

section \<open>State\<close>

record backend_conf =
  bc_executable :: string
  bc_module_dir :: string
  bc_work_dir :: string
  bc_port :: int

definition open_conf :: "jobj \<Rightarrow> core_exc + backend_conf" where
  "open_conf settings =
     bindR (conv (py_int (jor (jget settings ''management_port'') (JInt 22001)))) (\<lambda>mport.
     Inr \<lparr>bc_executable = py_str (jor (jget settings ''executable_path'')
              (JStr ''/opt/zagros/accel-ppp/1.14.0/sbin/accel-pppd'')),
          bc_module_dir = py_str (jor (jget settings ''module_dir'') (JStr ''/opt/zagros/accel-ppp/1.14.0/lib/accel-ppp'')),
          bc_work_dir = py_str (jor (jget settings ''work_dir'') (JStr ''/var/lib/zagros/cores/pptp'')), bc_port = mport\<rparr>)"

definition config_path :: "backend_conf \<Rightarrow> string" where "config_path C = path_in (bc_work_dir C) ''accel-ppp.conf''"
definition chap_path :: "backend_conf \<Rightarrow> string" where "chap_path C = path_in (bc_work_dir C) ''chap-secrets''"
definition secret_path :: "backend_conf \<Rightarrow> string" where "secret_path C = path_in (bc_work_dir C) ''.management-secret''"
definition hook_path :: "backend_conf \<Rightarrow> string" where "hook_path C = path_in (bc_work_dir C) ''accounting-hook.py''"
definition generation_path :: "backend_conf \<Rightarrow> string" where "generation_path C = path_in (bc_work_dir C) ''generation''"
definition accounting_path :: "backend_conf \<Rightarrow> string" where
  "accounting_path C = path_in (bc_work_dir C) ''accounting.sqlite3''"
definition manifest_path :: "backend_conf \<Rightarrow> string" where
  "manifest_path C = path_in (bc_work_dir C) ''runtime-ownership.json''"
definition pid_path :: "backend_conf \<Rightarrow> string" where "pid_path C = path_in (bc_work_dir C) ''accel-pppd.pid''"

text \<open>The files that the backend writes, whether it holds a process object, and the host.\<close>

record 'o daemon =
  dm_files :: "(string, string) dict"
  dm_proc :: bool
  dm_host :: 'o

datatype exchange = Unavailable string | Too_Long | Answer string

text \<open>
  What the backend asks of its host. \<open>ho_store\<close> is the attempt to write a file aside and to put it in place of the old
  one, \<open>ho_sync_dir\<close> the sync of its directory that follows; \<open>ho_run\<close> is a command with its input, to its return code,
  output and error output; \<open>ho_exchange\<close> is a conversation with the management port; \<open>ho_pid\<close> says whether the pid file
  names a living process; \<open>ho_transaction\<close> is a transaction on the SQLite file of the ledger; \<open>ho_ready_rounds\<close> and
  \<open>ho_link_rounds\<close> are the rounds of the waiting loops before their deadlines.
\<close>

record 'o host =
  ho_make_dir :: "('o, core_exc, unit) eff"
  ho_store :: "string \<Rightarrow> ('o, core_exc, unit) eff"
  ho_sync_dir :: "('o, core_exc, unit) eff"
  ho_run :: "string list \<Rightarrow> string option \<Rightarrow> ('o, core_exc, int \<times> string \<times> string) eff"
  ho_which :: "string \<Rightarrow> 'o \<Rightarrow> bool"
  ho_exists :: "string \<Rightarrow> 'o \<Rightarrow> bool"
  ho_spawn :: "string list \<Rightarrow> string \<Rightarrow> ('o, core_exc, unit) eff"
  ho_terminate :: "('o, core_exc, unit) eff"
  ho_alive :: "'o \<Rightarrow> bool"
  ho_pid :: "'o \<Rightarrow> bool"
  ho_unlink_pid :: "('o, core_exc, unit) eff"
  ho_remove_dir :: "('o, core_exc, unit) eff"
  ho_proc_logs :: "int \<Rightarrow> 'o \<Rightarrow> string list"
  ho_exchange :: "int \<Rightarrow> string \<Rightarrow> 'o \<Rightarrow> exchange \<times> 'o"
  ho_connect :: "'o \<Rightarrow> string option \<times> 'o"
  ho_random :: "'o \<Rightarrow> string \<times> 'o"
  ho_transaction :: "('o, core_exc, unit) eff"
  ho_ppp_device :: "'o \<Rightarrow> string option"
  ho_capability :: "nat \<Rightarrow> 'o \<Rightarrow> bool"
  ho_module :: "string \<Rightarrow> 'o \<Rightarrow> bool \<times> 'o"
  ho_container :: "'o \<Rightarrow> bool"
  ho_forwarding :: "'o \<Rightarrow> string"
  ho_tcp_free :: "string \<Rightarrow> int \<Rightarrow> 'o \<Rightarrow> bool"
  ho_gre :: "'o \<Rightarrow> string option"
  ho_ready_rounds :: nat
  ho_link_rounds :: nat
  ho_now :: "'o \<Rightarrow> int"

type_synonym ('o, 'a) bop = "('o daemon, core_exc, 'a) eff"

definition at_host :: "('o, core_exc, 'a) eff \<Rightarrow> ('o, 'a) bop" where
  "at_host f d = (let (r, h) = f (dm_host d) in (r, d\<lparr>dm_host := h\<rparr>))"

definition host_draw :: "('o \<Rightarrow> 'a \<times> 'o) \<Rightarrow> ('o, 'a) bop" where
  "host_draw f = at_host (\<lambda>h. let (x, h') = f h in (Inr x, h'))"

definition host_reads :: "('o \<Rightarrow> 'a) \<Rightarrow> ('o, 'a) bop" where
  "host_reads f = getE (\<lambda>d. f (dm_host d))"

text \<open>A file is replaced whole or not at all; the sync may still fail when it is replaced.\<close>

definition atomic_write :: "'o host \<Rightarrow> string \<Rightarrow> string \<Rightarrow> ('o, unit) bop" where
  "atomic_write H path content =
     seqE (at_host (ho_store H path))
    (seqE (modE (\<lambda>d. d\<lparr>dm_files := dput path content (dm_files d)\<rparr>))
       (at_host (ho_sync_dir H)))"

definition unlink_file :: "string \<Rightarrow> ('o, unit) bop" where
  "unlink_file path = modE (\<lambda>d. d\<lparr>dm_files := dpop path (dm_files d)\<rparr>)"

definition stored_secret :: "backend_conf \<Rightarrow> 'o daemon \<Rightarrow> string" where
  "stored_secret C d = (case dget (dm_files d) (secret_path C) of None \<Rightarrow> [] | Some t \<Rightarrow> py_strip t)"

definition ensure_management_secret :: "'o host \<Rightarrow> backend_conf \<Rightarrow> ('o, string) bop" where
  "ensure_management_secret H C =
     bindE (getE (stored_secret C)) (\<lambda>old.
     if old \<noteq> [] then ret old
     else
       bindE (host_draw (ho_random H)) (\<lambda>fresh.
       seqE (atomic_write H (secret_path C) (fresh @ line_break)) (ret fresh)))"

definition configure :: "'o host \<Rightarrow> backend_conf \<Rightarrow> string \<Rightarrow> string \<Rightarrow> string \<Rightarrow> ('o, unit) bop" where
  "configure H C config chap hook =
     seqE (at_host (ho_make_dir H))
    (seqE (atomic_write H (config_path C) config)
    (seqE (atomic_write H (chap_path C) chap)
       (atomic_write H (hook_path C) hook)))"

section \<open>Commands and the installation\<close>

text \<open>\<^verbatim>\<open>_run\<close> with \<^verbatim>\<open>check=False\<close>, and with \<^verbatim>\<open>check=True\<close>.\<close>

definition run_any :: "'o host \<Rightarrow> string list \<Rightarrow> ('o, int \<times> string \<times> string) bop" where
  "run_any H argv = at_host (ho_run H argv None)"

definition run_detail :: "string \<Rightarrow> string \<Rightarrow> string" where
  "run_detail out err =
     (let detail = py_strip (if err \<noteq> [] then err else if out \<noteq> [] then out else ''command failed'')
      in drop (length detail - 500) detail)"

definition run_checked :: "'o host \<Rightarrow> string list \<Rightarrow> string \<Rightarrow> ('o, unit) bop" where
  "run_checked H argv given =
     bindE (at_host (ho_run H argv (Some given))) (\<lambda>(rc, out, err).
     if rc \<noteq> 0 then fail (core_error (base_name (hd argv) @ '' failed: '' @ run_detail out err)) else ret ())"

definition runtime_version :: "'o host \<Rightarrow> backend_conf \<Rightarrow> ('o, string option) bop" where
  "runtime_version H C =
     bindE (host_reads (ho_exists H (bc_executable C))) (\<lambda>installed.
     if \<not> installed then ret None
     else bindE (run_any H [bc_executable C, ''--version'']) (\<lambda>(rc, out, err). ret (re_search version_at out)))"

definition required_modules :: "string list" where
  "required_modules =
     [''libpptp.so'', ''libauth_mschap_v2.so'', ''libchap-secrets.so'', ''libippool.so'', ''libsigchld.so'',
      ''libpppd_compat.so'', ''liblog_file.so'', ''libtriton.so'']"

definition forbidden_modules :: "string list" where
  "forbidden_modules =
     [''libauth_pap.so'', ''libauth_chap_md5.so'', ''libauth_mschap_v1.so'', ''libipv6pool.so'', ''libipv6_dhcp.so'',
      ''libipv6_nd.so'']"

definition verify_installation :: "'o host \<Rightarrow> backend_conf \<Rightarrow> ('o, unit) bop" where
  "verify_installation H C =
     bindE (runtime_version H C) (\<lambda>v.
     seqE (liftE (check (v = Some pinned_version) ''the bundled ACCEL-PPP runtime is missing or not version 1.14.0''))
    (bindE (host_reads (\<lambda>h. filter (\<lambda>m. \<not> ho_exists H (path_in (bc_module_dir C) m) h) required_modules)) (\<lambda>missing.
     bindE (host_reads (\<lambda>h. filter (\<lambda>m. ho_exists H (path_in (bc_module_dir C) m) h) forbidden_modules)) (\<lambda>forbidden.
     seqE (liftE (check (missing = []) (''ACCEL-PPP runtime modules are incomplete: '' @ py_repr (JList (map JStr missing)))))
       (liftE (check (forbidden = [])
          (''forbidden ACCEL-PPP runtime modules are present: '' @ py_repr (JList (map JStr forbidden)))))))))"

definition running :: "'o host \<Rightarrow> 'o daemon \<Rightarrow> bool" where
  "running H d \<longleftrightarrow> dm_proc d \<and> ho_alive H (dm_host d) \<or> ho_pid H (dm_host d)"

definition missing_module_failure :: "bool \<Rightarrow> string \<Rightarrow> string" where
  "missing_module_failure container name =
     ''kernel module '' @ name @ '' is not loaded - '' @
     (if container then ''the container cannot load kernel modules; run this on the HOST that runs this node''
      else ''run this on this host'') @
     '': '' @ quoted (''modprobe '' @ name) @ '' (make it permanent with '' @
     quoted (''echo '' @ name @ '' >> /etc/modules-load.d/zagros-pptp.conf'') @
     ''). If modprobe reports the module does not exist, install the kernel extra modules package for this kernel (Ubuntu/Debian: '' @
     quoted ''apt-get install -y linux-modules-extra-$(uname -r) ppp'' @ '')''"

definition module_failures :: "'o host \<Rightarrow> string \<Rightarrow> ('o, string list) bop" where
  "module_failures H name =
     bindE (host_draw (ho_module H name)) (\<lambda>loaded.
     host_reads (\<lambda>h. if loaded then [] else [missing_module_failure (ho_container H h) name]))"

definition chain_failures :: "'o host \<Rightarrow> string \<times> string \<Rightarrow> ('o, string list) bop" where
  "chain_failures H tc =
     bindE (run_any H [''nft'', ''list'', ''chain'', ''ip'', fst tc, snd tc]) (\<lambda>(rc, out, err).
     ret (if rc \<noteq> 0 then [''required nftables base chain ip '' @ fst tc @ '' '' @ snd tc @ '' is missing''] else []))"

definition preflight_failures :: "'o host \<Rightarrow> backend_conf \<Rightarrow> string \<Rightarrow> ('o, string list) bop" where
  "preflight_failures H C listen =
     bindE (host_reads (\<lambda>h.
       (case ho_ppp_device H h of None \<Rightarrow> [] | Some reason \<Rightarrow> [reason]) @
       (if ho_capability H 12 h then [] else [''CAP_NET_ADMIN is not effective'']) @
       (if ho_capability H 13 h then [] else [''CAP_NET_RAW is not effective'']))) (\<lambda>f1.
     bindE (module_failures H ''ppp_generic'') (\<lambda>f2.
     bindE (module_failures H ''ppp_mppe'') (\<lambda>f3.
     bindE (host_reads (\<lambda>h. if py_strip (ho_forwarding H h) = ''1'' then []
                            else [''net.ipv4.ip_forward must already be 1 on the host''])) (\<lambda>f4.
     bindE (host_reads (ho_which H ''nft'')) (\<lambda>nft.
     bindE (if nft then mapE (chain_failures H) [(''filter'', ''FORWARD''), (''nat'', ''POSTROUTING'')]
            else ret [[''nft is not installed'']]) (\<lambda>f5.
     bindE (host_reads (\<lambda>h.
       (if ho_which H ''ip'' h then [] else [''ip is not installed'']) @
       (if ho_tcp_free H listen 1723 h then [] else [''TCP/1723 is already in use'']) @
       (if ho_tcp_free H ''127.0.0.1'' (bc_port C) h then []
        else [''loopback management port '' @ str_of_int (bc_port C) @ '' is already in use'']) @
       (case ho_gre H h of None \<Rightarrow> [] | Some reason \<Rightarrow> [reason]))) (\<lambda>f6.
     ret (f1 @ f2 @ f3 @ f4 @ concat f5 @ f6))))))))"

definition preflight :: "'o host \<Rightarrow> backend_conf \<Rightarrow> string \<Rightarrow> ('o, unit) bop" where
  "preflight H C listen =
     bindE (getE (running H)) (\<lambda>up.
     whenE (\<not> up)
       (seqE (verify_installation H C)
       (bindE (preflight_failures H C listen) (\<lambda>failures.
        liftE (check (failures = []) (''PPTP preflight failed: '' @ py_join ''; '' failures))))))"

section \<open>The subnet\<close>

text \<open>\<^verbatim>\<open>ip_network(s, strict=False)\<close>.\<close>

definition loose_network :: "string \<Rightarrow> ip_net option" where
  "loose_network s =
     (case read_net s of
        None \<Rightarrow> None
      | Some (V4 n, p) \<Rightarrow> Some (Net4 (n - n mod 2 ^ (32 - p)) p)
      | Some (V6 n _, p) \<Rightarrow> Some (Net6 (n - n mod 2 ^ (128 - p)) p))"

definition nets_overlap :: "nat \<Rightarrow> nat \<times> nat \<Rightarrow> nat \<times> nat \<Rightarrow> bool" where
  "nets_overlap bits a b \<longleftrightarrow>
     (let inside = (\<lambda>x net. x div 2 ^ (bits - snd net) = fst net div 2 ^ (bits - snd net));
          end_of = (\<lambda>net. fst net + 2 ^ (bits - snd net) - 1) in
      inside (fst a) b \<or> inside (end_of a) b \<or> inside (fst b) a \<or> inside (end_of b) a)"

fun overlaps :: "ip_net \<Rightarrow> ip_net \<Rightarrow> bool" where
  "overlaps (Net4 n p) (Net4 m q) = nets_overlap 32 (n, p) (m, q)"
| "overlaps (Net6 n p) (Net6 m q) = nets_overlap 128 (n, p) (m, q)"
| "overlaps _ _ = False"

fun net_text :: "ip_net \<Rightarrow> string" where
  "net_text (Net4 n p) = net4_text n p"
| "net_text (Net6 n p) = ip_text (V6 n None) @ ''/'' @ str_of_nat p"

fun word_after :: "string \<Rightarrow> string list \<Rightarrow> string" where
  "word_after w [] = []"
| "word_after w [x] = []"
| "word_after w (x # y # ws) = (if x = w then y else word_after w (y # ws))"

definition route_conflict :: "ip_net \<Rightarrow> string \<Rightarrow> string list" where
  "route_conflict wanted line =
     (let words = py_words line; dev = word_after ''dev'' words in
      if words = [] \<or> hd words = ''default'' \<or> starts_with dev ''ppp'' then []
      else
        (case loose_network (hd words) of
           None \<Rightarrow> []
         | Some route \<Rightarrow>
             if overlaps wanted route
             then [''PPTP subnet '' @ net_text wanted @ '' overlaps live route '' @ net_text route @ '' on '' @
                   (if dev = [] then ''unknown'' else dev)]
             else []))"

definition validate_subnet :: "'o host \<Rightarrow> string \<Rightarrow> ('o, string list) bop" where
  "validate_subnet H subnet =
     (case loose_network subnet of
        None \<Rightarrow> fail (OtherError ''ValueError'' (py_repr_str subnet @ '' does not appear to be an IPv4 or IPv6 network''))
      | Some wanted \<Rightarrow>
          bindE (host_reads (ho_which H ''ip'')) (\<lambda>found.
          if \<not> found then ret []
          else
            bindE (run_any H [''ip'', ''-4'', ''route'', ''show'']) (\<lambda>(rc, out, err).
            ret (concat (map (route_conflict wanted) (splitlines out))))))"

section \<open>The firewall\<close>

definition rule_resource :: "string \<Rightarrow> string \<Rightarrow> string \<Rightarrow> string \<Rightarrow> json" where
  "rule_resource owner table chain name =
     JObj [(''family'', JStr ''ip''), (''table'', JStr table), (''chain'', JStr chain), (''comment'', JStr (owner @ name))]"

definition firewall_owner :: "string \<Rightarrow> string" where
  "firewall_owner tag = ''zagros:pptp:'' @ take 12 (sha256_hex (utf8_encode tag))"

definition firewall_resources :: "string \<Rightarrow> bool \<Rightarrow> json list" where
  "firewall_resources owner include_input =
     (if include_input
      then [rule_resource owner ''filter'' ''INPUT'' '':input-tcp'', rule_resource owner ''filter'' ''INPUT'' '':input-gre'']
      else []) @
     [rule_resource owner ''filter'' ''FORWARD'' '':forward-up'',
      rule_resource owner ''filter'' ''FORWARD'' '':forward-down'',
      rule_resource owner ''nat'' ''POSTROUTING'' '':masquerade'']"

text \<open>An unreadable, empty or missing manifest is none.\<close>

definition manifest :: "backend_conf \<Rightarrow> 'o daemon \<Rightarrow> jobj" where
  "manifest C d =
     (case dget (dm_files d) (manifest_path C) of
        None \<Rightarrow> []
      | Some text \<Rightarrow> (case json_loads text of Some (JObj m) \<Rightarrow> m | _ \<Rightarrow> []))"

definition lower_hex :: "char \<Rightarrow> bool" where
  "lower_hex c \<longleftrightarrow> c \<in> set ''0123456789abcdef''"

definition hex_name :: "string \<Rightarrow> nat \<Rightarrow> string \<Rightarrow> bool" where
  "hex_name prefix n s \<longleftrightarrow>
     (let h = drop (length prefix) s in s = prefix @ h \<and> length h = n \<and> list_all lower_hex h)"

definition field :: "jobj \<Rightarrow> string \<Rightarrow> string" where
  "field r k = py_str (jor (jget r k) (JStr []))"

definition rule_target_ok :: "string \<Rightarrow> jobj \<Rightarrow> bool" where
  "rule_target_ok owner r \<longleftrightarrow>
     field r ''family'' = ''ip'' \<and>
     (field r ''table'' = ''filter'' \<and> field r ''chain'' \<in> {''INPUT'', ''FORWARD''} \<or>
      field r ''table'' = ''nat'' \<and> field r ''chain'' = ''POSTROUTING'') \<and>
     starts_with (field r ''comment'') (owner @ '':'')"

text \<open>The handles of the rules with a comment, in the listing of a chain, as the digits that stand there.\<close>

definition rule_handles :: "string \<Rightarrow> string \<Rightarrow> string list" where
  "rule_handles comment listing =
     List.map_filter (re_search handle_at) (filter (\<lambda>l. contains l (''comment '' @ dquote comment)) (splitlines listing))"

definition remove_rules :: "'o host \<Rightarrow> string \<Rightarrow> json \<Rightarrow> ('o, unit) bop" where
  "remove_rules H owner v =
     (case v of
        JObj r \<Rightarrow>
          if \<not> rule_target_ok owner r then fail (core_error ''refusing to remove malformed PPTP firewall ownership'')
          else
            bindE (run_any H [''nft'', ''-a'', ''list'', ''chain'', field r ''family'', field r ''table'', field r ''chain''])
              (\<lambda>(rc, out, err).
            forE (\<lambda>h. bindE (run_any H [''nft'', ''delete'', ''rule'', field r ''family'', field r ''table'',
                        field r ''chain'', ''handle'', str_of_nat (nat_of_digits h)]) (\<lambda>_. ret ()))
              (rule_handles (field r ''comment'') out))
      | _ \<Rightarrow> fail (OtherError ''AttributeError'' ''get''))"

text \<open>What \<^verbatim>\<open>for resource in resources\<close> goes through.\<close>

definition elements :: "json \<Rightarrow> core_exc + json list" where
  "elements v =
     (case v of
        JList xs \<Rightarrow> Inr xs
      | JObj m \<Rightarrow> Inr (map JStr (dkeys m))
      | JStr t \<Rightarrow> Inr (map (\<lambda>c. JStr [c]) t)
      | _ \<Rightarrow> Inl (OtherError ''TypeError'' ''not iterable''))"

definition remove_input_table :: "'o host \<Rightarrow> string \<Rightarrow> ('o, unit) bop" where
  "remove_input_table H table =
     whenE (table \<noteq> [])
       (seqE (liftE (check (hex_name ''zg_pptp_in_'' 8 table) ''refusing to remove invalid PPTP input table''))
          (bindE (run_any H [''nft'', ''delete'', ''table'', ''ip'', table]) (\<lambda>_. ret ())))"

definition cleanup_owned :: "'o host \<Rightarrow> backend_conf \<Rightarrow> jobj \<Rightarrow> ('o, unit) bop" where
  "cleanup_owned H C m =
     seqE (liftE (check (jget m ''provider'' = JStr ''pptp'') ''refusing to remove a firewall manifest not owned by PPTP''))
       (let owner = field m ''nft_owner'' in
        seqE (liftE (check (hex_name ''zagros:pptp:'' 12 owner) ''refusing to remove invalid/unowned PPTP nftables rules''))
       (bindE (host_reads (ho_which H ''nft'')) (\<lambda>nft.
        seqE (whenE nft
               (bindE (liftE (elements (jor (jget m ''resources'') (JList (firewall_resources owner True))))) (\<lambda>rs.
                seqE (forE (remove_rules H owner) rs) (remove_input_table H (field m ''owned_input_table'')))))
          (unlink_file (manifest_path C)))))"

definition cleanup_firewall :: "'o host \<Rightarrow> backend_conf \<Rightarrow> ('o, unit) bop" where
  "cleanup_firewall H C = bindE (getE (manifest C)) (\<lambda>m. whenE (m \<noteq> []) (cleanup_owned H C m))"

definition new_manifest :: "string \<Rightarrow> string \<Rightarrow> bool \<Rightarrow> jobj" where
  "new_manifest tag subnet input_exists =
     [(''provider'', JStr ''pptp''), (''nft_owner'', JStr (firewall_owner tag)), (''tag'', JStr tag), (''subnet'', JStr subnet),
      (''resources'', JList (firewall_resources (firewall_owner tag) input_exists)),
      (''owned_input_table'',
         JStr (if input_exists then [] else ''zg_pptp_in_'' @ take 8 (sha256_hex (utf8_encode tag))))]"

text \<open>\<^verbatim>\<open>json.dumps(manifest, sort_keys=True, separators=(",", ":")) + "\n"\<close>.\<close>

definition manifest_text :: "jobj \<Rightarrow> string" where
  "manifest_text m =
     json_dumps \<lparr>ensure_ascii = True, item_sep = '','', key_sep = '':''\<rparr> (jsort (JObj m)) @ line_break"

definition input_rules :: "string \<Rightarrow> string \<Rightarrow> bool \<Rightarrow> string list" where
  "input_rules owner table input_exists =
     (if input_exists
      then [''insert rule ip filter INPUT tcp dport 1723 counter accept comment '' @ dquote (owner @ '':input-tcp''),
            ''insert rule ip filter INPUT ip protocol gre counter accept comment '' @ dquote (owner @ '':input-gre'')]
      else [''add table ip '' @ table,
            ''add chain ip '' @ table @ '' input { type filter hook input priority -10; policy accept; }'',
            ''add rule ip '' @ table @ '' input tcp dport 1723 counter accept'',
            ''add rule ip '' @ table @ '' input ip protocol gre counter accept''])"

definition firewall_script :: "string \<Rightarrow> string \<Rightarrow> string \<Rightarrow> bool \<Rightarrow> string" where
  "firewall_script owner table subnet input_exists =
     concat (map (\<lambda>l. l @ line_break)
       (input_rules owner table input_exists @
        [''insert rule ip filter FORWARD ip saddr '' @ subnet @ '' counter accept comment '' @ dquote (owner @ '':forward-up''),
         ''insert rule ip filter FORWARD ip daddr '' @ subnet @ '' ct state established,related counter accept comment '' @
           dquote (owner @ '':forward-down''),
         ''insert rule ip nat POSTROUTING ip saddr '' @ subnet @ '' counter masquerade comment '' @
           dquote (owner @ '':masquerade'')]))"

definition apply_firewall :: "'o host \<Rightarrow> backend_conf \<Rightarrow> string \<Rightarrow> string \<Rightarrow> ('o, unit) bop" where
  "apply_firewall H C tag subnet =
     seqE (bindE (getE (manifest C)) (\<lambda>m. whenE (m \<noteq> []) (cleanup_firewall H C)))
    (bindE (run_any H [''nft'', ''list'', ''chain'', ''ip'', ''filter'', ''INPUT'']) (\<lambda>(rc, out, err).
     let input_exists = (rc = 0); m = new_manifest tag subnet input_exists in
     seqE (atomic_write H (manifest_path C) (manifest_text m))
       (catchE
          (run_checked H [''nft'', ''-f'', ''-'']
             (firewall_script (firewall_owner tag) (field m ''owned_input_table'') subnet input_exists))
          is_exception (\<lambda>e. seqE (cleanup_firewall H C) (fail e)))))"

section \<open>The management port\<close>

definition failure_markers :: "string list" where
  "failure_markers = [''command failed'', ''syntax error'', ''command unknown'']"

definition manage :: "'o host \<Rightarrow> backend_conf \<Rightarrow> string \<Rightarrow> ('o, string) bop" where
  "manage H C text_of =
     (if CHR 0x0A \<in> set text_of \<or> CHR 0x0D \<in> set text_of then fail (core_error ''invalid ACCEL-PPP management command'')
      else
        bindE (getE (\<lambda>d. dget (dm_files d) (secret_path C))) (\<lambda>secret.
        case secret of
          None \<Rightarrow> fail (OtherError ''FileNotFoundError'' (secret_path C))
        | Some t \<Rightarrow>
            bindE (host_draw (ho_exchange H (bc_port C) (py_strip t @ line_break @ text_of @ line_break @ ''exit'' @ line_break)))
              (\<lambda>x. case x of
                 Unavailable reason \<Rightarrow> fail (core_error (''ACCEL-PPP management endpoint unavailable: '' @ reason))
               | Too_Long \<Rightarrow> fail (core_error ''ACCEL-PPP management response exceeded safety limit'')
               | Answer r \<Rightarrow>
                   if list_ex (contains (py_lower r)) failure_markers
                   then fail (core_error (''ACCEL-PPP management command failed: '' @ hd (py_words text_of)))
                   else ret r)))"

text \<open>\<^verbatim>\<open>line.strip().strip("|").split("|")\<close>, every cell stripped.\<close>

definition strip_bars :: "string \<Rightarrow> string" where
  "strip_bars s = rev (dropWhile (\<lambda>c. c = CHR ''|'') (rev (dropWhile (\<lambda>c. c = CHR ''|'') s)))"

definition cells :: "string \<Rightarrow> string list" where
  "cells line = map py_strip (py_split CHR ''|'' (strip_bars (py_strip line)))"

definition row_of :: "string list \<Rightarrow> string list \<Rightarrow> (string, string) dict" where
  "row_of headers values = fold (\<lambda>(k, v). dput k v) (zip headers values) []"

definition cell :: "(string, string) dict \<Rightarrow> string \<Rightarrow> string" where
  "cell row k = (case dget row k of None \<Rightarrow> [] | Some v \<Rightarrow> v)"

definition number :: "(string, string) dict \<Rightarrow> string \<Rightarrow> int" where
  "number row k =
     (if cell row k = [] then 0 else case py_int_of_str (cell row k) of None \<Rightarrow> 0 | Some i \<Rightarrow> max 0 i)"

definition session_of :: "(string, string) dict \<Rightarrow> pptp_session" where
  "session_of row =
     \<lparr>ss_ifname = cell row ''ifname'', ss_username = cell row ''username'', ss_calling_sid = cell row ''calling-sid'',
      ss_assigned_ip = cell row ''ip'', ss_session_id = cell row ''sid'', ss_state = cell row ''state'',
      ss_compression = cell row ''comp'', ss_uptime = number row ''uptime-raw'', ss_rx = number row ''rx-bytes-raw'',
      ss_tx = number row ''tx-bytes-raw''\<rparr>"

definition ruler :: "string \<Rightarrow> bool" where
  "ruler line \<longleftrightarrow> py_strip (filter (\<lambda>c. c \<noteq> CHR ''+'' \<and> c \<noteq> CHR ''-'') line) = []"

definition session_row :: "string list \<Rightarrow> string \<Rightarrow> pptp_session option" where
  "session_row headers line =
     (let values = cells line; row = row_of headers values in
      if ruler line \<or> length values \<noteq> length headers \<or> list_all (\<lambda>v. v = []) values \<or> dget row ''type'' \<noteq> Some ''pptp''
      then None else Some (session_of row))"

definition parse_sessions :: "string \<Rightarrow> pptp_session list" where
  "parse_sessions output =
     (case filter (\<lambda>l. CHR ''|'' \<in> set l) (splitlines output) of
        [] \<Rightarrow> []
      | header # lines \<Rightarrow>
          filter (\<lambda>s. ss_ifname s \<noteq> [] \<and> ss_username s \<noteq> []) (List.map_filter (session_row (cells header)) lines))"

definition live_sessions :: "'o host \<Rightarrow> backend_conf \<Rightarrow> ('o, pptp_session list) bop" where
  "live_sessions H C =
     bindE (manage H C (''show sessions ifname,username,calling-sid,ip,type,comp,state,uptime-raw,sid,'' @
        ''rx-bytes-raw,tx-bytes-raw'')) (\<lambda>out. ret (parse_sessions out))"

definition reload_daemon :: "'o host \<Rightarrow> backend_conf \<Rightarrow> ('o, unit) bop" where
  "reload_daemon H C =
     bindE (getE (running H)) (\<lambda>up. whenE up (bindE (manage H C ''reload'') (\<lambda>_. ret ())))"

definition interface_char :: "char \<Rightarrow> bool" where
  "interface_char c \<longleftrightarrow> tag_char c \<or> c \<in> set ''_.:-''"

definition interface_ok :: "string \<Rightarrow> bool" where
  "interface_ok name \<longleftrightarrow> name \<noteq> [] \<and> length name \<le> 64 \<and> list_all interface_char name"

definition terminate_sessions :: "'o host \<Rightarrow> backend_conf \<Rightarrow> string \<Rightarrow> ('o, unit) bop" where
  "terminate_sessions H C aid =
     bindE (getE (running H)) (\<lambda>up.
     whenE up
       (bindE (live_sessions H C) (\<lambda>sessions.
        forE (\<lambda>s. whenE (ss_username s = aid \<and> interface_ok (ss_ifname s))
               (bindE (manage H C (''terminate if '' @ ss_ifname s @ '' hard'')) (\<lambda>_. ret ()))) sessions)))"

section \<open>The process\<close>

definition stop_process :: "'o host \<Rightarrow> ('o, unit) bop" where
  "stop_process H = bindE (getE dm_proc) (\<lambda>p. whenE p (at_host (ho_terminate H)))"

definition process_logs :: "'o host \<Rightarrow> int \<Rightarrow> 'o daemon \<Rightarrow> string list" where
  "process_logs H tail d = (if dm_proc d then ho_proc_logs H tail (dm_host d) else [])"

text \<open>One round of the loop: \<open>None\<close> is its end.\<close>

definition ready_round :: "'o host \<Rightarrow> backend_conf \<Rightarrow> ('o, string option) bop" where
  "ready_round H C =
     bindE (getE (running H)) (\<lambda>up.
     if \<not> up then
       bindE (getE (process_logs H 20)) (\<lambda>lines.
       let joined = py_join line_break lines; detail = (if joined = [] then ''no process output'' else joined) in
       fail (core_error (''ACCEL-PPP exited during startup: '' @ drop (length detail - 1000) detail)))
     else
       catchE
         (bindE (manage H C ''show stat'') (\<lambda>_.
          bindE (host_draw (ho_connect H)) (\<lambda>refused. ret refused)))
         (\<lambda>e. is_core_error e \<or> exc_type e = ''FileNotFoundError'') (\<lambda>e. ret (Some (exc_text e))))"

primrec await_ready :: "nat \<Rightarrow> 'o host \<Rightarrow> backend_conf \<Rightarrow> string \<Rightarrow> ('o, unit) bop" where
  "await_ready 0 H C reason = fail (core_error (''ACCEL-PPP did not become ready: '' @ reason))"
| "await_ready (Suc n) H C reason =
     bindE (ready_round H C) (\<lambda>refused.
     case refused of None \<Rightarrow> ret () | Some r \<Rightarrow> await_ready n H C r)"

definition wait_ready :: "'o host \<Rightarrow> backend_conf \<Rightarrow> ('o, unit) bop" where
  "wait_ready H C = await_ready (ho_ready_rounds H) H C ''management endpoint not ready''"

definition start_daemon :: "'o host \<Rightarrow> backend_conf \<Rightarrow> string \<Rightarrow> string \<Rightarrow> string \<Rightarrow> ('o, unit) bop" where
  "start_daemon H C tag subnet listen =
     seqE (bindE (getE (running H)) (\<lambda>up. liftE (check (\<not> up) ''ACCEL-PPP PPTP process is already running'')))
    (seqE (cleanup_firewall H C)
    (seqE (preflight H C listen)
    (bindE (host_draw (ho_random H)) (\<lambda>generation.
     seqE (atomic_write H (generation_path C) (generation @ line_break))
    (seqE (apply_firewall H C tag subnet)
    (seqE (modE (\<lambda>d. d\<lparr>dm_proc := True\<rparr>))
       (catchE
          (seqE (at_host (ho_spawn H [bc_executable C, ''--config'', config_path C, ''--pid'', pid_path C] (bc_work_dir C)))
             (wait_ready H C))
          is_exception
          (\<lambda>e. seqE (stop_process H) (seqE (cleanup_firewall H C) (fail e))))))))))"

definition link_index :: "'o host \<Rightarrow> string \<Rightarrow> ('o, string option) bop" where
  "link_index H name =
     bindE (run_any H [''ip'', ''-o'', ''link'', ''show'', ''dev'', name]) (\<lambda>(rc, out, err).
     ret (case digits_at out of
            None \<Rightarrow> None
          | Some d \<Rightarrow> if starts_with (drop (length d) out) '':'' then Some d else None))"

fun observe_links :: "'o host \<Rightarrow> (string, nat) dict \<Rightarrow> pptp_session list \<Rightarrow> ('o, (string, nat) dict) bop" where
  "observe_links H observed [] = ret observed"
| "observe_links H observed (s # ss) =
     bindE (link_index H (ss_ifname s)) (\<lambda>i.
     observe_links H (case i of None \<Rightarrow> observed | Some d \<Rightarrow> dput (ss_ifname s) (nat_of_digits d) observed) ss)"

fun links_left :: "'o host \<Rightarrow> (string, nat) dict \<Rightarrow> ('o, (string, nat) dict) bop" where
  "links_left H [] = ret []"
| "links_left H ((name, ifindex) # rest) =
     bindE (link_index H name) (\<lambda>i.
     bindE (links_left H rest) (\<lambda>left.
     ret (if map_option nat_of_digits i = Some ifindex then (name, ifindex) # left else left)))"

primrec await_links :: "nat \<Rightarrow> 'o host \<Rightarrow> (string, nat) dict \<Rightarrow> ('o, (string, nat) dict) bop" where
  "await_links 0 H observed = ret observed"
| "await_links (Suc n) H observed =
     (if observed = [] then ret [] else bindE (links_left H observed) (await_links n H))"

definition stop_daemon :: "'o host \<Rightarrow> backend_conf \<Rightarrow> ('o, unit) bop" where
  "stop_daemon H C =
     bindE (getE (running H)) (\<lambda>up.
     bindE (if up then catchE (bindE (live_sessions H C) (observe_links H [])) is_exception (\<lambda>_. ret []) else ret [])
       (\<lambda>observed.
     seqE (stop_process H)
    (seqE (modE (\<lambda>d. d\<lparr>dm_proc := False\<rparr>))
    (seqE (cleanup_firewall H C)
    (bindE (await_links (ho_link_rounds H) H observed) (\<lambda>left.
     seqE (liftE (check (left = []) (''ACCEL-PPP stopped but owned PPP interfaces remain: '' @
             py_repr (JList (map JStr (sort (dkeys left)))))))
    (seqE (at_host (ho_unlink_pid H)) (unlink_file (generation_path C)))))))))"

definition purge_daemon :: "'o host \<Rightarrow> backend_conf \<Rightarrow> ('o, unit) bop" where
  "purge_daemon H C =
     seqE (stop_daemon H C) (seqE (at_host (ho_remove_dir H)) (modE (\<lambda>d. d\<lparr>dm_files := []\<rparr>)))"

definition restart_daemon :: "'o host \<Rightarrow> backend_conf \<Rightarrow> string \<Rightarrow> string \<Rightarrow> string \<Rightarrow> ('o, unit) bop" where
  "restart_daemon H C tag subnet listen = seqE (stop_daemon H C) (start_daemon H C tag subnet listen)"

section \<open>The backend of the driver\<close>

definition backend_of :: "'o host \<Rightarrow> backend_conf \<Rightarrow> 'o daemon pptp_backend" where
  "backend_of H C =
     \<lparr>pb_token = (\<lambda>d. let (t, h) = ho_random H (dm_host d) in (t, d\<lparr>dm_host := h\<rparr>)),
      pb_verify = verify_installation H C, pb_secret = ensure_management_secret H C, pb_configure = configure H C,
      pb_start = start_daemon H C, pb_stop = stop_daemon H C, pb_purge = purge_daemon H C, pb_reload = reload_daemon H C,
      pb_running = getE (running H), pb_sessions = live_sessions H C, pb_metrics = ret (),
      pb_terminate = terminate_sessions H C, pb_check_subnet = Some (validate_subnet H),
      pb_logs = (\<lambda>tail. getE (process_logs H tail)),
      pb_version = runtime_version H C, pb_generation = getE (\<lambda>d. dget (dm_files d) (generation_path C)),
      pb_transaction = at_host (ho_transaction H),
      pb_now = (\<lambda>d. ho_now H (dm_host d)), pb_chap_path = chap_path C, pb_hook_path = hook_path C,
      pb_accounting_path = accounting_path C, pb_generation_path = generation_path C\<rparr>"

section \<open>The backend keeps the secrets file\<close>

lemma path_in_inject [simp]: "path_in dir a = path_in dir b \<longleftrightarrow> a = b"
  by (simp add: path_in_def)

abbreviation files_are :: "(string, string) dict \<Rightarrow> 'o daemon \<Rightarrow> bool" where
  "files_are fs d \<equiv> dm_files d = fs"

lemma keeps_files_host [keeps_intros]: "keeps (files_are fs) (at_host f)"
  by (auto simp: keeps_def at_host_def split: prod.split)

lemma keeps_files_draw [keeps_intros]: "keeps (files_are fs) (host_draw f)" "keeps (files_are fs) (host_reads g)"
  unfolding host_draw_def host_reads_def by (intro keeps_intros)+

lemma keeps_exchange [keeps_intros]:
  "(\<And>r. keeps P (f r)) \<Longrightarrow> (\<And>r. keeps P (g r)) \<Longrightarrow> keeps P h \<Longrightarrow>
   keeps P (case x of Unavailable r \<Rightarrow> f r | Too_Long \<Rightarrow> h | Answer r \<Rightarrow> g r)"
  by (cases x) simp_all

lemma keeps_files_command [keeps_intros]: "keeps (files_are fs) (manage H C c)"
  unfolding manage_def by (intro keeps_intros)

lemma keeps_files_reload: "keeps (files_are fs) (reload_daemon H C)"
  unfolding reload_daemon_def by (intro keeps_intros)

lemma keeps_files_terminate: "keeps (files_are fs) (terminate_sessions H C aid)"
  unfolding terminate_sessions_def live_sessions_def by (intro keeps_intros)

definition secrets_on_disk :: "backend_conf \<Rightarrow> 'o daemon \<Rightarrow> string option" where
  "secrets_on_disk C d = dget (dm_files d) (chap_path C)"

lemma keeps_secrets:
  fixes m :: "('o, 'a) bop"
  assumes "\<And>fs. keeps (files_are fs) m"
  shows "keeps (\<lambda>d. secrets_on_disk C d = f) m"
proof (rule keepsI)
  fix d :: "'o daemon" assume "secrets_on_disk C d = f"
  moreover have "dm_files (snd (m d)) = dm_files d" using keepsD [OF assms] by blast
  ultimately show "secrets_on_disk C (snd (m d)) = f" by (simp add: secrets_on_disk_def)
qed

lemma atomic_write_Inr: "atomic_write H path t d = (Inr u, d') \<Longrightarrow> dm_files d' = dput path t (dm_files d)"
  by (auto simp: atomic_write_def bindE_def modE_def at_host_def split: prod.splits sum.splits)

lemma configure_secrets: "configure H C config chap hook d = (Inr u, d') \<Longrightarrow> secrets_on_disk C d' = Some chap"
  unfolding configure_def
  by (elim bindE_Inr)
    (auto dest!: atomic_write_Inr simp: secrets_on_disk_def chap_path_def hook_path_def)

interpretation disk: secrets_store "backend_of H C" "secrets_on_disk C" for H C
proof unfold_locales
  fix d :: "'a daemon"
  show "secrets_on_disk C (snd (pb_token (backend_of H C) d)) = secrets_on_disk C d"
    by (simp add: backend_of_def secrets_on_disk_def split: prod.split)
qed (auto simp: backend_of_def intro: configure_secrets keeps_secrets keeps_files_reload keeps_files_terminate keeps_files_host)

end
