(* ===== verification/Pptp_Daemon.thy ===== *)
theory Pptp_Daemon
  imports Pptp_Backend
begin

text \<open>
  The PPTP driver with its backend: the secrets file on disk follows the accounts, a change is published or taken back, the firewall manifest is read back,
  and the routes of the core's own clients count as foreign.
\<close>

section \<open>The secrets file\<close>

text \<open>
  C29: The daemon knows exactly the accounts of the driver: when a command on the PPTP accounts returns, the secrets file
  on disk is the rendering of the accounts that the driver then has, whatever the host did meanwhile. An account that
  was deleted or suspended is no longer in it.
\<close>

theorem secrets_follow_accounts:
  assumes "pptp_do (backend_of H C) cmd d = (Inr (), d')" "listener_of d = Inr (Some l)"
    and "\<forall>aid. cmd = Suspend aid \<longrightarrow> dget (accounts_of d) aid \<noteq> None"
  shows "\<exists>t. render_chap_secrets (accounts_of d') = Inr t \<and> secrets_on_disk C (pp_backend (bd_self d')) = Some t"
  using disk.command_in_step [OF assms(2) _ assms(1)] assms(3) unfolding disk.in_step_def by blast

section \<open>A change is carried out or taken back\<close>

text \<open>
  The daemon has the accounts: its secrets file is their rendering, and a reload of just this file succeeded (it succeeds at
  once when no daemon runs, which then reads the file when it starts).
\<close>

definition published :: "'o host \<Rightarrow> backend_conf \<Rightarrow> 'o daemon pptp base_driver \<Rightarrow> bool" where
  "published H C d \<longleftrightarrow>
     (\<exists>t b b'. render_chap_secrets (accounts_of d) = Inr t \<and> secrets_on_disk C (pp_backend (bd_self d)) = Some t \<and>
        secrets_on_disk C b = Some t \<and> reload_daemon H C b = (Inr (), b'))"

text \<open>Publishing the accounts that the driver is left with was refused, with the error \<open>e\<close>.\<close>

definition publish_refused :: "'o host \<Rightarrow> backend_conf \<Rightarrow> core_exc \<Rightarrow> 'o daemon pptp base_driver \<Rightarrow> bool" where
  "publish_refused H C e d \<longleftrightarrow>
     (\<exists>d0. accounts_of d0 = accounts_of d \<and> publish_accounts (backend_of H C) d0 = (Inl e, d))"

lemma published_in_step: "disk.in_step H C d \<longleftrightarrow> published H C d"
proof -
  have "pb_reload (backend_of H C) = reload_daemon H C" by (simp add: backend_of_def)
  then show ?thesis unfolding disk.in_step_def published_def by simp
qed

lemma refused_publish: "disk.publish_fails H C e d \<longleftrightarrow> publish_refused H C e d"
  by (simp add: disk.publish_fails_def publish_refused_def)

text \<open>
  C27: With its inbound configured, a change of the PPTP accounts is carried out and published, or taken back. A command
  that returns leaves exactly the accounts that it asks for, in the secrets file of the daemon, which was told to read it
  (suspending an account that does not exist does nothing). A command that raises, other than by being cancelled, leaves
  the accounts from before, in memory and for the daemon: nothing had been published and the file is as it was, or the
  old accounts are published again, or just that was refused too, with the error that is raised; then the file may still
  hold the change. A cancelled command may leave the change, and not published. And what suspend and resume draw for the
  copy of a stored account (a password, a free address) stays in that account, since the copy shares its settings.
\<close>

theorem pptp_change_or_rollback:
  assumes "own_ids (accounts_of d)" "listener_of d = Inr (Some l)"
  shows "case pptp_do (backend_of H C) cmd d of
     (Inr _, d') \<Rightarrow>
       if \<exists>aid. cmd = Suspend aid \<and> dget (accounts_of d) aid = None then d' = d
       else applied d cmd (accounts_of d') \<and> published H C d'
   | (Inl e, d') \<Rightarrow>
       e = CancelledError \<and> (applied d cmd (accounts_of d') \<or> rolled_back d (copied d cmd) (accounts_of d')) \<or>
       rolled_back d (copied d cmd) (accounts_of d') \<and>
         (secrets_on_disk C (pp_backend (bd_self d')) = secrets_on_disk C (pp_backend (bd_self d)) \<or>
          published H C d' \<or> publish_refused H C e d')"
proof -
  obtain r d' where run: "pptp_do (backend_of H C) cmd d = (r, d')" by fastforce
  have accounts: "case (r, d') of
     (Inr _, d') \<Rightarrow> applied d cmd (accounts_of d')
   | (Inl e, d') \<Rightarrow> rolled_back d (copied d cmd) (accounts_of d') \<or> e = CancelledError \<and> applied d cmd (accounts_of d')"
    using accounts_changed_or_rolled_back [OF assms(1), where B = "backend_of H C" and cmd = cmd] unfolding run .
  show ?thesis
  proof (cases r)
    case (Inl e)
    from disk.command_settles [OF assms(2) run [unfolded Inl]] accounts show ?thesis
      unfolding run Inl published_in_step refused_publish by auto
  next
    case (Inr u)
    show ?thesis
    proof (cases "\<exists>aid. cmd = Suspend aid \<and> dget (accounts_of d) aid = None")
      case True
      then show ?thesis by (auto simp: pptp_suspend_def bindE_def getE_def ret_def)
    next
      case False
      have returned: "pptp_do (backend_of H C) cmd d = (Inr (), d')" using run Inr by simp
      from False disk.command_in_step [OF assms(2) _ returned] accounts show ?thesis
        unfolding run Inr published_in_step by auto
    qed
  qed
qed

section \<open>The firewall manifest\<close>

text \<open>Every command gets an answer: none times out or is missing. What it answers does not matter.\<close>

definition commands_answer :: "'o host \<Rightarrow> bool" where
  "commands_answer H \<longleftrightarrow> (\<forall>argv given h. \<exists>x h'. ho_run H argv given h = (Inr x, h'))"

abbreviation surely :: "('s \<Rightarrow> bool) \<Rightarrow> ('s, 'e, 'a) eff \<Rightarrow> ('s \<Rightarrow> bool) \<Rightarrow> bool" where
  "surely P m Q \<equiv> triple P m (\<lambda>_. Q) (\<lambda>_ _. False)"

lemma surelyD:
  assumes "surely P m Q" "P s"
  obtains x s' where "m s = (Inr x, s')" "Q s'"
  using assms by (cases "m s"; cases "fst (m s)") (auto simp: triple_def)

lemma surely_forE: "(\<And>x. x \<in> set xs \<Longrightarrow> surely P (f x) P) \<Longrightarrow> surely P (forE f xs) P"
  by (induction xs) (auto intro!: triple_basic triple_bindE)

lemma surely_run: "commands_answer H \<Longrightarrow> surely (files_are fs) (run_any H argv) (files_are fs)"
  by (auto simp: triple_def run_any_def at_host_def commands_answer_def split: prod.split sum.split)
    (metis prod.inject sum.distinct(1))

lemma surely_reads: "surely P (host_reads f) P"
  unfolding host_reads_def by (intro triple_basic)

lemma surely_remove_rules:
  assumes "commands_answer H" "rule_target_ok owner r"
  shows "surely (files_are fs) (remove_rules H owner (JObj r)) (files_are fs)"
  using assms
  by (auto simp: remove_rules_def intro!: triple_bindE [OF surely_run] surely_forE triple_basic split: prod.split)

lemma jget_sorted: "distinct (map fst d) \<Longrightarrow> jget (sort_obj d) k = jsort (jget d k)"
  by (simp add: jget_def dget_sort_obj split: option.split)

lemma field_sort_obj: "distinct (map fst d) \<Longrightarrow> jget d k = JStr s \<Longrightarrow> field (sort_obj d) k = s"
  by (cases s) (simp_all add: field_def jget_sorted jor_def)

lemma rule_resource_ok:
  assumes "(table, chain) \<in> {(''filter'', ''INPUT''), (''filter'', ''FORWARD''), (''nat'', ''POSTROUTING'')}"
    and "starts_with name '':''"
  shows "\<exists>r. jsort (rule_resource owner table chain name) = JObj r \<and> rule_target_ok owner r"
proof -
  let ?r = "[(''family'', JStr ''ip''), (''table'', JStr table), (''chain'', JStr chain), (''comment'', JStr (owner @ name))]"
  have "distinct (map fst ?r)" by simp
  note f = field_sort_obj [OF this]
  have "field (sort_obj ?r) ''family'' = ''ip''" "field (sort_obj ?r) ''table'' = table"
    "field (sort_obj ?r) ''chain'' = chain" "field (sort_obj ?r) ''comment'' = owner @ name"
    by (rule f, simp add: jget_def)+
  then have "rule_target_ok owner (sort_obj ?r)"
    using assms by (auto simp: rule_target_ok_def starts_with_iff)
  then show ?thesis by (auto simp: rule_resource_def jsort_JObj simp del: jsort.simps)
qed

lemma resources_ok:
  "x \<in> set (firewall_resources owner b) \<Longrightarrow> \<exists>r. jsort x = JObj r \<and> rule_target_ok owner r"
  by (auto simp: firewall_resources_def intro!: rule_resource_ok split: if_splits)

lemma surely_remove_resources:
  assumes "commands_answer H"
  shows "surely (files_are fs) (forE (remove_rules H owner) (map jsort (firewall_resources owner b))) (files_are fs)"
proof (rule surely_forE)
  fix v assume "v \<in> set (map jsort (firewall_resources owner b))"
  then obtain x where "x \<in> set (firewall_resources owner b)" "v = jsort x" by auto
  with resources_ok obtain r where "v = JObj r" "rule_target_ok owner r" by blast
  then show "surely (files_are fs) (remove_rules H owner v) (files_are fs)"
    by (simp add: surely_remove_rules [OF assms])
qed

lemma hex_digit_lower_hex: "n < 16 \<Longrightarrow> lower_hex (hex_digit n)"
proof -
  have "list_all (\<lambda>n. lower_hex (hex_digit n)) [0..<16]" by code_simp
  then show "n < 16 \<Longrightarrow> lower_hex (hex_digit n)" by (simp add: list_all_iff)
qed

lemma to_hex_lower_hex: "list_all lower_hex (to_hex bs)"
proof (induction bs)
  case (Cons b bs)
  have "unat b div 16 < 16" using unat_byte_less [of b] by (simp add: less_mult_imp_div_less)
  with Cons show ?case by (simp add: to_hex_def hex_of_byte_def hex_digit_lower_hex)
qed (simp add: to_hex_def)

lemma hex_name_sha: "n \<le> 64 \<Longrightarrow> hex_name prefix n (prefix @ take n (sha256_hex b))"
  using to_hex_lower_hex [of "sha256 b"]
  by (auto simp: hex_name_def Let_def sha256_hex_def list_all_iff dest: in_set_takeD)

lemma new_manifest_keys: "distinct (map fst (new_manifest tag subnet b))"
  by (simp add: new_manifest_def)

lemma new_manifest_ok: "json_ok (JObj (new_manifest tag subnet b))"
  by (auto simp: new_manifest_def firewall_resources_def rule_resource_def)

lemma manifest_of_text:
  assumes "dget (dm_files d) (manifest_path C) = Some (manifest_text (new_manifest tag subnet b))"
  shows "manifest C d = sort_obj (new_manifest tag subnet b)"
proof -
  let ?S = "\<lparr>ensure_ascii = True, item_sep = '','', key_sep = '':''\<rparr>"
  have "json_loads (json_dumps ?S (jsort (JObj (new_manifest tag subnet b))) @ line_break) =
      Some (jsort (JObj (new_manifest tag subnet b)))"
    by (rule json_loads_dumps_ws) (simp_all only: json_ok_jsort new_manifest_ok, simp_all add: style_ok_def line_break_def jws_def)
  with assms show ?thesis by (simp add: manifest_def manifest_text_def jsort_JObj del: jsort.simps)
qed

text \<open>
  C30: The firewall manifest is read back: whatever tag and subnet the rules were installed for, the next cleanup, also one
  of a new process, accepts the manifest that it finds and never refuses to remove its own rules; and it removes the
  manifest, whatever nft answers, so also when nft could not delete the rules.
\<close>

theorem firewall_manifest_is_accepted:
  assumes "commands_answer H"
    and "dget (dm_files d) (manifest_path C) = Some (manifest_text (new_manifest tag subnet input_exists))"
  shows "\<exists>d'. cleanup_firewall H C d = (Inr (), d') \<and> dm_files d' = dpop (manifest_path C) (dm_files d)"
proof -
  let ?m = "new_manifest tag subnet input_exists" and ?fs = "dm_files d" and ?owner = "firewall_owner tag"
  let ?rs = "firewall_resources ?owner input_exists"
  note get = jget_sorted [OF new_manifest_keys [of tag subnet input_exists]]
  have m: "manifest C d = sort_obj ?m" by (rule manifest_of_text [OF assms(2)])
  have "length (sort_obj ?m) = 6" by (simp add: sort_obj_def new_manifest_def)
  then have some: "sort_obj ?m \<noteq> []" by auto
  have provider: "jget (sort_obj ?m) ''provider'' = JStr ''pptp''" by (simp add: get) (simp add: new_manifest_def jget_def)
  have owner: "field (sort_obj ?m) ''nft_owner'' = ?owner"
    by (rule field_sort_obj [OF new_manifest_keys]) (simp add: new_manifest_def jget_def)
  have named: "hex_name ''zagros:pptp:'' 12 ?owner" unfolding firewall_owner_def by (rule hex_name_sha) simp
  have "jget (sort_obj ?m) ''resources'' = JList (map jsort ?rs)" by (simp add: get) (simp add: new_manifest_def jget_def)
  then have elems: "elements (jor (jget (sort_obj ?m) ''resources'') (JList (firewall_resources ?owner True))) = Inr (map jsort ?rs)"
    by (simp add: jor_def elements_def firewall_resources_def)
  have table: "field (sort_obj ?m) ''owned_input_table'' =
      (if input_exists then [] else ''zg_pptp_in_'' @ take 8 (sha256_hex (utf8_encode tag)))"
    by (rule field_sort_obj [OF new_manifest_keys]) (simp add: new_manifest_def jget_def)
  have tables: "surely (files_are ?fs) (remove_input_table H (field (sort_obj ?m) ''owned_input_table'')) (files_are ?fs)"
    unfolding table remove_input_table_def
    using hex_name_sha [of 8 "''zg_pptp_in_''" "utf8_encode tag"]
    by (auto intro!: triple_basic triple_bindE [OF surely_run] assms(1))
  note rules = surely_remove_resources [OF assms(1), of ?fs ?owner input_exists]
  have "surely (files_are ?fs) (cleanup_owned H C (sort_obj ?m)) (files_are (dpop (manifest_path C) ?fs))"
    unfolding cleanup_owned_def provider owner Let_def elems
    using named
    by (auto intro!: triple_bindE [OF surely_reads] triple_bindE [OF rules] triple_bindE [where R = "\<lambda>_. files_are ?fs"] tables
        triple_basic triple_modE simp: unlink_file_def)
  then obtain u d' where "cleanup_owned H C (sort_obj ?m) d = (Inr u, d')" "dm_files d' = dpop (manifest_path C) ?fs"
    by (rule surelyD) simp
  then show ?thesis using some by (simp add: cleanup_firewall_def m)
qed

section \<open>A concrete backend\<close>

definition quiet_host :: "unit host" where
  "quiet_host =
     \<lparr>ho_make_dir = ret (), ho_store = (\<lambda>_. ret ()), ho_sync_dir = ret (), ho_run = (\<lambda>_ _. ret (1, [], ''no such file'')), ho_which = (\<lambda>_ _. True),
      ho_exists = (\<lambda>_ _. True), ho_spawn = (\<lambda>_ _. ret ()), ho_terminate = ret (), ho_alive = (\<lambda>_. False),
      ho_pid = (\<lambda>_. False), ho_unlink_pid = ret (), ho_remove_dir = ret (), ho_proc_logs = (\<lambda>_ _. []),
      ho_exchange = (\<lambda>_ _ h. (Answer [], h)), ho_connect = (\<lambda>h. (None, h)), ho_random = (\<lambda>h. (''r4nd0m'', h)), ho_transaction = ret (),
      ho_ppp_device = (\<lambda>_. None), ho_capability = (\<lambda>_ _. True), ho_module = (\<lambda>_ h. (True, h)), ho_container = (\<lambda>_. False),
      ho_forwarding = (\<lambda>_. ''1''), ho_tcp_free = (\<lambda>_ _ _. True), ho_gre = (\<lambda>_. None), ho_ready_rounds = 5, ho_link_rounds = 5, ho_now = (\<lambda>_. 0)\<rparr>"

definition demo_conf :: backend_conf where
  "demo_conf = \<lparr>bc_executable = ''/accel-pppd'', bc_module_dir = ''/lib'', bc_work_dir = ''/work'', bc_port = 22001\<rparr>"

definition demo_daemon :: "(string, string) dict \<Rightarrow> unit daemon" where
  "demo_daemon files = \<lparr>dm_files = files, dm_proc = False, dm_host = ()\<rparr>"

theorem firewall_manifest_is_accepted_witness:
  "let d = demo_daemon [(manifest_path demo_conf, manifest_text (new_manifest ''pptp-default'' ''10.77.0.0/24'' True))]
   in commands_answer quiet_host \<and> (\<exists>d'. cleanup_firewall quiet_host demo_conf d = (Inr (), d') \<and> dm_files d' = [])"
proof -
  have answers: "commands_answer quiet_host" by (simp add: commands_answer_def quiet_host_def ret_def)
  have stored: "dget (dm_files (demo_daemon
      [(manifest_path demo_conf, manifest_text (new_manifest ''pptp-default'' ''10.77.0.0/24'' True))])) (manifest_path demo_conf) =
      Some (manifest_text (new_manifest ''pptp-default'' ''10.77.0.0/24'' True))" by (simp add: demo_daemon_def)
  show ?thesis
    using firewall_manifest_is_accepted [OF answers stored] answers by (simp add: demo_daemon_def)
qed

definition demo_core :: "unit daemon pptp base_driver" where
  "demo_core =
     \<lparr>bd_settings = demo_settings, bd_usage = Some [],
      bd_self = \<lparr>pp_backend = demo_daemon [], pp_accounts = [(''ann'', pptp_account 1 ''ann'')], pp_ledger = empty_ledger\<rparr>\<rparr>"

definition demo_emptied :: "unit daemon pptp base_driver" where
  "demo_emptied = demo_core\<lparr>bd_self := (bd_self demo_core)\<lparr>pp_accounts := []\<rparr>\<rparr>"

lemma demo_emptied_publishes:
  "\<exists>d'. publish_accounts (backend_of quiet_host demo_conf) demo_emptied = (Inr (), d') \<and> accounts_of d' = []"
proof -
  let ?B = "backend_of quiet_host demo_conf"
  let ?kept = "demo_emptied\<lparr>bd_self := (bd_self demo_emptied)\<lparr>pp_backend :=
      demo_daemon [(secret_path demo_conf, ''r4nd0m'' @ line_break)]\<rparr>\<rparr>"
  have settings: "bd_settings demo_emptied = demo_settings" "bd_settings ?kept = demo_settings"
    by (simp_all add: demo_emptied_def demo_core_def)
  have secret: "on_backend (pb_secret ?B) demo_emptied = (Inr ''r4nd0m'', ?kept)"
    by (simp add: on_backend_def backend_of_def ensure_management_secret_def stored_secret_def atomic_write_def host_draw_def
        at_host_def quiet_host_def demo_emptied_def demo_core_def demo_daemon_def bindE_def ret_def modE_def getE_def)
  obtain c where c: "render_config ?B ?kept demo_pptp_listener ''r4nd0m'' = Inr c"
    using demo_config [OF settings(2)] by blast
  have chap: "\<exists>t. render_chap_secrets (accounts_of ?kept) = Inr t"
    by (simp add: demo_emptied_def render_chap_secrets_def sorted_accounts_def)
  have "\<exists>d'. materialize ?B demo_emptied = (Inr (), d') \<and> accounts_of d' = [] \<and> \<not> dm_proc (pp_backend (bd_self d'))"
    using secret c chap demo_listener [OF settings(1)]
    by (auto simp: materialize_def bindE_def getE_def liftE_def on_backend_def backend_of_def configure_def atomic_write_def
        at_host_def quiet_host_def modE_def ret_def demo_emptied_def demo_daemon_def)
  moreover have "on_backend (pb_reload ?B) d = (Inr (), d)" if "\<not> dm_proc (pp_backend (bd_self d))" for d
    using that by (simp add: on_backend_def backend_of_def reload_daemon_def running_def quiet_host_def ret_def getE_def)
  ultimately show ?thesis
    using demo_listener [OF settings(1)]
    by (auto simp: publish_accounts_def bindE_def getE_def liftE_def)
qed

text \<open>The account that the driver has goes away with a sync of none, and the file is left with its first line.\<close>

theorem secrets_follow_accounts_witness:
  "secrets_on_disk demo_conf (pp_backend (bd_self (snd (pptp_do (backend_of quiet_host demo_conf) (Sync []) demo_core)))) =
   Some (''# Zagros-owned ACCEL-PPP secrets. Mode 0600.'' @ line_break)"
proof -
  let ?B = "backend_of quiet_host demo_conf"
  have settings: "bd_settings demo_core = demo_settings" by (simp add: demo_core_def)
  obtain d' where published: "publish_accounts ?B demo_emptied = (Inr (), d')" and none: "accounts_of d' = []"
    using demo_emptied_publishes by blast
  have run: "pptp_do ?B (Sync []) demo_core = (Inr (), d')"
    using published
    by (simp add: pptp_sync_def taken_back_def put_accounts_def modE_def bindE_def ret_def getE_def catchE_def demo_emptied_def)
  have "\<exists>t. render_chap_secrets (accounts_of d') = Inr t \<and> secrets_on_disk demo_conf (pp_backend (bd_self d')) = Some t"
    by (rule secrets_follow_accounts [OF run demo_listener [OF settings]]) simp
  with run none show ?thesis by (simp add: render_chap_secrets_def sorted_accounts_def)
qed

text \<open>
  A core with one account, on a host where the ledger is locked: the account cannot be deleted, since the ledger cannot
  forget it after it was taken out of the secrets file; it is put back, and the file holds it again.
\<close>

definition locked_host :: "unit host" where
  "locked_host = quiet_host\<lparr>ho_transaction := fail (OtherError ''OperationalError'' ''database is locked'')\<rparr>"

definition served_core :: "unit daemon pptp base_driver" where
  "served_core = demo_core\<lparr>bd_self := (bd_self demo_core)\<lparr>pp_accounts := [(''ann'', demo_stored 1 ''ann'' ''10.77.0.2'')]\<rparr>\<rparr>"

lemma locked_publishes:
  assumes "bd_settings d = demo_settings" "\<not> dm_proc (pp_backend (bd_self d))"
    and "chap_lines (sorted_accounts (accounts_of d)) = Inr rows"
  shows "\<exists>b. publish_accounts (backend_of locked_host demo_conf) d = (Inr (), d\<lparr>bd_self := (bd_self d)\<lparr>pp_backend := b\<rparr>\<rparr>) \<and>
    \<not> dm_proc b"
proof -
  let ?B = "backend_of locked_host demo_conf"
  let ?on = "\<lambda>b. d\<lparr>bd_self := (bd_self d)\<lparr>pp_backend := b\<rparr>\<rparr>"
  obtain secret b where drawn: "pb_secret ?B (pp_backend (bd_self d)) = (Inr secret, b)" and b: "\<not> dm_proc b"
    using assms(2)
    by (cases "stored_secret demo_conf (pp_backend (bd_self d)) = []")
      (auto simp: backend_of_def ensure_management_secret_def atomic_write_def host_draw_def
        at_host_def locked_host_def quiet_host_def bindE_def ret_def modE_def getE_def)
  then have secret: "on_backend (pb_secret ?B) d = (Inr secret, ?on b)" by (simp add: on_backend_def)
  have settings: "bd_settings (?on b) = demo_settings" by (simp add: assms(1))
  obtain c where c: "render_config ?B (?on b) demo_pptp_listener secret = Inr c"
    using demo_config [OF settings] by blast
  obtain t where chap: "render_chap_secrets (accounts_of d) = Inr t"
    using assms(3) by (simp add: render_chap_secrets_def)
  obtain b' where "materialize ?B d = (Inr (), ?on b')" "\<not> dm_proc b'"
    using secret b c chap demo_listener [OF assms(1)]
    by (auto simp: materialize_def bindE_def getE_def liftE_def on_backend_def backend_of_def configure_def atomic_write_def
        at_host_def locked_host_def quiet_host_def modE_def ret_def)
  moreover have "on_backend (pb_reload ?B) (?on b') = (Inr (), ?on b')" if "\<not> dm_proc b'" for b'
    using that by (simp add: on_backend_def backend_of_def reload_daemon_def running_def locked_host_def quiet_host_def
        ret_def getE_def)
  ultimately show ?thesis
    using demo_listener [OF assms(1)]
    by (auto simp: publish_accounts_def bindE_def getE_def liftE_def)
qed

lemma served_delete_fails:
  "\<exists>d'. pptp_do (backend_of locked_host demo_conf) (Delete ''ann'') served_core =
     (Inl (OtherError ''OperationalError'' ''database is locked''), d')"
proof -
  let ?B = "backend_of locked_host demo_conf"
  let ?none = "served_core\<lparr>bd_self := (bd_self served_core)\<lparr>pp_accounts := []\<rparr>\<rparr>"
  have start: "bd_settings ?none = demo_settings" "\<not> dm_proc (pp_backend (bd_self ?none))"
    "chap_lines (sorted_accounts (accounts_of ?none)) = Inr []"
    by (simp_all add: served_core_def demo_core_def demo_daemon_def sorted_accounts_def)
  from locked_publishes [OF this] obtain b where
    first: "publish_accounts ?B ?none = (Inr (), ?none\<lparr>bd_self := (bd_self ?none)\<lparr>pp_backend := b\<rparr>\<rparr>)" and b: "\<not> dm_proc b"
    by blast
  let ?gone = "?none\<lparr>bd_self := (bd_self ?none)\<lparr>pp_backend := b\<rparr>\<rparr>"
  have quiet: "on_backend (pb_terminate ?B ''ann'') ?gone = (Inr (), ?gone)"
    using b by (simp add: on_backend_def backend_of_def terminate_sessions_def running_def locked_host_def quiet_host_def
        ret_def getE_def bindE_def)
  have locked: "on_ledger ?B f ?gone = (Inl (OtherError ''OperationalError'' ''database is locked''), ?gone)"
    for f :: "ledger \<Rightarrow> unit \<times> ledger"
    by (simp add: on_ledger_def on_backend_def backend_of_def at_host_def locked_host_def fail_def bindE_def)
  let ?restored = "?gone\<lparr>bd_self := (bd_self ?gone)\<lparr>pp_accounts := [(''ann'', demo_stored 1 ''ann'' ''10.77.0.2'')]\<rparr>\<rparr>"
  have "list_all (\<lambda>a. validate_account a = Inr ()) (map snd (accounts_of ?restored))" using demo_valid by simp
  then obtain rows where "chap_lines (sorted_accounts (accounts_of ?restored)) = Inr rows" using demo_lines by blast
  with locked_publishes [of ?restored rows] b start(1) obtain d' where again: "publish_accounts ?B ?restored = (Inr (), d')"
    by auto
  show ?thesis
    using first quiet locked again
    by (simp add: pptp_delete_def served_core_def demo_core_def put_accounts_def restore_account_def bindE_def getE_def
        modE_def catchE_def fail_def is_exception_def)
qed

theorem pptp_change_or_rollback_witness:
  "\<exists>e d'. pptp_do (backend_of locked_host demo_conf) (Delete ''ann'') served_core = (Inl e, d') \<and> e \<noteq> CancelledError \<and>
     dget (accounts_of d') = dget (accounts_of served_core) \<and>
     (secrets_on_disk demo_conf (pp_backend (bd_self d')) = secrets_on_disk demo_conf (pp_backend (bd_self served_core)) \<or>
      published locked_host demo_conf d' \<or> publish_refused locked_host demo_conf e d')"
proof -
  obtain d' where run: "pptp_do (backend_of locked_host demo_conf) (Delete ''ann'') served_core =
     (Inl (OtherError ''OperationalError'' ''database is locked''), d')"
    using served_delete_fails by blast
  have "own_ids (accounts_of served_core)"
    by (simp add: own_ids_def served_core_def demo_stored_def pptp_account_def put_setting_def)
  moreover have "listener_of served_core = Inr (Some demo_pptp_listener)"
    by (rule demo_listener) (simp add: served_core_def demo_core_def)
  ultimately show ?thesis
    using pptp_change_or_rollback [where d = served_core and l = demo_pptp_listener and H = locked_host and C = demo_conf
        and cmd = "Delete ''ann''"] run
    by (simp add: rolled_back_def)
qed

text \<open>
  The daemon names its interfaces \<^verbatim>\<open>zgppp%d\<close>, but only the routes of those whose name begins with \<^verbatim>\<open>ppp\<close> are taken for its
  own. So while a client is connected the core's own subnet counts as taken, and its inbound cannot be saved again.
\<close>

theorem own_route_conflicts:
  "''ifname=zgppp%d'' \<in> set (config_lines B l secret module_dir work mport) \<and>
   route_conflict (Net4 172818432 29) ''10.77.0.2 dev zgppp0 scope link'' =
     [''PPTP subnet 10.77.0.0/29 overlaps live route 10.77.0.2/32 on zgppp0'']"
proof
  show "''ifname=zgppp%d'' \<in> set (config_lines B l secret module_dir work mport)"
    by (cases "pool_of l") (auto simp: config_lines_def)
  have words: "py_words ''10.77.0.2 dev zgppp0 scope link'' = [''10.77.0.2'', ''dev'', ''zgppp0'', ''scope'', ''link'']"
    by code_simp
  have texts: "v4_text 172818434 = ''10.77.0.2''" "v4_text 172818432 = ''10.77.0.0''" "str_of_nat 32 = ''32''"
    "str_of_nat 29 = ''29''" by (simp_all add: pptp_texts)
  have "read_net ''10.77.0.2'' = Some (V4 172818434, 32)"
    using parse_v4_text [of 172818434] texts(1) by (simp add: read_net_def)
  then have "loose_network ''10.77.0.2'' = Some (Net4 172818434 32)" by (simp add: loose_network_def)
  with words texts show "route_conflict (Net4 172818432 29) ''10.77.0.2 dev zgppp0 scope link'' =
      [''PPTP subnet 10.77.0.0/29 overlaps live route 10.77.0.2/32 on zgppp0'']"
    by (simp add: route_conflict_def Let_def nets_overlap_def net4_text_def)
qed

end
