(* ===== verification/Spec2Isabelle.thy ===== *)
theory Spec2Isabelle
  imports Node_History Cli_Props Recovery Usage Sessions Devices Compat Gcm_Props Pptp_Daemon
begin

text \<open>
  A model of the Zagros node agent (\<^verbatim>\<open>src/node_agent\<close>) and of the parts of the panel that it ships and runs
  (\<^verbatim>\<open>src/vendor/zagros/app\<close>). The agent is a process on a VPN host. Its panel pairs with it once, by a one-time token, and
  from then on commands it by signed requests: to install, start and stop cores (Xray, WireGuard and others, each behind a
  driver), to push accounts, settings, inbounds, IP bans and speed limits, and to read sessions and usage. What it must not
  forget it keeps in files, which a new process reads back.

  \<^bold>\<open>How the code is modelled.\<close>
  A method that changes state is a function to its result and the new state (\<open>Effects\<close>: \<open>eff\<close>, with \<open>bindE\<close>, \<open>catchE\<close>);
  an exception is the left part of the result, and what was changed before it stays changed. A dictionary is an
  association list in insertion order (\<open>Prelude\<close>), a string a list of Latin-1 characters, a byte string a list of \<open>8 word\<close>, an
  unbounded integer an \<open>int\<close>. A JSON file is its text, written and read by \<open>Json\<close>, so that what a new process reads back is proved and
  not assumed. The clock, random draws and each reading of the operating system are arguments (\<open>App\<close>: \<open>moment\<close>). An \<^verbatim>\<open>await\<close>
  at which other tasks may run is a boundary of steps where the code does not hold a lock over it: the health monitor
  is a probe and a later application (\<open>Manager\<close>), a job is submitted and run by separate steps (\<open>Jobs\<close>, \<open>Node_Life\<close>).

  \<^bold>\<open>The theories.\<close>
  \<^item> \<open>Prelude\<close>, \<open>Effects\<close>, \<open>Json\<close>, \<open>Bytes\<close>, \<open>Files\<close>, \<open>Clock\<close>, \<open>Sha256\<close>, \<open>Ip_Address\<close>: what the code uses of Python and its
    standard library, with round trips (printing and parsing of integers, JSON, base64, hexadecimal) that the others rest on.
  \<^item> \<open>Aes_Gcm\<close>, \<open>Gcm_Props\<close>, \<open>Cipher\<close> (\<^verbatim>\<open>app/crypto/aesgcm.py\<close>, \<^verbatim>\<open>app/persistence/cipher.py\<close>): the pure Python AES-GCM; locale
    \<open>aead_scheme\<close> is what the agent relies on, interpreted on it. The key derivation and the sealed JSON blobs.
  \<^item> \<open>Security\<close> (\<^verbatim>\<open>security.py\<close>): the identity store, the replay guard (locale \<open>replay_protection\<close>) and the signatures.
  \<^item> \<open>Core_Types\<close>, \<open>State_Store\<close>, \<open>Manager\<close>, \<open>Manager_Laws\<close>, \<open>Manager_Props\<close>, \<open>Recovery\<close> (\<^verbatim>\<open>app/cores/types.py\<close>, \<^verbatim>\<open>exceptions.py\<close>,
    \<^verbatim>\<open>registry.py\<close>, \<^verbatim>\<open>events.py\<close>, \<^verbatim>\<open>manager.py\<close>, \<^verbatim>\<open>node_agent/state.py\<close>): the core manager over its store, whose contract is the
    locale \<open>core_state_store\<close>, interpreted on the node's sealed store. A driver is a record of its operations.
  \<^item> \<open>Jobs\<close> (\<^verbatim>\<open>jobs.py\<close>): lifecycle jobs as an inductive step relation of submissions and tasks.
  \<^item> \<open>Accounts\<close>, \<open>Config\<close>, \<open>Compat\<close>, \<open>Ip_Limits\<close>, \<open>Limits\<close>, \<open>Tls\<close> (the files of these names, \<^verbatim>\<open>accounts_store.py\<close> for the first).
  \<^item> \<open>Node_Policy\<close>, \<open>Xray_Material\<close>, \<open>App\<close> (\<^verbatim>\<open>app.py\<close>): the pure helpers, the upload of TLS material, and the control plane: the state
    of the agent is the record \<open>node\<close>, every route an \<open>endpoint\<close> with its handler, \<open>respond\<close> a whole request.
  \<^item> \<open>App_Props\<close>, \<open>Node_Life\<close>, \<open>Guarantees\<close>, \<open>Node_History\<close>, \<open>Demo_Node\<close>: what holds of the whole agent. The locales \<open>core_frame\<close> and
    \<open>node_frame\<close> state once what every handler leaves alone; they are interpreted on the replay guard, the jobs and the
    audit log. \<open>node_step\<close> is a request, a job's task or a restart of the process.
  \<^item> \<open>Info_Api\<close>, \<open>Cli\<close>, \<open>Cli_Props\<close> (\<^verbatim>\<open>info_api.py\<close>, \<^verbatim>\<open>cli.py\<close>, \<^verbatim>\<open>__main__.py\<close>): the public pages and the operator's commands, which share
    the agent's files. Serving imports \<^verbatim>\<open>app.py\<close> (\<open>import_app\<close>) and hands what it opens to the server, a parameter.
  \<^item> \<open>Usage\<close>, \<open>Sessions\<close>, \<open>Devices\<close> (\<^verbatim>\<open>app/cores/stats.py\<close>, \<^verbatim>\<open>quota.py\<close>, \<^verbatim>\<open>sessions.py\<close>, \<^verbatim>\<open>devices.py\<close>): trackers, quotas and
    the session and device registries, each over its store's contract (locales \<open>quota_store\<close>, \<open>session_store\<close>, \<open>device_store\<close>).
  \<^item> \<open>Base_Driver\<close> (\<^verbatim>\<open>app/cores/base.py\<close>): the class of all drivers; \<open>driver_class_of\<close> is the record that the manager takes.
  \<^item> \<open>Ip_Network\<close>, \<open>Pptp_Ledger\<close>, \<open>Pptp_Driver\<close>, \<open>Pptp_Props\<close>, \<open>Pptp_Secrets\<close>, \<open>Pptp_Backend\<close>, \<open>Pptp_Daemon\<close>
    (\<^verbatim>\<open>app/cores/drivers/pptp/accounting.py\<close>, \<^verbatim>\<open>driver.py\<close>, \<^verbatim>\<open>backend.py\<close>): one driver in full. Its ledger stands beside the
    traffic that really passed, as runs of events; the driver works over the record \<open>pptp_backend\<close>, with triples that
    have a second postcondition, for errors; what it needs of a backend is the locale \<open>secrets_store\<close>, interpreted on the
    model of \<^verbatim>\<open>backend.py\<close>, which works over a \<open>host\<close>.

  \<^bold>\<open>What is shown.\<close>
  Authority: a command reaches its handler only with the paired panel's signature, in its time window and with a fresh
  nonce; none is carried out twice over any life of the node whose clock is not set back (a nonce comes through again only
  with a later timestamp); a paired panel that signs in time is heard; a reset
  unpairs; the public pages reveal nothing secret; no route reaches beyond the allowlist and the installed cores, no
  upload beyond its directory or without a validated pair, and no absolute path beyond the core root.
  Durability: what the node saves of a core, its settings, the accounts of a sync and the usage baselines are what a new process
  reads back; the audit log only grows.
  Lifecycle: the manager's invariant over any commands; a boot recovers every recorded core and starts the enabled ones; one unfinished job for a core; every job ends; the outcomes of
  installing, starting and uninstalling.
  A driver: a change of the PPTP accounts is carried out and published to the daemon, or taken back (unless it is cancelled,
  or publishing the old accounts is refused too); their addresses stay distinct as long as the driver chooses them; the
  daemon's secrets file follows them, its firewall manifest is read back, and the ledger counts every byte once as long
  as polls are not disturbed.
  Data: bans, limits, certificates, accounts, usage deltas, sessions and devices are computed exactly as specified; the cipher
  never leaves its ranges, opens only what was sealed, and its GHASH is the polynomial of the standard.
  Where the code does otherwise than it means to, the theorem states what it does: a restart or the \<^verbatim>\<open>info\<close> command arms a burnt
  token again, an expired nonce is accepted with a new timestamp, an address that comes with an account may be another's, relative paths are not confined, a cancelled install is not rolled back.

  \<^bold>\<open>Bounds.\<close>
  The JSON parser takes as fuel the length of its text, which its round trip shows to be enough. The loop that waits for the
  info port has the code's 200 polls; those that wait for the PPTP daemon, which end by a deadline, have as fuel the rounds that
  the host lets pass before it. Every other recursion is structural or has its measure; nothing is partial.

  \<^bold>\<open>Not modelled.\<close>
  FastAPI's routing and conversion of bodies, pydantic's coercions, uvicorn, argparse, psutil, the \<^verbatim>\<open>cryptography\<close> package, nft, tc,
  conntrack and SQLite's transactions are parameters or arguments, whose laws are named where they are assumed (\<open>x509_ok\<close>,
  \<open>nft_behaves\<close>, \<open>commands_answer\<close>); file modes and the atomicity of \<^verbatim>\<open>os.replace\<close> are left out. Characters outside
  Latin-1 are: dashes in messages are hyphens here, and text is what Latin-1 can write. JSON numbers are integers. The
  other drivers (\<^verbatim>\<open>app/cores/drivers\<close>), what a driver tells clients, the reconciliation of \<^verbatim>\<open>app/platform/bandwidth.py\<close>, the routing, outbound and policy
  packages and the generated gRPC bindings are code that runs third-party daemons or that the agent does not call; they are not
  modelled.
\<close>

end
